(* ===== verification/Prelude.thy ===== *)
theory Prelude
  imports Main "HOL-Library.Sublist"
begin

section \<open>Prelude: JavaScript strings, errors and effectful programs\<close>

text \<open>
  The vocabulary every component shares.

  \<^item> A JavaScript string is a \<^typ>\<open>string\<close> holding its UTF-8 encoding. Every
    string operation of the code that the model uses (split on an ASCII character,
    substring tests, \<open>lastIndexOf\<close> of an ASCII character and slicing there,
    concatenation) means the same on both representations. A \<open>Buffer\<close> is a
    \<^typ>\<open>string\<close> too: a list of octets.
  \<^item> A thrown value is a \<open>js_error\<close>; an effectful (async) method is a
    \<open>prog\<close>: a function from the state to an error or a result, and the new state.
  \<^item> \<open>preserves P m\<close> says that \<open>m\<close> keeps \<open>P\<close> on every path, the throwing
    ones included; \<open>no_throw m\<close> that \<open>m\<close> never rejects. Both are proved for a
    whole handler by the rules collected in \<open>pres\<close> and \<open>nothrow\<close>.
\<close>

named_theorems pres \<open>rules for preservation of a predicate by a program\<close>
named_theorems nothrow \<open>rules for programs that never reject\<close>
named_theorems prog_simps \<open>definitions of the program combinators\<close>

subsection \<open>Strings\<close>

text \<open>\<open>String.prototype.includes\<close>.\<close>

fun str_includes :: "string \<Rightarrow> string \<Rightarrow> bool" where
  "str_includes [] p = (p = [])"
| "str_includes (c # s) p = (prefix p (c # s) \<or> str_includes s p)"

lemma str_includes_iff: "str_includes s p \<longleftrightarrow> sublist p s"
  by (induction s) (auto simp: sublist_Cons_right)

text \<open>\<open>s.split(c)\<close> for a one-character separator: never the empty array.\<close>

fun split_on :: "char \<Rightarrow> string \<Rightarrow> string list" where
  "split_on c [] = [[]]"
| "split_on c (x # xs) =
     (if x = c then [] # split_on c xs
      else (case split_on c xs of [] \<Rightarrow> [[x]] | y # ys \<Rightarrow> (x # y) # ys))"

text \<open>\<open>parts.join(sep)\<close>.\<close>

fun join_with :: "string \<Rightarrow> string list \<Rightarrow> string" where
  "join_with sep [] = []"
| "join_with sep [x] = x"
| "join_with sep (x # y # xs) = x @ sep @ join_with sep (y # xs)"

lemma split_on_nonempty [simp]: "split_on c s \<noteq> []"
  by (cases s) (auto split: list.splits)

lemma join_split_on: "join_with [c] (split_on c s) = s"
proof (induction s)
  case (Cons x xs)
  then show ?case
    by (cases "split_on c xs"; cases "tl (split_on c xs)") (auto split: list.splits)
qed simp

lemma split_on_no_sep: "\<forall>p \<in> set (split_on c s). c \<notin> set p"
  by (induction s) (auto split: list.splits)

text \<open>
  \<open>trim()\<close>: ECMAScript white space and line terminators, as UTF-8 byte sequences
  (TAB, LF, VT, FF, CR, SP, NBSP, U+1680, U+2000-U+200A, U+2028, U+2029, U+202F, U+205F,
  U+3000 and the BOM).
\<close>

definition js_white_space :: "string list" where
  "js_white_space =
     map (map char_of)
       ([[9], [10], [11], [12], [13], [32], [194, 160], [225, 154, 128],
         [226, 128, 168], [226, 128, 169], [226, 128, 175], [226, 129, 159],
         [227, 128, 128], [239, 187, 191]] @
        map (\<lambda>k. [226, 128, 128 + k]) [0 ..< 11 :: nat])"

fun drop_first_prefix :: "string list \<Rightarrow> string \<Rightarrow> string option" where
  "drop_first_prefix [] s = None"
| "drop_first_prefix (w # ws) s =
     (if w \<noteq> [] \<and> prefix w s then Some (drop (length w) s) else drop_first_prefix ws s)"

lemma drop_first_prefix_shorter:
  "drop_first_prefix ws s = Some t \<Longrightarrow> length t < length s"
  by (induction ws) (auto split: if_splits simp: prefix_def)

lemma drop_first_prefix_suffix: "drop_first_prefix ws s = Some t \<Longrightarrow> suffix t s"
  by (induction ws) (auto split: if_splits simp: suffix_drop)

function strip_prefixes :: "string list \<Rightarrow> string \<Rightarrow> string" where
  "strip_prefixes ws s =
     (case drop_first_prefix ws s of None \<Rightarrow> s | Some t \<Rightarrow> strip_prefixes ws t)"
  by pat_completeness auto
termination
  by (relation "measure (\<lambda>(ws, s). length s)") (auto dest: drop_first_prefix_shorter)

declare strip_prefixes.simps [simp del]

definition trim_start :: "string \<Rightarrow> string" where
  "trim_start = strip_prefixes js_white_space"

definition trim_end :: "string \<Rightarrow> string" where
  "trim_end s = rev (strip_prefixes (map rev js_white_space) (rev s))"

definition trim :: "string \<Rightarrow> string" where
  "trim s = trim_end (trim_start s)"

lemma strip_prefixes_suffix: "suffix (strip_prefixes ws s) s"
proof (induction ws s rule: strip_prefixes.induct)
  case (1 ws s)
  show ?case
  proof (cases "drop_first_prefix ws s")
    case None
    then show ?thesis by (simp add: strip_prefixes.simps [of ws s])
  next
    case (Some t)
    then have "suffix t s" by (rule drop_first_prefix_suffix)
    with 1 [OF Some] Some show ?thesis
      by (auto simp: strip_prefixes.simps [of ws s] intro: suffix_order.trans)
  qed
qed

lemma set_trim: "set (trim s) \<subseteq> set s"
proof -
  have a: "set (strip_prefixes ws x) \<subseteq> set x" for ws x
    using strip_prefixes_suffix [of ws x] by (rule set_mono_suffix)
  show ?thesis
    using a [of "map rev js_white_space" "rev (trim_start s)"] a [of js_white_space s]
    by (auto simp: trim_def trim_end_def trim_start_def)
qed

lemma trim_empty [simp]: "trim [] = []"
proof -
  have "drop_first_prefix ws [] = None" for ws by (induction ws) auto
  then have "strip_prefixes ws [] = []" for ws by (simp add: strip_prefixes.simps [of ws "[]"])
  then show ?thesis by (simp add: trim_def trim_end_def trim_start_def)
qed

text \<open>A string that starts and ends with a visible ASCII character is not changed.\<close>

definition visible :: "char \<Rightarrow> bool" where
  "visible c \<longleftrightarrow> 32 < (of_char c :: nat) \<and> (of_char c :: nat) < 128"

lemma drop_first_prefix_none:
  "\<forall>w \<in> set ws. w \<noteq> [] \<longrightarrow> hd w \<noteq> c \<Longrightarrow> drop_first_prefix ws (c # s) = None"
  by (induction ws) (auto simp: prefix_def Cons_eq_append_conv)

lemma js_white_space_ends:
  "visible c \<Longrightarrow> w \<in> set js_white_space \<Longrightarrow> hd w \<noteq> c \<and> last w \<noteq> c"
  by (auto simp: js_white_space_def visible_def of_char_of)

lemma trim_start_visible:
  assumes "s \<noteq> []" "visible (hd s)"
  shows "trim_start s = s"
  using assms js_white_space_ends [of "hd s"]
  by (cases s) (auto simp: trim_start_def strip_prefixes.simps [of _ "_ # _"] drop_first_prefix_none)

lemma trim_visible:
  assumes "s \<noteq> []" "visible (hd s)" "visible (last s)"
  shows "trim s = s"
proof -
  note a = trim_start_visible [OF assms(1,2)]
  have "drop_first_prefix (map rev js_white_space) (last s # rev (butlast s)) = None"
    using js_white_space_ends [OF assms(3)] by (intro drop_first_prefix_none) (auto simp: hd_rev)
  then have "strip_prefixes (map rev js_white_space) (rev s) = rev s"
    using assms(1) by (subst strip_prefixes.simps) (metis append_butlast_last_id option.case(1) rev_append rev_singleton_conv append_Cons append_Nil rev.simps(2) rev_rev_ident)
  then show ?thesis by (simp add: trim_def a trim_end_def)
qed

text \<open>
  \<open>toLowerCase()\<close> on the ASCII letters. The code only searches the result for lower-case
  ASCII markers; the two non-ASCII characters whose lower case contains an ASCII letter
  (U+0130 and U+212A) give \<open>i\<close> followed by a combining dot and \<open>k\<close>: no marker of the
  code contains a \<open>k\<close>, or an \<open>i\<close> at its very end.
\<close>

definition lower_char :: "char \<Rightarrow> char" where
  "lower_char c = (if 65 \<le> (of_char c :: nat) \<and> (of_char c :: nat) \<le> 90
                   then char_of ((of_char c :: nat) + 32) else c)"

definition to_lower :: "string \<Rightarrow> string" where
  "to_lower = map lower_char"

text \<open>\<open>lastIndexOf(c)\<close>: \<open>-1\<close> when absent.\<close>

fun last_index_of :: "char \<Rightarrow> string \<Rightarrow> int" where
  "last_index_of c [] = -1"
| "last_index_of c (x # xs) =
     (let r = last_index_of c xs in if r \<ge> 0 then r + 1 else if x = c then 0 else -1)"

lemma last_index_of_bounds: "-1 \<le> last_index_of c s \<and> last_index_of c s < int (length s)"
  by (induction s) (auto simp: Let_def)

lemma last_index_of_absent: "last_index_of c s < 0 \<longleftrightarrow> c \<notin> set s"
  using last_index_of_bounds [of c] by (induction s) (auto simp: Let_def)

lemma last_index_of_split:
  "0 \<le> last_index_of c s \<Longrightarrow>
   s = take (nat (last_index_of c s)) s @ c # drop (nat (last_index_of c s) + 1) s
   \<and> c \<notin> set (drop (nat (last_index_of c s) + 1) s)"
proof (induction s)
  case (Cons x xs)
  show ?case
  proof (cases "0 \<le> last_index_of c xs")
    case True
    then have "nat (last_index_of c xs + 1) = Suc (nat (last_index_of c xs))" by simp
    with True Cons.IH show ?thesis by (simp add: Let_def)
  next
    case False
    then have "c \<notin> set xs" by (simp add: not_le last_index_of_absent)
    with False Cons.prems show ?thesis by (auto simp: Let_def split: if_splits)
  qed
qed simp

text \<open>Decimal numerals, as a template literal prints a number.\<close>

definition digit_char :: "nat \<Rightarrow> char" where
  "digit_char n = char_of (48 + n)"

fun show_nat :: "nat \<Rightarrow> string" where
  "show_nat n = (if n < 10 then [digit_char n]
                 else show_nat (n div 10) @ [digit_char (n mod 10)])"

declare show_nat.simps [simp del]

definition show_int :: "int \<Rightarrow> string" where
  "show_int i = (if i < 0 then ''-'' @ show_nat (nat (- i)) else show_nat (nat i))"

lemma digit_char_inj: "a < 10 \<Longrightarrow> b < 10 \<Longrightarrow> digit_char a = digit_char b \<Longrightarrow> a = b"
proof -
  assume a: "a < 10" "b < 10" "digit_char a = digit_char b"
  then have "(of_char (digit_char a) :: nat) = of_char (digit_char b)" by simp
  with a show "a = b" by (simp add: digit_char_def)
qed

lemma digit_char_eq_iff: "a < 10 \<Longrightarrow> b < 10 \<Longrightarrow> digit_char a = digit_char b \<longleftrightarrow> a = b"
proof -
  have e: "of_char (digit_char a) = a + 48" if "a < 10" for a :: nat
    using that by (simp add: digit_char_def)
  show "a < 10 \<Longrightarrow> b < 10 \<Longrightarrow> digit_char a = digit_char b \<longleftrightarrow> a = b"
    using e by (metis add_right_cancel)
qed

lemma show_nat_ne: "show_nat n \<noteq> []"
  by (subst show_nat.simps) simp

lemma show_nat_inj [simp]: "show_nat n = show_nat m \<longleftrightarrow> n = m"
proof (induction n arbitrary: m rule: show_nat.induct)
  case (1 n)
  show ?case
  proof (cases "n < 10 \<or> m < 10")
    case True
    then show ?thesis
      using show_nat_ne [of "n div 10"] show_nat_ne [of "m div 10"]
      by (subst show_nat.simps, subst (2) show_nat.simps) (auto simp: digit_char_eq_iff)
  next
    case False
    then have "show_nat n = show_nat m \<longleftrightarrow> n div 10 = m div 10 \<and> n mod 10 = m mod 10"
      using "1.IH" [of "m div 10"]
      by (subst show_nat.simps, subst (2) show_nat.simps) (auto simp: digit_char_eq_iff)
    also have "\<dots> \<longleftrightarrow> n = m" by (metis div_mult_mod_eq)
    finally show ?thesis .
  qed
qed

subsection \<open>Lists with keys\<close>

lemma find_append: "List.find p (xs @ ys) = (case List.find p xs of None \<Rightarrow> List.find p ys | Some x \<Rightarrow> Some x)"
  by (induction xs) simp_all

lemma find_SomeD: "List.find p xs = Some x \<Longrightarrow> x \<in> set xs \<and> p x"
  by (auto simp: find_Some_iff)

lemma key_unique: "distinct (map f xs) \<Longrightarrow> x \<in> set xs \<Longrightarrow> y \<in> set xs \<Longrightarrow> f x = f y \<Longrightarrow> x = y"
  by (simp add: distinct_map inj_on_def)

lemma find_by_key:
  "distinct (map f xs) \<Longrightarrow> x \<in> set xs \<Longrightarrow> p x \<Longrightarrow> (\<And>y. p y \<Longrightarrow> f y = f x) \<Longrightarrow> List.find p xs = Some x"
proof (induction xs)
  case (Cons a xs)
  show ?case
  proof (cases "p a")
    case True
    then have "f a = f x" by (rule Cons.prems(4))
    then have "a = x" by (intro key_unique [OF Cons.prems(1) _ Cons.prems(2)]) simp_all
    with True show ?thesis by simp
  next
    case False
    with Cons.prems(2,3) have x: "x \<in> set xs" by auto
    have "distinct (map f xs)" using Cons.prems(1) by simp
    from Cons.IH [OF this x Cons.prems(3,4)] False show ?thesis by simp
  qed
qed simp

text \<open>\<open>ORDER BY key DESC LIMIT n\<close>.\<close>

lemma newest_taken:
  fixes key :: "'a \<Rightarrow> int"
  assumes shown: "shown = take n (sort_key (\<lambda>x. - key x) xs)"
  shows "length shown \<le> n" and "sorted_wrt (\<lambda>a b. key b \<le> key a) shown" and "set shown \<subseteq> set xs"
    and "x \<in> set xs \<Longrightarrow> x \<in> set shown \<or> (length shown = n \<and> (\<forall>s \<in> set shown. key x \<le> key s))"
proof -
  define srt where "srt = sort_key (\<lambda>x. - key x) xs"
  have "sorted_wrt (\<lambda>a b. key b \<le> key a) srt"
    using sorted_sort_key [of "\<lambda>x. - key x" xs] by (simp add: sorted_map srt_def)
  then have s: "sorted_wrt (\<lambda>a b. key b \<le> key a) (take n srt @ drop n srt)" by simp
  have t: "shown = take n srt" by (simp add: shown srt_def)
  show "length shown \<le> n" by (simp add: t)
  show "sorted_wrt (\<lambda>a b. key b \<le> key a) shown" using s unfolding t sorted_wrt_append by blast
  have m: "set srt = set xs" by (simp add: srt_def)
  show "set shown \<subseteq> set xs" unfolding t m [symmetric] by (rule set_take_subset)
  assume x: "x \<in> set xs"
  show "x \<in> set shown \<or> (length shown = n \<and> (\<forall>s \<in> set shown. key x \<le> key s))"
  proof (cases "x \<in> set shown")
    case False
    have "x \<in> set (take n srt @ drop n srt)" using x m by simp
    then have d: "x \<in> set (drop n srt)" using False unfolding set_append t by blast
    then have "n < length srt" by (metis drop_all empty_iff linorder_not_le list.set(1))
    moreover have "\<forall>s \<in> set (take n srt). key x \<le> key s"
      using s d unfolding sorted_wrt_append by blast
    ultimately show ?thesis by (simp add: t)
  qed simp
qed

lemma sort_key_map: "sort_key f (map g xs) = map g (sort_key (f \<circ> g) xs)"
proof -
  have "insort_key f (g x) (map g ys) = map g (insort_key (f \<circ> g) x ys)" for x ys
    by (induction ys) auto
  then show ?thesis by (induction xs) simp_all
qed

end
