(* ===== verification/Effects.thy ===== *)
theory Effects
  imports Prelude
begin

section \<open>Effectful programs\<close>

text \<open>
  An async method of the code is a function from the state to \<open>Inl e\<close> (it rejects with
  \<open>e\<close>) or \<open>Inr x\<close> (it resolves with \<open>x\<close>), and the new state. What was written before
  a rejection stays written, as with the code's separate repository calls.
\<close>

datatype js_error =
    HttpException nat string \<comment> \<open>a Nest exception: status, message\<close>
  | QueryFailedError string string \<comment> \<open>TypeORM: the driver's code, message\<close>
  | JsError string string "string option" \<comment> \<open>any other Error: name, message, ssh2's level\<close>
  | NonError string \<comment> \<open>a thrown value that is not an Error, as \<open>String(v)\<close> prints it\<close>

type_synonym ('s, 'a) prog = "'s \<Rightarrow> (js_error + 'a) \<times> 's"

text \<open>\<open>(error as Error).message\<close>: \<open>None\<close> is \<open>undefined\<close>.\<close>

fun error_message :: "js_error \<Rightarrow> string option" where
  "error_message (HttpException _ m) = Some m"
| "error_message (QueryFailedError _ m) = Some m"
| "error_message (JsError _ m _) = Some m"
| "error_message (NonError _) = None"

text \<open>The same inside a template literal, where \<open>undefined\<close> prints as such.\<close>

definition template_message :: "js_error \<Rightarrow> string" where
  "template_message e = (case error_message e of None \<Rightarrow> ''undefined'' | Some m \<Rightarrow> m)"

definition NotFoundException :: "string \<Rightarrow> js_error" where
  "NotFoundException m = HttpException 404 m"

definition BadRequestException :: "string \<Rightarrow> js_error" where
  "BadRequestException m = HttpException 400 m"

definition ConflictException :: "string \<Rightarrow> js_error" where
  "ConflictException m = HttpException 409 m"

definition UnauthorizedException :: "string \<Rightarrow> js_error" where
  "UnauthorizedException m = HttpException 401 m"

lemmas exception_defs [simp] = NotFoundException_def BadRequestException_def
  ConflictException_def UnauthorizedException_def

subsection \<open>Combinators\<close>

definition ret :: "'a \<Rightarrow> ('s, 'a) prog" where
  "ret x s = (Inr x, s)"

definition throw :: "js_error \<Rightarrow> ('s, 'a) prog" where
  "throw e s = (Inl e, s)"

definition lift_result :: "js_error + 'a \<Rightarrow> ('s, 'a) prog" where
  "lift_result r s = (r, s)"

definition gets :: "('s \<Rightarrow> 'a) \<Rightarrow> ('s, 'a) prog" where
  "gets f s = (Inr (f s), s)"

definition bind :: "('s, 'a) prog \<Rightarrow> ('a \<Rightarrow> ('s, 'b) prog) \<Rightarrow> ('s, 'b) prog" where
  "bind m k s = (case m s of (Inl e, s') \<Rightarrow> (Inl e, s') | (Inr x, s') \<Rightarrow> k x s')"

definition andthen :: "('s, 'a) prog \<Rightarrow> ('s, 'b) prog \<Rightarrow> ('s, 'b) prog" where
  "andthen m k = bind m (\<lambda>_. k)"

text \<open>\<open>try { m } catch (error) { h(error) }\<close>.\<close>

definition try_catch :: "('s, 'a) prog \<Rightarrow> (js_error \<Rightarrow> ('s, 'a) prog) \<Rightarrow> ('s, 'a) prog" where
  "try_catch m h s = (case m s of (Inl e, s') \<Rightarrow> h e s' | (Inr x, s') \<Rightarrow> (Inr x, s'))"

definition do_when :: "bool \<Rightarrow> ('s, unit) prog \<Rightarrow> ('s, unit) prog" where
  "do_when b m = (if b then m else ret ())"

text \<open>\<open>for (const x of xs) { await f(x); }\<close>.\<close>

fun for_each :: "'a list \<Rightarrow> ('a \<Rightarrow> ('s, unit) prog) \<Rightarrow> ('s, unit) prog" where
  "for_each [] f = ret ()"
| "for_each (x # xs) f = andthen (f x) (for_each xs f)"

text \<open>The same loop pushing each result onto an array.\<close>

fun map_each :: "'a list \<Rightarrow> ('a \<Rightarrow> ('s, 'b) prog) \<Rightarrow> ('s, 'b list) prog" where
  "map_each [] f = ret []"
| "map_each (x # xs) f = bind (f x) (\<lambda>y. bind (map_each xs f) (\<lambda>ys. ret (y # ys)))"

lemmas [prog_simps] = ret_def throw_def lift_result_def gets_def bind_def andthen_def
  try_catch_def do_when_def

lemma bind_ret [simp]: "bind (ret x) k = k x"
  by (simp add: fun_eq_iff prog_simps)

lemma bind_throw [simp]: "bind (throw e) k = throw e"
  by (simp add: fun_eq_iff prog_simps)

lemma bind_assoc: "bind (bind m k) h = bind m (\<lambda>x. bind (k x) h)"
  by (simp add: fun_eq_iff prog_simps split: prod.splits sum.splits)

lemma bind_InrE:
  assumes "bind m k s = (Inr y, s')"
  obtains x u where "m s = (Inr x, u)" "k x u = (Inr y, s')"
  using assms by (auto simp: bind_def split: prod.splits sum.splits)

lemma for_each_append: "for_each (xs @ ys) f = andthen (for_each xs f) (for_each ys f)"
  by (induction xs) (simp_all add: fun_eq_iff prog_simps split: prod.splits sum.splits)

subsection \<open>Preservation\<close>

definition preserves :: "('s \<Rightarrow> bool) \<Rightarrow> ('s, 'a) prog \<Rightarrow> bool" where
  "preserves P m \<longleftrightarrow> (\<forall>s. P s \<longrightarrow> P (snd (m s)))"

lemma preservesI: "(\<And>s. P s \<Longrightarrow> P (snd (m s))) \<Longrightarrow> preserves P m"
  by (simp add: preserves_def)

lemma preservesD: "preserves P m \<Longrightarrow> P s \<Longrightarrow> P (snd (m s))"
  by (simp add: preserves_def)

lemma preservesD': "preserves P m \<Longrightarrow> P s \<Longrightarrow> m s = (r, s') \<Longrightarrow> P s'"
  by (auto simp: preserves_def)

lemma preserves_ret [pres, intro!]: "preserves P (ret x)"
  by (simp add: preserves_def prog_simps)

lemma preserves_throw [pres, intro!]: "preserves P (throw e)"
  by (simp add: preserves_def prog_simps)

lemma preserves_lift_result [pres, intro!]: "preserves P (lift_result r)"
  by (simp add: preserves_def prog_simps)

lemma preserves_gets [pres, intro!]: "preserves P (gets f)"
  by (simp add: preserves_def prog_simps)

lemma preserves_bind [pres]:
  assumes "preserves P m" and "\<And>x. preserves P (k x)"
  shows "preserves P (bind m k)"
proof (rule preservesI)
  fix s assume "P s"
  then have "P (snd (m s))" by (rule preservesD [OF assms(1)])
  then show "P (snd (bind m k s))"
    by (auto simp: bind_def preservesD [OF assms(2)] split: prod.splits sum.splits)
qed

lemma preserves_andthen [pres]:
  "preserves P m \<Longrightarrow> preserves P k \<Longrightarrow> preserves P (andthen m k)"
  unfolding andthen_def by (rule preserves_bind)

lemma preserves_try_catch [pres]:
  assumes "preserves P m" and "\<And>e. preserves P (h e)"
  shows "preserves P (try_catch m h)"
proof (rule preservesI)
  fix s assume "P s"
  then have "P (snd (m s))" by (rule preservesD [OF assms(1)])
  then show "P (snd (try_catch m h s))"
    by (auto simp: try_catch_def preservesD [OF assms(2)] split: prod.splits sum.splits)
qed

lemma preserves_do_when [pres]: "(b \<Longrightarrow> preserves P m) \<Longrightarrow> preserves P (do_when b m)"
  by (simp add: do_when_def preserves_ret)

lemma preserves_if [pres]:
  "(b \<Longrightarrow> preserves P m) \<Longrightarrow> (\<not> b \<Longrightarrow> preserves P k) \<Longrightarrow> preserves P (if b then m else k)"
  by simp

lemma preserves_option [pres]:
  "(x = None \<Longrightarrow> preserves P m) \<Longrightarrow> (\<And>y. x = Some y \<Longrightarrow> preserves P (k y)) \<Longrightarrow>
   preserves P (case x of None \<Rightarrow> m | Some y \<Rightarrow> k y)"
  by (cases x) auto

lemma preserves_for_each [pres]:
  "(\<And>x. x \<in> set xs \<Longrightarrow> preserves P (f x)) \<Longrightarrow> preserves P (for_each xs f)"
  by (induction xs) (auto intro!: preserves_andthen)

lemma preserves_map_each [pres]:
  "(\<And>x. x \<in> set xs \<Longrightarrow> preserves P (f x)) \<Longrightarrow> preserves P (map_each xs f)"
  by (induction xs) (auto intro!: preserves_bind)

text \<open>A projection of the state that a program never changes.\<close>

definition keeps :: "('s \<Rightarrow> 'v) \<Rightarrow> ('s, 'a) prog \<Rightarrow> bool" where
  "keeps f m \<longleftrightarrow> (\<forall>s. f (snd (m s)) = f s)"

lemma keeps_iff_preserves: "keeps f m \<longleftrightarrow> (\<forall>c. preserves (\<lambda>s. f s = c) m)"
  by (auto simp: keeps_def preserves_def)

lemma keepsI: "(\<And>c. preserves (\<lambda>s. f s = c) m) \<Longrightarrow> keeps f m"
  by (simp add: keeps_iff_preserves)

lemma keepsD: "keeps f m \<Longrightarrow> f (snd (m s)) = f s"
  by (simp add: keeps_def)

lemma keepsD': "keeps f m \<Longrightarrow> m s = (r, s') \<Longrightarrow> f s' = f s"
  by (metis keeps_def snd_conv)

lemma preserves_of_kept: "(\<And>c. preserves (\<lambda>s. f s = c) m) \<Longrightarrow> preserves (\<lambda>s. P (f s)) m"
  unfolding preserves_def by metis

subsection \<open>Programs that never reject\<close>

definition no_throw :: "('s, 'a) prog \<Rightarrow> bool" where
  "no_throw m \<longleftrightarrow> (\<forall>s. \<exists>x. fst (m s) = Inr x)"

lemma no_throwD: "no_throw m \<Longrightarrow> \<exists>x s'. m s = (Inr x, s')"
  by (metis no_throw_def prod.collapse)

lemma no_throw_unit: "no_throw m \<Longrightarrow> m s = (Inr (), snd (m s))"
  by (metis (full_types) no_throw_def old.unit.exhaust prod.collapse)

lemma no_throw_ret [nothrow, intro!]: "no_throw (ret x)"
  by (simp add: no_throw_def prog_simps)

lemma no_throw_gets [nothrow, intro!]: "no_throw (gets f)"
  by (simp add: no_throw_def prog_simps)

lemma no_throw_bind [nothrow]:
  assumes "no_throw m" and "\<And>x. no_throw (k x)"
  shows "no_throw (bind m k)"
  unfolding no_throw_def
proof
  fix s
  obtain x s' where "m s = (Inr x, s')" using no_throwD [OF assms(1)] by blast
  then show "\<exists>y. fst (bind m k s) = Inr y"
    using assms(2) by (simp add: bind_def no_throw_def)
qed

lemma no_throw_andthen [nothrow]: "no_throw m \<Longrightarrow> no_throw k \<Longrightarrow> no_throw (andthen m k)"
  unfolding andthen_def by (rule no_throw_bind)

lemma no_throw_try_catch [nothrow]: "(\<And>e. no_throw (h e)) \<Longrightarrow> no_throw (try_catch m h)"
  by (auto simp: no_throw_def try_catch_def split: prod.splits sum.splits)

lemma no_throw_do_when [nothrow]: "no_throw m \<Longrightarrow> no_throw (do_when b m)"
  by (simp add: do_when_def no_throw_ret)

lemma no_throw_for_each [nothrow]:
  "(\<And>x. x \<in> set xs \<Longrightarrow> no_throw (f x)) \<Longrightarrow> no_throw (for_each xs f)"
  by (induction xs) (auto intro!: no_throw_andthen)

subsection \<open>Triples\<close>

text \<open>
  \<open>triple P m Q R\<close>: from a state with \<open>P\<close>, the program either resolves with \<open>x\<close> in a state
  with \<open>Q x\<close>, or rejects with \<open>e\<close> in a state with \<open>R e\<close>.
\<close>

definition triple :: "('s \<Rightarrow> bool) \<Rightarrow> ('s, 'a) prog \<Rightarrow> ('a \<Rightarrow> 's \<Rightarrow> bool) \<Rightarrow> (js_error \<Rightarrow> 's \<Rightarrow> bool) \<Rightarrow> bool" where
  "triple P m Q R \<longleftrightarrow> (\<forall>s. P s \<longrightarrow> (case m s of (Inr x, s') \<Rightarrow> Q x s' | (Inl e, s') \<Rightarrow> R e s'))"

lemma tripleI:
  "(\<And>s x s'. P s \<Longrightarrow> m s = (Inr x, s') \<Longrightarrow> Q x s') \<Longrightarrow> (\<And>s e s'. P s \<Longrightarrow> m s = (Inl e, s') \<Longrightarrow> R e s') \<Longrightarrow>
   triple P m Q R"
  by (auto simp: triple_def split: prod.splits sum.splits)

lemma tripleD: "triple P m Q R \<Longrightarrow> P s \<Longrightarrow> m s = (Inr x, s') \<Longrightarrow> Q x s'"
  by (auto simp: triple_def split: prod.splits sum.splits)

lemma tripleD_error: "triple P m Q R \<Longrightarrow> P s \<Longrightarrow> m s = (Inl e, s') \<Longrightarrow> R e s'"
  by (auto simp: triple_def split: prod.splits sum.splits)

lemma triple_ret: "(\<And>s. P s \<Longrightarrow> Q x s) \<Longrightarrow> triple P (ret x) Q R"
  by (simp add: triple_def ret_def)

lemma triple_throw: "(\<And>s. P s \<Longrightarrow> R e s) \<Longrightarrow> triple P (throw e) Q R"
  by (simp add: triple_def throw_def)

lemma triple_lift_result:
  "(\<And>s x. P s \<Longrightarrow> r = Inr x \<Longrightarrow> Q x s) \<Longrightarrow> (\<And>s e. P s \<Longrightarrow> r = Inl e \<Longrightarrow> R e s) \<Longrightarrow> triple P (lift_result r) Q R"
  by (auto simp: triple_def lift_result_def split: sum.splits)

lemma triple_bind:
  assumes "triple P m B R" and "\<And>x. triple (B x) (k x) Q R"
  shows "triple P (bind m k) Q R"
proof (rule tripleI)
  fix s y s' assume s: "P s" and run: "bind m k s = (Inr y, s')"
  then obtain x u where "m s = (Inr x, u)" "k x u = (Inr y, s')"
    by (auto simp: bind_def split: prod.splits sum.splits)
  then show "Q y s'" using tripleD [OF assms(1) s] tripleD [OF assms(2)] by blast
next
  fix s e s' assume s: "P s" and run: "bind m k s = (Inl e, s')"
  then consider "m s = (Inl e, s')" | x u where "m s = (Inr x, u)" "k x u = (Inl e, s')"
    by (auto simp: bind_def split: prod.splits sum.splits)
  then show "R e s'"
    by cases (use tripleD_error [OF assms(1) s] tripleD [OF assms(1) s] tripleD_error [OF assms(2)] in blast)+
qed

lemma triple_andthen: "triple P m (\<lambda>_. B) R \<Longrightarrow> triple B k Q R \<Longrightarrow> triple P (andthen m k) Q R"
  unfolding andthen_def by (rule triple_bind)

lemma triple_try_catch:
  assumes "triple P m Q B" and "\<And>e. triple (B e) (h e) Q R"
  shows "triple P (try_catch m h) Q R"
proof (rule tripleI)
  fix s y s' assume s: "P s" and run: "try_catch m h s = (Inr y, s')"
  then consider "m s = (Inr y, s')" | e u where "m s = (Inl e, u)" "h e u = (Inr y, s')"
    by (auto simp: try_catch_def split: prod.splits sum.splits)
  then show "Q y s'"
    by cases (use tripleD [OF assms(1) s] tripleD_error [OF assms(1) s] tripleD [OF assms(2)] in blast)+
next
  fix s e s' assume s: "P s" and run: "try_catch m h s = (Inl e, s')"
  then obtain e' u where "m s = (Inl e', u)" "h e' u = (Inl e, s')"
    by (auto simp: try_catch_def split: prod.splits sum.splits)
  then show "R e s'" using tripleD_error [OF assms(1) s] tripleD_error [OF assms(2)] by blast
qed

lemma triple_if:
  "(b \<Longrightarrow> triple P m Q R) \<Longrightarrow> (\<not> b \<Longrightarrow> triple P k Q R) \<Longrightarrow> triple P (if b then m else k) Q R"
  by simp

lemma triple_option:
  "(x = None \<Longrightarrow> triple P m Q R) \<Longrightarrow> (\<And>y. x = Some y \<Longrightarrow> triple P (k y) Q R) \<Longrightarrow>
   triple P (case x of None \<Rightarrow> m | Some y \<Rightarrow> k y) Q R"
  by (cases x) auto

lemma triple_sum:
  "(\<And>e. x = Inl e \<Longrightarrow> triple P (m e) Q R) \<Longrightarrow> (\<And>y. x = Inr y \<Longrightarrow> triple P (k y) Q R) \<Longrightarrow>
   triple P (case x of Inl e \<Rightarrow> m e | Inr y \<Rightarrow> k y) Q R"
  by (cases x) auto

lemma triple_weaken:
  "triple P' m Q' R' \<Longrightarrow> (\<And>s. P s \<Longrightarrow> P' s) \<Longrightarrow> (\<And>x s. Q' x s \<Longrightarrow> Q x s) \<Longrightarrow> (\<And>e s. R' e s \<Longrightarrow> R e s) \<Longrightarrow>
   triple P m Q R"
  by (fastforce simp: triple_def split: prod.splits sum.splits)

lemma triple_pre: "(\<And>s. P s \<Longrightarrow> F) \<Longrightarrow> (F \<Longrightarrow> triple P m Q R) \<Longrightarrow> triple P m Q R"
  by (auto simp: triple_def)

lemma triple_preserves: "preserves P m \<Longrightarrow> triple P m (\<lambda>_. P) (\<lambda>_. P)"
  by (auto simp: triple_def dest: preservesD split: prod.splits sum.splits)

lemma triple_frame:
  "triple P m Q R \<Longrightarrow> preserves K m \<Longrightarrow>
   triple (\<lambda>s. P s \<and> K s) m (\<lambda>x s. Q x s \<and> K s) (\<lambda>e s. R e s \<and> K s)"
  by (rule tripleI) (auto dest: tripleD tripleD_error preservesD')

text \<open>\<open>try { r = await m } catch (error) { ... }\<close> with a handler that leaves the function.\<close>

definition attempt :: "('s, 'a) prog \<Rightarrow> ('s, js_error + 'a) prog" where
  "attempt m s = (case m s of (r, s') \<Rightarrow> (Inr r, s'))"

lemma preserves_attempt [pres]: "preserves P m \<Longrightarrow> preserves P (attempt m)"
  by (auto simp: preserves_def attempt_def split: prod.splits)

lemma no_throw_attempt [nothrow]: "no_throw (attempt m)"
  by (auto simp: no_throw_def attempt_def split: prod.splits)

lemma preserves_sum [pres]:
  "(\<And>e. x = Inl e \<Longrightarrow> preserves P (m e)) \<Longrightarrow> (\<And>y. x = Inr y \<Longrightarrow> preserves P (k y)) \<Longrightarrow>
   preserves P (case x of Inl e \<Rightarrow> m e | Inr y \<Rightarrow> k y)"
  by (cases x) auto

subsection \<open>Interface: an isolated side effect\<close>

text \<open>
  What a caller relies on when it fires a notification in the middle of its own work: the
  call always resolves, and it leaves the caller's view of the state as it was. The caller's
  result and view are then the same with the call and without it.
\<close>

locale isolated_effect =
  fixes effect :: "'i \<Rightarrow> ('s, unit) prog"
    and view :: "'s \<Rightarrow> 'v"
  assumes effect_resolves: "no_throw (effect i)"
    and effect_keeps_view: "keeps view (effect i)"
begin

lemma effect_then: "andthen (effect i) k s = k (snd (effect i s))"
proof -
  obtain u s' where "effect i s = (Inr u, s')" using no_throwD [OF effect_resolves] by blast
  then show ?thesis by (simp add: prog_simps)
qed

lemma effect_last: "fst (andthen m (effect i) s) = (case fst (m s) of Inl e \<Rightarrow> Inl e | Inr _ \<Rightarrow> Inr ())"
proof (cases "m s")
  case (Pair r s')
  obtain u s'' where "effect i s' = (Inr u, s'')" using no_throwD [OF effect_resolves] by blast
  with Pair show ?thesis by (cases r) (simp_all add: prog_simps)
qed

lemma view_then: "view (snd (andthen m (effect i) s)) = view (snd (m s))"
  using keepsD [OF effect_keeps_view]
  by (simp add: prog_simps split: prod.splits sum.splits)

lemma effects_keep_view: "keeps view (for_each ins effect)"
proof (induction ins)
  case (Cons i ins)
  then show ?case
    by (simp add: keeps_def effect_then keepsD [OF effect_keeps_view])
qed (simp add: keeps_def prog_simps)

end

end
