(* ===== verification/Json.thy ===== *)
theory Json
  imports Prelude
begin

section \<open>JSON.parse and JSON.stringify\<close>

text \<open>
  The part of the JavaScript standard library the code uses on configuration blobs and on
  Docker's output. A number is kept as its literal: no value of the code is computed from
  one. An object is the list of its own properties in creation order, without duplicates;
  a repeated key overwrites the value and keeps the position, as in JavaScript.

  The reader is recursive over a fuel argument. \<open>json_parse\<close> gives it twice the length of
  the text, and \<open>p_value_fuel\<close> shows that more never changes the result, so the fuel is
  not a restriction. \<open>json_roundtrip\<close> is the round trip on well-formed values.
\<close>

datatype json =
    JNull
  | JBool bool
  | JNum string
  | JStr string
  | JArr "json list"
  | JObj "(string \<times> json) list"

subsection \<open>Objects\<close>

fun obj_put :: "string \<Rightarrow> 'v \<Rightarrow> (string \<times> 'v) list \<Rightarrow> (string \<times> 'v) list" where
  "obj_put k v [] = [(k, v)]"
| "obj_put k v ((k', v') # kvs) =
     (if k = k' then (k, v) # kvs else (k', v') # obj_put k v kvs)"

definition obj_of :: "(string \<times> 'v) list \<Rightarrow> (string \<times> 'v) list" where
  "obj_of kvs = fold (\<lambda>(k, v). obj_put k v) kvs []"

lemma map_of_obj_put: "map_of (obj_put k v kvs) = (map_of kvs)(k \<mapsto> v)"
  by (induction kvs) auto

lemma obj_put_new: "k \<notin> fst ` set kvs \<Longrightarrow> obj_put k v kvs = kvs @ [(k, v)]"
  by (induction kvs) auto

lemma fold_obj_put_distinct:
  "distinct (map fst kvs) \<Longrightarrow> fst ` set kvs \<inter> fst ` set acc = {} \<Longrightarrow>
   fold (\<lambda>(k, v). obj_put k v) kvs acc = acc @ kvs"
proof (induction kvs arbitrary: acc)
  case (Cons kv kvs)
  obtain k v where [simp]: "kv = (k, v)" by force
  from Cons.prems have "obj_put k v acc = acc @ [(k, v)]"
    by (intro obj_put_new) auto
  with Cons show ?case by (auto simp: image_iff)
qed simp

lemma obj_of_distinct: "distinct (map fst kvs) \<Longrightarrow> obj_of kvs = kvs"
  by (simp add: obj_of_def fold_obj_put_distinct)

subsection \<open>Lexical elements\<close>

abbreviation dquote :: char where "dquote \<equiv> CHR 0x22"
abbreviation backslash :: char where "backslash \<equiv> CHR 0x5C"

definition json_ws :: "char \<Rightarrow> bool" where
  "json_ws c \<longleftrightarrow> c = CHR 0x20 \<or> c = CHR 0x09 \<or> c = CHR 0x0A \<or> c = CHR 0x0D"

definition skip_ws :: "string \<Rightarrow> string" where
  "skip_ws = dropWhile json_ws"

definition is_digit :: "char \<Rightarrow> bool" where
  "is_digit c \<longleftrightarrow> 48 \<le> (of_char c :: nat) \<and> (of_char c :: nat) \<le> 57"

definition hex_val :: "char \<Rightarrow> nat option" where
  "hex_val c = (let n = (of_char c :: nat) in
     if 48 \<le> n \<and> n \<le> 57 then Some (n - 48)
     else if 65 \<le> n \<and> n \<le> 70 then Some (n - 55)
     else if 97 \<le> n \<and> n \<le> 102 then Some (n - 87) else None)"

definition hex4 :: "char \<Rightarrow> char \<Rightarrow> char \<Rightarrow> char \<Rightarrow> nat option" where
  "hex4 a b c d = (case (hex_val a, hex_val b, hex_val c, hex_val d) of
     (Some i, Some j, Some k, Some l) \<Rightarrow> Some (((i * 16 + j) * 16 + k) * 16 + l)
   | _ \<Rightarrow> None)"

text \<open>UTF-8 encoding of a code point.\<close>

definition utf8 :: "nat \<Rightarrow> string" where
  "utf8 n = map char_of (
     if n < 128 then [n]
     else if n < 2048 then [192 + n div 64, 128 + n mod 64]
     else if n < 65536 then [224 + n div 4096, 128 + n div 64 mod 64, 128 + n mod 64]
     else [240 + n div 262144, 128 + n div 4096 mod 64, 128 + n div 64 mod 64, 128 + n mod 64])"

definition simple_escape :: "char \<Rightarrow> char option" where
  "simple_escape e =
    (if e = dquote \<or> e = backslash \<or> e = CHR ''/'' then Some e
     else if e = CHR ''b'' then Some (CHR 0x08) else if e = CHR ''f'' then Some (CHR 0x0C)
     else if e = CHR ''n'' then Some (CHR 0x0A) else if e = CHR ''r'' then Some (CHR 0x0D)
     else if e = CHR ''t'' then Some (CHR 0x09) else None)"

text \<open>
  The escape sequence after a backslash: the characters it stands for and the rest. A
  \<open>u\<close> escape of a high surrogate followed by one of a low surrogate is one code point.
\<close>

definition unicode_escape :: "string \<Rightarrow> (nat \<times> string) option" where
  "unicode_escape t = (case t of
     a # b # c # d # t1 \<Rightarrow> (case hex4 a b c d of None \<Rightarrow> None | Some n \<Rightarrow> Some (n, t1))
   | _ \<Rightarrow> None)"

definition low_surrogate :: "string \<Rightarrow> (nat \<times> string) option" where
  "low_surrogate t = (case t of
     b # u # t1 \<Rightarrow>
       if b = backslash \<and> u = CHR ''u'' then
         (case unicode_escape t1 of
            Some (m, t2) \<Rightarrow> if 56320 \<le> m \<and> m < 57344 then Some (m, t2) else None
          | None \<Rightarrow> None)
       else None
   | _ \<Rightarrow> None)"

definition escape_seq :: "string \<Rightarrow> (string \<times> string) option" where
  "escape_seq s = (case s of
     [] \<Rightarrow> None
   | e # t \<Rightarrow>
     if e = CHR ''u'' then
       (case unicode_escape t of
          None \<Rightarrow> None
        | Some (n, t1) \<Rightarrow>
          (case (if 55296 \<le> n \<and> n < 56320 then low_surrogate t1 else None) of
             None \<Rightarrow> Some (utf8 n, t1)
           | Some (m, t2) \<Rightarrow> Some (utf8 (65536 + (n - 55296) * 1024 + (m - 56320)), t2)))
     else (case simple_escape e of None \<Rightarrow> None | Some ch \<Rightarrow> Some ([ch], t)))"

lemma unicode_escape_consumes: "unicode_escape t = Some (n, r) \<Longrightarrow> length r < length t"
  by (auto simp: unicode_escape_def split: list.splits option.splits)

lemma low_surrogate_consumes: "low_surrogate t = Some (n, r) \<Longrightarrow> length r < length t"
  by (auto simp: low_surrogate_def dest!: unicode_escape_consumes
      split: list.splits option.splits if_splits)

lemma escape_seq_consumes: "escape_seq s = Some (x, r) \<Longrightarrow> length r < length s"
  by (auto simp: escape_seq_def dest!: unicode_escape_consumes low_surrogate_consumes
      split: list.splits option.splits if_splits)

text \<open>The characters of a string literal up to its closing quote.\<close>

function (sequential) p_str :: "string \<Rightarrow> (string \<times> string) option" where
  "p_str [] = None"
| "p_str (c # s) =
    (if c = dquote then Some ([], s)
     else if c = backslash then
       (case escape_seq s of
          None \<Rightarrow> None
        | Some (x, t) \<Rightarrow> map_option (\<lambda>(y, r). (x @ y, r)) (p_str t))
     else if (of_char c :: nat) < 32 then None
     else map_option (\<lambda>(x, r). (c # x, r)) (p_str s))"
  by pat_completeness auto
termination
  by (relation "measure length") (auto dest: escape_seq_consumes)

text \<open>
  A number literal is followed by white space, a separator or the end, so it is the longest
  run of characters a number can hold, and that run must be a number.
\<close>

definition num_char :: "char \<Rightarrow> bool" where
  "num_char c \<longleftrightarrow> is_digit c \<or> c \<in> set ''+-.eE''"

definition strip_char :: "string \<Rightarrow> string \<Rightarrow> string" where
  "strip_char cs s = (case s of c # t \<Rightarrow> if c \<in> set cs then t else s | [] \<Rightarrow> [])"

definition valid_exp :: "string \<Rightarrow> bool" where
  "valid_exp s = (case s of [] \<Rightarrow> True
     | c # t \<Rightarrow> c \<in> set ''eE'' \<and> strip_char ''+-'' t \<noteq> [] \<and> list_all is_digit (strip_char ''+-'' t))"

definition valid_frac :: "string \<Rightarrow> bool" where
  "valid_frac s = (case s of c # t \<Rightarrow>
       if c = CHR ''.'' then takeWhile is_digit t \<noteq> [] \<and> valid_exp (dropWhile is_digit t)
       else valid_exp s
     | [] \<Rightarrow> True)"

definition valid_num :: "string \<Rightarrow> bool" where
  "valid_num l = (let s = strip_char ''-'' l; ds = takeWhile is_digit s in
     ds \<noteq> [] \<and> (hd ds = CHR ''0'' \<longrightarrow> length ds = 1) \<and> valid_frac (dropWhile is_digit s))"

definition p_num :: "string \<Rightarrow> (string \<times> string) option" where
  "p_num s = (let l = takeWhile num_char s in
     if valid_num l then Some (l, dropWhile num_char s) else None)"

subsection \<open>The reader\<close>

text \<open>A value that is not a container.\<close>

definition p_scalar :: "string \<Rightarrow> (json \<times> string) option" where
  "p_scalar s =
    (if prefix [dquote] s then map_option (\<lambda>(x, r). (JStr x, r)) (p_str (drop 1 s))
     else if prefix ''null'' s then Some (JNull, drop 4 s)
     else if prefix ''true'' s then Some (JBool True, drop 4 s)
     else if prefix ''false'' s then Some (JBool False, drop 5 s)
     else map_option (\<lambda>(l, r). (JNum l, r)) (p_num s))"

text \<open>After an opening bracket: the closing one, or the items.\<close>

definition bracketed :: "char \<Rightarrow> (string \<Rightarrow> ('a list \<times> string) option) \<Rightarrow> string \<Rightarrow> ('a list \<times> string) option" where
  "bracketed close items t =
    (case skip_ws t of
       [] \<Rightarrow> None
     | d # u \<Rightarrow> if d = close then Some ([], u) else items (d # u))"

text \<open>After an item: a comma and more items, or the closing bracket.\<close>

definition after_item :: "char \<Rightarrow> (string \<Rightarrow> ('a list \<times> string) option) \<Rightarrow> 'a \<Rightarrow> string \<Rightarrow> ('a list \<times> string) option" where
  "after_item close items v r =
    (case skip_ws r of
       [] \<Rightarrow> None
     | c # t \<Rightarrow> if c = CHR '','' then map_option (\<lambda>(vs, q). (v # vs, q)) (items t)
                else if c = close then Some ([v], t) else None)"

text \<open>A member's key and its colon.\<close>

definition p_key :: "string \<Rightarrow> (string \<times> string) option" where
  "p_key s =
    (case skip_ws s of
       [] \<Rightarrow> None
     | d # t \<Rightarrow> if d \<noteq> dquote then None else
       (case p_str t of
          None \<Rightarrow> None
        | Some (k, r) \<Rightarrow>
          (case skip_ws r of
             [] \<Rightarrow> None
           | c # u \<Rightarrow> if c = CHR '':'' then Some (k, u) else None)))"

fun p_value :: "nat \<Rightarrow> string \<Rightarrow> (json \<times> string) option"
and p_elems :: "nat \<Rightarrow> string \<Rightarrow> (json list \<times> string) option"
and p_members :: "nat \<Rightarrow> string \<Rightarrow> ((string \<times> json) list \<times> string) option" where
  "p_value 0 s = None"
| "p_value (Suc n) s =
    (case skip_ws s of
       [] \<Rightarrow> None
     | c # t \<Rightarrow>
       if c = CHR ''{'' then
         map_option (\<lambda>(kvs, r). (JObj (obj_of kvs), r)) (bracketed (CHR ''}'') (p_members n) t)
       else if c = CHR ''['' then
         map_option (\<lambda>(vs, r). (JArr vs, r)) (bracketed (CHR '']'') (p_elems n) t)
       else p_scalar (c # t))"
| "p_elems 0 s = None"
| "p_elems (Suc n) s =
    (case p_value n s of
       None \<Rightarrow> None
     | Some (v, r) \<Rightarrow> after_item (CHR '']'') (p_elems n) v r)"
| "p_members 0 s = None"
| "p_members (Suc n) s =
    (case p_key s of
       None \<Rightarrow> None
     | Some (k, u) \<Rightarrow>
       (case p_value n u of
          None \<Rightarrow> None
        | Some (v, r) \<Rightarrow> after_item (CHR ''}'') (p_members n) (k, v) r))"

definition json_parse :: "string \<Rightarrow> json option" where
  "json_parse s = (case p_value (2 * length s) s of
     None \<Rightarrow> None
   | Some (v, r) \<Rightarrow> if skip_ws r = [] then Some v else None)"

subsection \<open>The printer\<close>

definition hex_digit :: "nat \<Rightarrow> char" where
  "hex_digit n = (if n < 10 then char_of (48 + n) else char_of (87 + n))"

definition escape_char :: "char \<Rightarrow> string" where
  "escape_char c =
    (if c = dquote \<or> c = backslash then [backslash, c]
     else if c = CHR 0x08 then [backslash, CHR ''b'']
     else if c = CHR 0x0C then [backslash, CHR ''f'']
     else if c = CHR 0x0A then [backslash, CHR ''n'']
     else if c = CHR 0x0D then [backslash, CHR ''r'']
     else if c = CHR 0x09 then [backslash, CHR ''t'']
     else if (of_char c :: nat) < 32 then
       [backslash, CHR ''u'', CHR ''0'', CHR ''0'',
        hex_digit (of_char c div 16), hex_digit (of_char c mod 16)]
     else [c])"

definition quote_string :: "string \<Rightarrow> string" where
  "quote_string s = dquote # concat (map escape_char s) @ [dquote]"

fun json_stringify :: "json \<Rightarrow> string" where
  "json_stringify JNull = ''null''"
| "json_stringify (JBool b) = (if b then ''true'' else ''false'')"
| "json_stringify (JNum l) = l"
| "json_stringify (JStr s) = quote_string s"
| "json_stringify (JArr vs) = ''['' @ join_with '','' (map json_stringify vs) @ '']''"
| "json_stringify (JObj kvs) =
     CHR ''{'' # join_with '','' (map (\<lambda>(k, v). quote_string k @ '':'' @ json_stringify v) kvs) @ [CHR ''}'']"

fun json_wf :: "json \<Rightarrow> bool" where
  "json_wf (JNum l) = (valid_num l \<and> list_all num_char l)"
| "json_wf (JArr vs) = (\<forall>v \<in> set vs. json_wf v)"
| "json_wf (JObj kvs) = (distinct (map fst kvs) \<and> (\<forall>kv \<in> set kvs. json_wf (snd kv)))"
| "json_wf _ = True"

subsection \<open>The fuel is enough\<close>

lemma length_skip_ws: "length (skip_ws s) \<le> length s"
  by (simp add: skip_ws_def length_dropWhile_le)

lemma skip_ws_Cons: "skip_ws s = c # t \<Longrightarrow> length t < length s"
  using length_skip_ws [of s] by simp

lemma p_str_consumes: "p_str s = Some (x, r) \<Longrightarrow> length r < length s"
proof (induction s arbitrary: x r rule: p_str.induct)
  case (2 c s)
  show ?case
  proof (cases "c = dquote")
    case False
    show ?thesis
    proof (cases "c = backslash")
      case True
      with False "2.prems" obtain z t y where t: "escape_seq s = Some (z, t)" "p_str t = Some (y, r)"
        by (auto split: option.splits)
      then have "length r < length t" using "2.IH"(1) [OF False True] by blast
      with escape_seq_consumes [OF t(1)] show ?thesis by simp
    next
      case not_bs: False
      with False "2.prems" obtain y where "\<not> of_char c < (32 :: nat)" "p_str s = Some (y, r)"
        by (auto split: if_splits)
      then show ?thesis using "2.IH"(2) [OF False not_bs] by force
    qed
  qed (use "2.prems" in simp)
qed simp

lemma p_num_consumes: "p_num s = Some (l, r) \<Longrightarrow> length r < length s"
proof -
  assume a: "p_num s = Some (l, r)"
  then have "valid_num l" and l: "l = takeWhile num_char s" "r = dropWhile num_char s"
    by (auto simp: p_num_def Let_def split: if_splits)
  then have "l \<noteq> []" by (auto simp: valid_num_def strip_char_def Let_def)
  moreover have "length s = length l + length r"
    by (simp only: l length_append [symmetric] takeWhile_dropWhile_id)
  ultimately show ?thesis by simp
qed

lemma p_scalar_consumes: "p_scalar s = Some (v, r) \<Longrightarrow> length r < length s"
  by (cases s) (auto simp: p_scalar_def dest!: p_str_consumes p_num_consumes split: if_splits)

lemma bracketed_consumes:
  assumes "\<And>s x r. items s = Some (x, r) \<Longrightarrow> length r < length s"
    and "bracketed close items t = Some (x, r)"
  shows "length r < length t"
proof -
  obtain d u where du: "skip_ws t = d # u" using assms(2)
    by (auto simp: bracketed_def split: list.splits)
  from skip_ws_Cons [OF du] assms(1) [of "d # u" x r] assms(2) du show ?thesis
    by (auto simp: bracketed_def split: if_splits)
qed

lemma after_item_consumes:
  assumes "\<And>s x r. items s = Some (x, r) \<Longrightarrow> length r < length s"
    and "after_item close items v t = Some (x, r)"
  shows "length r < length t"
proof -
  obtain c u where cu: "skip_ws t = c # u" using assms(2)
    by (auto simp: after_item_def split: list.splits)
  from skip_ws_Cons [OF cu] assms(2) cu show ?thesis
    by (auto simp: after_item_def dest!: assms(1) split: if_splits)
qed

lemma p_key_consumes: "p_key s = Some (k, u) \<Longrightarrow> length u < length s"
  by (auto simp: p_key_def dest!: skip_ws_Cons p_str_consumes split: list.splits if_splits option.splits)

lemma p_consumes:
  "\<And>s v r. p_value n s = Some (v, r) \<Longrightarrow> length r < length s"
  "\<And>s vs r. p_elems n s = Some (vs, r) \<Longrightarrow> length r < length s"
  "\<And>s kvs r. p_members n s = Some (kvs, r) \<Longrightarrow> length r < length s"
proof (induction n)
  case (Suc n)
  {
    fix s v r assume a: "p_value (Suc n) s = Some (v, r)"
    then obtain c t where ct: "skip_ws s = c # t" by (auto split: list.splits)
    have "length r < length (c # t)" using a ct bracketed_consumes [OF Suc(2)] bracketed_consumes [OF Suc(3)]
      by (fastforce dest: p_scalar_consumes split: if_splits)
    with length_skip_ws [of s] ct show "length r < length s" by simp
  next
    fix s vs r assume "p_elems (Suc n) s = Some (vs, r)"
    then show "length r < length s"
      using after_item_consumes [where items = "p_elems n", OF Suc(2)]
      by (force dest: Suc(1) split: option.splits)
  next
    fix s kvs r assume "p_members (Suc n) s = Some (kvs, r)"
    then show "length r < length s"
      using after_item_consumes [where items = "p_members n", OF Suc(3)]
      by (force dest: Suc(1) p_key_consumes split: option.splits)
  }
qed simp_all

lemma bracketed_cong:
  assumes "\<And>u. length u \<le> length t \<Longrightarrow> f u = g u"
  shows "bracketed close f t = bracketed close g t"
  using length_skip_ws [of t] assms by (auto simp: bracketed_def split: list.splits)

lemma after_item_cong:
  assumes "\<And>u. length u < length r \<Longrightarrow> f u = g u"
  shows "after_item close f v r = after_item close g v r"
  using skip_ws_Cons [of r] assms by (auto simp: after_item_def split: list.splits)

lemma p_value_fuel:
  "\<And>s m. 2 * length s \<le> n \<Longrightarrow> 2 * length s \<le> m \<Longrightarrow> p_value n s = p_value m s"
  "\<And>s m. 2 * length s < n \<Longrightarrow> 2 * length s < m \<Longrightarrow> p_elems n s = p_elems m s"
  "\<And>s m. 2 * length s < n \<Longrightarrow> 2 * length s < m \<Longrightarrow> p_members n s = p_members m s"
proof (induction n)
  case 0
  {
    fix s :: string and m :: nat assume "2 * length s \<le> 0"
    then show "p_value 0 s = p_value m s" by (cases m) (auto simp: skip_ws_def)
  next
    fix s :: string and m :: nat assume "2 * length s < 0"
    then show "p_elems 0 s = p_elems m s" "p_members 0 s = p_members m s" by simp_all
  }
next
  case (Suc n)
  {
    fix s :: string and m :: nat assume a: "2 * length s \<le> Suc n" "2 * length s \<le> m"
    show "p_value (Suc n) s = p_value m s"
    proof (cases m)
      case 0
      with a show ?thesis by (auto simp: skip_ws_def)
    next
      case (Suc m')
      show ?thesis
      proof (cases "skip_ws s")
        case (Cons c t)
        have t: "length t < length s" by (rule skip_ws_Cons [OF Cons])
        have "bracketed (CHR ''}'') (p_members n) t = bracketed (CHR ''}'') (p_members m') t"
          using Suc.IH(3) t a Suc by (intro bracketed_cong) auto
        moreover have "bracketed (CHR '']'') (p_elems n) t = bracketed (CHR '']'') (p_elems m') t"
          using Suc.IH(2) t a Suc by (intro bracketed_cong) auto
        ultimately show ?thesis using Suc Cons by simp
      qed (simp add: Suc)
    qed
  next
    fix s :: string and m :: nat assume a: "2 * length s < Suc n" "2 * length s < m"
    then obtain m' where m: "m = Suc m'" by (cases m) auto
    have v: "p_value n s = p_value m' s" using a m by (intro Suc.IH(1)) auto
    have "after_item (CHR '']'') (p_elems n) v r = after_item (CHR '']'') (p_elems m') v r"
      if "p_value m' s = Some (v, r)" for v r
      using p_consumes(1) [OF that] a m by (intro after_item_cong Suc.IH(2)) auto
    with v m show "p_elems (Suc n) s = p_elems m s" by (auto split: option.splits)
  next
    fix s :: string and m :: nat assume a: "2 * length s < Suc n" "2 * length s < m"
    then obtain m' where m: "m = Suc m'" by (cases m) auto
    show "p_members (Suc n) s = p_members m s"
    proof (cases "p_key s")
      case (Some ku)
      obtain k u where ku: "ku = (k, u)" by force
      have u: "length u < length s" using Some ku by (auto dest: p_key_consumes)
      have v: "p_value n u = p_value m' u" using a m u by (intro Suc.IH(1)) auto
      have "after_item (CHR ''}'') (p_members n) (k, v) r = after_item (CHR ''}'') (p_members m') (k, v) r"
        if "p_value m' u = Some (v, r)" for v r
        using p_consumes(1) [OF that] a m u by (intro after_item_cong Suc.IH(3)) auto
      with v m Some ku show ?thesis by (auto split: option.splits)
    qed (simp add: m)
  }
qed

lemma json_parse_any_fuel:
  "2 * length s \<le> n \<Longrightarrow> json_parse s =
     (case p_value n s of None \<Rightarrow> None | Some (v, r) \<Rightarrow> if skip_ws r = [] then Some v else None)"
  by (simp add: json_parse_def p_value_fuel(1) [of s "2 * length s" n])

subsection \<open>The round trip\<close>

text \<open>What may follow a printed value: a separator, a closing bracket, or the end.\<close>

definition value_end :: "string \<Rightarrow> bool" where
  "value_end r \<longleftrightarrow> r = [] \<or> hd r \<in> {CHR '','', CHR '']'', CHR ''}''}"

lemma hex_val_digit: "n < 16 \<Longrightarrow> hex_val (hex_digit n) = Some n"
  by (auto simp: hex_val_def hex_digit_def Let_def)

lemma of_char_lt_32: "of_char c < (32 :: nat) \<Longrightarrow> char_of (of_char c mod 128 :: nat) = c"
  by (simp add: of_char_mod_256)

lemma escape_seq_unicode:
  assumes "of_char c < (32 :: nat)"
  shows "escape_seq (CHR ''u'' # CHR ''0'' # CHR ''0'' # hex_digit (of_char c div 16)
           # hex_digit (of_char c mod 16) # r) = Some ([c], r)"
proof -
  have 0: "hex_val (CHR ''0'') = Some 0" by (simp add: hex_val_def)
  have "hex4 (CHR ''0'') (CHR ''0'') (hex_digit (of_char c div 16)) (hex_digit (of_char c mod 16))
          = Some (of_char c)"
    using assms by (simp add: hex4_def 0 hex_val_digit)
  with assms show ?thesis by (simp add: escape_seq_def unicode_escape_def utf8_def)
qed

lemma p_str_escape_char: "p_str (escape_char c @ r) = map_option (\<lambda>(y, q). (c # y, q)) (p_str r)"
proof -
  have small: "p_str (escape_char c @ r) = map_option (\<lambda>(y, q). (c # y, q)) (p_str r)"
    if "escape_char c = [backslash, CHR ''u'', CHR ''0'', CHR ''0'',
          hex_digit (of_char c div 16), hex_digit (of_char c mod 16)]" "of_char c < (32 :: nat)"
    using escape_seq_unicode [OF that(2), of r] that(1) by (simp add: case_prod_unfold)
  show ?thesis
  proof (cases "c \<in> {dquote, backslash, CHR 0x08, CHR 0x0C, CHR 0x0A, CHR 0x0D, CHR 0x09}")
    case True
    then show ?thesis by (auto simp: escape_char_def escape_seq_def simple_escape_def case_prod_unfold)
  next
    case False
    then show ?thesis
      using small by (cases "of_char c < (32 :: nat)") (auto simp: escape_char_def)
  qed
qed

lemma p_str_quoted: "p_str (concat (map escape_char s) @ dquote # r) = Some (s, r)"
  by (induction s) (simp_all add: p_str_escape_char)

lemma skip_ws_printed [simp]:
  "\<not> json_ws c \<Longrightarrow> skip_ws (c # s) = c # s"
  by (simp add: skip_ws_def)

lemma json_ws_simps [simp]:
  "\<not> json_ws dquote" "\<not> json_ws (CHR ''{'')" "\<not> json_ws (CHR ''}'')" "\<not> json_ws (CHR ''['')"
  "\<not> json_ws (CHR '']'')" "\<not> json_ws (CHR '','')" "\<not> json_ws (CHR '':'')"
  "\<not> json_ws (CHR ''n'')" "\<not> json_ws (CHR ''t'')" "\<not> json_ws (CHR ''f'')"
  by (simp_all add: json_ws_def)

lemma p_key_quoted: "p_key (quote_string k @ CHR '':'' # r) = Some (k, r)"
  by (simp add: p_key_def quote_string_def p_str_quoted)

lemma num_char_ends: "value_end r \<Longrightarrow> takeWhile num_char r = [] \<and> dropWhile num_char r = r"
  by (cases r) (auto simp: value_end_def num_char_def is_digit_def)

lemma num_char_props:
  "num_char c \<Longrightarrow> \<not> json_ws c \<and> c \<noteq> dquote \<and> c \<noteq> CHR ''{'' \<and> c \<noteq> CHR ''['' \<and> c \<noteq> CHR ''n'' \<and> c \<noteq> CHR ''t'' \<and> c \<noteq> CHR ''f'' \<and> c \<noteq> CHR '']'' \<and> c \<noteq> CHR ''}''"
  by (auto simp: num_char_def is_digit_def json_ws_def)

lemma p_num_printed:
  assumes "valid_num l" "list_all num_char l" "value_end r"
  shows "p_num (l @ r) = Some (l, r)"
proof -
  have "takeWhile num_char (l @ r) = l" "dropWhile num_char (l @ r) = r"
    using assms num_char_ends [of r] by (auto simp: list_all_iff takeWhile_append dropWhile_append)
  with assms(1) show ?thesis by (simp add: p_num_def)
qed

lemma valid_num_nonempty: "valid_num l \<Longrightarrow> l \<noteq> []"
  by (auto simp: valid_num_def strip_char_def Let_def)

text \<open>The first character of a printed value starts a value and closes no list.\<close>

lemma stringify_head:
  assumes "json_wf v"
  shows "\<exists>c t. json_stringify v = c # t \<and> \<not> json_ws c \<and> c \<noteq> CHR '']'' \<and> c \<noteq> CHR ''}''"
proof (cases v)
  case (JNum l)
  with assms have "l \<noteq> []" "list_all num_char l" by (auto dest: valid_num_nonempty)
  then obtain c t where "l = c # t" "num_char c" by (cases l) auto
  with JNum num_char_props [OF \<open>num_char c\<close>] show ?thesis by simp
qed (simp_all add: quote_string_def)

text \<open>
  Items printed with commas between them are read back one by one, given that each item is.
\<close>

lemma p_scalar_printed:
  "value_end r \<Longrightarrow> json_wf v \<Longrightarrow> (\<nexists>vs. v = JArr vs) \<Longrightarrow> (\<nexists>kvs. v = JObj kvs) \<Longrightarrow>
   p_value (Suc n) (json_stringify v @ r) = Some (v, r)"
proof (cases v)
  case (JNum l)
  assume a: "value_end r" "json_wf v"
  then have l: "l \<noteq> []" "list_all num_char l" "valid_num l" using JNum by (auto dest: valid_num_nonempty)
  then obtain c t where ct: "l = c # t" "num_char c" by (cases l) auto
  show ?thesis
    using p_num_printed [OF l(3) l(2) a(1)] num_char_props [OF ct(2)] JNum ct(1)
    by (auto simp: p_scalar_def)
qed (auto simp: p_scalar_def quote_string_def p_str_quoted)

lemma p_scalar_printed':
  assumes "value_end r" "json_wf v" "\<nexists>vs. v = JArr vs" "\<nexists>kvs. v = JObj kvs"
    and "2 * length (json_stringify v) \<le> n"
  shows "p_value n (json_stringify v @ r) = Some (v, r)"
proof -
  from assms(5) stringify_head [OF assms(2)] obtain n' where "n = Suc n'" by (cases n) auto
  with p_scalar_printed [OF assms(1-4)] show ?thesis by (simp only:)
qed

lemma join_with_length:
  "xs \<noteq> [] \<Longrightarrow> length (join_with '','' (x # xs)) = length x + 1 + length (join_with '','' xs)"
  by (cases xs) auto

lemma p_elems_printed:
  assumes "\<And>v r n. v \<in> set vs \<Longrightarrow> value_end r \<Longrightarrow> 2 * length (json_stringify v) \<le> n \<Longrightarrow>
      p_value n (json_stringify v @ r) = Some (v, r)"
    and "vs \<noteq> []"
    and "2 * length (join_with '','' (map json_stringify vs)) < n"
  shows "p_elems n (join_with '','' (map json_stringify vs) @ CHR '']'' # r) = Some (vs, r)"
  using assms
proof (induction vs arbitrary: n)
  case (Cons v vs)
  obtain n' where n: "n = Suc n'" using Cons.prems(3) by (cases n) auto
  show ?case
  proof (cases "vs = []")
    case True
    have "p_value n' (json_stringify v @ CHR '']'' # r) = Some (v, CHR '']'' # r)"
      using Cons.prems n True by (intro Cons.prems(1)) (auto simp: value_end_def)
    with n True show ?thesis by (simp add: after_item_def)
  next
    case False
    let ?rest = "join_with '','' (map json_stringify vs) @ CHR '']'' # r"
    have len: "2 * length (json_stringify v) + 2 + 2 * length (join_with '','' (map json_stringify vs)) < n"
      using Cons.prems(3) False join_with_length [of "map json_stringify vs"] by simp
    have "p_value n' (json_stringify v @ CHR '','' # ?rest) = Some (v, CHR '','' # ?rest)"
      using len n by (intro Cons.prems(1)) (auto simp: value_end_def)
    moreover have "p_elems n' ?rest = Some (vs, r)"
      using len n False Cons.prems(1) by (intro Cons.IH) auto
    moreover have "join_with '','' (map json_stringify (v # vs)) @ CHR '']'' # r
        = json_stringify v @ CHR '','' # ?rest"
      using False by (cases vs) auto
    ultimately show ?thesis using n by (simp only: p_elems.simps) (simp add: after_item_def)
  qed
qed simp

definition member_text :: "string \<times> json \<Rightarrow> string" where
  "member_text kv = quote_string (fst kv) @ '':'' @ json_stringify (snd kv)"

lemma stringify_obj:
  "json_stringify (JObj kvs) = CHR ''{'' # join_with '','' (map member_text kvs) @ [CHR ''}'']"
proof -
  have "(\<lambda>(k, v). quote_string k @ '':'' @ json_stringify v) = member_text"
    by (auto simp: member_text_def)
  then show ?thesis by simp
qed

lemma p_members_printed:
  assumes "\<And>kv r n. kv \<in> set kvs \<Longrightarrow> value_end r \<Longrightarrow> 2 * length (json_stringify (snd kv)) \<le> n \<Longrightarrow>
      p_value n (json_stringify (snd kv) @ r) = Some (snd kv, r)"
    and "kvs \<noteq> []"
    and "2 * length (join_with '','' (map member_text kvs)) < n"
  shows "p_members n (join_with '','' (map member_text kvs) @ CHR ''}'' # r) = Some (kvs, r)"
  using assms
proof (induction kvs arbitrary: n)
  case (Cons kv kvs)
  obtain n' where n: "n = Suc n'" using Cons.prems(3) by (cases n) auto
  have key: "p_key (member_text kv @ q) = Some (fst kv, json_stringify (snd kv) @ q)" for q
    by (simp add: member_text_def p_key_quoted)
  show ?case
  proof (cases "kvs = []")
    case True
    have "p_value n' (json_stringify (snd kv) @ CHR ''}'' # r) = Some (snd kv, CHR ''}'' # r)"
      using Cons.prems n True by (intro Cons.prems(1)) (auto simp: value_end_def member_text_def)
    with n True show ?thesis by (simp add: after_item_def key)
  next
    case False
    let ?rest = "join_with '','' (map member_text kvs) @ CHR ''}'' # r"
    have len: "2 * length (json_stringify (snd kv)) + 2 + 2 * length (join_with '','' (map member_text kvs)) < n"
    proof -
      have "length (json_stringify (snd kv)) < length (member_text kv)" by (simp add: member_text_def)
      then show ?thesis
        using Cons.prems(3) False join_with_length [of "map member_text kvs" "member_text kv"] by simp
    qed
    have "p_value n' (json_stringify (snd kv) @ CHR '','' # ?rest) = Some (snd kv, CHR '','' # ?rest)"
      using len n by (intro Cons.prems(1)) (auto simp: value_end_def)
    moreover have "p_members n' ?rest = Some (kvs, r)"
      using len n False Cons.prems(1) by (intro Cons.IH) auto
    moreover have "join_with '','' (map member_text (kv # kvs)) @ CHR ''}'' # r
        = member_text kv @ CHR '','' # ?rest"
      using False by (cases kvs) auto
    ultimately show ?thesis using n by (simp only: p_members.simps) (simp add: after_item_def key)
  qed
qed simp

lemma head_join_printed:
  assumes "xs \<noteq> []" "\<And>x. x \<in> set xs \<Longrightarrow> \<exists>c t. x = c # t \<and> \<not> json_ws c \<and> c \<noteq> e"
  shows "\<exists>c t. join_with '','' xs = c # t \<and> \<not> json_ws c \<and> c \<noteq> e"
proof (cases xs)
  case (Cons x ys)
  with assms(2) [of x] show ?thesis by (cases ys) auto
qed (use assms in simp)

lemma p_value_printed:
  "json_wf v \<Longrightarrow> value_end r \<Longrightarrow> 2 * length (json_stringify v) \<le> n \<Longrightarrow>
   p_value n (json_stringify v @ r) = Some (v, r)"
proof (induction v arbitrary: r n)
  case (JArr vs)
  then obtain n' where n: "n = Suc n'" by (cases n) auto
  show ?case
  proof (cases "vs = []")
    case False
    have "p_elems n' (join_with '','' (map json_stringify vs) @ CHR '']'' # r) = Some (vs, r)"
      using JArr n False by (intro p_elems_printed) auto
    moreover have "\<exists>c t. join_with '','' (map json_stringify vs) = c # t \<and> \<not> json_ws c \<and> c \<noteq> CHR '']''"
      using False JArr.prems(1) stringify_head by (intro head_join_printed) fastforce+
    ultimately show ?thesis using n by (auto simp: bracketed_def)
  qed (simp add: n bracketed_def)
next
  case (JObj kvs)
  then obtain n' where n: "n = Suc n'" by (cases n) auto
  show ?case
  proof (cases "kvs = []")
    case False
    have m: "p_members n' (join_with '','' (map member_text kvs) @ CHR ''}'' # r) = Some (kvs, r)"
      using JObj n False
      by (intro p_members_printed) (auto simp: stringify_obj snds.simps simp del: json_stringify.simps)
    have "\<exists>c t. member_text kv = c # t \<and> \<not> json_ws c \<and> c \<noteq> CHR ''}''" for kv
      by (simp add: member_text_def quote_string_def)
    then have "\<exists>c t. join_with '','' (map member_text kvs) = c # t \<and> \<not> json_ws c \<and> c \<noteq> CHR ''}''"
      using False by (intro head_join_printed) auto
    then obtain c t where ct: "join_with '','' (map member_text kvs) = c # t"
      "\<not> json_ws c" "c \<noteq> CHR ''}''" by blast
    have "bracketed (CHR ''}'') (p_members n') (c # t @ CHR ''}'' # r) = Some (kvs, r)"
      using m ct by (simp add: bracketed_def)
    then show ?thesis
      using n JObj.prems(1) by (simp add: stringify_obj ct(1) obj_of_distinct del: json_stringify.simps)
  qed (simp add: n bracketed_def obj_of_def)
qed (intro p_scalar_printed'; simp)+

lemma json_roundtrip: "json_wf v \<Longrightarrow> json_parse (json_stringify v) = Some v"
  using p_value_printed [of v "[]" "2 * length (json_stringify v)"]
  by (simp add: json_parse_def value_end_def skip_ws_def)

subsection \<open>Reading properties of a parsed value\<close>

text \<open>
  \<open>Object.entries(o)\<close>: array-index keys first, in ascending order, then the other keys in
  creation order.
\<close>

definition array_index :: "string \<Rightarrow> nat option" where
  "array_index k =
    (if k \<noteq> [] \<and> list_all is_digit k \<and> (hd k = CHR ''0'' \<longrightarrow> length k = 1) then
       (let n = foldl (\<lambda>a c. 10 * a + (of_char c - 48)) 0 k in if n < 4294967295 then Some n else None)
     else None)"

definition object_entries :: "(string \<times> 'v) list \<Rightarrow> (string \<times> 'v) list" where
  "object_entries kvs =
     sort_key (\<lambda>kv. the (array_index (fst kv))) (filter (\<lambda>kv. array_index (fst kv) \<noteq> None) kvs)
     @ filter (\<lambda>kv. array_index (fst kv) = None) kvs"

lemma set_object_entries [simp]: "set (object_entries kvs) = set kvs"
  by (auto simp: object_entries_def)

text \<open>Whether a number literal denotes 0: the one number (with \<open>-0\<close>) that is falsy.\<close>

definition num_is_zero :: "string \<Rightarrow> bool" where
  "num_is_zero l = (\<forall>c \<in> set (takeWhile (\<lambda>c. c \<noteq> CHR ''e'' \<and> c \<noteq> CHR ''E'') l). is_digit c \<longrightarrow> c = CHR ''0'')"

fun truthy :: "json \<Rightarrow> bool" where
  "truthy JNull = False"
| "truthy (JBool b) = b"
| "truthy (JNum l) = (\<not> num_is_zero l)"
| "truthy (JStr s) = (s \<noteq> [])"
| "truthy (JArr _) = True"
| "truthy (JObj _) = True"

text \<open>
  \<open>v.k\<close> for a value the code takes to be an object: \<open>None\<close> is \<open>undefined\<close>. Reading a
  property of \<open>null\<close> is a \<open>TypeError\<close>, which the callers test for separately; no property
  the code reads exists on numbers, booleans, strings or arrays.
\<close>

fun json_prop :: "json \<Rightarrow> string \<Rightarrow> json option" where
  "json_prop (JObj kvs) k = map_of kvs k"
| "json_prop _ k = None"

end
