(* ===== verification/Entities.thy ===== *)
theory Entities
  imports Effects Json
begin

section \<open>Entities, the database and the outside world\<close>

text \<open>
  One record per TypeORM entity (the columns; relation objects are reached through their id
  column), one \<open>world\<close> record for all tables, queues and the Redis keys, and one \<open>env\<close>
  record for everything that is not under \<open>src/\<close>: the clock, the uuid and random
  generators, AES-GCM, the SSH, DNS, WHOIS, TLS and HTTP peers, and the faults of the
  database, Redis and the queues. Each external interaction takes one step of the counter
  \<open>steps\<close>, and the environment answers as a function of the step: it can answer
  differently every time, and every theorem holds for every environment.
\<close>

type_synonym uuid = string
type_synonym time = int \<comment> \<open>milliseconds since the epoch\<close>

text \<open>A JavaScript \<open>Date\<close>: \<open>new Date(s)\<close> of an unreadable string is an Invalid Date.\<close>

datatype js_date = ValidDate time | InvalidDate

subsection \<open>Enumerations\<close>

datatype host_provider = AZURE | VMWARE | OVH | AWS | DIGITALOCEAN | BARE_METAL | OTHER_PROVIDER

datatype host_status = HS_UNKNOWN | HS_HEALTHY | HS_DEGRADED | HS_UNREACHABLE | HS_PENDING_SETUP

datatype health_check_status = HC_HEALTHY | HC_DEGRADED | HC_UNREACHABLE | HC_PENDING_SETUP

datatype service_status = SS_UNKNOWN | SS_RUNNING | SS_UNHEALTHY | SS_STOPPED | SS_CRASH_LOOP

datatype rollback_status = RB_PENDING | RB_IN_PROGRESS | RB_SUCCEEDED | RB_FAILED

datatype hc_entity_type = HE_HOST | HE_DOMAIN | HE_SSL_CERTIFICATE | HE_SERVICE

datatype alert_entity_type = AE_HOST | AE_DOMAIN | AE_SSL_CERTIFICATE | AE_SERVICE
  | AE_ROLLBACK_EVENT | AE_SYSTEM

datatype alert_channel = SLACK | EMAIL

datatype delivery_status = SENT | DELIVERY_FAILED

datatype user_role = ADMIN

datatype cloud_provider = VERCEL | RENDER | CP_AWS | CP_AZURE | GCP | CP_OVH | CLOUDFLARE

datatype insight_flag = IDLE_HOST | ORPHANED_DOMAIN | ORPHANED_HOST

datatype dns_status = DNS_UNKNOWN | DNS_RESOLVING | DNS_NOT_RESOLVING

datatype ssl_status = SSL_UNKNOWN | SSL_VALID | SSL_EXPIRING_SOON | SSL_EXPIRED | SSL_INVALID

text \<open>The string values of the enums.\<close>

fun host_status_str :: "host_status \<Rightarrow> string" where
  "host_status_str HS_UNKNOWN = ''unknown''"
| "host_status_str HS_HEALTHY = ''healthy''"
| "host_status_str HS_DEGRADED = ''degraded''"
| "host_status_str HS_UNREACHABLE = ''unreachable''"
| "host_status_str HS_PENDING_SETUP = ''pending_setup''"

fun health_check_status_str :: "health_check_status \<Rightarrow> string" where
  "health_check_status_str HC_HEALTHY = ''healthy''"
| "health_check_status_str HC_DEGRADED = ''degraded''"
| "health_check_status_str HC_UNREACHABLE = ''unreachable''"
| "health_check_status_str HC_PENDING_SETUP = ''pending_setup''"

fun service_status_str :: "service_status \<Rightarrow> string" where
  "service_status_str SS_UNKNOWN = ''unknown''"
| "service_status_str SS_RUNNING = ''running''"
| "service_status_str SS_UNHEALTHY = ''unhealthy''"
| "service_status_str SS_STOPPED = ''stopped''"
| "service_status_str SS_CRASH_LOOP = ''crash_loop''"

fun rollback_status_str :: "rollback_status \<Rightarrow> string" where
  "rollback_status_str RB_PENDING = ''pending''"
| "rollback_status_str RB_IN_PROGRESS = ''in_progress''"
| "rollback_status_str RB_SUCCEEDED = ''succeeded''"
| "rollback_status_str RB_FAILED = ''failed''"

fun alert_entity_type_str :: "alert_entity_type \<Rightarrow> string" where
  "alert_entity_type_str AE_HOST = ''host''"
| "alert_entity_type_str AE_DOMAIN = ''domain''"
| "alert_entity_type_str AE_SSL_CERTIFICATE = ''ssl_certificate''"
| "alert_entity_type_str AE_SERVICE = ''service''"
| "alert_entity_type_str AE_ROLLBACK_EVENT = ''rollback_event''"
| "alert_entity_type_str AE_SYSTEM = ''system''"

fun dns_status_str :: "dns_status \<Rightarrow> string" where
  "dns_status_str DNS_UNKNOWN = ''unknown''"
| "dns_status_str DNS_RESOLVING = ''resolving''"
| "dns_status_str DNS_NOT_RESOLVING = ''not_resolving''"

fun ssl_status_str :: "ssl_status \<Rightarrow> string" where
  "ssl_status_str SSL_UNKNOWN = ''unknown''"
| "ssl_status_str SSL_VALID = ''valid''"
| "ssl_status_str SSL_EXPIRING_SOON = ''expiring_soon''"
| "ssl_status_str SSL_EXPIRED = ''expired''"
| "ssl_status_str SSL_INVALID = ''invalid''"

lemma host_status_str_inj [simp]: "host_status_str a = host_status_str b \<longleftrightarrow> a = b"
  by (cases a; cases b) auto

lemma service_status_str_inj [simp]: "service_status_str a = service_status_str b \<longleftrightarrow> a = b"
  by (cases a; cases b) auto

lemma ssl_status_str_inj [simp]: "ssl_status_str a = ssl_status_str b \<longleftrightarrow> a = b"
  by (cases a; cases b) auto

lemma rollback_status_str_inj [simp]: "rollback_status_str a = rollback_status_str b \<longleftrightarrow> a = b"
  by (cases a; cases b) auto

subsection \<open>Rows\<close>

record host =
  host_id :: uuid
  host_orgId :: uuid
  host_name :: string
  host_provider :: host_provider
  host_ipAddress :: string
  host_sshPort :: int
  host_sshUser :: string
  host_sshKeyEncrypted :: string
  host_sshPublicKey :: string
  host_status :: host_status
  host_lastCheckedAt :: "time option"
  host_setupVerifiedAt :: "time option"
  host_createdAt :: time

record service =
  svc_id :: uuid
  svc_orgId :: uuid
  svc_hostId :: uuid
  svc_containerId :: string
  svc_containerName :: string
  svc_image :: string
  svc_currentTag :: "string option"
  svc_status :: service_status
  svc_portMappings :: "string option" \<comment> \<open>\<open>{ raw: ports }\<close> or null\<close>
  svc_lastCheckedAt :: time
  svc_createdAt :: time

record snapshot =
  snap_id :: uuid
  snap_serviceId :: uuid
  snap_imageTag :: string
  snap_configBlob :: string
  snap_deployedAt :: time
  snap_deployedById :: "uuid option"
  snap_isCurrent :: bool
  snap_createdAt :: time

record rollback_log_entry =
  rle_timestamp :: time
  rle_step :: string
  rle_command :: "string option"
  rle_exit_code :: "int option option"
  rle_stdout :: "string option"
  rle_stderr :: "string option"
  rle_message :: "string option"

record rollback_event =
  ev_id :: uuid
  ev_serviceId :: uuid
  ev_fromSnapshotId :: uuid
  ev_toSnapshotId :: uuid
  ev_triggeredById :: uuid
  ev_status :: rollback_status
  ev_logOutput :: "rollback_log_entry list"
  ev_initiatedAt :: time
  ev_completedAt :: "time option"

record alert_rule =
  rule_id :: uuid
  rule_orgId :: uuid
  rule_name :: string
  rule_entityType :: alert_entity_type
  rule_condition :: string
  rule_channel :: alert_channel
  rule_channelConfigEncrypted :: string
  rule_cooldownMinutes :: int
  rule_enabled :: bool
  rule_createdAt :: time

record alert_log =
  alog_id :: uuid
  alog_alertRuleId :: uuid
  alog_entityType :: alert_entity_type
  alog_entityId :: uuid
  alog_message :: string
  alog_deliveryStatus :: delivery_status
  alog_error :: "string option"
  alog_firedAt :: time

record hc_log =
  hlog_id :: uuid
  hlog_entityType :: hc_entity_type
  hlog_entityId :: uuid
  hlog_status :: string
  hlog_rawOutput :: json
  hlog_checkedAt :: time

record insight_state =
  ins_id :: uuid
  ins_entityId :: uuid
  ins_flag :: insight_flag
  ins_active :: bool
  ins_updatedAt :: time

record domain =
  dom_id :: uuid
  dom_orgId :: uuid
  dom_hostId :: "uuid option"
  dom_hostname :: string
  dom_registrar :: "string option"
  dom_domainExpiresAt :: "time option"
  dom_dnsStatus :: dns_status
  dom_resolvedIp :: "string option"
  dom_lastCheckedAt :: "time option"
  dom_createdAt :: time

record ssl_certificate =
  cert_id :: uuid
  cert_domainId :: uuid
  cert_issuer :: "string option"
  cert_validFrom :: "js_date option"
  cert_validTo :: "js_date option"
  cert_status :: ssl_status
  cert_lastCheckedAt :: "time option"
  cert_createdAt :: time

record organization =
  org_id :: uuid
  org_name :: string
  org_createdAt :: time

record user =
  user_id :: uuid
  user_orgId :: uuid
  user_email :: string
  user_passwordHash :: string
  user_role :: user_role
  user_createdAt :: time

record cloud_account =
  ca_id :: uuid
  ca_orgId :: uuid
  ca_provider :: cloud_provider
  ca_label :: string
  ca_apiKeyEncrypted :: string
  ca_connectedAt :: time
  ca_createdAt :: time

text \<open>A repeatable job as BullMQ's scheduler table holds it: one per queue and scheduler id.\<close>

record job_scheduler =
  sch_queue :: string
  sch_id :: string
  sch_every :: "int option"
  sch_jobName :: string

subsection \<open>The world and the environment\<close>

record world =
  organizations :: "organization list"
  users :: "user list"
  cloud_accounts :: "cloud_account list"
  hosts :: "host list"
  services :: "service list"
  snapshots :: "snapshot list"
  rollback_events :: "rollback_event list"
  alert_rules :: "alert_rule list"
  alert_logs :: "alert_log list"
  hc_logs :: "hc_log list"
  insight_states :: "insight_state list"
  domains :: "domain list"
  ssl_certificates :: "ssl_certificate list"
  host_jobs :: "uuid list" \<comment> \<open>queued \<open>check-host\<close> jobs\<close>
  domain_jobs :: "uuid list" \<comment> \<open>queued \<open>check-domain\<close> jobs\<close>
  rollback_jobs :: "uuid list" \<comment> \<open>queued \<open>rollback-service\<close> jobs\<close>
  schedulers :: "job_scheduler list"
  cooldown_keys :: "(string \<times> time) list" \<comment> \<open>Redis keys and when they expire\<close>
  steps :: nat

type_synonym 'a action = "(world, 'a) prog"

record ssh_options =
  ssh_host :: string
  ssh_port :: int
  ssh_username :: string
  ssh_privateKey :: string

text \<open>What \<open>fetch\<close> did: a response, an abort by the timer, or a network failure.\<close>

datatype http_result =
    HttpResponse nat string \<comment> \<open>status and body text\<close>
  | HttpAborted
  | HttpFailed string "string option" \<comment> \<open>error message, message of its \<open>cause\<close> if an Error\<close>

text \<open>A promise of an outbound lookup: when it settles, and with what.\<close>

datatype 'a promise = Settles nat "js_error + 'a" | NeverSettles

text \<open>
  The peer's certificate as Node reports it: the issuer and subject as objects of strings or
  string arrays, the dates as text. A socket emits one of three events first.
\<close>

record peer_cert =
  pc_issuer :: "json option"
  pc_subject :: "json option"
  pc_valid_from :: "string option"
  pc_valid_to :: "string option"
  pc_authorized :: bool
  pc_authorization_error :: "string option"

datatype tls_event = SecureConnect "peer_cert option" | SocketError js_error | SocketTimeout

text \<open>The configuration the services read; \<open>None\<close> is the number \<open>NaN\<close>.\<close>

record app_config =
  ac_nodeEnv :: string
  ac_port :: "int option"
  ac_databaseUrl :: string
  ac_redisHost :: string
  ac_redisPort :: "int option"
  ac_accessSecret :: string
  ac_accessExpiresIn :: string
  ac_refreshSecret :: string
  ac_refreshExpiresIn :: string
  ac_sshKeyEncryptionSecret :: string
  ac_corsOrigins :: "string list"
  ac_healthConcurrency :: "int option"
  ac_healthIntervalMs :: "int option"
  ac_sshConnectTimeoutMs :: "int option"
  ac_domainConcurrency :: "int option"
  ac_domainIntervalMs :: "int option"
  ac_dnsTimeoutMs :: "int option"
  ac_whoisTimeoutMs :: "int option"
  ac_tlsTimeoutMs :: "int option"

record env =
  db_fault :: "nat \<Rightarrow> js_error option"
  queue_fault :: "nat \<Rightarrow> js_error option"
  redis_fault :: "nat \<Rightarrow> js_error option"
  clock :: "nat \<Rightarrow> time"
  fresh_uuid :: "nat \<Rightarrow> uuid"
  random_bytes :: "nat \<Rightarrow> nat \<Rightarrow> string"
  enc_key :: string
  gcm_seal :: "string \<Rightarrow> string \<Rightarrow> string \<Rightarrow> string \<times> string"
  gcm_open :: "string \<Rightarrow> string \<Rightarrow> string \<Rightarrow> string \<Rightarrow> js_error + string"
  ssh_connect :: "nat \<Rightarrow> ssh_options \<Rightarrow> js_error option"
  ssh_exec :: "nat \<Rightarrow> ssh_options \<Rightarrow> string \<Rightarrow> js_error + (string \<times> string \<times> int option)"
  http_post :: "nat \<Rightarrow> string \<Rightarrow> string \<Rightarrow> http_result"
  dns_resolve4 :: "nat \<Rightarrow> string \<Rightarrow> string list promise"
  whois_record :: "nat \<Rightarrow> string \<Rightarrow> ((string \<times> json) list) promise"
  parse_date :: "string \<Rightarrow> js_date"
  tls_peer :: "nat \<Rightarrow> string \<Rightarrow> string \<Rightarrow> int option \<Rightarrow> tls_event"
  bcrypt_hash :: "nat \<Rightarrow> string \<Rightarrow> int \<Rightarrow> string" \<comment> \<open>the step draws the salt\<close>
  bcrypt_compare :: "string \<Rightarrow> string \<Rightarrow> bool"
  jwt_sign :: "string \<Rightarrow> string \<Rightarrow> time \<Rightarrow> json \<Rightarrow> string" \<comment> \<open>secret, lifetime, now, payload\<close>
  jwt_verify :: "string \<Rightarrow> time \<Rightarrow> string \<Rightarrow> js_error + json"
  ed25519_keypair :: "nat \<Rightarrow> string \<times> string" \<comment> \<open>the SPKI and PKCS8 encodings of a new key\<close>
  app_conf :: app_config
  text_rank :: "string \<Rightarrow> nat" \<comment> \<open>position in the database's collation\<close>
  is_ip :: "string \<Rightarrow> bool" \<comment> \<open>class-validator's predicates\<close>
  is_fqdn :: "string \<Rightarrow> bool"
  is_email :: "string \<Rightarrow> bool"
  is_uuid :: "string \<Rightarrow> bool"
  job_id :: "nat \<Rightarrow> string"
  syntax_message :: "string \<Rightarrow> string" \<comment> \<open>the engine's message for an unreadable JSON text\<close>

definition tick :: "world \<Rightarrow> world" where
  "tick w = w\<lparr>steps := Suc (steps w)\<rparr>"

lemma tick_simps [simp]:
  "organizations (tick w) = organizations w" "users (tick w) = users w"
  "cloud_accounts (tick w) = cloud_accounts w" "schedulers (tick w) = schedulers w"
  "hosts (tick w) = hosts w" "services (tick w) = services w" "snapshots (tick w) = snapshots w"
  "rollback_events (tick w) = rollback_events w" "alert_rules (tick w) = alert_rules w"
  "alert_logs (tick w) = alert_logs w" "hc_logs (tick w) = hc_logs w"
  "insight_states (tick w) = insight_states w" "domains (tick w) = domains w"
  "ssl_certificates (tick w) = ssl_certificates w" "host_jobs (tick w) = host_jobs w"
  "domain_jobs (tick w) = domain_jobs w" "rollback_jobs (tick w) = rollback_jobs w"
  "cooldown_keys (tick w) = cooldown_keys w" "steps (tick w) = Suc (steps w)"
  by (simp_all add: tick_def)

text \<open>\<open>new Date()\<close> and \<open>Date.now()\<close>.\<close>

definition now :: "env \<Rightarrow> time action" where
  "now E w = (Inr (clock E (steps w)), tick w)"

text \<open>
  One call of a repository: it rejects when the database is at fault at this step, and
  otherwise runs \<open>f\<close> on the tables. \<open>f\<close> itself rejects on a constraint violation.
\<close>

definition repo :: "env \<Rightarrow> (world \<Rightarrow> (js_error + 'a) \<times> world) \<Rightarrow> 'a action" where
  "repo E f w = (case db_fault E (steps w) of
     Some e \<Rightarrow> (Inl e, tick w)
   | None \<Rightarrow> (let (r, w') = f w in (r, tick w')))"

definition repo_find :: "env \<Rightarrow> (world \<Rightarrow> 'r list) \<Rightarrow> ('r \<Rightarrow> bool) \<Rightarrow> 'r list action" where
  "repo_find E tab p = repo E (\<lambda>w. (Inr (filter p (tab w)), w))"

definition repo_find_one :: "env \<Rightarrow> (world \<Rightarrow> 'r list) \<Rightarrow> ('r \<Rightarrow> bool) \<Rightarrow> 'r option action" where
  "repo_find_one E tab p = repo E (\<lambda>w. (Inr (List.find p (tab w)), w))"

text \<open>
  Saving a loaded row: \<open>upd\<close> writes the table back. The row replaces the one with its id,
  or is inserted again when that one is gone. A row that clashes with another one under the
  table's unique index is refused with Postgres's \<open>23505\<close>.
\<close>

fun save_row :: "('r \<Rightarrow> uuid) \<Rightarrow> 'r \<Rightarrow> 'r list \<Rightarrow> 'r list" where
  "save_row rid r [] = [r]"
| "save_row rid r (x # xs) = (if rid x = rid r then r # xs else x # save_row rid r xs)"

definition unique_violation :: js_error where
  "unique_violation =
     QueryFailedError ''23505'' ''duplicate key value violates unique constraint''"

definition repo_save :: "env \<Rightarrow> (world \<Rightarrow> 'r list) \<Rightarrow> ('r list \<Rightarrow> world \<Rightarrow> world) \<Rightarrow>
    ('r \<Rightarrow> uuid) \<Rightarrow> ('r \<Rightarrow> 'r \<Rightarrow> bool) \<Rightarrow> 'r \<Rightarrow> 'r action" where
  "repo_save E tab upd rid clash r = repo E (\<lambda>w.
     if \<exists>x \<in> set (tab w). rid x \<noteq> rid r \<and> clash x r then (Inl unique_violation, w)
     else (Inr r, upd (save_row rid r (tab w)) w))"

text \<open>
  Saving a created row: the database gives it an id and its creation date (\<open>mk\<close>), and
  refuses it when the id or the unique index clashes with a row.
\<close>

definition repo_insert :: "env \<Rightarrow> (world \<Rightarrow> 'r list) \<Rightarrow> ('r list \<Rightarrow> world \<Rightarrow> world) \<Rightarrow>
    ('r \<Rightarrow> uuid) \<Rightarrow> ('r \<Rightarrow> 'r \<Rightarrow> bool) \<Rightarrow> (uuid \<Rightarrow> time \<Rightarrow> 'r) \<Rightarrow> 'r action" where
  "repo_insert E tab upd rid clash mk = repo E (\<lambda>w.
     let r = mk (fresh_uuid E (steps w)) (clock E (steps w)) in
     if \<exists>x \<in> set (tab w). rid x = rid r \<or> clash x r then (Inl unique_violation, w)
     else (Inr r, upd (tab w @ [r]) w))"

text \<open>\<open>dataSource.transaction\<close>: on a rejection every table is as it was before.\<close>

definition transaction :: "'a action \<Rightarrow> 'a action" where
  "transaction m w = (case m w of
     (Inl e, w') \<Rightarrow> (Inl e, w\<lparr>steps := steps w'\<rparr>)
   | (Inr x, w') \<Rightarrow> (Inr x, w'))"

text \<open>\<open>queue.add\<close>: the job's id.\<close>

definition queue_add :: "env \<Rightarrow> (uuid \<Rightarrow> world \<Rightarrow> world) \<Rightarrow> uuid \<Rightarrow> string action" where
  "queue_add E push d w = (case queue_fault E (steps w) of
     Some e \<Rightarrow> (Inl e, tick w)
   | None \<Rightarrow> (Inr (job_id E (steps w)), tick (push d w)))"

text \<open>\<open>JSON.parse(s)\<close>.\<close>

definition parse_json :: "env \<Rightarrow> string \<Rightarrow> js_error + json" where
  "parse_json E s = (case json_parse s of
     None \<Rightarrow> Inl (JsError ''SyntaxError'' (syntax_message E s) None)
   | Some v \<Rightarrow> Inr v)"

subsection \<open>Interface: a table\<close>

text \<open>
  What a component relies on when it saves a row into a table with a primary key: which
  rows the table holds afterwards, and what a lookup by id finds. The laws give the facts
  the components use: saving a known row keeps the set of ids, saving twice is saving the
  last, and a unique index that the saved row does not violate still holds.
\<close>

locale row_table =
  fixes rid :: "'r \<Rightarrow> uuid" and save :: "'r \<Rightarrow> 'r list \<Rightarrow> 'r list"
  assumes ids_save: "map rid (save r t) = (if rid r \<in> rid ` set t then map rid t else map rid t @ [rid r])"
    and mem_save: "distinct (map rid t) \<Longrightarrow> set (save r t) = insert r {x \<in> set t. rid x \<noteq> rid r}"
begin

lemma distinct_save: "distinct (map rid t) \<Longrightarrow> distinct (map rid (save r t))"
  by (auto simp: ids_save)

lemma length_save: "rid r \<in> rid ` set t \<Longrightarrow> length (save r t) = length t"
  using arg_cong [OF ids_save [of r t], of length] by simp

lemma find_save:
  assumes "distinct (map rid t)"
  shows "List.find (\<lambda>x. rid x = i) (save r t) = (if i = rid r then Some r else List.find (\<lambda>x. rid x = i) t)"
proof -
  have uniq: "List.find (\<lambda>x. rid x = i) u = (if i \<in> rid ` set u then Some (THE x. x \<in> set u \<and> rid x = i) else None)"
    if "distinct (map rid u)" for u
  proof (cases "List.find (\<lambda>x. rid x = i) u")
    case None
    then show ?thesis by (auto simp: find_None_iff)
  next
    case (Some x)
    then have x: "x \<in> set u" "rid x = i" by (auto simp: find_Some_iff)
    then have "(THE y. y \<in> set u \<and> rid y = i) = x"
      using that by (intro the_equality) (auto simp: distinct_map dest: inj_onD)
    with Some x show ?thesis by auto
  qed
  have "(THE x. x \<in> set (save r t) \<and> rid x = rid r) = r"
    using mem_save [OF assms] by (intro the_equality) auto
  moreover have "(x \<in> set (save r t) \<and> rid x = i) = (x \<in> set t \<and> rid x = i)" if "i \<noteq> rid r" for x
    using mem_save [OF assms, of r] that by auto
  ultimately show ?thesis
    using uniq [OF distinct_save [OF assms, of r]] uniq [OF assms] mem_save [OF assms, of r]
    by (auto simp: image_iff)
qed

lemma unique_save:
  assumes "distinct (map rid t)"
    and "\<forall>x \<in> set t. \<forall>y \<in> set t. rid x \<noteq> rid y \<longrightarrow> \<not> clash x y"
    and "\<forall>x \<in> set t. rid x \<noteq> rid r \<longrightarrow> \<not> clash x r" and "symp clash"
  shows "\<forall>x \<in> set (save r t). \<forall>y \<in> set (save r t). rid x \<noteq> rid y \<longrightarrow> \<not> clash x y"
  using assms by (auto simp: mem_save dest: sympD)

lemma save_pointwise:
  assumes "distinct (map rid t)" "\<forall>x \<in> set t. P x" "P r"
  shows "\<forall>x \<in> set (save r t). P x"
  using assms by (auto simp: mem_save)

end

lemma ids_save_row: "map rid (save_row rid r t) = (if rid r \<in> rid ` set t then map rid t else map rid t @ [rid r])"
  by (induction t) auto

lemma mem_save_row:
  "distinct (map rid t) \<Longrightarrow> set (save_row rid r t) = insert r {x \<in> set t. rid x \<noteq> rid r}"
  by (induction t) (auto simp: image_iff)

lemma set_save_row_subset: "set (save_row rid r t) \<subseteq> insert r (set t)"
  by (induction t) auto

lemma self_in_save_row [simp]: "r \<in> set (save_row rid r t)"
  by (induction t) auto

lemma save_row_map:
  "distinct (map rid t) \<Longrightarrow> rid r \<in> rid ` set t \<Longrightarrow>
   save_row rid r t = map (\<lambda>x. if rid x = rid r then r else x) t"
proof (induction t)
  case (Cons a t)
  show ?case
  proof (cases "rid a = rid r")
    case True
    with Cons.prems(1) have "\<forall>x \<in> set t. rid x \<noteq> rid r" by (auto simp: image_iff)
    then have "map (\<lambda>x. if rid x = rid r then r else x) t = t" by (induction t) auto
    with True show ?thesis by simp
  qed (use Cons in auto)
qed simp

interpretation host_table: row_table host_id "save_row host_id"
  by unfold_locales (rule ids_save_row, rule mem_save_row)

interpretation service_table: row_table svc_id "save_row svc_id"
  by unfold_locales (rule ids_save_row, rule mem_save_row)

interpretation snapshot_table: row_table snap_id "save_row snap_id"
  by unfold_locales (rule ids_save_row, rule mem_save_row)

interpretation rollback_event_table: row_table ev_id "save_row ev_id"
  by unfold_locales (rule ids_save_row, rule mem_save_row)

interpretation insight_table: row_table ins_id "save_row ins_id"
  by unfold_locales (rule ids_save_row, rule mem_save_row)

interpretation domain_table: row_table dom_id "save_row dom_id"
  by unfold_locales (rule ids_save_row, rule mem_save_row)

interpretation certificate_table: row_table cert_id "save_row cert_id"
  by unfold_locales (rule ids_save_row, rule mem_save_row)

interpretation cloud_account_table: row_table ca_id "save_row ca_id"
  by unfold_locales (rule ids_save_row, rule mem_save_row)

subsection \<open>Rules for the database calls\<close>

lemma preserves_now [pres]: "(\<And>w. P w \<Longrightarrow> P (tick w)) \<Longrightarrow> preserves P (now E)"
  by (auto simp: preserves_def now_def)

lemma preserves_repo:
  assumes "\<And>w. P w \<Longrightarrow> P (tick w)" and "\<And>w. P w \<Longrightarrow> P (snd (f w))"
  shows "preserves P (repo E f)"
  using assms by (auto simp: preserves_def repo_def Let_def split: option.splits prod.splits)
     (metis snd_conv)

lemma preserves_repo_find [pres]: "(\<And>w. P w \<Longrightarrow> P (tick w)) \<Longrightarrow> preserves P (repo_find E tab p)"
  unfolding repo_find_def by (rule preserves_repo) auto

lemma preserves_repo_find_one [pres]:
  "(\<And>w. P w \<Longrightarrow> P (tick w)) \<Longrightarrow> preserves P (repo_find_one E tab p)"
  unfolding repo_find_one_def by (rule preserves_repo) auto

lemma preserves_repo_save:
  assumes "\<And>w. P w \<Longrightarrow> P (tick w)"
    and "\<And>w. P w \<Longrightarrow> \<forall>x \<in> set (tab w). rid x \<noteq> rid r \<longrightarrow> \<not> clash x r \<Longrightarrow>
           P (upd (save_row rid r (tab w)) w)"
  shows "preserves P (repo_save E tab upd rid clash r)"
  unfolding repo_save_def by (rule preserves_repo) (use assms in auto)

lemma preserves_repo_insert:
  assumes "\<And>w. P w \<Longrightarrow> P (tick w)"
    and "\<And>w i t. P w \<Longrightarrow> \<forall>x \<in> set (tab w). rid x \<noteq> rid (mk i t) \<and> \<not> clash x (mk i t) \<Longrightarrow>
           P (upd (tab w @ [mk i t]) w)"
  shows "preserves P (repo_insert E tab upd rid clash mk)"
  unfolding repo_insert_def by (rule preserves_repo) (use assms in \<open>auto simp: Let_def\<close>)

lemma preserves_queue_add:
  assumes "\<And>w. P w \<Longrightarrow> P (tick w)" and "\<And>w. P w \<Longrightarrow> P (push d w)"
  shows "preserves P (queue_add E push d)"
  using assms by (auto simp: preserves_def queue_add_def split: option.splits)

lemma preserves_transaction:
  assumes "preserves P m" and "\<And>w n. P w \<Longrightarrow> P (w\<lparr>steps := n\<rparr>)"
  shows "preserves P (transaction m)"
proof (rule preservesI)
  fix w assume "P w"
  then show "P (snd (transaction m w))"
    using preservesD [OF assms(1) \<open>P w\<close>] assms(2)
    by (auto simp: transaction_def split: prod.splits sum.splits)
qed

text \<open>No database or queue fault from here on: what the success paths assume.\<close>

definition no_db_fault :: "env \<Rightarrow> bool" where
  "no_db_fault E \<longleftrightarrow> (\<forall>n. db_fault E n = None)"

definition no_queue_fault :: "env \<Rightarrow> bool" where
  "no_queue_fault E \<longleftrightarrow> (\<forall>n. queue_fault E n = None)"

lemma repo_ok: "no_db_fault E \<Longrightarrow> repo E f w = (case f w of (r, w') \<Rightarrow> (r, tick w'))"
  by (simp add: repo_def no_db_fault_def)

lemma repo_find_ok: "no_db_fault E \<Longrightarrow> repo_find E tab p w = (Inr (filter p (tab w)), tick w)"
  by (simp add: repo_find_def repo_ok)

lemma repo_find_one_ok:
  "no_db_fault E \<Longrightarrow> repo_find_one E tab p w = (Inr (List.find p (tab w)), tick w)"
  by (simp add: repo_find_one_def repo_ok)

lemma repo_save_ok:
  "no_db_fault E \<Longrightarrow> \<forall>x \<in> set (tab w). rid x \<noteq> rid r \<longrightarrow> \<not> clash x r \<Longrightarrow>
   repo_save E tab upd rid clash r w = (Inr r, tick (upd (save_row rid r (tab w)) w))"
  by (auto simp: repo_save_def repo_ok)

lemma repo_insert_ok:
  "no_db_fault E \<Longrightarrow> r = mk (fresh_uuid E (steps w)) (clock E (steps w)) \<Longrightarrow>
   \<forall>x \<in> set (tab w). rid x \<noteq> rid r \<and> \<not> clash x r \<Longrightarrow>
   repo_insert E tab upd rid clash mk w = (Inr r, tick (upd (tab w @ [r]) w))"
  by (auto simp: repo_insert_def repo_ok Let_def)

lemma queue_add_ok:
  "no_queue_fault E \<Longrightarrow> queue_add E push d w = (Inr (job_id E (steps w)), tick (push d w))"
  by (simp add: queue_add_def no_queue_fault_def)

lemmas repo_oks = repo_find_ok repo_find_one_ok repo_save_ok repo_insert_ok queue_add_ok

end
