(* ===== verification/Buffers.thy ===== *)
theory Buffers
  imports Prelude
begin

section \<open>Buffers: base64\<close>

text \<open>
  \<open>buffer.toString('base64')\<close> and \<open>Buffer.from(s, 'base64')\<close> of Node's standard library,
  on buffers as lists of octets. The decoder skips every character outside the alphabet (the
  padding included) and reads the URL-safe alphabet too, as Node's does.
\<close>

subsection \<open>Interface: a codec\<close>

text \<open>
  A printer and a reader for the values that satisfy \<open>ok\<close>: reading what was printed gives
  the value back. Two codecs compose, which is how the code stores a configuration: as JSON,
  inside a ciphertext, inside base64.
\<close>

locale codec =
  fixes enc :: "'a \<Rightarrow> 'b" and dec :: "'b \<Rightarrow> 'a option" and ok :: "'a \<Rightarrow> bool"
  assumes roundtrip: "ok x \<Longrightarrow> dec (enc x) = Some x"
begin

lemma enc_inj: "ok x \<Longrightarrow> ok y \<Longrightarrow> enc x = enc y \<Longrightarrow> x = y"
  using roundtrip by (metis option.inject)

lemma enc_inj_on: "inj_on enc {x. ok x}"
  by (auto intro!: inj_onI dest: enc_inj)

end

locale codec_stack = inner: codec enc1 dec1 ok1 + outer: codec enc2 dec2 ok2
  for enc1 :: "'a \<Rightarrow> 'b" and dec1 and ok1 and enc2 :: "'b \<Rightarrow> 'c" and dec2 and ok2 +
  assumes inner_ok: "ok1 x \<Longrightarrow> ok2 (enc1 x)"
begin

sublocale stack: codec "enc2 \<circ> enc1" "\<lambda>c. Option.bind (dec2 c) dec1" ok1
  by unfold_locales (simp add: inner_ok inner.roundtrip outer.roundtrip)

end

subsection \<open>Base64\<close>

definition b64_char :: "nat \<Rightarrow> char" where
  "b64_char n = (if n < 26 then char_of (65 + n) else if n < 52 then char_of (71 + n)
     else if n < 62 then char_of (n - 4) else if n = 62 then CHR ''+'' else CHR ''/'')"

definition b64_val :: "char \<Rightarrow> nat option" where
  "b64_val c = (let n = (of_char c :: nat) in
     if 65 \<le> n \<and> n \<le> 90 then Some (n - 65)
     else if 97 \<le> n \<and> n \<le> 122 then Some (n - 71)
     else if 48 \<le> n \<and> n \<le> 57 then Some (n + 4)
     else if n = 43 \<or> n = 45 then Some 62
     else if n = 47 \<or> n = 95 then Some 63 else None)"

fun b64_groups :: "nat list \<Rightarrow> string" where
  "b64_groups [] = []"
| "b64_groups [a] = [b64_char (a div 4), b64_char (a mod 4 * 16), CHR ''='', CHR ''='']"
| "b64_groups [a, b] = [b64_char (a div 4), b64_char (a mod 4 * 16 + b div 16),
     b64_char (b mod 16 * 4), CHR ''='']"
| "b64_groups (a # b # c # r) = [b64_char (a div 4), b64_char (a mod 4 * 16 + b div 16),
     b64_char (b mod 16 * 4 + c div 64), b64_char (c mod 64)] @ b64_groups r"

definition base64_encode :: "string \<Rightarrow> string" where
  "base64_encode s = b64_groups (map of_char s)"

fun b64_octets :: "nat list \<Rightarrow> nat list" where
  "b64_octets [] = []"
| "b64_octets [x] = []"
| "b64_octets [x, y] = [x * 4 + y div 16]"
| "b64_octets [x, y, z] = [x * 4 + y div 16, y mod 16 * 16 + z div 4]"
| "b64_octets (x # y # z # w # r) =
     [x * 4 + y div 16, y mod 16 * 16 + z div 4, z mod 4 * 64 + w] @ b64_octets r"

definition base64_decode :: "string \<Rightarrow> string" where
  "base64_decode s = map char_of (b64_octets (List.map_filter b64_val s))"

lemma b64_val_char: "n < 64 \<Longrightarrow> b64_val (b64_char n) = Some n"
  by (auto simp: b64_val_def b64_char_def Let_def)

lemma b64_val_pad: "b64_val (CHR ''='') = None"
  by (simp add: b64_val_def)

lemma map_filter_simps [simp]:
  "List.map_filter f [] = []"
  "List.map_filter f (x # xs) = (case f x of None \<Rightarrow> List.map_filter f xs | Some y \<Rightarrow> y # List.map_filter f xs)"
  by (simp_all add: List.map_filter_def split: option.splits)

lemma b64_octets_groups:
  "(\<forall>x \<in> set xs. x < 256) \<Longrightarrow> b64_octets (List.map_filter b64_val (b64_groups xs)) = xs"
proof (induction xs rule: b64_groups.induct)
  case (2 a)
  then have "a div 4 < 64" "a mod 4 * 16 < 64" by auto
  then show ?case by (simp add: b64_val_char b64_val_pad)
next
  case (3 a b)
  then have "a div 4 < 64" "a mod 4 * 16 + b div 16 < 64" "b mod 16 * 4 < 64" by auto
  moreover have "b div 16 mod 16 = b div 16" using 3 by (simp add: div_less_iff_less_mult)
  ultimately show ?case using 3 by (simp add: b64_val_char b64_val_pad)
next
  case (4 a b c r)
  then have "a div 4 < 64" "a mod 4 * 16 + b div 16 < 64" "b mod 16 * 4 + c div 64 < 64" "c mod 64 < 64"
    by auto
  moreover have "b div 16 mod 16 = b div 16" "b div 16 div 16 = 0" "c div 64 mod 4 = c div 64" "c div 64 div 4 = 0"
    using 4 by (simp_all add: div_less_iff_less_mult)
  ultimately show ?case using 4 by (simp add: b64_val_char)
qed simp

lemma base64_roundtrip: "base64_decode (base64_encode s) = s"
proof -
  have "\<forall>x \<in> set (map of_char s). x < (256 :: nat)" by auto
  then show ?thesis
    by (simp add: base64_decode_def base64_encode_def b64_octets_groups map_idI)
qed

interpretation b64: codec base64_encode "\<lambda>c. Some (base64_decode c)" "\<lambda>_. True"
  by unfold_locales (simp add: base64_roundtrip)

end
