(* ===== verification/Crypto.thy ===== *)
theory Crypto
  imports Entities Buffers
begin

section \<open>CryptoService\<close>

text \<open>
  \<open>src/crypto/crypto.service.ts\<close>: text encrypted at rest with AES-256-GCM, stored as
  \<open>base64(iv | tag | ciphertext)\<close>. The cipher itself is the environment's: sealing takes
  key, iv and plaintext and gives ciphertext and tag; opening may reject. What the code
  relies on is \<open>aead_ok\<close>: tags have 16 bytes, random bytes come in the requested number,
  and opening what was sealed under the same key and iv gives the plaintext back.
\<close>

definition IV_LENGTH_BYTES :: nat where "IV_LENGTH_BYTES = 12"
definition AUTH_TAG_LENGTH_BYTES :: nat where "AUTH_TAG_LENGTH_BYTES = 16"

definition encrypt_with :: "env \<Rightarrow> string \<Rightarrow> string \<Rightarrow> string" where
  "encrypt_with E iv plaintext =
    (let (encrypted, authTag) = gcm_seal E (enc_key E) iv plaintext
     in base64_encode (iv @ authTag @ encrypted))"

definition encrypt :: "env \<Rightarrow> string \<Rightarrow> string action" where
  "encrypt E plaintext w =
     (Inr (encrypt_with E (random_bytes E (steps w) IV_LENGTH_BYTES) plaintext), tick w)"

definition decrypt :: "env \<Rightarrow> string \<Rightarrow> js_error + string" where
  "decrypt E ciphertext =
    (let payload = base64_decode ciphertext;
         iv = take IV_LENGTH_BYTES payload;
         authTag = take AUTH_TAG_LENGTH_BYTES (drop IV_LENGTH_BYTES payload);
         encrypted = drop (IV_LENGTH_BYTES + AUTH_TAG_LENGTH_BYTES) payload
     in gcm_open E (enc_key E) iv authTag encrypted)"

definition aead_ok :: "env \<Rightarrow> bool" where
  "aead_ok E \<longleftrightarrow>
    (\<forall>n k. length (random_bytes E n k) = k) \<and>
    (\<forall>iv p c t. length iv = IV_LENGTH_BYTES \<longrightarrow> gcm_seal E (enc_key E) iv p = (c, t) \<longrightarrow>
       length t = AUTH_TAG_LENGTH_BYTES \<and> gcm_open E (enc_key E) iv t c = Inr p)"

lemma decrypt_encrypt_with:
  assumes "aead_ok E" "length iv = IV_LENGTH_BYTES"
  shows "decrypt E (encrypt_with E iv p) = Inr p"
proof -
  obtain c t where ct: "gcm_seal E (enc_key E) iv p = (c, t)" by force
  with assms have "length t = AUTH_TAG_LENGTH_BYTES" "gcm_open E (enc_key E) iv t c = Inr p"
    by (auto simp: aead_ok_def)
  with ct assms(2) show ?thesis
    by (simp add: decrypt_def encrypt_with_def base64_roundtrip Let_def)
qed

text \<open>
  C16. Whatever iv the random generator yields, decrypting what the service encrypted gives
  the text back.
\<close>

theorem encrypt_decrypt_roundtrip:
  assumes "aead_ok E" and "encrypt E plaintext w = (Inr c, w')"
  shows "decrypt E c = Inr plaintext"
  using assms decrypt_encrypt_with [OF assms(1)]
  by (auto simp: encrypt_def aead_ok_def)

lemma encrypt_ok: "encrypt E p w = (Inr (encrypt_with E (random_bytes E (steps w) 12) p), tick w)"
  by (simp add: encrypt_def IV_LENGTH_BYTES_def)

text \<open>JSON stored encrypted: the text codec under the cipher.\<close>

definition decrypt_opt :: "env \<Rightarrow> string \<Rightarrow> string option" where
  "decrypt_opt E c = (case decrypt E c of Inl _ \<Rightarrow> None | Inr p \<Rightarrow> Some p)"

definition cipher_ok :: "env \<Rightarrow> string \<Rightarrow> bool" where
  "cipher_ok E iv \<longleftrightarrow> aead_ok E \<and> length iv = IV_LENGTH_BYTES"

interpretation stored: codec_stack json_stringify json_parse "\<lambda>v. json_wf v \<and> cipher_ok E iv"
    "encrypt_with E iv" "decrypt_opt E" "\<lambda>_. cipher_ok E iv"
  by unfold_locales (auto simp: json_roundtrip decrypt_encrypt_with cipher_ok_def decrypt_opt_def)

lemma stored_json_roundtrip:
  assumes "json_wf v" "cipher_ok E iv"
  obtains t where "decrypt E (encrypt_with E iv (json_stringify v)) = Inr t" "json_parse t = Some v"
  using stored.stack.roundtrip [of v E iv] assms
  by (auto simp: decrypt_opt_def split: sum.splits)

lemma preserves_encrypt [pres]: "(\<And>w. P w \<Longrightarrow> P (tick w)) \<Longrightarrow> preserves P (encrypt E p)"
  by (simp add: preserves_def encrypt_def)

lemma no_throw_encrypt [nothrow]: "no_throw (encrypt E p)"
  by (simp add: no_throw_def encrypt_def)

text \<open>
  A concrete environment for the witnesses: an identity cipher with a constant tag, no
  faults, a clock that advances one second per step, numbered uuids, and hosts whose
  commands all succeed with no output.
\<close>

definition demo_app_config :: app_config where
  "demo_app_config = \<lparr>ac_nodeEnv = ''test'', ac_port = Some 3000, ac_databaseUrl = ''postgres://db'',
     ac_redisHost = ''redis'', ac_redisPort = Some 6379, ac_accessSecret = ''access-secret-16'',
     ac_accessExpiresIn = ''15m'', ac_refreshSecret = ''refresh-secret-16'', ac_refreshExpiresIn = ''7d'',
     ac_sshKeyEncryptionSecret = replicate 64 (CHR ''0''), ac_corsOrigins = [''http://localhost:5173''],
     ac_healthConcurrency = Some 5, ac_healthIntervalMs = Some 120000, ac_sshConnectTimeoutMs = Some 8000,
     ac_domainConcurrency = Some 5, ac_domainIntervalMs = Some 21600000, ac_dnsTimeoutMs = Some 5000,
     ac_whoisTimeoutMs = Some 9000, ac_tlsTimeoutMs = Some 8000\<rparr>"

definition demo_env :: env where
  "demo_env = \<lparr>db_fault = (\<lambda>_. None), queue_fault = (\<lambda>_. None), redis_fault = (\<lambda>_. None),
     clock = (\<lambda>n. 1000 * int n), fresh_uuid = (\<lambda>n. ''id-'' @ show_nat n),
     random_bytes = (\<lambda>n k. replicate k (CHR ''r'')), enc_key = replicate 32 (CHR ''k''),
     gcm_seal = (\<lambda>k iv p. (p, replicate 16 (CHR ''t''))),
     gcm_open = (\<lambda>k iv t c. if t = replicate 16 (CHR ''t'') then Inr c
        else Inl (JsError ''Error'' ''Unsupported state or unable to authenticate data'' None)),
     ssh_connect = (\<lambda>n opts. None),
     ssh_exec = (\<lambda>n opts c. Inr ('''', '''', Some 0)),
     http_post = (\<lambda>n url body. HttpResponse 200 ''ok''),
     dns_resolve4 = (\<lambda>n h. Settles 10 (Inr [''203.0.113.10''])),
     whois_record = (\<lambda>n h. Settles 10 (Inr [])),
     parse_date = (\<lambda>s. InvalidDate),
     tls_peer = (\<lambda>n ip h t. SecureConnect None),
     bcrypt_hash = (\<lambda>n p r. p), bcrypt_compare = (\<lambda>p h. p = h),
     jwt_sign = (\<lambda>k life t p. k @ json_stringify p),
     jwt_verify = (\<lambda>k t s. case json_parse (drop (length k) s) of
        Some v \<Rightarrow> if take (length k) s = k then Inr v else Inl (JsError ''JsonWebTokenError'' ''invalid signature'' None)
      | None \<Rightarrow> Inl (JsError ''JsonWebTokenError'' ''jwt malformed'' None)),
     ed25519_keypair = (\<lambda>n. (replicate 44 (CHR ''p''), replicate 48 (CHR ''s''))),
     app_conf = demo_app_config, text_rank = length,
     is_ip = (\<lambda>s. s \<noteq> []), is_fqdn = (\<lambda>s. s \<noteq> []), is_email = (\<lambda>s. CHR ''@'' \<in> set s), is_uuid = (\<lambda>s. s \<noteq> []),
     job_id = (\<lambda>n. show_nat n),
     syntax_message = (\<lambda>s. ''Unexpected end of JSON input'')\<rparr>"

definition empty_world :: world where
  "empty_world = \<lparr>organizations = [], users = [], cloud_accounts = [], hosts = [], services = [], snapshots = [], rollback_events = [], alert_rules = [],
     alert_logs = [], hc_logs = [], insight_states = [], domains = [], ssl_certificates = [],
     host_jobs = [], domain_jobs = [], rollback_jobs = [], schedulers = [], cooldown_keys = [], steps = 0\<rparr>"

lemma empty_world_simps [simp]:
  "organizations empty_world = []" "users empty_world = []" "cloud_accounts empty_world = []"
  "schedulers empty_world = []" "hosts empty_world = []" "services empty_world = []" "snapshots empty_world = []"
  "rollback_events empty_world = []" "alert_rules empty_world = []" "alert_logs empty_world = []"
  "hc_logs empty_world = []" "insight_states empty_world = []" "domains empty_world = []"
  "ssl_certificates empty_world = []" "host_jobs empty_world = []" "domain_jobs empty_world = []"
  "rollback_jobs empty_world = []" "cooldown_keys empty_world = []" "steps empty_world = 0"
  by (simp_all add: empty_world_def)

lemma clock_demo_env [simp]: "clock demo_env n = 1000 * int n"
  by (simp add: demo_env_def)

lemma demo_env_ok: "aead_ok demo_env" "no_db_fault demo_env" "no_queue_fault demo_env"
  by (auto simp: aead_ok_def demo_env_def no_db_fault_def no_queue_fault_def AUTH_TAG_LENGTH_BYTES_def)

theorem encrypt_decrypt_roundtrip_witness:
  "\<exists>c w'. encrypt demo_env ''secret'' empty_world = (Inr c, w') \<and> decrypt demo_env c = Inr ''secret''"
proof -
  obtain c w' where "encrypt demo_env ''secret'' empty_world = (Inr c, w')"
    by (simp add: encrypt_def)
  with encrypt_decrypt_roundtrip [OF demo_env_ok(1) this] show ?thesis by blast
qed

end
