(* ===== verification/Infra.thy ===== *)
theory Infra
  imports Crypto
begin

section \<open>Shared services: SSH, logs, timeouts, rate limits, fan-out\<close>

text \<open>
  \<open>src/ssh/ssh.service.ts\<close>, \<open>src/health-check-log/health-check-log.service.ts\<close> and the
  helpers of \<open>src/common/\<close>.
\<close>

subsection \<open>SshConnectionService\<close>

record ssh_result =
  sr_command :: string
  sr_stdout :: string
  sr_stderr :: string
  sr_exitCode :: "int option"

definition connect :: "env \<Rightarrow> ssh_options \<Rightarrow> unit action" where
  "connect E opts w = (case ssh_connect E (steps w) opts of
     Some e \<Rightarrow> (Inl e, tick w)
   | None \<Rightarrow> (Inr (), tick w))"

definition exec_command :: "env \<Rightarrow> ssh_options \<Rightarrow> string \<Rightarrow> ssh_result action" where
  "exec_command E opts command w = (case ssh_exec E (steps w) opts command of
     Inl e \<Rightarrow> (Inl e, tick w)
   | Inr (out, err, code) \<Rightarrow>
       (Inr \<lparr>sr_command = command, sr_stdout = out, sr_stderr = err, sr_exitCode = code\<rparr>, tick w))"

text \<open>
  One session: connect, run the commands in order. Disposing of the connection at the end
  has no effect on the model's state.
\<close>

definition run_commands :: "env \<Rightarrow> ssh_options \<Rightarrow> string list \<Rightarrow> ssh_result list action" where
  "run_commands E opts commands =
     andthen (connect E opts) (map_each commands (exec_command E opts))"

lemma preserves_connect [pres]: "(\<And>w. P w \<Longrightarrow> P (tick w)) \<Longrightarrow> preserves P (connect E opts)"
  by (auto simp: preserves_def connect_def split: option.splits)

lemma preserves_exec_command [pres]:
  "(\<And>w. P w \<Longrightarrow> P (tick w)) \<Longrightarrow> preserves P (exec_command E opts c)"
  by (auto simp: preserves_def exec_command_def split: sum.splits)

lemma preserves_run_commands [pres]:
  "(\<And>w. P w \<Longrightarrow> P (tick w)) \<Longrightarrow> preserves P (run_commands E opts cs)"
  unfolding run_commands_def by (intro pres)

lemma map_each_exec_commands:
  "map_each cs (exec_command E opts) w = (Inr rs, w') \<Longrightarrow> map sr_command rs = cs"
  by (induction cs arbitrary: w rs w')
     (auto simp: prog_simps exec_command_def split: sum.splits prod.splits)

text \<open>A session that resolves has one result per command, in order.\<close>

lemma run_commands_results:
  "run_commands E opts cs w = (Inr rs, w') \<Longrightarrow> map sr_command rs = cs"
  by (auto simp: run_commands_def prog_simps dest: map_each_exec_commands split: sum.splits prod.splits)

subsection \<open>Docker missing\<close>

definition DOCKER_NOT_INSTALLED_MARKERS :: "string list" where
  "DOCKER_NOT_INSTALLED_MARKERS = [''command not found'', ''not recognized'', ''no such file'']"

definition is_docker_missing :: "ssh_result \<Rightarrow> bool" where
  "is_docker_missing result =
    (if sr_exitCode result = Some 0 then False
     else let combined = to_lower (sr_stdout result @ '' '' @ sr_stderr result)
          in \<exists>marker \<in> set DOCKER_NOT_INSTALLED_MARKERS. str_includes combined marker)"

subsection \<open>HealthCheckLogService\<close>

definition write_hc_log :: "env \<Rightarrow> hc_entity_type \<Rightarrow> uuid \<Rightarrow> string \<Rightarrow> json \<Rightarrow> hc_log action" where
  "write_hc_log E entityType entityId status rawOutput =
     repo_insert E hc_logs (\<lambda>t w. w\<lparr>hc_logs := t\<rparr>) hlog_id (\<lambda>_ _. False)
       (\<lambda>i d. \<lparr>hlog_id = i, hlog_entityType = entityType, hlog_entityId = entityId,
               hlog_status = status, hlog_rawOutput = rawOutput, hlog_checkedAt = d\<rparr>)"

definition RECENT_LOGS_LIMIT :: nat where "RECENT_LOGS_LIMIT = 20"

definition find_recent :: "env \<Rightarrow> hc_entity_type list \<Rightarrow> uuid \<Rightarrow> nat \<Rightarrow> hc_log list action" where
  "find_recent E entityTypes entityId limit =
     bind (repo_find E hc_logs (\<lambda>l. hlog_entityType l \<in> set entityTypes \<and> hlog_entityId l = entityId))
       (\<lambda>ls. ret (take limit (sort_key (\<lambda>l. - hlog_checkedAt l) ls)))"

lemma preserves_write_hc_log [pres]:
  assumes "\<And>w. P w \<Longrightarrow> P (tick w)" and "\<And>w l. P w \<Longrightarrow> P (w\<lparr>hc_logs := hc_logs w @ [l]\<rparr>)"
  shows "preserves P (write_hc_log E ty i st raw)"
  unfolding write_hc_log_def by (intro preserves_repo_insert) (use assms in auto)

subsection \<open>withTimeout\<close>

text \<open>
  \<open>src/common/utils/with-timeout.ts\<close>: whichever comes first, the promise or the timer. The
  timer is armed first, so at the same instant it wins.
\<close>

text \<open>A number in a template literal, and the delay \<open>setTimeout\<close> really uses for it.\<close>

definition show_number :: "int option \<Rightarrow> string" where
  "show_number n = (case n of None \<Rightarrow> ''NaN'' | Some i \<Rightarrow> show_int i)"

definition timer_delay :: "int option \<Rightarrow> nat" where
  "timer_delay n = (case n of
     Some i \<Rightarrow> if 1 \<le> i \<and> i \<le> 2 ^ 31 - 1 then nat i else 1
   | None \<Rightarrow> 1)"

definition with_timeout :: "'a promise \<Rightarrow> int option \<Rightarrow> string \<Rightarrow> js_error + 'a" where
  "with_timeout p timeoutMs label =
    (let timed_out = Inl (JsError ''TimeoutError''
            (label @ '' timed out after '' @ show_number timeoutMs @ ''ms'') None)
     in case p of
          NeverSettles \<Rightarrow> timed_out
        | Settles d r \<Rightarrow> if d < timer_delay timeoutMs then r else timed_out)"

text \<open>When the returned promise settles.\<close>

definition settle_time :: "'a promise \<Rightarrow> int option \<Rightarrow> nat" where
  "settle_time p timeoutMs = (case p of
     NeverSettles \<Rightarrow> timer_delay timeoutMs
   | Settles d _ \<Rightarrow> min d (timer_delay timeoutMs))"

lemma settle_time_bound: "settle_time p timeoutMs \<le> timer_delay timeoutMs"
  by (cases p) (simp_all add: settle_time_def)

subsection \<open>RateLimiterService\<close>

text \<open>
  \<open>src/common/rate-limit/rate-limiter.service.ts\<close>: \<open>SET key 1 EX window NX\<close> succeeds iff the
  key is not there or has expired.
\<close>

definition try_acquire :: "env \<Rightarrow> string \<Rightarrow> int \<Rightarrow> bool action" where
  "try_acquire E key windowSeconds w =
    (case redis_fault E (steps w) of
       Some e \<Rightarrow> (Inl e, tick w)
     | None \<Rightarrow>
       (let t = clock E (steps w) in
        case map_of (cooldown_keys w) key of
          Some expiry \<Rightarrow>
            if t < expiry then (Inr False, tick w)
            else (Inr True, tick (w\<lparr>cooldown_keys := (key, t + 1000 * windowSeconds) # cooldown_keys w\<rparr>))
        | None \<Rightarrow> (Inr True, tick (w\<lparr>cooldown_keys := (key, t + 1000 * windowSeconds) # cooldown_keys w\<rparr>))))"

lemma preserves_try_acquire [pres]:
  assumes "\<And>w. P w \<Longrightarrow> P (tick w)" and "\<And>w k. P w \<Longrightarrow> P (w\<lparr>cooldown_keys := k\<rparr>)"
  shows "preserves P (try_acquire E key n)"
  using assms by (auto simp: preserves_def try_acquire_def Let_def split: option.splits)

subsection \<open>Fan-out\<close>

text \<open>
  \<open>src/common/bullmq/fan-out.util.ts\<close>: one job per id. The \<open>add\<close> calls are all started
  before any is awaited, so a rejected one does not stop the others; the whole call rejects
  if any did.
\<close>

fun enqueue_all :: "env \<Rightarrow> (uuid \<Rightarrow> world \<Rightarrow> world) \<Rightarrow> uuid list \<Rightarrow> world \<Rightarrow> js_error option \<times> world" where
  "enqueue_all E push [] w = (None, w)"
| "enqueue_all E push (i # is) w =
    (let (r, w') = queue_add E push i w; (e, w'') = enqueue_all E push is w'
     in ((case r of Inl e' \<Rightarrow> Some e' | Inr _ \<Rightarrow> e), w''))"

definition enqueue_per_entity_jobs :: "env \<Rightarrow> (uuid \<Rightarrow> world \<Rightarrow> world) \<Rightarrow> uuid list \<Rightarrow> unit action" where
  "enqueue_per_entity_jobs E push ids w =
    (case enqueue_all E push ids w of
       (Some e, w') \<Rightarrow> (Inl e, w')
     | (None, w') \<Rightarrow> (Inr (), w'))"

definition push_host_job :: "uuid \<Rightarrow> world \<Rightarrow> world" where
  "push_host_job i w = w\<lparr>host_jobs := host_jobs w @ [i]\<rparr>"

definition push_domain_job :: "uuid \<Rightarrow> world \<Rightarrow> world" where
  "push_domain_job i w = w\<lparr>domain_jobs := domain_jobs w @ [i]\<rparr>"

definition push_rollback_job :: "uuid \<Rightarrow> world \<Rightarrow> world" where
  "push_rollback_job i w = w\<lparr>rollback_jobs := rollback_jobs w @ [i]\<rparr>"

subsection \<open>Repeatable ticks\<close>

text \<open>
  \<open>src/common/bullmq/repeatable-tick.util.ts\<close>: \<open>upsertJobScheduler\<close> replaces the scheduler with
  this id on the queue, or adds it.
\<close>

definition upsert_repeatable_tick :: "env \<Rightarrow> string \<Rightarrow> string \<Rightarrow> int option \<Rightarrow> string \<Rightarrow> unit action" where
  "upsert_repeatable_tick E queue schedulerId intervalMs tickJobName w =
    (case queue_fault E (steps w) of
       Some e \<Rightarrow> (Inl e, tick w)
     | None \<Rightarrow> (Inr (), tick (w\<lparr>schedulers :=
         filter (\<lambda>s. \<not> (sch_queue s = queue \<and> sch_id s = schedulerId)) (schedulers w)
         @ [\<lparr>sch_queue = queue, sch_id = schedulerId, sch_every = intervalMs, sch_jobName = tickJobName\<rparr>]\<rparr>)))"

end
