(* ===== verification/Docker.thy ===== *)
theory Docker
  imports Infra
begin

section \<open>Docker: output parsers, status classifier, run command\<close>

text \<open>
  \<open>src/services/docker-ps-parser.ts\<close>, \<open>container-status-classifier.ts\<close>,
  \<open>src/deployment-snapshots/docker-inspect-parser.ts\<close> and
  \<open>src/rollback/docker-run-command.builder.ts\<close>.

  The parsers cast the JSON they read to an interface without checking it. Docker prints
  strings in every field the code reads; a value of another JSON type, which the code would
  pass on unchecked, is a \<open>TypeError\<close> in the model.
\<close>

definition type_error :: "string \<Rightarrow> js_error" where
  "type_error m = JsError ''TypeError'' m None"

subsection \<open>docker ps\<close>

record docker_ps_container =
  dc_id :: string
  dc_names :: string
  dc_image :: string
  dc_status :: string
  dc_ports :: string

text \<open>A property that must be truthy: \<open>Inr None\<close> when it is not.\<close>

definition required_string :: "json \<Rightarrow> string \<Rightarrow> js_error + string option" where
  "required_string v k = (case json_prop v k of
     None \<Rightarrow> Inr None
   | Some x \<Rightarrow> if \<not> truthy x then Inr None
     else (case x of JStr s \<Rightarrow> Inr (Some s) | _ \<Rightarrow> Inl (type_error ''not a string'')))"

text \<open>\<open>v.k ?? ''\<close>.\<close>

definition string_or_empty :: "json option \<Rightarrow> js_error + string" where
  "string_or_empty x = (case x of
     None \<Rightarrow> Inr []
   | Some JNull \<Rightarrow> Inr []
   | Some (JStr s) \<Rightarrow> Inr s
   | Some _ \<Rightarrow> Inl (type_error ''not a string''))"

definition parse_line :: "string \<Rightarrow> js_error + docker_ps_container option" where
  "parse_line line =
    (case json_parse line of
       None \<Rightarrow> Inr None
     | Some JNull \<Rightarrow> Inl (type_error ''Cannot read properties of null (reading 'ID')'')
     | Some v \<Rightarrow>
       (case (required_string v ''ID'', required_string v ''Names'',
              required_string v ''Image'', required_string v ''Status'',
              string_or_empty (json_prop v ''Ports'')) of
          (Inr (Some i), Inr (Some n), Inr (Some im), Inr (Some st), Inr p) \<Rightarrow>
            Inr (Some \<lparr>dc_id = i, dc_names = n, dc_image = im, dc_status = st, dc_ports = p\<rparr>)
        | (Inr (Some i), Inr (Some n), Inr (Some im), Inr (Some st), Inl e) \<Rightarrow> Inl e
        | (Inl e, _) \<Rightarrow> Inl e
        | (Inr None, _) \<Rightarrow> Inr None
        | (_, Inl e, _) \<Rightarrow> Inl e
        | (_, Inr None, _) \<Rightarrow> Inr None
        | (_, _, Inl e, _) \<Rightarrow> Inl e
        | (_, _, Inr None, _) \<Rightarrow> Inr None
        | (_, _, _, Inl e, _) \<Rightarrow> Inl e
        | (_, _, _, Inr None, _) \<Rightarrow> Inr None))"

definition output_lines :: "string \<Rightarrow> string list" where
  "output_lines stdout =
     filter (\<lambda>line. line \<noteq> []) (map trim (split_on (CHR 0x0A) stdout))"

fun parse_lines :: "string list \<Rightarrow> docker_ps_container list \<Rightarrow> nat \<Rightarrow>
    js_error + docker_ps_container list \<times> nat" where
  "parse_lines [] containers skipped = Inr (containers, skipped)"
| "parse_lines (line # rest) containers skipped =
    (case parse_line line of
       Inl e \<Rightarrow> Inl e
     | Inr (Some c) \<Rightarrow> parse_lines rest (containers @ [c]) skipped
     | Inr None \<Rightarrow> parse_lines rest containers (skipped + 1))"

definition parse_docker_ps_output :: "string \<Rightarrow> js_error + docker_ps_container list \<times> nat" where
  "parse_docker_ps_output stdout = parse_lines (output_lines stdout) [] 0"

text \<open>The containers of the readable lines, in order.\<close>

definition readable :: "string \<Rightarrow> docker_ps_container option" where
  "readable line = (case parse_line line of Inr r \<Rightarrow> r | Inl _ \<Rightarrow> None)"

lemma parse_lines_eq:
  "parse_lines ls cs n =
    (case List.find (\<lambda>l. isl (parse_line l)) ls of
       Some l \<Rightarrow> Inl (projl (parse_line l))
     | None \<Rightarrow> Inr (cs @ List.map_filter readable ls, n + length (filter (\<lambda>l. readable l = None) ls)))"
proof (induction ls arbitrary: cs n)
  case (Cons l ls)
  show ?case
  proof (cases "parse_line l")
    case (Inr r)
    then have "readable l = r" by (simp add: readable_def)
    with Inr show ?thesis
      by (cases r) (simp_all add: Cons.IH List.map_filter_simps split: option.splits)
  qed simp
qed (simp add: List.map_filter_simps)


text \<open>
  A line that is the JSON text \<open>null\<close> is not skipped: reading its \<open>ID\<close> throws, and the
  readable lines around it are lost with it.
\<close>

lemma null_line_loses_listing:
  assumes "''null'' \<in> set (output_lines stdout)"
  shows "\<exists>e. parse_docker_ps_output stdout = Inl e"
proof -
  have "json_parse ''null'' = Some JNull"
    using json_roundtrip [of JNull] by simp
  then have "isl (parse_line ''null'')" by (simp add: parse_line_def)
  then have "List.find (\<lambda>l. isl (parse_line l)) (output_lines stdout) \<noteq> None"
    using assms by (auto simp: find_None_iff)
  then show ?thesis by (auto simp: parse_docker_ps_output_def parse_lines_eq)
qed

lemma null_line_loses_listing_witness:
  "\<exists>e. parse_docker_ps_output (''null'' @ [CHR 0x0A] @ ''{}'') = Inl e"
proof -
  have "''null'' \<in> set (output_lines (''null'' @ [CHR 0x0A] @ ''{}''))"
    by (simp add: output_lines_def trim_visible visible_def)
  then show ?thesis by (rule null_line_loses_listing)
qed

subsection \<open>Image references\<close>

definition split_image_and_tag :: "string \<Rightarrow> string \<times> string option" where
  "split_image_and_tag rawImage =
    (if rawImage = [] then (rawImage, None)
     else if str_includes rawImage ''@'' then (rawImage, None)
     else
       (let lastSlash = last_index_of (CHR ''/'') rawImage;
            lastSegment = (if lastSlash = -1 then rawImage else drop (nat (lastSlash + 1)) rawImage);
            colonIndexInSegment = last_index_of (CHR '':'') lastSegment
        in if colonIndexInSegment = -1 then (rawImage, None)
           else
             (let absoluteColonIndex = lastSlash + 1 + colonIndexInSegment
              in (take (nat absoluteColonIndex) rawImage,
                  Some (drop (nat (absoluteColonIndex + 1)) rawImage)))))"

lemma append_split3: "x = a @ y \<Longrightarrow> y = b @ c # z \<Longrightarrow> x = (a @ b) @ [c] @ z"
  by simp

lemma last_segment:
  fixes s :: string
  defines "i \<equiv> last_index_of (CHR ''/'') s"
  defines "seg \<equiv> (if i = -1 then s else drop (nat (i + 1)) s)"
  shows "s = take (nat (i + 1)) s @ seg" "CHR ''/'' \<notin> set seg" "-1 \<le> i" "nat (i + 1) \<le> length s"
proof -
  have b: "-1 \<le> i \<and> i < int (length s)" unfolding i_def by (rule last_index_of_bounds)
  show "-1 \<le> i" "nat (i + 1) \<le> length s" using b by auto
  show "s = take (nat (i + 1)) s @ seg" unfolding seg_def by auto
  show "CHR ''/'' \<notin> set seg"
  proof (cases "i = -1")
    case True
    then show ?thesis using last_index_of_absent [of "CHR ''/''" s] by (simp add: seg_def i_def)
  next
    case False
    with b have "0 \<le> i" by simp
    with last_index_of_split [of "CHR ''/''" s] False show ?thesis
      by (simp add: seg_def i_def nat_add_distrib)
  qed
qed

text \<open>
  A tag is split off only after the last slash, so a registry's \<open>host:port\<close> is never
  mistaken for one: the parts put together again are the reference, the tag contains neither
  a slash nor a colon, and there is no tag exactly for the empty reference, a digest
  reference, or a last path segment without a colon.
\<close>

lemma split_image_and_tag_correct:
  "case split_image_and_tag raw of
     (img, None) \<Rightarrow> img = raw \<and>
        (raw = [] \<or> CHR ''@'' \<in> set raw
         \<or> (\<exists>a seg. raw = a @ seg \<and> CHR ''/'' \<notin> set seg \<and> CHR '':'' \<notin> set seg
              \<and> (a = [] \<or> last a = CHR ''/'')))
   | (img, Some tag) \<Rightarrow> raw = img @ '':'' @ tag \<and> CHR ''/'' \<notin> set tag \<and> CHR '':'' \<notin> set tag"
proof -
  let ?i = "last_index_of (CHR ''/'') raw"
  let ?seg = "if ?i = -1 then raw else drop (nat (?i + 1)) raw"
  let ?c = "last_index_of (CHR '':'') ?seg"
  note seg = last_segment [of raw]
  have at: "str_includes raw ''@'' \<longleftrightarrow> CHR ''@'' \<in> set raw"
    by (induction raw) auto
  show ?thesis
  proof (cases "raw = [] \<or> CHR ''@'' \<in> set raw")
    case True
    then show ?thesis by (auto simp: split_image_and_tag_def at)
  next
    case plain: False
    show ?thesis
    proof (cases "?c = -1")
      case True
      have "CHR '':'' \<notin> set ?seg" using True last_index_of_absent [of "CHR '':''" ?seg] by simp
      moreover have "take (nat (?i + 1)) raw = [] \<or> last (take (nat (?i + 1)) raw) = CHR ''/''"
      proof (cases "?i = -1")
        case False
        with seg(3) have i: "0 \<le> ?i" by simp
        have "take (nat (?i + 1)) raw = take (nat ?i) raw @ [CHR ''/'']"
        proof -
          have "nat (?i + 1) = Suc (nat ?i)" "nat ?i < length raw"
            using i last_index_of_bounds [of "CHR ''/''" raw] by auto
          moreover have "raw ! nat ?i = CHR ''/''"
            using last_index_of_split [OF i] calculation(2)
            by (metis nth_append_length length_take min.absorb4)
          ultimately show ?thesis by (simp add: take_Suc_conv_app_nth)
        qed
        then show ?thesis by simp
      qed simp
      ultimately have "\<exists>a seg. raw = a @ seg \<and> CHR ''/'' \<notin> set seg \<and> CHR '':'' \<notin> set seg
          \<and> (a = [] \<or> last a = CHR ''/'')"
        using seg(1,2) by blast
      moreover have "split_image_and_tag raw = (raw, None)"
        using True plain by (auto simp: split_image_and_tag_def at Let_def)
      ultimately show ?thesis by simp
    next
      case False
      with last_index_of_bounds [of "CHR '':''" ?seg] have c: "0 \<le> ?c" "?c < int (length ?seg)" by linarith+
      let ?tag = "drop (nat ?c + 1) ?seg"
      have s: "?seg = take (nat ?c) ?seg @ CHR '':'' # ?tag" "CHR '':'' \<notin> set ?tag"
        using last_index_of_split [OF c(1)] by auto
      have n: "nat (?i + 1 + ?c) = nat (?i + 1) + nat ?c" "nat (?i + 1 + ?c + 1) = nat (?i + 1) + (nat ?c + 1)"
        using seg(3) c(1) by auto
      have t: "take (nat (?i + 1 + ?c)) raw = take (nat (?i + 1)) raw @ take (nat ?c) ?seg"
        unfolding n by (subst (1) seg(1)) (use seg(4) in \<open>simp add: take_add [symmetric]\<close>)
      have d: "drop (nat (?i + 1 + ?c + 1)) raw = ?tag"
        unfolding n by (auto simp: drop_drop [symmetric] add.commute)
      let ?img = "take (nat (?i + 1)) raw @ take (nat ?c) ?seg"
      have "split_image_and_tag raw = (take (nat (?i + 1 + ?c)) raw, Some (drop (nat (?i + 1 + ?c + 1)) raw))"
        using False plain by (auto simp: split_image_and_tag_def at Let_def)
      then have r: "split_image_and_tag raw = (?img, Some ?tag)" unfolding t d .
      have "raw = ?img @ '':'' @ ?tag" by (rule append_split3 [OF seg(1) s(1)])
      moreover have "CHR ''/'' \<notin> set ?tag" using seg(2) by (meson in_set_dropD)
      ultimately show ?thesis unfolding r prod.case option.case using s(2) by blast
    qed
  qed
qed

subsection \<open>Container status\<close>

definition classify_container_status :: "string \<Rightarrow> service_status" where
  "classify_container_status status =
    (if str_includes status ''Restarting'' then SS_CRASH_LOOP
     else if str_includes status ''Up'' then
       (if str_includes status ''(unhealthy)'' then SS_UNHEALTHY else SS_RUNNING)
     else if str_includes status ''Exited'' then SS_STOPPED
     else SS_UNKNOWN)"

lemma classify_container_status_order:
  "(classify_container_status s = SS_CRASH_LOOP \<longleftrightarrow> sublist ''Restarting'' s)
   \<and> (classify_container_status s = SS_RUNNING \<longleftrightarrow>
        sublist ''Up'' s \<and> \<not> sublist ''Restarting'' s \<and> \<not> sublist ''(unhealthy)'' s)
   \<and> (classify_container_status s = SS_UNHEALTHY \<longleftrightarrow>
        sublist ''Up'' s \<and> sublist ''(unhealthy)'' s \<and> \<not> sublist ''Restarting'' s)
   \<and> (classify_container_status s = SS_UNKNOWN \<longleftrightarrow>
        (\<forall>k \<in> {''Restarting'', ''Up'', ''Exited''}. \<not> sublist k s))"
  by (simp add: classify_container_status_def str_includes_iff)

end
