(* ===== verification/Deploy.thy ===== *)
theory Deploy
  imports Docker
begin

section \<open>Deployment config: reading it from Docker, running it again\<close>

text \<open>
  \<open>src/deployment-snapshots/docker-inspect-parser.ts\<close>, which reads a container's config from
  \<open>docker inspect\<close>, and \<open>src/rollback/docker-run-command.builder.ts\<close>, which builds the shell
  command that runs a container with that config again. The command is judged against the
  word-splitting rules of a POSIX shell (\<open>sh_lex\<close>).
\<close>

record deployment_config =
  cfg_containerName :: string
  cfg_env :: "string list"
  cfg_portBindings :: "string list"
  cfg_restartPolicy :: string

subsection \<open>docker inspect\<close>

text \<open>\<open>x?.k\<close> and \<open>x ?? d\<close>.\<close>

definition opt_prop :: "json option \<Rightarrow> string \<Rightarrow> json option" where
  "opt_prop x k = (case x of None \<Rightarrow> None | Some v \<Rightarrow> json_prop v k)"

definition nullish_or :: "json option \<Rightarrow> json \<Rightarrow> json" where
  "nullish_or x d = (case x of None \<Rightarrow> d | Some JNull \<Rightarrow> d | Some v \<Rightarrow> v)"

text \<open>What \<open>for (const binding of v)\<close> runs over. The characters of a string have no \<open>HostPort\<close>.\<close>

fun binding_items :: "json \<Rightarrow> js_error + json list" where
  "binding_items (JArr xs) = Inr xs"
| "binding_items (JStr s) = Inr []"
| "binding_items _ = Inl (type_error ''bindings is not iterable'')"

fun entries_of :: "json \<Rightarrow> (string \<times> json) list" where
  "entries_of (JObj kvs) = object_entries kvs"
| "entries_of (JArr xs) = zip (map show_nat [0 ..< length xs]) xs"
| "entries_of _ = []"

fun published :: "string \<Rightarrow> json list \<Rightarrow> js_error + string list" where
  "published containerPort [] = Inr []"
| "published containerPort (binding # rest) =
    (if binding = JNull then Inl (type_error ''Cannot read properties of null (reading 'HostPort')'')
     else case required_string binding ''HostPort'' of
       Inl e \<Rightarrow> Inl e
     | Inr None \<Rightarrow> published containerPort rest
     | Inr (Some hostPort) \<Rightarrow>
         map_sum id (Cons (hostPort @ '':'' @ containerPort)) (published containerPort rest))"

fun flatten_entries :: "(string \<times> json) list \<Rightarrow> js_error + string list" where
  "flatten_entries [] = Inr []"
| "flatten_entries ((containerPort, bindings) # rest) =
    (case binding_items (nullish_or (Some bindings) (JArr [])) of
       Inl e \<Rightarrow> Inl e
     | Inr items \<Rightarrow>
       (case published containerPort items of
          Inl e \<Rightarrow> Inl e
        | Inr ps \<Rightarrow> map_sum id (\<lambda>qs. ps @ qs) (flatten_entries rest)))"

definition flatten_port_bindings :: "json \<Rightarrow> js_error + string list" where
  "flatten_port_bindings portBindings = flatten_entries (entries_of portBindings)"

text \<open>\<open>parsed[0]\<close>, with \<open>None\<close> for a falsy or missing element.\<close>

fun first_element :: "json \<Rightarrow> js_error + json option" where
  "first_element JNull = Inl (type_error ''Cannot read properties of null (reading '0')'')"
| "first_element (JArr (x # xs)) = Inr (if truthy x then Some x else None)"
| "first_element (JObj kvs) =
     Inr (case map_of kvs ''0'' of Some x \<Rightarrow> if truthy x then Some x else None | None \<Rightarrow> None)"
| "first_element (JStr (c # s)) = Inr (Some (JStr [c]))"
| "first_element _ = Inr None"

fun string_items :: "json list \<Rightarrow> js_error + string list" where
  "string_items [] = Inr []"
| "string_items (JStr s # rest) = map_sum id (Cons s) (string_items rest)"
| "string_items (_ # rest) = Inl (type_error ''not a string'')"

definition string_array :: "json \<Rightarrow> js_error + string list" where
  "string_array v = (case v of JArr xs \<Rightarrow> string_items xs | _ \<Rightarrow> Inl (type_error ''not an array''))"

definition strip_slash :: "string \<Rightarrow> string" where
  "strip_slash s = (case s of [] \<Rightarrow> [] | c # cs \<Rightarrow> if c = CHR ''/'' then cs else s)"

definition parse_docker_inspect_output :: "string \<Rightarrow> js_error + deployment_config option" where
  "parse_docker_inspect_output stdout =
    (case json_parse stdout of
       None \<Rightarrow> Inr None
     | Some parsed \<Rightarrow>
    (case first_element parsed of
       Inl e \<Rightarrow> Inl e
     | Inr None \<Rightarrow> Inr None
     | Inr (Some container) \<Rightarrow>
    (case (string_or_empty (json_prop container ''Name''),
           string_array (nullish_or (opt_prop (json_prop container ''Config'') ''Env'') (JArr [])),
           string_or_empty (opt_prop (opt_prop (json_prop container ''HostConfig'') ''RestartPolicy'') ''Name''),
           flatten_port_bindings
             (nullish_or (opt_prop (json_prop container ''HostConfig'') ''PortBindings'') (JObj []))) of
       (Inl e, _) \<Rightarrow> Inl e
     | (_, Inl e, _) \<Rightarrow> Inl e
     | (_, _, Inl e, _) \<Rightarrow> Inl e
     | (_, _, _, Inl e) \<Rightarrow> Inl e
     | (Inr name, Inr env, Inr restartPolicy, Inr portBindings) \<Rightarrow>
         (let containerName = strip_slash name in
          if containerName = [] then Inr None
          else Inr (Some \<lparr>cfg_containerName = containerName, cfg_env = env,
                          cfg_portBindings = portBindings, cfg_restartPolicy = restartPolicy\<rparr>)))))"

text \<open>
  What Docker prints for a container: the fields the code reads, among others. A port is
  exposed with a list of host ports, or with \<open>null\<close> when it is not published.
\<close>

definition binding_json :: "string option \<times> string \<Rightarrow> json" where
  "binding_json hp = JObj [(''HostIp'', JStr (snd hp)),
     (''HostPort'', case fst hp of None \<Rightarrow> JNull | Some p \<Rightarrow> JStr p)]"

definition ports_json :: "(string \<times> (string option \<times> string) list option) list \<Rightarrow> json" where
  "ports_json ports = JObj (map (\<lambda>(cp, bs).
     (cp, case bs of None \<Rightarrow> JNull | Some hps \<Rightarrow> JArr (map binding_json hps))) ports)"

definition inspect_json :: "string \<Rightarrow> string list \<Rightarrow>
    (string \<times> (string option \<times> string) list option) list \<Rightarrow> string \<Rightarrow> json" where
  "inspect_json name env ports restart = JArr [JObj [
     (''Id'', JStr ''8f1d''), (''Name'', JStr name),
     (''HostConfig'', JObj [(''PortBindings'', ports_json ports),
        (''RestartPolicy'', JObj [(''Name'', JStr restart), (''MaximumRetryCount'', JNum ''0'')])]),
     (''Config'', JObj [(''Hostname'', JStr ''8f1d''), (''Env'', JArr (map JStr env))])]]"

text \<open>The published bindings, in \<open>docker run -p\<close> form.\<close>

definition published_bindings :: "string \<Rightarrow> (string option \<times> string) list option \<Rightarrow> string list" where
  "published_bindings containerPort bs = (case bs of None \<Rightarrow> []
     | Some hps \<Rightarrow> [p @ '':'' @ containerPort. (Some p, _) \<leftarrow> hps, p \<noteq> []])"

lemma object_entries_map:
  "object_entries (map (\<lambda>(k, v). (k, f k v)) kvs) = map (\<lambda>(k, v). (k, f k v)) (object_entries kvs)"
  by (simp add: object_entries_def filter_map sort_key_map comp_def case_prod_beta)

lemma published_bindings_json:
  "published cp (map binding_json hps) = Inr (published_bindings cp (Some hps))"
  by (induction hps)
     (auto simp: published_bindings_def binding_json_def required_string_def split: option.splits)

lemma flatten_ports_json:
  "flatten_entries (map (\<lambda>(cp, bs).
       (cp, case bs of None \<Rightarrow> JNull | Some hps \<Rightarrow> JArr (map binding_json hps))) ports)
   = Inr (concat (map (\<lambda>(cp, bs). published_bindings cp bs) ports))"
proof (induction ports)
  case (Cons p ports)
  obtain cp bs where "p = (cp, bs)" by force
  with Cons show ?case
    by (cases bs) (simp_all add: nullish_or_def published_bindings_json published_bindings_def)
qed simp

lemma flatten_port_bindings_json:
  "flatten_port_bindings (ports_json ports)
   = Inr (concat (map (\<lambda>(cp, bs). published_bindings cp bs) (object_entries ports)))"
  using object_entries_map [of "\<lambda>cp bs. case bs of None \<Rightarrow> JNull | Some hps \<Rightarrow> JArr (map binding_json hps)" ports]
  by (simp add: flatten_port_bindings_def ports_json_def flatten_ports_json)

lemma string_items_map [simp]: "string_items (map JStr ss) = Inr ss"
  by (induction ss) simp_all

lemma json_wf_inspect:
  "distinct (map fst ports) \<Longrightarrow> json_wf (inspect_json name env ports restart)"
  by (auto simp: inspect_json_def ports_json_def binding_json_def comp_def case_prod_beta
      valid_num_def valid_frac_def num_char_def is_digit_def strip_char_def split: option.splits)

text \<open>
  C18. Reading what \<open>docker inspect\<close> prints for a container gives its config: the name without
  its slash, the environment and the restart policy unchanged, and one \<open>-p\<close> string per
  published host port, in the order of \<open>Object.entries\<close>; exposed ports that are not
  published, and bindings without a host port, leave nothing behind.
\<close>

theorem parse_docker_inspect_output_captures:
  assumes "distinct (map fst ports)" and "strip_slash name \<noteq> []"
  shows "parse_docker_inspect_output (json_stringify (inspect_json name env ports restart)) =
    Inr (Some \<lparr>cfg_containerName = strip_slash name, cfg_env = env,
      cfg_portBindings = concat (map (\<lambda>(cp, bs). published_bindings cp bs) (object_entries ports)),
      cfg_restartPolicy = restart\<rparr>)"
proof -
  have nn: "ports_json ports \<noteq> JNull" "nullish_or (Some (ports_json ports)) d = ports_json ports" for d
    by (simp_all add: ports_json_def nullish_or_def)
  show ?thesis
    unfolding parse_docker_inspect_output_def json_roundtrip [OF json_wf_inspect [OF assms(1)]]
    using assms(2)
    by (simp add: inspect_json_def opt_prop_def nn flatten_port_bindings_json string_or_empty_def
        string_array_def nullish_or_def [of "Some (JArr _)"])
qed

theorem parse_docker_inspect_output_captures_witness:
  "parse_docker_inspect_output (json_stringify (inspect_json ''/web'' [''A=1'']
      [(''80/tcp'', Some [(Some ''8080'', ''0.0.0.0'')]), (''443/tcp'', None)] ''always'')) =
    Inr (Some \<lparr>cfg_containerName = ''web'', cfg_env = [''A=1''],
      cfg_portBindings = [''8080:80/tcp''], cfg_restartPolicy = ''always''\<rparr>)"
proof -
  let ?p = "[(''80/tcp'', Some [(Some ''8080'', ''0.0.0.0'')]), (''443/tcp'', None)]"
  have "concat (map (\<lambda>(cp, bs). published_bindings cp bs) (object_entries ?p)) = [''8080:80/tcp'']"
    by code_simp
  moreover have "strip_slash ''/web'' = ''web''" by (simp add: strip_slash_def)
  ultimately show ?thesis
    using parse_docker_inspect_output_captures [of ?p "''/web''" "[''A=1'']" "''always''"] by simp
qed

subsection \<open>docker run\<close>

definition shell_escape :: "string \<Rightarrow> string" where
  "shell_escape value =
     [CHR 0x27] @ concat (map (\<lambda>c. if c = CHR 0x27 then [CHR 0x27, CHR 0x5C, CHR 0x27, CHR 0x27] else [c]) value)
     @ [CHR 0x27]"

definition docker_run_parts :: "deployment_config \<Rightarrow> string \<Rightarrow> string list" where
  "docker_run_parts config imageTag =
     [''docker'', ''run'', ''-d'', ''--name'', shell_escape (cfg_containerName config)]
     @ concat (map (\<lambda>portBinding. [''-p'', shell_escape portBinding]) (cfg_portBindings config))
     @ concat (map (\<lambda>envVar. [''-e'', shell_escape envVar]) (cfg_env config))
     @ (if cfg_restartPolicy config \<noteq> [] then [''--restart'', shell_escape (cfg_restartPolicy config)] else [])
     @ [shell_escape imageTag]"

definition build_docker_run_command :: "deployment_config \<Rightarrow> string \<Rightarrow> string" where
  "build_docker_run_command config imageTag = join_with '' '' (docker_run_parts config imageTag)"

subsection \<open>Word splitting of a POSIX shell\<close>

text \<open>
  The part of the shell's token recognition that a single simple command needs: blanks
  separate words, single quotes keep everything up to the next one, a backslash keeps the
  next character. Any other character with a meaning to the shell, an unclosed quote, and
  NUL (which no argument can contain) give \<open>None\<close>: the text is not one plain command.
\<close>

datatype lex_mode = Unquoted | SingleQuoted | Escaped

definition plain_char :: "char \<Rightarrow> bool" where
  "plain_char c = (c \<in> set ''abcdefghijklmnopqrstuvwxyzABCDEFGHIJKLMNOPQRSTUVWXYZ0123456789-_./:@%+,'')"

definition word_of :: "string option \<Rightarrow> string" where
  "word_of w = (case w of None \<Rightarrow> [] | Some x \<Rightarrow> x)"

fun sh_lex :: "lex_mode \<Rightarrow> string option \<Rightarrow> string \<Rightarrow> string list option" where
  "sh_lex Unquoted w [] = Some (case w of None \<Rightarrow> [] | Some x \<Rightarrow> [x])"
| "sh_lex SingleQuoted w [] = None"
| "sh_lex Escaped w [] = None"
| "sh_lex Unquoted w (c # s) =
    (if c = CHR '' '' then
       (case w of None \<Rightarrow> sh_lex Unquoted None s | Some x \<Rightarrow> map_option (Cons x) (sh_lex Unquoted None s))
     else if c = CHR 0x27 then sh_lex SingleQuoted (Some (word_of w)) s
     else if c = CHR 0x5C then sh_lex Escaped (Some (word_of w)) s
     else if plain_char c then sh_lex Unquoted (Some (word_of w @ [c])) s
     else None)"
| "sh_lex SingleQuoted w (c # s) =
    (if c = CHR 0x27 then sh_lex Unquoted w s
     else if c = CHR 0x00 then None
     else sh_lex SingleQuoted (Some (word_of w @ [c])) s)"
| "sh_lex Escaped w (c # s) =
    (if c = CHR 0x00 \<or> c = CHR 0x0A then None else sh_lex Unquoted (Some (word_of w @ [c])) s)"

definition no_nul :: "string \<Rightarrow> bool" where
  "no_nul s = (CHR 0x00 \<notin> set s)"

subsection \<open>Interface: quoting\<close>

text \<open>
  What a command builder relies on: wherever a quoted value stands in a command, the shell
  appends exactly the value to the word it is reading and goes on behind it.
\<close>

datatype arg = Bare string | Quoted string

fun render :: "(string \<Rightarrow> string) \<Rightarrow> arg \<Rightarrow> string" where
  "render quote (Bare s) = s"
| "render quote (Quoted v) = quote v"

fun arg_value :: "arg \<Rightarrow> string" where
  "arg_value (Bare s) = s"
| "arg_value (Quoted v) = v"

fun arg_ok :: "(string \<Rightarrow> bool) \<Rightarrow> arg \<Rightarrow> bool" where
  "arg_ok ok (Bare s) = (s \<noteq> [] \<and> list_all plain_char s)"
| "arg_ok ok (Quoted v) = ok v"

lemma plain_char_simps:
  "plain_char c \<Longrightarrow> c \<noteq> CHR '' '' \<and> c \<noteq> CHR 0x27 \<and> c \<noteq> CHR 0x5C"
  by (auto simp: plain_char_def)

lemma sh_lex_plain:
  "list_all plain_char p \<Longrightarrow> p \<noteq> [] \<Longrightarrow>
   sh_lex Unquoted w (p @ s) = sh_lex Unquoted (Some (word_of w @ p)) s"
proof (induction p arbitrary: w)
  case (Cons c p)
  then have "sh_lex Unquoted w ((c # p) @ s) = sh_lex Unquoted (Some (word_of w @ [c])) (p @ s)"
    using plain_char_simps [of c] by simp
  with Cons show ?case by (cases p) (simp_all add: word_of_def)
qed simp

locale shell_quoter =
  fixes quote :: "string \<Rightarrow> string" and ok :: "string \<Rightarrow> bool"
  assumes quote_lex: "ok v \<Longrightarrow>
    sh_lex Unquoted w (quote v @ s) = sh_lex Unquoted (Some (word_of w @ v)) s"
begin

lemma arg_lex:
  "arg_ok ok a \<Longrightarrow> sh_lex Unquoted None (render quote a @ s) = sh_lex Unquoted (Some (arg_value a)) s"
  by (cases a) (simp_all add: quote_lex sh_lex_plain word_of_def)

lemma args_lex:
  "\<forall>a \<in> set as. arg_ok ok a \<Longrightarrow>
   sh_lex Unquoted None (join_with '' '' (map (render quote) as)) = Some (map arg_value as)"
proof (induction as)
  case (Cons a as)
  show ?case
  proof (cases as)
    case Nil
    with Cons.prems arg_lex [of a "[]"] show ?thesis by simp
  next
    case (Cons b bs)
    with Cons.IH Cons.prems arg_lex [of a] show ?thesis by simp
  qed
qed simp

end

lemma sh_lex_quoted:
  "no_nul v \<Longrightarrow>
   sh_lex SingleQuoted (Some x)
     (concat (map (\<lambda>c. if c = CHR 0x27 then [CHR 0x27, CHR 0x5C, CHR 0x27, CHR 0x27] else [c]) v)
      @ CHR 0x27 # s)
   = sh_lex Unquoted (Some (x @ v)) s"
  by (induction v arbitrary: x) (auto simp: word_of_def no_nul_def)

interpretation shq: shell_quoter shell_escape no_nul
  by unfold_locales (simp add: shell_escape_def sh_lex_quoted)

definition docker_run_args :: "deployment_config \<Rightarrow> string \<Rightarrow> arg list" where
  "docker_run_args config imageTag =
     [Bare ''docker'', Bare ''run'', Bare ''-d'', Bare ''--name'', Quoted (cfg_containerName config)]
     @ concat (map (\<lambda>p. [Bare ''-p'', Quoted p]) (cfg_portBindings config))
     @ concat (map (\<lambda>e. [Bare ''-e'', Quoted e]) (cfg_env config))
     @ (if cfg_restartPolicy config \<noteq> [] then [Bare ''--restart'', Quoted (cfg_restartPolicy config)] else [])
     @ [Quoted imageTag]"

lemma docker_run_parts_render:
  "docker_run_parts config tag = map (render shell_escape) (docker_run_args config tag)"
  by (simp add: docker_run_parts_def docker_run_args_def map_concat comp_def)

definition config_no_nul :: "deployment_config \<Rightarrow> bool" where
  "config_no_nul config \<longleftrightarrow> no_nul (cfg_containerName config) \<and> no_nul (cfg_restartPolicy config)
     \<and> list_all no_nul (cfg_env config) \<and> list_all no_nul (cfg_portBindings config)"

lemma docker_run_args_ok:
  "config_no_nul config \<Longrightarrow> no_nul tag \<Longrightarrow> \<forall>a \<in> set (docker_run_args config tag). arg_ok no_nul a"
  by (auto simp: docker_run_args_def config_no_nul_def list_all_iff plain_char_def split: if_splits)

text \<open>
  C15. No captured value can break out of the \<open>docker run\<close> command: whatever quotes, blanks,
  \<open>$(...)\<close>, semicolons or newlines the container name, port bindings, environment, restart
  policy and image contain, a POSIX shell reads the command as one simple command whose
  arguments are exactly those values behind their options.
\<close>

theorem build_docker_run_command_no_injection:
  assumes "config_no_nul config" and "no_nul imageTag"
  shows "sh_lex Unquoted None (build_docker_run_command config imageTag) = Some (
     [''docker'', ''run'', ''-d'', ''--name'', cfg_containerName config]
     @ concat (map (\<lambda>p. [''-p'', p]) (cfg_portBindings config))
     @ concat (map (\<lambda>e. [''-e'', e]) (cfg_env config))
     @ (if cfg_restartPolicy config \<noteq> [] then [''--restart'', cfg_restartPolicy config] else [])
     @ [imageTag])"
  using shq.args_lex [OF docker_run_args_ok [OF assms]]
  by (simp add: build_docker_run_command_def docker_run_parts_render)
     (simp add: docker_run_args_def map_concat comp_def)

definition hostile_config :: deployment_config where
  "hostile_config = \<lparr>cfg_containerName = ''web'', cfg_env = [''A='' @ [CHR 0x27] @ ''; rm -rf / #''],
     cfg_portBindings = [], cfg_restartPolicy = []\<rparr>"

theorem build_docker_run_command_no_injection_witness:
  "sh_lex Unquoted None (build_docker_run_command hostile_config ''nginx:1.27'') =
    Some [''docker'', ''run'', ''-d'', ''--name'', ''web'', ''-e'',
          ''A='' @ [CHR 0x27] @ ''; rm -rf / #'', ''nginx:1.27'']"
proof -
  have "config_no_nul hostile_config" "no_nul ''nginx:1.27''" by code_simp+
  from build_docker_run_command_no_injection [OF this] show ?thesis
    by (simp add: hostile_config_def)
qed

end
