(* ===== verification/Snapshots.thy ===== *)
theory Snapshots
  imports Deploy
begin

section \<open>Deployment snapshots\<close>

text \<open>
  \<open>src/deployment-snapshots/deployment-snapshots.service.ts\<close> and its mapper. A snapshot's
  config is JSON, encrypted; the table has a partial unique index on the current snapshot of
  a service.
\<close>

definition snapshot_clash :: "snapshot \<Rightarrow> snapshot \<Rightarrow> bool" where
  "snapshot_clash x y \<longleftrightarrow> snap_serviceId x = snap_serviceId y \<and> snap_isCurrent x \<and> snap_isCurrent y"

definition find_current_for_service :: "env \<Rightarrow> uuid \<Rightarrow> snapshot option action" where
  "find_current_for_service E serviceId =
     repo_find_one E snapshots (\<lambda>s. snap_serviceId s = serviceId \<and> snap_isCurrent s)"

definition find_history_for_service :: "env \<Rightarrow> uuid \<Rightarrow> snapshot list action" where
  "find_history_for_service E serviceId =
     bind (repo_find E snapshots (\<lambda>s. snap_serviceId s = serviceId))
       (\<lambda>ss. ret (sort_key (\<lambda>s. - snap_deployedAt s) ss))"

definition find_one_for_service_or_throw :: "env \<Rightarrow> uuid \<Rightarrow> uuid \<Rightarrow> snapshot action" where
  "find_one_for_service_or_throw E serviceId i =
     bind (repo_find_one E snapshots (\<lambda>s. snap_id s = i \<and> snap_serviceId s = serviceId)) (\<lambda>s.
     case s of
       None \<Rightarrow> throw (BadRequestException (''Snapshot '' @ i @ '' does not belong to service '' @ serviceId))
     | Some snapshot \<Rightarrow> ret snapshot)"

subsection \<open>The stored config\<close>

definition config_json :: "deployment_config \<Rightarrow> json" where
  "config_json c = JObj [(''containerName'', JStr (cfg_containerName c)),
     (''env'', JArr (map JStr (cfg_env c))), (''portBindings'', JArr (map JStr (cfg_portBindings c))),
     (''restartPolicy'', JStr (cfg_restartPolicy c))]"

text \<open>
  Reading it back. The code does not check the shape; only \<open>createSnapshot\<close> writes the
  column, and a text of another shape is a \<open>TypeError\<close> here, as it is at the config's first
  use in the code.
\<close>

definition config_of_json :: "json \<Rightarrow> js_error + deployment_config" where
  "config_of_json v =
    (case (json_prop v ''containerName'', json_prop v ''env'', json_prop v ''portBindings'',
           json_prop v ''restartPolicy'') of
       (Some (JStr n), Some (JArr es), Some (JArr ps), Some (JStr r)) \<Rightarrow>
         (case (string_items es, string_items ps) of
            (Inr es', Inr ps') \<Rightarrow> Inr \<lparr>cfg_containerName = n, cfg_env = es', cfg_portBindings = ps', cfg_restartPolicy = r\<rparr>
          | _ \<Rightarrow> Inl (type_error ''value.replace is not a function''))
     | _ \<Rightarrow> Inl (type_error ''value.replace is not a function''))"

definition decrypt_config :: "env \<Rightarrow> snapshot \<Rightarrow> js_error + deployment_config" where
  "decrypt_config E s =
    (case decrypt E (snap_configBlob s) of
       Inl e \<Rightarrow> Inl e
     | Inr t \<Rightarrow> (case parse_json E t of Inl e \<Rightarrow> Inl e | Inr v \<Rightarrow> config_of_json v))"

lemma config_of_json_config [simp]: "config_of_json (config_json c) = Inr c"
  by (simp add: config_of_json_def config_json_def)

lemma json_wf_config [simp]: "json_wf (config_json c)"
  by (auto simp: config_json_def)

lemma decrypt_config_stored:
  assumes "cipher_ok E iv" "snap_configBlob s = encrypt_with E iv (json_stringify (config_json c))"
  shows "decrypt_config E s = Inr c"
  by (rule stored_json_roundtrip [OF json_wf_config [of c] assms(1)])
     (simp add: decrypt_config_def assms(2) parse_json_def)

subsection \<open>Creating a snapshot\<close>

record create_snapshot_input =
  cs_serviceId :: uuid
  cs_imageTag :: string
  cs_config :: deployment_config
  cs_deployedAt :: time
  cs_deployedById :: "uuid option"

definition retire_current :: "uuid \<Rightarrow> snapshot \<Rightarrow> snapshot" where
  "retire_current serviceId s =
     (if snap_serviceId s = serviceId \<and> snap_isCurrent s then s\<lparr>snap_isCurrent := False\<rparr> else s)"

definition create_snapshot :: "env \<Rightarrow> create_snapshot_input \<Rightarrow> snapshot action" where
  "create_snapshot E input = transaction
     (andthen (repo E (\<lambda>w. (Inr (), w\<lparr>snapshots := map (retire_current (cs_serviceId input)) (snapshots w)\<rparr>)))
     (bind (encrypt E (json_stringify (config_json (cs_config input)))) (\<lambda>blob.
      repo_insert E snapshots (\<lambda>t w. w\<lparr>snapshots := t\<rparr>) snap_id snapshot_clash
        (\<lambda>i d. \<lparr>snap_id = i, snap_serviceId = cs_serviceId input, snap_imageTag = cs_imageTag input,
                snap_configBlob = blob, snap_deployedAt = cs_deployedAt input,
                snap_deployedById = cs_deployedById input, snap_isCurrent = True, snap_createdAt = d\<rparr>))))"

definition snapshots_ok :: "snapshot list \<Rightarrow> bool" where
  "snapshots_ok t \<longleftrightarrow> distinct (map snap_id t) \<and>
     (\<forall>x \<in> set t. \<forall>y \<in> set t. snap_id x \<noteq> snap_id y \<longrightarrow> \<not> snapshot_clash x y)"

lemma retire_current_simps [simp]:
  "snap_id (retire_current i s) = snap_id s" "snap_serviceId (retire_current i s) = snap_serviceId s"
  "snap_isCurrent (retire_current i s) \<longleftrightarrow> snap_isCurrent s \<and> snap_serviceId s \<noteq> i"
  by (auto simp: retire_current_def)

lemma snapshots_ok_retire: "snapshots_ok t \<Longrightarrow> snapshots_ok (map (retire_current i) t)"
  by (auto simp: snapshots_ok_def snapshot_clash_def comp_def)

text \<open>The two outcomes of a call: all tables as they were, or the new current snapshot.\<close>

lemma create_snapshot_cases:
  obtains (refused) e n where "create_snapshot E input w = (Inl e, w\<lparr>steps := n\<rparr>)" "steps w \<le> n"
  | (created) s n where
      "create_snapshot E input w =
         (Inr s, w\<lparr>snapshots := map (retire_current (cs_serviceId input)) (snapshots w) @ [s], steps := n\<rparr>)"
      "n = steps w + 3"
      "snap_serviceId s = cs_serviceId input" "snap_imageTag s = cs_imageTag input" "snap_isCurrent s"
      "snap_deployedById s = cs_deployedById input" "snap_deployedAt s = cs_deployedAt input"
      "snap_configBlob s = encrypt_with E (random_bytes E (Suc (steps w)) 12) (json_stringify (config_json (cs_config input)))"
      "snap_id s \<notin> snap_id ` set (snapshots w)"
proof -
  let ?old = "map (retire_current (cs_serviceId input)) (snapshots w)"
  let ?iv = "random_bytes E (Suc (steps w)) 12"
  let ?s = "\<lparr>snap_id = fresh_uuid E (Suc (Suc (steps w))), snap_serviceId = cs_serviceId input,
      snap_imageTag = cs_imageTag input,
      snap_configBlob = encrypt_with E ?iv (json_stringify (config_json (cs_config input))),
      snap_deployedAt = cs_deployedAt input, snap_deployedById = cs_deployedById input,
      snap_isCurrent = True, snap_createdAt = clock E (Suc (Suc (steps w)))\<rparr>"
  let ?bad = "\<exists>x \<in> set ?old. snap_id x = snap_id ?s \<or> snapshot_clash x ?s"
  consider (f1) e where "db_fault E (steps w) = Some e"
    | (f2) e where "db_fault E (steps w) = None" "db_fault E (Suc (Suc (steps w))) = Some e"
    | (clash) "db_fault E (steps w) = None" "db_fault E (Suc (Suc (steps w))) = None" ?bad
    | (ok) "db_fault E (steps w) = None" "db_fault E (Suc (Suc (steps w))) = None" "\<not> ?bad"
    by (metis not_None_eq)
  then show ?thesis
  proof cases
    case f1
    then show ?thesis
      by (intro refused [of e "Suc (steps w)"])
         (simp_all add: create_snapshot_def transaction_def andthen_def bind_def repo_def)
  next
    case f2
    then show ?thesis
      by (intro refused [of e "steps w + 3"])
         (simp_all add: create_snapshot_def transaction_def andthen_def bind_def repo_def encrypt_ok repo_insert_def)
  next
    case clash
    then show ?thesis
      by (intro refused [of unique_violation "steps w + 3"])
         (simp_all add: create_snapshot_def transaction_def andthen_def bind_def repo_def encrypt_ok repo_insert_def Let_def)
  next
    case ok
    have "create_snapshot E input w = (Inr ?s, w\<lparr>snapshots := ?old @ [?s], steps := steps w + 3\<rparr>)"
      using ok(1,2) ok(3)
      by (simp add: create_snapshot_def transaction_def andthen_def bind_def repo_def encrypt_ok repo_insert_def
          Let_def tick_def)
    then show ?thesis using ok(3) by (intro created [of ?s "steps w + 3"]) auto
  qed
qed

lemma snapshots_ok_add:
  assumes "snapshots_ok t" "snap_serviceId s = i" "snap_id s \<notin> snap_id ` set t"
  shows "snapshots_ok (map (retire_current i) t @ [s])"
  using snapshots_ok_retire [OF assms(1), of i] assms
  by (auto simp: snapshots_ok_def snapshot_clash_def comp_def)

lemma preserves_create_snapshot_ok [pres]:
  "preserves (\<lambda>w. snapshots_ok (snapshots w)) (create_snapshot E input)"
proof (rule preservesI)
  fix w :: world assume ok: "snapshots_ok (snapshots w)"
  show "snapshots_ok (snapshots (snd (create_snapshot E input w)))"
  proof (cases rule: create_snapshot_cases [of E input w])
    case (created s n)
    with snapshots_ok_add [OF ok, of s "cs_serviceId input"] show ?thesis by simp
  qed (use ok in simp)
qed

lemma create_snapshot_frame:
  "create_snapshot E input w = (r, w') \<Longrightarrow> \<exists>t n. w' = w\<lparr>snapshots := t, steps := n\<rparr> \<and> steps w \<le> n"
proof (cases rule: create_snapshot_cases [of E input w])
  case (refused e n)
  moreover assume "create_snapshot E input w = (r, w')"
  ultimately have "w' = w\<lparr>snapshots := snapshots w, steps := n\<rparr>" by simp
  with refused(2) show ?thesis by blast
next
  case (created s n)
  moreover assume "create_snapshot E input w = (r, w')"
  ultimately have "w' = w\<lparr>snapshots := map (retire_current (cs_serviceId input)) (snapshots w) @ [s],
      steps := n\<rparr>" by simp
  with created(2) show ?thesis by (metis le_add1)
qed

text \<open>
  C10. \<open>createSnapshot\<close> is atomic. Either it rejects and every table is exactly as before
  (the previous current snapshot is still current), or the new snapshot is the one and only
  current snapshot of its service, the earlier ones stay in the history unchanged but for
  that flag, and the snapshots of every other service are untouched. At most one snapshot
  per service is current in both cases, whichever database call fails.
\<close>

theorem create_snapshot_atomic:
  assumes "snapshots_ok (snapshots w)" and "create_snapshot E input w = (r, w')"
  shows "snapshots_ok (snapshots w') \<and>
    (case r of
       Inl e \<Rightarrow> w' = w\<lparr>steps := steps w'\<rparr>
     | Inr s \<Rightarrow> filter (\<lambda>x. snap_serviceId x = cs_serviceId input \<and> snap_isCurrent x) (snapshots w') = [s]
         \<and> snap_imageTag s = cs_imageTag input
         \<and> map (\<lambda>x. x\<lparr>snap_isCurrent := False\<rparr>) (snapshots w') =
             map (\<lambda>x. x\<lparr>snap_isCurrent := False\<rparr>) (snapshots w @ [s])
         \<and> filter (\<lambda>x. snap_serviceId x \<noteq> cs_serviceId input) (snapshots w') =
             filter (\<lambda>x. snap_serviceId x \<noteq> cs_serviceId input) (snapshots w))"
proof -
  have ok: "snapshots_ok (snapshots w')"
    using preservesD' [OF preserves_create_snapshot_ok assms(1,2)] .
  show ?thesis
  proof (cases rule: create_snapshot_cases [of E input w])
    case (refused e n)
    with assms(2) ok show ?thesis by auto
  next
    case (created s n)
    let ?i = "cs_serviceId input"
    have no_current: "filter (\<lambda>x. snap_serviceId x = ?i \<and> snap_isCurrent x) (map (retire_current ?i) t) = []" for t
      by (induction t) auto
    have flags: "map (\<lambda>x. x\<lparr>snap_isCurrent := False\<rparr>) (map (retire_current ?i) t) = map (\<lambda>x. x\<lparr>snap_isCurrent := False\<rparr>) t" for t
      by (induction t) (auto simp: retire_current_def)
    have others: "filter (\<lambda>x. snap_serviceId x \<noteq> ?i) (map (retire_current ?i) t) = filter (\<lambda>x. snap_serviceId x \<noteq> ?i) t" for t
      by (induction t) (auto simp: retire_current_def)
    have "r = Inr s" "snapshots w' = map (retire_current ?i) (snapshots w) @ [s]"
      using created(1) assms(2) by auto
    with created ok show ?thesis
      by (simp only: sum.case filter_append map_append no_current flags others) simp
  qed
qed

definition demo_config :: deployment_config where
  "demo_config = \<lparr>cfg_containerName = ''web'', cfg_env = [''A=1''], cfg_portBindings = [''8080:80/tcp''],
     cfg_restartPolicy = ''always''\<rparr>"

definition demo_snapshot :: snapshot where
  "demo_snapshot = \<lparr>snap_id = ''snap'', snap_serviceId = ''svc'', snap_imageTag = ''nginx:1.26'',
     snap_configBlob = encrypt_with demo_env (replicate 12 (CHR ''r'')) (json_stringify (config_json demo_config)),
     snap_deployedAt = 0, snap_deployedById = None, snap_isCurrent = True, snap_createdAt = 0\<rparr>"

definition demo_input :: create_snapshot_input where
  "demo_input = \<lparr>cs_serviceId = ''svc'', cs_imageTag = ''nginx:1.27'', cs_config = demo_config,
     cs_deployedAt = 5, cs_deployedById = None\<rparr>"

theorem create_snapshot_atomic_witness:
  "\<exists>r w'. create_snapshot demo_env demo_input (empty_world\<lparr>snapshots := [demo_snapshot]\<rparr>) = (r, w')
     \<and> snapshots_ok (snapshots w')"
proof -
  let ?w = "empty_world\<lparr>snapshots := [demo_snapshot]\<rparr>"
  have "snapshots_ok (snapshots ?w)" by (simp add: snapshots_ok_def)
  moreover obtain r w' where "create_snapshot demo_env demo_input ?w = (r, w')" by force
  ultimately show ?thesis using create_snapshot_atomic [of ?w demo_env demo_input r w'] by blast
qed

text \<open>
  C17. The config survives storage: decrypting and parsing the snapshot that was created
  gives the very config it was created with, whatever bytes its names, environment values
  and port bindings contain.
\<close>

theorem snapshot_config_roundtrip:
  assumes "aead_ok E" and "create_snapshot E input w = (Inr s, w')"
  shows "decrypt_config E s = Inr (cs_config input)"
proof (cases rule: create_snapshot_cases [of E input w])
  case (created s' n)
  have "cipher_ok E (random_bytes E (Suc (steps w)) 12)"
    using assms(1) by (simp add: cipher_ok_def aead_ok_def IV_LENGTH_BYTES_def)
  with created assms(2) show ?thesis by (auto intro: decrypt_config_stored)
qed (use assms(2) in simp)

theorem snapshot_config_roundtrip_witness:
  "\<exists>s w'. create_snapshot demo_env demo_input empty_world = (Inr s, w') \<and> decrypt_config demo_env s = Inr demo_config"
proof -
  obtain s w' where "create_snapshot demo_env demo_input empty_world = (Inr s, w')"
    by (cases rule: create_snapshot_cases [of demo_env demo_input empty_world])
       (auto simp: create_snapshot_def transaction_def andthen_def bind_def repo_def encrypt_ok repo_insert_def
         Let_def demo_env_def)
  with snapshot_config_roundtrip [OF demo_env_ok(1) this] show ?thesis by (auto simp: demo_input_def)
qed

subsection \<open>Response\<close>

record snapshot_response =
  sr_id :: uuid
  sr_image_tag :: string
  sr_deployed_at :: time
  sr_deployed_by :: "uuid option"
  sr_is_current :: bool
  sr_created_at :: time

definition to_snapshot_response :: "snapshot \<Rightarrow> snapshot_response" where
  "to_snapshot_response s =
     \<lparr>sr_id = snap_id s, sr_image_tag = snap_imageTag s, sr_deployed_at = snap_deployedAt s,
      sr_deployed_by = snap_deployedById s, sr_is_current = snap_isCurrent s, sr_created_at = snap_createdAt s\<rparr>"

end
