(* ===== verification/Alerts.thy ===== *)
theory Alerts
  imports Infra
begin

section \<open>Alerting\<close>

text \<open>
  \<open>src/alerts/\<close>: the condition and message builders, the channel adapters,
  \<open>AlertEvaluationService\<close> (rule matching, cooldown, delivery, delivery log) and
  \<open>AlertsService\<close> (the rules' CRUD and the log listing).
\<close>

subsection \<open>Conditions and messages\<close>

definition ALERT_CONDITIONS :: "string list" where
  "ALERT_CONDITIONS =
     [''host_status_transitioned_to:unreachable'', ''host_status_transitioned_to:degraded'',
      ''ssl_status_transitioned_to:expiring_soon'', ''ssl_status_transitioned_to:expired'',
      ''service_status_transitioned_to:crash_loop'', ''service_status_transitioned_to:unhealthy'',
      ''rollback_event:failed'', ''system:idle_host_detected'', ''system:orphan_detected'']"

fun build_transition_condition :: "alert_entity_type \<Rightarrow> string \<Rightarrow> string option" where
  "build_transition_condition AE_HOST newStatus = Some (''host_status_transitioned_to:'' @ newStatus)"
| "build_transition_condition AE_SSL_CERTIFICATE newStatus = Some (''ssl_status_transitioned_to:'' @ newStatus)"
| "build_transition_condition AE_SERVICE newStatus = Some (''service_status_transitioned_to:'' @ newStatus)"
| "build_transition_condition AE_ROLLBACK_EVENT newStatus =
     (if newStatus = ''failed'' then Some ''rollback_event:failed'' else None)"
| "build_transition_condition _ newStatus = None"

definition build_alert_message :: "alert_entity_type \<Rightarrow> uuid \<Rightarrow> string \<Rightarrow> string option \<Rightarrow> string option \<Rightarrow> string" where
  "build_alert_message entityType entityId condition previousStatus newStatus =
    (let base = ''['' @ alert_entity_type_str entityType @ ''] '' @ condition @ '' (entity '' @ entityId @ '')''
     in case (previousStatus, newStatus) of
          (Some p, Some n) \<Rightarrow> base @ '': '' @ p @ '' -> '' @ n
        | _ \<Rightarrow> base)"

subsection \<open>Channel adapters\<close>

text \<open>A send result: success, and the optional error.\<close>

type_synonym send_result = "bool \<times> string option"

definition NOT_CONFIGURED_MESSAGE :: string where
  "NOT_CONFIGURED_MESSAGE = ''Email channel not yet configured (no SMTP infrastructure in this phase)''"

definition email_send :: "string \<Rightarrow> json \<Rightarrow> send_result action" where
  "email_send message config = ret (False, Some NOT_CONFIGURED_MESSAGE)"

definition SLACK_WEBHOOK_TIMEOUT_MS :: nat where "SLACK_WEBHOOK_TIMEOUT_MS = 8000"
definition ERROR_BODY_PREVIEW_LENGTH :: nat where "ERROR_BODY_PREVIEW_LENGTH = 500"

text \<open>
  \<open>s.slice(0, n)\<close> counts UTF-16 units: a four-byte character is two of them, and half of one
  is stored as U+FFFD.
\<close>

fun utf16_take :: "nat \<Rightarrow> string \<Rightarrow> string" where
  "utf16_take n [] = []"
| "utf16_take n (c # s) =
    (let b = (of_char c :: nat) in
     if 128 \<le> b \<and> b < 192 then c # utf16_take n s
     else if n = 0 then []
     else if b < 240 then c # utf16_take (n - 1) s
     else if n = 1 then map char_of [239, 191, 189 :: nat]
     else c # utf16_take (n - 2) s)"

definition describe_fetch_error :: "string \<Rightarrow> string option \<Rightarrow> string" where
  "describe_fetch_error message cause = (case cause of
     Some c \<Rightarrow> message @ '': '' @ c
   | None \<Rightarrow> message)"

definition slack_send :: "env \<Rightarrow> string \<Rightarrow> json \<Rightarrow> send_result action" where
  "slack_send E message config =
    (if config = JNull then
       throw (JsError ''TypeError'' ''Cannot read properties of null (reading 'webhook_url')'' None)
     else case json_prop config ''webhook_url'' of
       Some (JStr webhookUrl) \<Rightarrow>
         if trim webhookUrl = [] then ret (False, Some ''Slack channel config is missing \"webhook_url\"'')
         else (\<lambda>w. (Inr
           (case http_post E (steps w) webhookUrl (json_stringify (JObj [(''text'', JStr message)])) of
              HttpResponse status body \<Rightarrow>
                if 200 \<le> status \<and> status < 300 then (True, None)
                else (False, Some (''Slack webhook returned '' @ show_nat status @ '': ''
                                   @ utf16_take ERROR_BODY_PREVIEW_LENGTH body))
            | HttpAborted \<Rightarrow>
                (False, Some (''Slack webhook POST timed out after '' @ show_nat SLACK_WEBHOOK_TIMEOUT_MS @ ''ms''))
            | HttpFailed m cause \<Rightarrow> (False, Some (describe_fetch_error m cause))), tick w))
     | _ \<Rightarrow> ret (False, Some ''Slack channel config is missing \"webhook_url\"''))"

definition adapter_send :: "env \<Rightarrow> alert_channel \<Rightarrow> string \<Rightarrow> json \<Rightarrow> send_result action" where
  "adapter_send E channel message config = (case channel of
     SLACK \<Rightarrow> slack_send E message config
   | EMAIL \<Rightarrow> email_send message config)"

subsection \<open>AlertEvaluationService\<close>

record transition_input =
  ti_orgId :: uuid
  ti_entityType :: alert_entity_type
  ti_entityId :: uuid
  ti_previousStatus :: string
  ti_newStatus :: string

record condition_input =
  ci_orgId :: uuid
  ci_entityType :: alert_entity_type
  ci_entityId :: uuid
  ci_condition :: string
  ci_message :: string

definition is_within_cooldown :: "env \<Rightarrow> alert_rule \<Rightarrow> uuid \<Rightarrow> bool action" where
  "is_within_cooldown E rule entityId =
     bind (now E) (\<lambda>t.
     let cutoff = t - rule_cooldownMinutes rule * 60000 in
     bind (repo_find_one E alert_logs (\<lambda>l. alog_alertRuleId l = rule_id rule \<and> alog_entityId l = entityId
             \<and> alog_deliveryStatus l = SENT \<and> cutoff < alog_firedAt l))
       (\<lambda>recentSend. ret (recentSend \<noteq> None)))"

definition write_alert_log :: "env \<Rightarrow> alert_rule \<Rightarrow> uuid \<Rightarrow> string \<Rightarrow> bool \<Rightarrow> string option \<Rightarrow> unit action" where
  "write_alert_log E rule entityId message success error =
     try_catch
       (andthen
         (repo_insert E alert_logs (\<lambda>t w. w\<lparr>alert_logs := t\<rparr>) alog_id (\<lambda>_ _. False)
           (\<lambda>i d. \<lparr>alog_id = i, alog_alertRuleId = rule_id rule, alog_entityType = rule_entityType rule,
                   alog_entityId = entityId, alog_message = message,
                   alog_deliveryStatus = (if success then SENT else DELIVERY_FAILED),
                   alog_error = error, alog_firedAt = d\<rparr>))
         (ret ()))
       (\<lambda>logError. ret ())"

definition deliver :: "env \<Rightarrow> alert_rule \<Rightarrow> string \<Rightarrow> send_result action" where
  "deliver E rule message =
     bind (lift_result (decrypt E (rule_channelConfigEncrypted rule))) (\<lambda>text.
     bind (lift_result (parse_json E text)) (\<lambda>channelConfig.
     adapter_send E (rule_channel rule) message channelConfig))"

definition evaluate_rule :: "env \<Rightarrow> alert_rule \<Rightarrow> uuid \<Rightarrow> string \<Rightarrow> unit action" where
  "evaluate_rule E rule entityId message =
     try_catch
       (bind (is_within_cooldown E rule entityId) (\<lambda>withinCooldown.
        if withinCooldown then ret ()
        else bind (deliver E rule message) (\<lambda>(success, error).
             write_alert_log E rule entityId message success error)))
       (\<lambda>error. write_alert_log E rule entityId message False (error_message error))"

definition rule_matches :: "uuid \<Rightarrow> alert_entity_type \<Rightarrow> string \<Rightarrow> alert_rule \<Rightarrow> bool" where
  "rule_matches orgId entityType condition r \<longleftrightarrow> rule_orgId r = orgId \<and> rule_entityType r = entityType
     \<and> rule_condition r = condition \<and> rule_enabled r"

definition dispatch :: "env \<Rightarrow> uuid \<Rightarrow> alert_entity_type \<Rightarrow> uuid \<Rightarrow> string \<Rightarrow> string \<Rightarrow> unit action" where
  "dispatch E orgId entityType entityId condition message =
     bind (repo_find E alert_rules (rule_matches orgId entityType condition)) (\<lambda>rules.
     for_each rules (\<lambda>rule. evaluate_rule E rule entityId message))"

definition evaluate_transition :: "env \<Rightarrow> transition_input \<Rightarrow> unit action" where
  "evaluate_transition E input =
     try_catch
       (if ti_previousStatus input = ti_newStatus input then ret ()
        else case build_transition_condition (ti_entityType input) (ti_newStatus input) of
          None \<Rightarrow> ret ()
        | Some condition \<Rightarrow>
            (let message = build_alert_message (ti_entityType input) (ti_entityId input) condition
                   (Some (ti_previousStatus input)) (Some (ti_newStatus input))
             in dispatch E (ti_orgId input) (ti_entityType input) (ti_entityId input) condition message))
       (\<lambda>error. ret ())"

definition evaluate_direct_condition :: "env \<Rightarrow> condition_input \<Rightarrow> unit action" where
  "evaluate_direct_condition E input =
     try_catch
       (dispatch E (ci_orgId input) (ci_entityType input) (ci_entityId input) (ci_condition input) (ci_message input))
       (\<lambda>error. ret ())"

subsection \<open>What one evaluation does to the state\<close>

text \<open>A sent entry's moment, at step \<open>k\<close> or later, at which its rule was out of cooldown.\<close>

definition out_of_cooldown :: "env \<Rightarrow> alert_rule \<Rightarrow> uuid \<Rightarrow> alert_log list \<Rightarrow> time \<Rightarrow> bool" where
  "out_of_cooldown E rule entityId ls t \<longleftrightarrow>
    (\<forall>l \<in> set ls. alog_alertRuleId l = rule_id rule \<and> alog_entityId l = entityId
       \<and> alog_deliveryStatus l = SENT \<longrightarrow> alog_firedAt l + rule_cooldownMinutes rule * 60000 \<le> t)"

definition log_entry_for :: "env \<Rightarrow> alert_rule \<Rightarrow> uuid \<Rightarrow> string \<Rightarrow> nat \<Rightarrow> alert_log list \<Rightarrow> alert_log \<Rightarrow> bool" where
  "log_entry_for E rule entityId message k ls l \<longleftrightarrow>
     alog_alertRuleId l = rule_id rule \<and> alog_entityType l = rule_entityType rule
     \<and> alog_entityId l = entityId \<and> alog_message l = message \<and> alog_id l \<notin> alog_id ` set ls
     \<and> (\<exists>i j. k \<le> i \<and> i \<le> j \<and> alog_firedAt l = clock E j
          \<and> (alog_deliveryStatus l = SENT \<longrightarrow> out_of_cooldown E rule entityId ls (clock E i)))"

lemma write_alert_log_cases:
  obtains (unwritten) "write_alert_log E rule e m b err w = (Inr (), tick w)"
  | (written) l where "write_alert_log E rule e m b err w = (Inr (), tick (w\<lparr>alert_logs := alert_logs w @ [l]\<rparr>))"
      "alog_alertRuleId l = rule_id rule" "alog_entityType l = rule_entityType rule"
      "alog_entityId l = e" "alog_message l = m" "alog_id l \<notin> alog_id ` set (alert_logs w)"
      "alog_firedAt l = clock E (steps w)" "alog_deliveryStatus l = SENT \<longleftrightarrow> b" "alog_error l = err"
      "alog_id l = fresh_uuid E (steps w)"
proof (cases "db_fault E (steps w) = None \<and> fresh_uuid E (steps w) \<notin> alog_id ` set (alert_logs w)")
  case True
  let ?l = "\<lparr>alog_id = fresh_uuid E (steps w), alog_alertRuleId = rule_id rule,
      alog_entityType = rule_entityType rule, alog_entityId = e, alog_message = m,
      alog_deliveryStatus = (if b then SENT else DELIVERY_FAILED), alog_error = err,
      alog_firedAt = clock E (steps w)\<rparr>"
  have "\<not> (\<exists>x \<in> set (alert_logs w). alog_id x = fresh_uuid E (steps w))" using True by (metis imageI)
  with True have "write_alert_log E rule e m b err w = (Inr (), tick (w\<lparr>alert_logs := alert_logs w @ [?l]\<rparr>))"
    by (simp add: write_alert_log_def repo_insert_def repo_def Let_def prog_simps)
  with True show ?thesis by (intro written [of ?l]) auto
next
  case False
  then show ?thesis
    by (intro unwritten)
       (auto simp: write_alert_log_def repo_insert_def repo_def Let_def prog_simps image_iff split: option.splits)
qed

lemma slack_send_state: "snd (slack_send E m c w) \<in> {w, tick w}"
proof -
  have "snd (slack_send E m c w) = w \<or> snd (slack_send E m c w) = tick w"
    unfolding slack_send_def ret_def throw_def
    by (simp only: split: if_split option.split json.split) (simp only: snd_conv, blast)
  then show ?thesis by blast
qed

lemma adapter_send_state: "snd (adapter_send E ch m c w) \<in> {w, tick w}"
  using slack_send_state [of E m c w] by (cases ch) (simp_all add: adapter_send_def email_send_def ret_def)

lemma deliver_state: "snd (deliver E rule m w) \<in> {w, tick w}"
proof (cases "decrypt E (rule_channelConfigEncrypted rule)")
  case Inr0: (Inr t)
  show ?thesis
  proof (cases "parse_json E t")
    case (Inr c)
    with Inr0 show ?thesis
      using adapter_send_state [of E "rule_channel rule" m c w]
      by (simp add: deliver_def bind_def lift_result_def)
  qed (simp add: Inr0 deliver_def bind_def lift_result_def)
qed (simp add: deliver_def bind_def lift_result_def)

lemma is_within_cooldown_cases:
  obtains (fault) e where "is_within_cooldown E rule ent w = (Inl e, tick (tick w))"
  | (within) "is_within_cooldown E rule ent w = (Inr True, tick (tick w))"
  | (outside) "is_within_cooldown E rule ent w = (Inr False, tick (tick w))"
      "out_of_cooldown E rule ent (alert_logs w) (clock E (steps w))"
proof (cases "db_fault E (Suc (steps w))")
  case (Some e)
  then show ?thesis by (intro fault) (simp add: is_within_cooldown_def now_def repo_find_one_def repo_def prog_simps Let_def)
next
  case None
  show ?thesis
  proof (cases "out_of_cooldown E rule ent (alert_logs w) (clock E (steps w))")
    case True
    then have "List.find (\<lambda>l. alog_alertRuleId l = rule_id rule \<and> alog_entityId l = ent
        \<and> alog_deliveryStatus l = SENT \<and> clock E (steps w) - rule_cooldownMinutes rule * 60000 < alog_firedAt l)
        (alert_logs w) = None"
      by (auto simp: find_None_iff out_of_cooldown_def)
    with None True show ?thesis
      by (intro outside) (simp_all add: is_within_cooldown_def now_def repo_find_one_def repo_def prog_simps Let_def)
  next
    case False
    then have "List.find (\<lambda>l. alog_alertRuleId l = rule_id rule \<and> alog_entityId l = ent
        \<and> alog_deliveryStatus l = SENT \<and> clock E (steps w) - rule_cooldownMinutes rule * 60000 < alog_firedAt l)
        (alert_logs w) \<noteq> None"
      by (auto simp: find_None_iff out_of_cooldown_def not_le)
    with None show ?thesis
      by (intro within) (auto simp: is_within_cooldown_def now_def repo_find_one_def repo_def prog_simps Let_def)
  qed
qed

text \<open>One rule's evaluation always resolves, and adds at most one entry to the log.\<close>

definition log_step :: "env \<Rightarrow> (alert_log list \<Rightarrow> nat \<Rightarrow> alert_log \<Rightarrow> bool) \<Rightarrow> world \<Rightarrow> world \<Rightarrow> bool" where
  "log_step E Q w w' \<longleftrightarrow> (\<exists>n new. steps w \<le> n \<and> w' = w\<lparr>alert_logs := alert_logs w @ new, steps := n\<rparr>
     \<and> (new = [] \<or> (\<exists>l. new = [l] \<and> Q (alert_logs w) (steps w) l)))"

lemma write_alert_log_step:
  assumes "steps w \<le> steps v" "v = w\<lparr>steps := steps v\<rparr>"
    and "b \<Longrightarrow> \<exists>i. steps w \<le> i \<and> i \<le> steps v \<and> out_of_cooldown E rule ent (alert_logs w) (clock E i)"
  shows "fst (write_alert_log E rule ent m b err v) = Inr () \<and>
    log_step E (\<lambda>ls k l. log_entry_for E rule ent m k ls l) w (snd (write_alert_log E rule ent m b err v))"
proof -
  from assms(2) obtain n where v: "v = w\<lparr>steps := n\<rparr>" by blast
  with assms(1) have n: "steps w \<le> n" by simp
  show ?thesis
proof (cases rule: write_alert_log_cases [of E rule ent m b err v])
  case unwritten
  have "tick v = w\<lparr>alert_logs := alert_logs w @ [], steps := Suc n\<rparr>" by (simp add: v tick_def)
  with unwritten n show ?thesis by (auto simp: log_step_def intro!: exI [of _ "Suc n"] exI [of _ "[]"])
next
  case (written l)
  have e: "log_entry_for E rule ent m (steps w) (alert_logs w) l"
  proof (cases b)
    case True
    with assms(3) obtain i where "steps w \<le> i" "i \<le> n" "out_of_cooldown E rule ent (alert_logs w) (clock E i)"
      using v by auto
    then have "\<exists>i j. steps w \<le> i \<and> i \<le> j \<and> alog_firedAt l = clock E j
        \<and> out_of_cooldown E rule ent (alert_logs w) (clock E i)"
      using written v by (intro exI [of _ i] exI [of _ n]) simp
    with written v show ?thesis unfolding log_entry_for_def by auto
  next
    case False
    with written v n show ?thesis by (auto simp: log_entry_for_def intro!: exI [of _ n])
  qed
  have "tick (v\<lparr>alert_logs := alert_logs v @ [l]\<rparr>) = w\<lparr>alert_logs := alert_logs w @ [l], steps := Suc n\<rparr>"
    by (simp add: v tick_def)
  with written(1) e n show ?thesis
    by (auto simp: log_step_def intro!: exI [of _ "Suc n"] exI [of _ "[l]"])
qed
qed

lemma evaluate_rule_step:
  "fst (evaluate_rule E rule ent m w) = Inr () \<and>
   log_step E (\<lambda>ls k l. log_entry_for E rule ent m k ls l) w (snd (evaluate_rule E rule ent m w))"
proof -
  let ?v = "tick (tick w)"
  have v: "steps w \<le> steps ?v" "?v = w\<lparr>steps := steps ?v\<rparr>" by (simp_all add: tick_def)
  show ?thesis
  proof (cases rule: is_within_cooldown_cases [of E rule ent w])
    case (fault e)
    then have "evaluate_rule E rule ent m w = write_alert_log E rule ent m False (error_message e) ?v"
      by (simp add: evaluate_rule_def bind_def try_catch_def)
    with write_alert_log_step [OF v, of False] show ?thesis by simp
  next
    case within
    have "?v = w\<lparr>alert_logs := alert_logs w @ [], steps := steps ?v\<rparr>" by (simp add: tick_def)
    moreover have "evaluate_rule E rule ent m w = (Inr (), ?v)"
      using within by (simp add: evaluate_rule_def bind_def try_catch_def ret_def)
    ultimately show ?thesis unfolding log_step_def
      by (auto intro!: exI [of _ "steps ?v"] exI [of _ "[]"])
  next
    case outside
    obtain r u where r: "deliver E rule m ?v = (r, u)" by force
    have u: "steps w \<le> steps u" "u = w\<lparr>steps := steps u\<rparr>"
      using deliver_state [of E rule m ?v] r by (auto simp: tick_def)
    have ok: "\<exists>i. steps w \<le> i \<and> i \<le> steps u \<and> out_of_cooldown E rule ent (alert_logs w) (clock E i)"
      using outside(2) u(1) by blast
    show ?thesis
    proof (cases r)
      case (Inl e)
      then have "evaluate_rule E rule ent m w = write_alert_log E rule ent m False (error_message e) u"
        using outside(1) r by (simp add: evaluate_rule_def bind_def try_catch_def)
      with write_alert_log_step [OF u, of False] show ?thesis by simp
    next
      case (Inr res)
      obtain b err where res: "res = (b, err)" by force
      have st: "fst (write_alert_log E rule ent m b err u) = Inr ()"
        "log_step E (\<lambda>ls k l. log_entry_for E rule ent m k ls l) w (snd (write_alert_log E rule ent m b err u))"
        using write_alert_log_step [OF u ok, where b = b and err = err and m = m]
        by blast+
      have "evaluate_rule E rule ent m w = write_alert_log E rule ent m b err u"
        using outside(1) r Inr res st(1)
        by (cases "write_alert_log E rule ent m b err u")
           (simp add: evaluate_rule_def bind_def try_catch_def)
      with st show ?thesis by simp
    qed
  qed
qed

text \<open>A whole evaluation: the log grows by entries of matching rules, nothing else changes.\<close>

lemma log_step_refl: "log_step E Q w (w\<lparr>steps := n\<rparr>)" if "steps w \<le> n"
proof -
  have "w\<lparr>steps := n\<rparr> = w\<lparr>alert_logs := alert_logs w @ [], steps := n\<rparr>" by simp
  with that show ?thesis unfolding log_step_def by blast
qed

inductive log_steps :: "env \<Rightarrow> alert_rule set \<Rightarrow> uuid \<Rightarrow> string \<Rightarrow> world \<Rightarrow> world \<Rightarrow> bool"
  for E rs ent m where
  log_steps_refl: "steps w \<le> n \<Longrightarrow> log_steps E rs ent m w (w\<lparr>steps := n\<rparr>)"
| log_steps_step: "log_steps E rs ent m w v \<Longrightarrow> r \<in> rs \<Longrightarrow>
    log_step E (\<lambda>ls k l. log_entry_for E r ent m k ls l) v u \<Longrightarrow> log_steps E rs ent m w u"

lemma log_step_frame: "log_step E Q w w' \<Longrightarrow> \<exists>n new. steps w \<le> n \<and> w' = w\<lparr>alert_logs := alert_logs w @ new, steps := n\<rparr>"
  unfolding log_step_def by blast

lemma log_steps_frame:
  "log_steps E rs ent m w w' \<Longrightarrow> \<exists>n new. steps w \<le> n \<and> w' = w\<lparr>alert_logs := alert_logs w @ new, steps := n\<rparr>"
proof (induction rule: log_steps.induct)
  case (log_steps_refl w n)
  then show ?case by (intro exI [of _ n] exI [of _ "[]"]) simp
next
  case (log_steps_step w v r u)
  then obtain n new where "steps w \<le> n" "v = w\<lparr>alert_logs := alert_logs w @ new, steps := n\<rparr>" by blast
  moreover obtain k more where "steps v \<le> k" "u = v\<lparr>alert_logs := alert_logs v @ more, steps := k\<rparr>"
    using log_step_frame [OF log_steps_step.hyps(3)] by blast
  ultimately show ?case by (intro exI [of _ k] exI [of _ "new @ more"]) simp
qed

lemma for_each_rules_steps:
  assumes "log_steps E rs ent m w v" and "set rules \<subseteq> rs"
  shows "fst (for_each rules (\<lambda>r. evaluate_rule E r ent m) v) = Inr ()
    \<and> log_steps E rs ent m w (snd (for_each rules (\<lambda>r. evaluate_rule E r ent m) v))"
  using assms
proof (induction rules arbitrary: v)
  case (Cons r rules)
  obtain u where u: "evaluate_rule E r ent m v = (Inr (), u)"
    "log_step E (\<lambda>ls k l. log_entry_for E r ent m k ls l) v u"
    using evaluate_rule_step [of E r ent m v] by (metis prod.collapse)
  then have "log_steps E rs ent m w u"
    using Cons.prems by (auto intro: log_steps_step)
  with Cons.IH [of u] Cons.prems(2) u(1) show ?case by (simp add: prog_simps)
qed (simp add: prog_simps)

definition matching_rules :: "world \<Rightarrow> uuid \<Rightarrow> alert_entity_type \<Rightarrow> string \<Rightarrow> alert_rule set" where
  "matching_rules w orgId ty cond = {r \<in> set (alert_rules w). rule_matches orgId ty cond r}"

lemma dispatch_steps:
  "(fst (dispatch E orgId ty ent cond m w) = Inr () \<or> isl (fst (dispatch E orgId ty ent cond m w)))
   \<and> log_steps E (matching_rules w orgId ty cond) ent m w (snd (dispatch E orgId ty ent cond m w))"
proof -
  have t: "log_steps E rs ent m w (tick w)" for rs
    using log_steps_refl [of w "Suc (steps w)"] by (simp add: tick_def)
  show ?thesis
  proof (cases "db_fault E (steps w)")
    case None
    then have "dispatch E orgId ty ent cond m w = for_each
        (filter (rule_matches orgId ty cond) (alert_rules w)) (\<lambda>r. evaluate_rule E r ent m) (tick w)"
      by (simp add: dispatch_def repo_find_def repo_def bind_def)
    with for_each_rules_steps [OF t, of "filter (rule_matches orgId ty cond) (alert_rules w)"
        "matching_rules w orgId ty cond"] show ?thesis
      by (auto simp: matching_rules_def)
  qed (simp add: dispatch_def repo_find_def repo_def bind_def t)
qed

definition transition_rules :: "transition_input \<Rightarrow> world \<Rightarrow> alert_rule list" where
  "transition_rules input w =
    (if ti_previousStatus input = ti_newStatus input then []
     else case build_transition_condition (ti_entityType input) (ti_newStatus input) of
       None \<Rightarrow> []
     | Some c \<Rightarrow> filter (rule_matches (ti_orgId input) (ti_entityType input) c) (alert_rules w))"

definition transition_message :: "transition_input \<Rightarrow> string" where
  "transition_message input =
    build_alert_message (ti_entityType input) (ti_entityId input)
      (the (build_transition_condition (ti_entityType input) (ti_newStatus input)))
      (Some (ti_previousStatus input)) (Some (ti_newStatus input))"

lemma catch_all: "snd (try_catch p (\<lambda>e. ret ()) w) = snd (p w)" "fst (try_catch p (\<lambda>e. ret ()) w) = Inr ()"
  by (auto simp: try_catch_def ret_def split: prod.splits sum.splits)

lemma evaluate_transition_steps:
  "log_steps E (set (transition_rules input w)) (ti_entityId input) (transition_message input) w
     (snd (evaluate_transition E input w))"
proof -
  have r: "log_steps E rs ent m w w" for rs ent m
    using log_steps_refl [of w "steps w"] by simp
  show ?thesis
  proof (cases "ti_previousStatus input = ti_newStatus input")
    case False
    show ?thesis
    proof (cases "build_transition_condition (ti_entityType input) (ti_newStatus input)")
      case None
      with r show ?thesis by (simp add: evaluate_transition_def catch_all ret_def)
    next
      case (Some c)
      have "set (transition_rules input w) = matching_rules w (ti_orgId input) (ti_entityType input) c"
        using Some False by (auto simp: transition_rules_def matching_rules_def)
      with Some False dispatch_steps show ?thesis
        by (simp add: evaluate_transition_def catch_all transition_message_def Let_def)
    qed
  qed (simp add: evaluate_transition_def catch_all ret_def r)
qed

lemma evaluate_direct_condition_steps:
  "log_steps E (matching_rules w (ci_orgId input) (ci_entityType input) (ci_condition input))
     (ci_entityId input) (ci_message input) w (snd (evaluate_direct_condition E input w))"
  using dispatch_steps by (simp add: evaluate_direct_condition_def catch_all)

text \<open>The part of the state that no evaluation touches.\<close>

definition core_view :: "world \<Rightarrow> world" where
  "core_view w = w\<lparr>alert_logs := [], steps := 0\<rparr>"

lemma core_view_log_steps: "log_steps E rs ent m w w' \<Longrightarrow> core_view w' = core_view w"
  by (auto dest!: log_steps_frame simp: core_view_def)

lemma core_view_tick [simp]: "core_view (tick w) = core_view w"
  by (simp add: core_view_def tick_def)

interpretation transition_alert: isolated_effect "evaluate_transition E" core_view
proof
  show "no_throw (evaluate_transition E i)" for i
    unfolding evaluate_transition_def by (intro nothrow)
  show "keeps core_view (evaluate_transition E i)" for i
    unfolding keeps_def using core_view_log_steps [OF evaluate_transition_steps] by blast
qed

interpretation direct_alert: isolated_effect "evaluate_direct_condition E" core_view
proof
  show "no_throw (evaluate_direct_condition E i)" for i
    unfolding evaluate_direct_condition_def by (intro nothrow)
  show "keeps core_view (evaluate_direct_condition E i)" for i
    unfolding keeps_def using core_view_log_steps [OF evaluate_direct_condition_steps] by blast
qed

lemma evaluate_transition_then:
  "andthen (evaluate_transition E i) k w = k (snd (evaluate_transition E i w))"
  by (rule transition_alert.effect_then)

lemma core_view_evaluate_transition [simp]: "core_view (snd (evaluate_transition E i w)) = core_view w"
  using transition_alert.effect_keeps_view [of E i] by (simp add: keeps_def)

lemma core_view_evaluate_direct [simp]: "core_view (snd (evaluate_direct_condition E i w)) = core_view w"
  using direct_alert.effect_keeps_view [of E i] by (simp add: keeps_def)

text \<open>
  C19. Alerting can never disturb the check, sync or rollback that triggers it: under every
  database, decryption, parse and delivery failure the call resolves, changes no table but
  the alert log, and only appends to that.
\<close>

theorem evaluate_transition_isolated:
  "fst (evaluate_transition E input w) = Inr ()
   \<and> core_view (snd (evaluate_transition E input w)) = core_view w
   \<and> prefix (alert_logs w) (alert_logs (snd (evaluate_transition E input w)))"
proof -
  have "fst (evaluate_transition E input w) = Inr ()" by (simp add: evaluate_transition_def catch_all)
  moreover have "prefix (alert_logs w) (alert_logs (snd (evaluate_transition E input w)))"
    using log_steps_frame [OF evaluate_transition_steps [of E input w]] by auto
  ultimately show ?thesis by simp
qed

text \<open>
  C20. What an evaluation logs: every new entry is about the entity that changed, carries
  the transition's message, and belongs to an enabled rule of the entity's own organization
  whose entity type and condition are those of the transition; nothing at all is logged when
  the status did not change or has no condition.
\<close>

theorem evaluate_transition_matches:
  "\<exists>new. alert_logs (snd (evaluate_transition E input w)) = alert_logs w @ new
    \<and> (\<forall>l \<in> set new. alog_entityId l = ti_entityId input \<and> alog_entityType l = ti_entityType input
         \<and> alog_message l = transition_message input
         \<and> (\<exists>r \<in> set (alert_rules w). rule_id r = alog_alertRuleId l \<and> rule_enabled r
              \<and> rule_orgId r = ti_orgId input \<and> rule_entityType r = ti_entityType input
              \<and> build_transition_condition (ti_entityType input) (ti_newStatus input) = Some (rule_condition r)))
    \<and> (ti_previousStatus input = ti_newStatus input
         \<or> build_transition_condition (ti_entityType input) (ti_newStatus input) = None \<longrightarrow> new = [])"
proof -
  have gen: "\<exists>new. alert_logs w' = alert_logs w @ new \<and> (rs = {} \<longrightarrow> new = []) \<and> (\<forall>l \<in> set new.
      alog_entityId l = ent \<and> alog_message l = m
      \<and> (\<exists>r \<in> rs. rule_id r = alog_alertRuleId l \<and> rule_entityType r = alog_entityType l))"
    if "log_steps E rs ent m w w'" for rs ent m w'
    using that
  proof (induction rule: log_steps.induct)
    case (log_steps_step w v r u)
    then obtain new where new: "alert_logs v = alert_logs w @ new" "rs = {} \<longrightarrow> new = []"
      "\<forall>l \<in> set new. alog_entityId l = ent \<and> alog_message l = m
        \<and> (\<exists>r \<in> rs. rule_id r = alog_alertRuleId l \<and> rule_entityType r = alog_entityType l)" by blast
    from log_steps_step.hyps(3) obtain more where more: "alert_logs u = alert_logs v @ more"
      "\<forall>l \<in> set more. alog_entityId l = ent \<and> alog_message l = m
        \<and> rule_id r = alog_alertRuleId l \<and> rule_entityType r = alog_entityType l"
      unfolding log_step_def log_entry_for_def by auto
    show ?case
      by (rule exI [of _ "new @ more"]) (use new more log_steps_step.hyps(2) in auto)
  qed simp
  from gen [OF evaluate_transition_steps [of E input w]] show ?thesis
    by (fastforce simp: transition_rules_def rule_matches_def split: if_splits option.splits)
qed

subsection \<open>Cooldown\<close>

definition clock_mono :: "env \<Rightarrow> bool" where
  "clock_mono E \<longleftrightarrow> (\<forall>m n. m \<le> n \<longrightarrow> clock E m \<le> clock E n)"

definition same_alert :: "uuid \<Rightarrow> alert_log \<Rightarrow> alert_log \<Rightarrow> bool" where
  "same_alert rid a b \<longleftrightarrow> alog_alertRuleId a = rid \<and> alog_alertRuleId b = rid
     \<and> alog_entityId a = alog_entityId b \<and> alog_deliveryStatus a = SENT \<and> alog_deliveryStatus b = SENT"

definition cooldown_kept :: "world \<Rightarrow> bool" where
  "cooldown_kept w \<longleftrightarrow> distinct (map rule_id (alert_rules w)) \<and>
    (\<forall>r \<in> set (alert_rules w). sorted_wrt (\<lambda>a b. same_alert (rule_id r) a b \<longrightarrow>
        alog_firedAt a + rule_cooldownMinutes r * 60000 \<le> alog_firedAt b) (alert_logs w))"

lemma cooldown_kept_log_step:
  assumes "clock_mono E" "cooldown_kept v" "r \<in> set (alert_rules v)"
    and "log_step E (\<lambda>ls k l. log_entry_for E r ent m k ls l) v u"
  shows "cooldown_kept u"
proof -
  from assms(4) obtain n new where u: "u = v\<lparr>alert_logs := alert_logs v @ new, steps := n\<rparr>"
    "new = [] \<or> (\<exists>l. new = [l] \<and> log_entry_for E r ent m (steps v) (alert_logs v) l)"
    unfolding log_step_def by blast
  from u(2) show ?thesis
  proof
    assume "new = []"
    with u(1) assms(2) show ?thesis by (simp add: cooldown_kept_def)
  next
    assume "\<exists>l. new = [l] \<and> log_entry_for E r ent m (steps v) (alert_logs v) l"
    then obtain l where l: "new = [l]" "log_entry_for E r ent m (steps v) (alert_logs v) l" by blast
    have "alog_firedAt a + rule_cooldownMinutes q * 60000 \<le> alog_firedAt l"
      if "q \<in> set (alert_rules v)" "a \<in> set (alert_logs v)" "same_alert (rule_id q) a l" for q a
    proof -
      have "rule_id q = rule_id r" using l(2) that(3) by (auto simp: log_entry_for_def same_alert_def)
      then have q: "q = r" using assms(2,3) that(1) by (auto simp: cooldown_kept_def distinct_map dest: inj_onD)
      from l(2) that(3) obtain i j where ij: "i \<le> j" "alog_firedAt l = clock E j"
        "out_of_cooldown E r ent (alert_logs v) (clock E i)"
        by (auto simp: log_entry_for_def same_alert_def)
      have "alog_firedAt a + rule_cooldownMinutes r * 60000 \<le> clock E i"
        using ij(3) that(2,3) l(2) q by (auto simp: out_of_cooldown_def same_alert_def log_entry_for_def)
      also have "\<dots> \<le> clock E j" using assms(1) ij(1) by (simp add: clock_mono_def)
      finally show ?thesis using q ij(2) by simp
    qed
    with assms(2) u(1) l(1) show ?thesis
      by (auto simp: cooldown_kept_def sorted_wrt_append)
  qed
qed

lemma cooldown_kept_log_steps:
  assumes "log_steps E rs ent m w w'" "clock_mono E" "cooldown_kept w" "rs \<subseteq> set (alert_rules w)"
  shows "cooldown_kept w'"
  using assms
proof (induction rule: log_steps.induct)
  case (log_steps_refl w n)
  then show ?case by (simp add: cooldown_kept_def)
next
  case (log_steps_step w v r u)
  have "alert_rules v = alert_rules w" using log_steps_frame [OF log_steps_step.hyps(1)] by auto
  with log_steps_step have "r \<in> set (alert_rules v)" "cooldown_kept v" by auto
  with cooldown_kept_log_step [OF log_steps_step.prems(1)] log_steps_step.hyps(3) show ?case by blast
qed


definition demo_rule :: alert_rule where
  "demo_rule = \<lparr>rule_id = ''rule'', rule_orgId = ''org'', rule_name = ''unreachable'', rule_entityType = AE_HOST,
     rule_condition = ''host_status_transitioned_to:unreachable'', rule_channel = SLACK,
     rule_channelConfigEncrypted = encrypt_with demo_env (replicate 12 (CHR ''r'')) (''{'' @ dquote # ''webhook_url''
       @ dquote # '':'' @ dquote # ''https://h'' @ dquote # ''}''),
     rule_cooldownMinutes = 30, rule_enabled = True, rule_createdAt = 0\<rparr>"

lemma demo_rule_id: "rule_id demo_rule = ''rule''"
  by (simp add: demo_rule_def)

definition demo_log :: alert_log where
  "demo_log = \<lparr>alog_id = ''log'', alog_alertRuleId = ''rule'', alog_entityType = AE_HOST, alog_entityId = ''h'',
     alog_message = ''m'', alog_deliveryStatus = SENT, alog_error = None, alog_firedAt = -1000\<rparr>"

text \<open>One run with a matching rule.\<close>

theorem evaluate_transition_matches_witness:
  "list_all (\<lambda>l. alog_entityId l = ''h'' \<and> alog_alertRuleId l = ''rule'') (alert_logs (snd (evaluate_transition demo_env
     \<lparr>ti_orgId = ''org'', ti_entityType = AE_HOST, ti_entityId = ''h'', ti_previousStatus = ''healthy'',
      ti_newStatus = ''unreachable''\<rparr> (empty_world\<lparr>alert_rules := [demo_rule]\<rparr>))))"
  using evaluate_transition_matches [of demo_env "\<lparr>ti_orgId = ''org'', ti_entityType = AE_HOST, ti_entityId = ''h'',
      ti_previousStatus = ''healthy'', ti_newStatus = ''unreachable''\<rparr>" "empty_world\<lparr>alert_rules := [demo_rule]\<rparr>"]
  by (auto simp: list_all_iff demo_rule_id)


subsection \<open>The outcome of one rule\<close>

lemma slack_send_success:
  "fst (slack_send E m c w) = Inr (True, err) \<longleftrightarrow>
    (\<exists>kvs url status body. c = JObj kvs \<and> map_of kvs ''webhook_url'' = Some (JStr url) \<and> trim url \<noteq> []
       \<and> http_post E (steps w) url (json_stringify (JObj [(''text'', JStr m)])) = HttpResponse status body
       \<and> 200 \<le> status \<and> status < 300 \<and> err = None)"
proof (cases c)
  case (JObj kvs)
  show ?thesis
  proof (cases "\<exists>url. map_of kvs ''webhook_url'' = Some (JStr url) \<and> trim url \<noteq> []")
    case True
    then obtain url where "map_of kvs ''webhook_url'' = Some (JStr url)" "trim url \<noteq> []" by blast
    then show ?thesis
      by (cases "http_post E (steps w) url (json_stringify (JObj [(''text'', JStr m)]))")
         (auto simp: slack_send_def JObj simp del: json_stringify.simps)
  next
    case False
    then have "fst (slack_send E m c w) = Inr (False, Some ''Slack channel config is missing \"webhook_url\"'')"
      by (auto simp: slack_send_def JObj ret_def split: option.split json.split)
    with False JObj show ?thesis by auto
  qed
qed (simp_all add: slack_send_def ret_def throw_def)

text \<open>Whether a rule's message reaches its channel when it is sent at this state.\<close>

definition delivered :: "env \<Rightarrow> alert_rule \<Rightarrow> string \<Rightarrow> nat \<Rightarrow> bool" where
  "delivered E rule m n \<longleftrightarrow> rule_channel rule = SLACK \<and>
    (\<exists>t kvs url status body. decrypt E (rule_channelConfigEncrypted rule) = Inr t
       \<and> json_parse t = Some (JObj kvs) \<and> map_of kvs ''webhook_url'' = Some (JStr url) \<and> trim url \<noteq> []
       \<and> http_post E n url (json_stringify (JObj [(''text'', JStr m)])) = HttpResponse status body
       \<and> 200 \<le> status \<and> status < 300)"

lemma deliver_success: "fst (deliver E rule m w) = Inr (True, err) \<longleftrightarrow> delivered E rule m (steps w) \<and> err = None"
proof (cases "decrypt E (rule_channelConfigEncrypted rule)")
  case d: (Inr t)
  show ?thesis
  proof (cases "json_parse t")
    case (Some c)
    show ?thesis
    proof (cases "rule_channel rule")
      case SLACK
      with d Some slack_send_success [of E m c w err] show ?thesis
        by (auto simp: deliver_def bind_def lift_result_def parse_json_def adapter_send_def delivered_def
            simp del: json_stringify.simps)
    next
      case EMAIL
      with d Some show ?thesis
        by (simp add: deliver_def bind_def lift_result_def parse_json_def adapter_send_def delivered_def
            email_send_def ret_def)
    qed
  qed (simp add: d deliver_def bind_def lift_result_def parse_json_def delivered_def)
qed (simp add: deliver_def bind_def lift_result_def delivered_def)

lemma write_alert_log_ok:
  assumes "no_db_fault E" and "\<forall>n. fresh_uuid E n \<notin> alog_id ` set (alert_logs w)"
  shows "\<exists>l. alert_logs (snd (write_alert_log E rule e m b err w)) = alert_logs w @ [l]
     \<and> alog_alertRuleId l = rule_id rule \<and> alog_entityId l = e \<and> alog_message l = m
     \<and> (alog_deliveryStatus l = SENT \<longleftrightarrow> b) \<and> alog_error l = err"
proof -
  have c: "\<not> (\<exists>x \<in> set (alert_logs w). alog_id x = fresh_uuid E (steps w))"
    using assms(2) by (metis imageI)
  from assms(1) c show ?thesis
    by (simp add: no_db_fault_def write_alert_log_def repo_insert_def repo_def Let_def prog_simps)
qed

lemma is_within_cooldown_ok:
  assumes "no_db_fault E"
  shows "is_within_cooldown E rule ent w =
    (Inr (\<not> out_of_cooldown E rule ent (alert_logs w) (clock E (steps w))), tick (tick w))"
proof -
  have "(List.find (\<lambda>l. alog_alertRuleId l = rule_id rule \<and> alog_entityId l = ent
      \<and> alog_deliveryStatus l = SENT \<and> clock E (steps w) - rule_cooldownMinutes rule * 60000 < alog_firedAt l)
      (alert_logs w) = None) = out_of_cooldown E rule ent (alert_logs w) (clock E (steps w))"
    by (auto simp: find_None_iff out_of_cooldown_def not_less le_diff_eq)
  then show ?thesis
    using assms
    by (simp add: is_within_cooldown_def now_def bind_def ret_def Let_def repo_find_one_ok del: not_None_eq)
qed

text \<open>
  C22. With the database up, one evaluation of a rule does exactly one of two things. Within
  the cooldown of the last alert \<^emph>\<open>sent\<close> for the entity it does nothing; otherwise it
  makes one delivery attempt and logs it, as sent exactly when the rule's channel is Slack,
  its config decrypts to an object with a webhook URL, and the POST to that URL answered 2xx.
  A failed delivery is logged with an error and does not start a cooldown.
\<close>

theorem evaluate_rule_outcome:
  assumes "no_db_fault E" and "\<forall>n. fresh_uuid E n \<notin> alog_id ` set (alert_logs w)"
  shows "if out_of_cooldown E rule ent (alert_logs w) (clock E (steps w))
    then \<exists>l. alert_logs (snd (evaluate_rule E rule ent m w)) = alert_logs w @ [l]
      \<and> alog_alertRuleId l = rule_id rule \<and> alog_entityId l = ent \<and> alog_message l = m
      \<and> (alog_deliveryStatus l = SENT \<longleftrightarrow> delivered E rule m (steps w + 2))
    else alert_logs (snd (evaluate_rule E rule ent m w)) = alert_logs w"
proof (cases "out_of_cooldown E rule ent (alert_logs w) (clock E (steps w))")
  case True
  let ?v = "tick (tick w)"
  obtain r u where r: "deliver E rule m ?v = (r, u)" by force
  have u: "alert_logs u = alert_logs w" using deliver_state [of E rule m ?v] r by auto
  then have ids: "\<forall>n. fresh_uuid E n \<notin> alog_id ` set (alert_logs u)" using assms(2) by simp
  have d: "(\<exists>err. r = Inr (True, err)) \<longleftrightarrow> delivered E rule m (steps w + 2)"
    using deliver_success [of E rule m ?v] r by auto
  show ?thesis
  proof (cases r)
    case (Inl e)
    then have "evaluate_rule E rule ent m w = write_alert_log E rule ent m False (error_message e) u"
      using r True by (simp add: evaluate_rule_def bind_def try_catch_def is_within_cooldown_ok [OF assms(1)])
    with write_alert_log_ok [OF assms(1) ids, of rule ent m False "error_message e"] u True d Inl
    show ?thesis by auto
  next
    case (Inr res)
    obtain b err where res: "res = (b, err)" by force
    have "fst (write_alert_log E rule ent m b err u) = Inr ()"
      by (simp add: write_alert_log_def try_catch_def ret_def andthen_def bind_def split: prod.splits sum.splits)
    then have "evaluate_rule E rule ent m w = write_alert_log E rule ent m b err u"
      using r True Inr res
      by (cases "write_alert_log E rule ent m b err u")
         (simp add: evaluate_rule_def bind_def try_catch_def is_within_cooldown_ok [OF assms(1)])
    with write_alert_log_ok [OF assms(1) ids, of rule ent m b err] u True d Inr res
    show ?thesis by auto
  qed
qed (simp add: evaluate_rule_def bind_def try_catch_def ret_def is_within_cooldown_ok [OF assms(1)])

theorem evaluate_rule_outcome_witness:
  "if out_of_cooldown demo_env demo_rule ''h'' [] 0
    then \<exists>l. alert_logs (snd (evaluate_rule demo_env demo_rule ''h'' ''m'' empty_world)) = [l]
      \<and> alog_alertRuleId l = ''rule'' \<and> alog_entityId l = ''h'' \<and> alog_message l = ''m''
      \<and> (alog_deliveryStatus l = SENT \<longleftrightarrow> delivered demo_env demo_rule ''m'' 2)
    else alert_logs (snd (evaluate_rule demo_env demo_rule ''h'' ''m'' empty_world)) = []"
  using evaluate_rule_outcome [OF demo_env_ok(2), of empty_world demo_rule "''h''" "''m''"]
  by (simp add: demo_rule_id numeral_2_eq_2 split: if_split_asm)

end
