(* ===== verification/Services_Sync.thy ===== *)
theory Services_Sync
  imports Snapshots Alerts
begin

section \<open>ServicesSyncService\<close>

text \<open>
  \<open>src/services/services-sync.service.ts\<close>: turns one \<open>docker ps -a\<close> listing into the rows of
  the \<open>services\<close> table, which has a unique index on (host, container id), logs and alerts
  each of them, captures a snapshot when the image changed, and marks the rows of
  containers that are no longer listed \<open>unknown\<close>.
\<close>

definition service_clash :: "service \<Rightarrow> service \<Rightarrow> bool" where
  "service_clash x y \<longleftrightarrow> svc_hostId x = svc_hostId y \<and> svc_containerId x = svc_containerId y"

definition save_service :: "env \<Rightarrow> service \<Rightarrow> service action" where
  "save_service E = repo_save E services (\<lambda>t w. w\<lparr>services := t\<rparr>) svc_id service_clash"

definition host_ssh_options :: "host \<Rightarrow> string \<Rightarrow> ssh_options" where
  "host_ssh_options h privateKey = \<lparr>ssh_host = host_ipAddress h, ssh_port = host_sshPort h,
     ssh_username = host_sshUser h, ssh_privateKey = privateKey\<rparr>"

definition DOCKER_INSPECT_COMMAND_PREFIX :: string where
  "DOCKER_INSPECT_COMMAND_PREFIX = ''docker inspect''"

definition capture_from_inspect :: "env \<Rightarrow> service \<Rightarrow> docker_ps_container \<Rightarrow> ssh_result \<Rightarrow> unit action" where
  "capture_from_inspect E svc container inspectResult =
    (if sr_exitCode inspectResult \<noteq> Some 0 then ret ()
     else bind (lift_result (parse_docker_inspect_output (sr_stdout inspectResult))) (\<lambda>parsed.
       case parsed of None \<Rightarrow> ret ()
       | Some config \<Rightarrow>
           bind (now E) (\<lambda>t.
           andthen (create_snapshot E \<lparr>cs_serviceId = svc_id svc, cs_imageTag = dc_image container,
               cs_config = config, cs_deployedAt = t, cs_deployedById = None\<rparr>)
             (ret ()))))"

definition capture_snapshot_if_image_changed :: "env \<Rightarrow> host \<Rightarrow> service \<Rightarrow> docker_ps_container \<Rightarrow> unit action" where
  "capture_snapshot_if_image_changed E host svc container =
     bind (find_current_for_service E (svc_id svc)) (\<lambda>currentSnapshot.
     if map_option snap_imageTag currentSnapshot = Some (dc_image container) then ret ()
     else case decrypt E (host_sshKeyEncrypted host) of
       Inl error \<Rightarrow> ret ()
     | Inr privateKey \<Rightarrow>
         try_catch
           (bind (run_commands E (host_ssh_options host privateKey)
                   [DOCKER_INSPECT_COMMAND_PREFIX @ '' '' @ dc_id container]) (\<lambda>results.
            capture_from_inspect E svc container (hd results)))
           (\<lambda>error. ret ()))"

definition service_log_json :: "docker_ps_container \<Rightarrow> json" where
  "service_log_json c = JObj [(''container_id'', JStr (dc_id c)), (''names'', JStr (dc_names c)),
     (''image'', JStr (dc_image c)), (''status'', JStr (dc_status c)), (''ports'', JStr (dc_ports c))]"

text \<open>The columns an upsert writes.\<close>

definition refresh_service :: "docker_ps_container \<Rightarrow> time \<Rightarrow> service \<Rightarrow> service" where
  "refresh_service c checkedAt s =
    (let (img, tag) = split_image_and_tag (dc_image c) in
     s\<lparr>svc_containerName := dc_names c, svc_image := img, svc_currentTag := tag,
       svc_status := classify_container_status (dc_status c),
       svc_portMappings := (if dc_ports c \<noteq> [] then Some (dc_ports c) else None),
       svc_lastCheckedAt := checkedAt\<rparr>)"

definition created_service :: "host \<Rightarrow> docker_ps_container \<Rightarrow> uuid \<Rightarrow> time \<Rightarrow> service" where
  "created_service host c i d = \<lparr>svc_id = i, svc_orgId = host_orgId host, svc_hostId = host_id host,
     svc_containerId = dc_id c, svc_containerName = [], svc_image = [], svc_currentTag = None,
     svc_status = SS_UNKNOWN, svc_portMappings = None, svc_lastCheckedAt = d, svc_createdAt = d\<rparr>"

definition save_refreshed :: "env \<Rightarrow> host \<Rightarrow> docker_ps_container \<Rightarrow> time \<Rightarrow> service option \<Rightarrow> service action" where
  "save_refreshed E host c checkedAt found = (case found of
     Some s \<Rightarrow> save_service E (refresh_service c checkedAt s)
   | None \<Rightarrow> repo_insert E services (\<lambda>t w. w\<lparr>services := t\<rparr>) svc_id service_clash
       (\<lambda>i d. refresh_service c checkedAt (created_service host c i d)))"

text \<open>The log, the alert and the snapshot that follow a saved row.\<close>

definition after_save :: "env \<Rightarrow> host \<Rightarrow> docker_ps_container \<Rightarrow> service_status \<Rightarrow> service \<Rightarrow> unit action" where
  "after_save E host container previousStatus saved =
     andthen (write_hc_log E HE_SERVICE (svc_id saved)
       (service_status_str (classify_container_status (dc_status container))) (service_log_json container))
     (andthen (evaluate_transition E \<lparr>ti_orgId = host_orgId host, ti_entityType = AE_SERVICE,
       ti_entityId = svc_id saved, ti_previousStatus = service_status_str previousStatus,
       ti_newStatus = service_status_str (svc_status saved)\<rparr>)
     (capture_snapshot_if_image_changed E host saved container))"

definition upsert_service :: "env \<Rightarrow> host \<Rightarrow> docker_ps_container \<Rightarrow> time \<Rightarrow> unit action" where
  "upsert_service E host container checkedAt =
     bind (repo_find_one E services (\<lambda>s. svc_hostId s = host_id host \<and> svc_containerId s = dc_id container)) (\<lambda>found.
     let previousStatus = (case found of Some s \<Rightarrow> svc_status s | None \<Rightarrow> SS_UNKNOWN) in
     bind (save_refreshed E host container checkedAt found)
       (after_save E host container previousStatus))"

definition missing_service :: "string set \<Rightarrow> service \<Rightarrow> bool" where
  "missing_service seen s \<longleftrightarrow> svc_containerId s \<notin> seen \<and> svc_status s \<noteq> SS_UNKNOWN"

definition mark_unknown :: "time \<Rightarrow> service \<Rightarrow> service" where
  "mark_unknown checkedAt s = s\<lparr>svc_status := SS_UNKNOWN, svc_lastCheckedAt := checkedAt\<rparr>"

definition mark_one :: "env \<Rightarrow> time \<Rightarrow> service \<Rightarrow> unit action" where
  "mark_one E checkedAt s =
     bind (save_service E (mark_unknown checkedAt s)) (\<lambda>saved.
     andthen (write_hc_log E HE_SERVICE (svc_id saved) (service_status_str SS_UNKNOWN)
       (JObj [(''reason'', JStr ''Container no longer present in docker ps -a output'')]))
     (ret ()))"

definition mark_missing_services_unknown :: "env \<Rightarrow> host \<Rightarrow> string set \<Rightarrow> time \<Rightarrow> unit action" where
  "mark_missing_services_unknown E host seenContainerIds checkedAt =
     bind (repo_find E services (\<lambda>s. svc_hostId s = host_id host)) (\<lambda>existingServices.
     for_each (filter (missing_service seenContainerIds) existingServices) (mark_one E checkedAt))"

definition sync :: "env \<Rightarrow> host \<Rightarrow> ssh_result \<Rightarrow> unit action" where
  "sync E host dockerPsResult =
    (if is_docker_missing dockerPsResult then ret ()
     else bind (lift_result (parse_docker_ps_output (sr_stdout dockerPsResult))) (\<lambda>(containers, skippedLines).
       bind (now E) (\<lambda>t.
       andthen (for_each containers (\<lambda>container. upsert_service E host container t))
         (mark_missing_services_unknown E host (set (map dc_id containers)) t))))"

subsection \<open>What leaves the services alone\<close>

lemma services_core_view: "core_view w' = core_view w \<Longrightarrow> services w' = services w"
  unfolding core_view_def by (drule arg_cong [of _ _ services]) simp

lemma services_evaluate_transition [pres]: "preserves (\<lambda>w. services w = c) (evaluate_transition E i)"
  by (rule preservesI) (simp add: services_core_view [of "snd (evaluate_transition E i w)" w for w])

lemma services_create_snapshot [pres]: "preserves (\<lambda>w. services w = c) (create_snapshot E i)"
proof (rule preservesI)
  fix w :: world assume "services w = c"
  moreover obtain r w' where "create_snapshot E i w = (r, w')" by force
  ultimately show "services (snd (create_snapshot E i w)) = c"
    using create_snapshot_frame by fastforce
qed

lemma services_capture [pres]: "preserves (\<lambda>w. services w = c) (capture_snapshot_if_image_changed E host s k)"
  unfolding capture_snapshot_if_image_changed_def capture_from_inspect_def find_current_for_service_def
  by (auto intro!: pres split: sum.split)

lemma services_write_hc_log [pres]: "preserves (\<lambda>w. services w = c) (write_hc_log E ty i st raw)"
  by (intro pres) auto

lemma services_after_save: "services (snd (after_save E host c p s w)) = services w"
proof -
  have "preserves (\<lambda>v. services v = services w) (after_save E host c p s)"
    unfolding after_save_def by (intro pres) auto
  from preservesD [OF this refl] show ?thesis .
qed

subsection \<open>What an upsert does to the table\<close>

definition services_ok :: "service list \<Rightarrow> bool" where
  "services_ok t \<longleftrightarrow> distinct (map svc_id t) \<and>
     (\<forall>x \<in> set t. \<forall>y \<in> set t. svc_id x \<noteq> svc_id y \<longrightarrow> \<not> service_clash x y)"

lemma service_clash_sym: "service_clash x y \<longleftrightarrow> service_clash y x"
  by (auto simp: service_clash_def)

lemma refresh_service_simps [simp]:
  "svc_id (refresh_service c t s) = svc_id s" "svc_orgId (refresh_service c t s) = svc_orgId s"
  "svc_hostId (refresh_service c t s) = svc_hostId s"
  "svc_containerId (refresh_service c t s) = svc_containerId s"
  "svc_status (refresh_service c t s) = classify_container_status (dc_status c)"
  "svc_containerName (refresh_service c t s) = dc_names c"
  "(svc_image (refresh_service c t s), svc_currentTag (refresh_service c t s)) = split_image_and_tag (dc_image c)"
  "svc_portMappings (refresh_service c t s) = (if dc_ports c = [] then None else Some (dc_ports c))"
  by (simp_all add: refresh_service_def split: prod.split)

lemma created_service_simps [simp]:
  "svc_id (created_service h c i d) = i" "svc_hostId (created_service h c i d) = host_id h"
  "svc_containerId (created_service h c i d) = dc_id c" "svc_orgId (created_service h c i d) = host_orgId h"
  by (simp_all add: created_service_def)

text \<open>A row that says of a container what the listing said.\<close>

definition reflects :: "docker_ps_container \<Rightarrow> service \<Rightarrow> bool" where
  "reflects c s \<longleftrightarrow> svc_containerName s = dc_names c
     \<and> (svc_image s, svc_currentTag s) = split_image_and_tag (dc_image c)
     \<and> svc_status s = classify_container_status (dc_status c)
     \<and> svc_portMappings s = (if dc_ports c = [] then None else Some (dc_ports c))"

definition upserted :: "host \<Rightarrow> docker_ps_container \<Rightarrow> service list \<Rightarrow> service list \<Rightarrow> bool" where
  "upserted host c t t' \<longleftrightarrow> (\<exists>r. svc_hostId r = host_id host \<and> svc_containerId r = dc_id c \<and> reflects c r
     \<and> ((\<exists>s \<in> set t. svc_id s = svc_id r \<and> svc_hostId s = host_id host \<and> svc_containerId s = dc_id c
            \<and> svc_orgId s = svc_orgId r \<and> t' = save_row svc_id r t)
        \<or> (svc_id r \<notin> svc_id ` set t \<and> (\<forall>x \<in> set t. \<not> service_clash x r) \<and> svc_orgId r = host_orgId host
            \<and> t' = t @ [r])))"

lemma reflects_refresh [simp]: "reflects c (refresh_service c t s)"
  by (simp add: reflects_def)

lemma save_refreshed_cases:
  assumes "found = List.find (\<lambda>s. svc_hostId s = host_id host \<and> svc_containerId s = dc_id c) (services w)"
  obtains (refused) e where "save_refreshed E host c t found w = (Inl e, tick w)"
  | (saved) r t' where "save_refreshed E host c t found w = (Inr r, tick (w\<lparr>services := t'\<rparr>))"
      "upserted host c (services w) t'" "svc_hostId r = host_id host" "svc_status r = classify_container_status (dc_status c)"
      "r \<in> set t'"
proof (cases "save_refreshed E host c t found w")
  case (Pair res w')
  show ?thesis
  proof (cases found)
    case (Some s)
    note s = find_SomeD [OF Some [unfolded assms]]
    let ?r = "refresh_service c t s"
    have res: "save_refreshed E host c t found w = save_service E ?r w" using Some by (simp add: save_refreshed_def)
    show ?thesis
    proof (cases "db_fault E (steps w) = None \<and> \<not> (\<exists>x \<in> set (services w). svc_id x \<noteq> svc_id ?r \<and> service_clash x ?r)")
      case True
      have "save_service E ?r w = (Inr ?r, tick (w\<lparr>services := save_row svc_id ?r (services w)\<rparr>))"
        using True by (simp add: save_service_def repo_save_def repo_def)
      moreover have "upserted host c (services w) (save_row svc_id ?r (services w))"
        unfolding upserted_def using s by (intro exI [of _ ?r]) auto
      ultimately show ?thesis using s by (intro saved [of ?r "save_row svc_id ?r (services w)"]) (simp_all add: res)
    next
      case False
      then have "\<exists>e. save_service E ?r w = (Inl e, tick w)"
        by (cases "db_fault E (steps w)") (auto simp: save_service_def repo_save_def repo_def)
      with res show ?thesis using refused by auto
    qed
  next
    case None
    let ?r = "refresh_service c t (created_service host c (fresh_uuid E (steps w)) (clock E (steps w)))"
    show ?thesis
    proof (cases "db_fault E (steps w) = None \<and> \<not> (\<exists>x \<in> set (services w). svc_id x = svc_id ?r \<or> service_clash x ?r)")
      case True
      have "save_refreshed E host c t found w = (Inr ?r, tick (w\<lparr>services := services w @ [?r]\<rparr>))"
        using True None by (simp add: save_refreshed_def repo_insert_def repo_def Let_def)
      moreover have "svc_id ?r \<notin> svc_id ` set (services w)" using True by (metis imageE)
      with True have "upserted host c (services w) (services w @ [?r])"
        unfolding upserted_def by (intro exI [of _ ?r]) auto
      ultimately show ?thesis by (intro saved [of ?r "services w @ [?r]"]) simp_all
    next
      case False
      then have "\<exists>e. save_refreshed E host c t found w = (Inl e, tick w)"
        using None by (cases "db_fault E (steps w)") (auto simp: save_refreshed_def repo_insert_def repo_def Let_def)
      then show ?thesis using refused by auto
    qed
  qed
qed

lemma upsert_service_cases:
  obtains (refused) e where "fst (upsert_service E host c t w) = Inl e"
      "services (snd (upsert_service E host c t w)) = services w"
  | (saved) "upserted host c (services w) (services (snd (upsert_service E host c t w)))"
proof (cases "db_fault E (steps w)")
  case (Some e)
  then show ?thesis
    by (intro refused [of e]) (simp_all add: upsert_service_def repo_find_one_def repo_def bind_def)
next
  case None
  let ?found = "List.find (\<lambda>s. svc_hostId s = host_id host \<and> svc_containerId s = dc_id c) (services w)"
  let ?prev = "case ?found of Some s \<Rightarrow> svc_status s | None \<Rightarrow> SS_UNKNOWN"
  have eq: "upsert_service E host c t w = bind (save_refreshed E host c t ?found) (after_save E host c ?prev) (tick w)"
    using None by (simp add: upsert_service_def repo_find_one_def repo_def bind_def Let_def)
  have f: "?found = List.find (\<lambda>s. svc_hostId s = host_id host \<and> svc_containerId s = dc_id c) (services (tick w))"
    by simp
  show ?thesis
  proof (cases rule: save_refreshed_cases [OF f, of E t])
    case (1 e)
    then show ?thesis using that(1) [of e] by (simp add: eq bind_def)
  next
    case (2 r t')
    then have "upsert_service E host c t w = after_save E host c ?prev r (tick (tick w\<lparr>services := t'\<rparr>))"
      by (simp add: eq bind_def)
    then have "services (snd (upsert_service E host c t w)) = t'" by (simp add: services_after_save)
    with 2(2) show ?thesis using that(2) by simp
  qed
qed

definition foreign_services :: "host \<Rightarrow> service list \<Rightarrow> service list" where
  "foreign_services host t = filter (\<lambda>s. svc_hostId s \<noteq> host_id host) t"

definition listed :: "host \<Rightarrow> docker_ps_container \<Rightarrow> service list \<Rightarrow> bool" where
  "listed host c t \<longleftrightarrow> (\<exists>s \<in> set t. svc_hostId s = host_id host \<and> svc_containerId s = dc_id c \<and> reflects c s)"

lemma services_ok_save:
  assumes "services_ok t" "s \<in> set t" "svc_id s = svc_id r" "service_clash s r"
  shows "services_ok (save_row svc_id r t)"
proof -
  have d: "distinct (map svc_id t)" using assms(1) by (simp add: services_ok_def)
  have c: "\<not> service_clash x r" if "x \<in> set t" "svc_id x \<noteq> svc_id r" for x
    using assms that unfolding services_ok_def service_clash_def by metis
  show ?thesis
    using service_table.unique_save [OF d, of service_clash r] service_table.distinct_save [OF d, of r] assms(1) c
    by (auto simp: services_ok_def symp_def service_clash_sym)
qed

lemma foreign_save:
  assumes "distinct (map svc_id t)" "s \<in> set t" "svc_id s = svc_id r" "svc_hostId s = host_id host" "svc_hostId r = host_id host"
  shows "foreign_services host (save_row svc_id r t) = foreign_services host t"
proof -
  have u: "svc_hostId x = host_id host" if "x \<in> set t" "svc_id x = svc_id r" for x
    using key_unique [OF assms(1) that(1) assms(2)] that(2) assms(3,4) by simp
  have e: "save_row svc_id r t = map (\<lambda>x. if svc_id x = svc_id r then r else x) t"
    using save_row_map [OF assms(1), of r] assms(2,3) by (metis imageI)
  have "filter p (map (\<lambda>x. if svc_id x = svc_id r then r else x) l) = filter p l"
    if "\<not> p r" "\<forall>x \<in> set l. svc_id x = svc_id r \<longrightarrow> \<not> p x" for p l
    using that by (induction l) auto
  then show ?thesis unfolding foreign_services_def e using u assms(5) by simp
qed

lemma upserted_props:
  assumes "services_ok t" "upserted host c t t'"
  shows "services_ok t'" "foreign_services host t' = foreign_services host t" "listed host c t'"
    "dc_id c' \<noteq> dc_id c \<Longrightarrow> listed host c' t \<Longrightarrow> listed host c' t'"
proof -
  from assms(2) obtain r where r: "svc_hostId r = host_id host" "svc_containerId r = dc_id c" "reflects c r"
    "(\<exists>s \<in> set t. svc_id s = svc_id r \<and> svc_hostId s = host_id host \<and> svc_containerId s = dc_id c
        \<and> t' = save_row svc_id r t)
     \<or> (svc_id r \<notin> svc_id ` set t \<and> (\<forall>x \<in> set t. \<not> service_clash x r) \<and> t' = t @ [r])"
    unfolding upserted_def by blast
  have d: "distinct (map svc_id t)" using assms(1) by (simp add: services_ok_def)
  from r(4) have "services_ok t' \<and> foreign_services host t' = foreign_services host t \<and> r \<in> set t'
      \<and> (\<forall>x \<in> set t. svc_containerId x \<noteq> dc_id c \<longrightarrow> svc_hostId x = host_id host \<longrightarrow> x \<in> set t')"
  proof
    assume "\<exists>s \<in> set t. svc_id s = svc_id r \<and> svc_hostId s = host_id host \<and> svc_containerId s = dc_id c
        \<and> t' = save_row svc_id r t"
    then obtain s where s: "s \<in> set t" "svc_id s = svc_id r" "svc_hostId s = host_id host" "svc_containerId s = dc_id c"
      "t' = save_row svc_id r t" by blast
    have "x \<in> set t'" if "x \<in> set t" "svc_containerId x \<noteq> dc_id c" for x
    proof -
      have "svc_id x \<noteq> svc_id r" using key_unique [OF d that(1) s(1)] s(2,4) that(2) by auto
      with that(1) show ?thesis by (simp add: s(5) mem_save_row [OF d])
    qed
    moreover have "services_ok t'" unfolding s(5)
      by (rule services_ok_save [OF assms(1) s(1,2)]) (simp add: service_clash_def s r)
    moreover have "foreign_services host t' = foreign_services host t" unfolding s(5)
      by (rule foreign_save [OF d s(1,2,3) r(1)])
    ultimately show ?thesis using s(5) by simp
  next
    assume a: "svc_id r \<notin> svc_id ` set t \<and> (\<forall>x \<in> set t. \<not> service_clash x r) \<and> t' = t @ [r]"
    moreover from this have "\<forall>x \<in> set t. \<not> service_clash r x" using service_clash_sym by blast
    ultimately show ?thesis using assms(1) r(1) by (simp add: services_ok_def foreign_services_def)
  qed
  then have p: "services_ok t'" "foreign_services host t' = foreign_services host t" "r \<in> set t'"
    and q: "\<And>x. x \<in> set t \<Longrightarrow> svc_containerId x \<noteq> dc_id c \<Longrightarrow> svc_hostId x = host_id host \<Longrightarrow> x \<in> set t'"
    by blast+
  show "services_ok t'" "foreign_services host t' = foreign_services host t" by (rule p)+
  show "listed host c t'" unfolding listed_def using p(3) r(1-3) by blast
  assume "dc_id c' \<noteq> dc_id c" "listed host c' t"
  then show "listed host c' t'" unfolding listed_def using q by metis
qed

lemma upsert_loop:
  "services_ok (services w) \<Longrightarrow> for_each cs (\<lambda>c. upsert_service E host c t) w = (r, w') \<Longrightarrow>
   services_ok (services w') \<and> foreign_services host (services w') = foreign_services host (services w)
    \<and> (r = Inr () \<longrightarrow> distinct (map dc_id cs) \<longrightarrow>
        (\<forall>c. (c \<in> set cs \<or> dc_id c \<notin> dc_id ` set cs \<and> listed host c (services w)) \<longrightarrow> listed host c (services w')))"
proof (induction cs arbitrary: w)
  case (Cons c cs)
  obtain q u where u: "upsert_service E host c t w = (q, u)" by force
  show ?case
  proof (cases rule: upsert_service_cases [of E host c t w])
    case (refused e)
    with Cons.prems u show ?thesis by (auto simp: andthen_def bind_def)
  next
    case saved
    then have up: "upserted host c (services w) (services u)" using u by simp
    note p = upserted_props [OF Cons.prems(1) up]
    show ?thesis
    proof (cases q)
      case (Inl e)
      with u p Cons.prems(2) show ?thesis by (auto simp: andthen_def bind_def)
    next
      case (Inr x)
      then have e: "for_each cs (\<lambda>c. upsert_service E host c t) u = (r, w')"
        using u Cons.prems(2) by (simp add: andthen_def bind_def)
      from Cons.IH [OF p(1) e] p show ?thesis by (auto simp: image_iff)
    qed
  qed
qed (auto simp: ret_def)

subsection \<open>Marking what is gone\<close>

lemma mark_unknown_simps [simp]:
  "svc_id (mark_unknown t s) = svc_id s" "svc_hostId (mark_unknown t s) = svc_hostId s"
  "svc_containerId (mark_unknown t s) = svc_containerId s" "svc_status (mark_unknown t s) = SS_UNKNOWN"
  by (simp_all add: mark_unknown_def)

lemma mark_one_cases:
  assumes "services_ok (services w)" "s \<in> set (services w)" "mark_one E t s w = (r, w')"
  shows "services w' = services w \<and> isl r \<or> services w' = save_row svc_id (mark_unknown t s) (services w)"
proof (cases "db_fault E (steps w)")
  case (Some e)
  with assms(3) show ?thesis by (auto simp: mark_one_def bind_def save_service_def repo_save_def repo_def)
next
  case None
  have "\<not> (\<exists>x \<in> set (services w). svc_id x \<noteq> svc_id (mark_unknown t s) \<and> service_clash x (mark_unknown t s))"
    using assms(1,2) unfolding services_ok_def service_clash_def by auto
  with None have sv: "save_service E (mark_unknown t s) w =
      (Inr (mark_unknown t s), tick (w\<lparr>services := save_row svc_id (mark_unknown t s) (services w)\<rparr>))"
    by (simp add: save_service_def repo_save_def repo_def)
  let ?rest = "andthen (write_hc_log E HE_SERVICE (svc_id s) (service_status_str SS_UNKNOWN)
       (JObj [(''reason'', JStr ''Container no longer present in docker ps -a output'')])) (ret ())"
  have "preserves (\<lambda>v. services v = c) ?rest" for c by (intro pres) auto
  from preservesD' [OF this refl] sv assms(3) show ?thesis
    by (simp add: mark_one_def bind_def)
qed

text \<open>The table during the loop: the rows still to come are untouched.\<close>

lemma mark_loop:
  "services_ok (services w) \<Longrightarrow> set ms \<subseteq> set (services w) \<Longrightarrow> distinct (map svc_id ms) \<Longrightarrow>
   \<forall>s \<in> set ms. svc_hostId s = host_id host \<Longrightarrow>
   for_each ms (mark_one E t) w = (r, w') \<Longrightarrow>
   services_ok (services w') \<and> foreign_services host (services w') = foreign_services host (services w)
   \<and> (r = Inr () \<longrightarrow> services w' =
        map (\<lambda>x. if x \<in> set ms then mark_unknown t x else x) (services w))"
proof (induction ms arbitrary: w)
  case (Cons s ms)
  obtain q u where u: "mark_one E t s w = (q, u)" by force
  have d: "distinct (map svc_id (services w))" using Cons.prems(1) by (simp add: services_ok_def)
  have s: "s \<in> set (services w)" "svc_hostId s = host_id host" using Cons.prems(2,4) by auto
  show ?case
  proof (cases "services u = services w \<and> isl q")
    case True
    then obtain e where "q = Inl e" by (cases q) auto
    with True u Cons.prems(1,5) show ?thesis by (auto simp: andthen_def bind_def)
  next
    case False
    with mark_one_cases [OF Cons.prems(1) s(1) u]
    have su: "services u = save_row svc_id (mark_unknown t s) (services w)" by blast
    have e1: "services u = map (\<lambda>x. if x = s then mark_unknown t s else x) (services w)"
    proof -
      have "services u = map (\<lambda>x. if svc_id x = svc_id s then mark_unknown t s else x) (services w)"
        using su save_row_map [OF d, of "mark_unknown t s"] s(1) by simp
      also have "\<dots> = map (\<lambda>x. if x = s then mark_unknown t s else x) (services w)"
        using key_unique [OF d _ s(1)] by (intro map_cong) auto
      finally show ?thesis .
    qed
    have ok: "services_ok (services u)" unfolding su
      by (rule services_ok_save [OF Cons.prems(1) s(1)]) (simp_all add: service_clash_def)
    have fr: "foreign_services host (services u) = foreign_services host (services w)" unfolding su
      by (rule foreign_save [OF d s(1) _ s(2)]) (simp_all add: s(2))
    show ?thesis
    proof (cases q)
      case (Inl e)
      with u ok fr Cons.prems(5) show ?thesis by (auto simp: andthen_def bind_def)
    next
      case (Inr x)
      have run: "for_each ms (mark_one E t) u = (r, w')"
        using u Inr Cons.prems(5) by (simp add: andthen_def bind_def)
      have "svc_id s \<notin> svc_id ` set ms" using Cons.prems(3) by simp
      then have nm: "mark_unknown t s \<notin> set ms" "s \<notin> set ms"
        by (metis imageI mark_unknown_simps(1))+
      have sub: "set ms \<subseteq> set (services u)"
        using Cons.prems(2) nm(2) by (auto simp: e1)
      have "r = Inr () \<longrightarrow> services w' = map (\<lambda>x. if x \<in> set ms then mark_unknown t x else x) (services u)"
        and rest: "services_ok (services w')" "foreign_services host (services w') = foreign_services host (services u)"
        using Cons.IH [OF ok sub _ _ run] Cons.prems(3,4) by simp_all
      then have "r = Inr () \<longrightarrow> services w' = map (\<lambda>x. if x \<in> set (s # ms) then mark_unknown t x else x) (services w)"
        using nm by (auto simp: e1 intro!: map_cong)
      with rest fr show ?thesis by simp
    qed
  qed
qed (auto simp: ret_def intro: map_idI [symmetric])

subsection \<open>The whole sync\<close>

definition parsed_containers :: "ssh_result \<Rightarrow> docker_ps_container list" where
  "parsed_containers ps = (case parse_docker_ps_output (sr_stdout ps) of Inr (cs, _) \<Rightarrow> cs | Inl _ \<Rightarrow> [])"

lemma sync_unfold:
  assumes "\<not> is_docker_missing ps" "parse_docker_ps_output (sr_stdout ps) = Inr (cs, k)"
  shows "sync E host ps w = andthen (for_each cs (\<lambda>c. upsert_service E host c (clock E (steps w))))
      (mark_missing_services_unknown E host (set (map dc_id cs)) (clock E (steps w))) (tick w)"
  using assms by (simp add: sync_def bind_def lift_result_def now_def)

lemma listed_marked:
  assumes "listed host c t" "dc_id c \<in> seen"
  shows "listed host c (map (\<lambda>x. if x \<in> set (filter (missing_service seen) ms) then mark_unknown n x else x) t)"
proof -
  obtain s where s: "s \<in> set t" "svc_hostId s = host_id host" "svc_containerId s = dc_id c" "reflects c s"
    using assms(1) unfolding listed_def by blast
  then have "s \<notin> set (filter (missing_service seen) ms)" using assms(2) by (simp add: missing_service_def)
  then have "s \<in> set (map (\<lambda>x. if x \<in> set (filter (missing_service seen) ms) then mark_unknown n x else x) t)"
    using s(1) by force
  with s show ?thesis unfolding listed_def by blast
qed

lemma mark_missing_result:
  assumes ok: "services_ok (services w)"
    and run: "mark_missing_services_unknown E host seen t w = (r, w')"
  shows "services_ok (services w') \<and> foreign_services host (services w') = foreign_services host (services w)
    \<and> (r = Inr () \<longrightarrow> (\<forall>c. dc_id c \<in> seen \<longrightarrow> listed host c (services w) \<longrightarrow> listed host c (services w'))
        \<and> (\<forall>s \<in> set (services w'). svc_hostId s = host_id host \<longrightarrow> svc_containerId s \<notin> seen \<longrightarrow> svc_status s = SS_UNKNOWN))"
proof (cases "db_fault E (steps w)")
  case (Some e)
  with run ok show ?thesis
    by (auto simp: mark_missing_services_unknown_def repo_find_def repo_def bind_def)
next
  case None
  let ?ex = "filter (\<lambda>s. svc_hostId s = host_id host) (services w)"
  let ?ms = "filter (missing_service seen) ?ex"
  have run': "for_each ?ms (mark_one E t) (tick w) = (r, w')"
    using run None by (simp add: mark_missing_services_unknown_def repo_find_def repo_def bind_def)
  have d: "distinct (map svc_id ?ms)" using ok by (simp add: services_ok_def distinct_map_filter)
  have o: "services_ok (services (tick w))" using ok by simp
  have b: "set ?ms \<subseteq> set (services (tick w))" by auto
  have h: "\<forall>s \<in> set ?ms. svc_hostId s = host_id host" by auto
  from mark_loop [OF o b d h run', unfolded tick_simps]
  have m: "services_ok (services w')" "foreign_services host (services w') = foreign_services host (services w)"
    "r = Inr () \<longrightarrow> services w' = map (\<lambda>x. if x \<in> set ?ms then mark_unknown t x else x) (services w)"
    by blast+
  show ?thesis
  proof (intro conjI impI allI ballI)
    fix c assume "r = Inr ()" "dc_id c \<in> seen" "listed host c (services w)"
    with m(3) listed_marked [of host c "services w" seen ?ex t] show "listed host c (services w')" by simp
  next
    fix s assume r: "r = Inr ()" "s \<in> set (services w')" "svc_hostId s = host_id host" "svc_containerId s \<notin> seen"
    with m(3) obtain x where x: "x \<in> set (services w)" "s = (if x \<in> set ?ms then mark_unknown t x else x)"
      by auto
    show "svc_status s = SS_UNKNOWN"
    proof (cases "x \<in> set ?ms")
      case False
      have "s = x" by (rule trans [OF x(2) if_not_P [OF False]])
      with False x(1) r(3,4) show ?thesis by (simp add: missing_service_def)
    qed (use x(2) in simp)
  qed (use m in simp_all)
qed

lemma sync_result:
  assumes ok: "services_ok (services w)" and run: "sync E host ps w = (r, w')"
  shows "services_ok (services w') \<and> foreign_services host (services w') = foreign_services host (services w)"
    and "r = Inr () \<Longrightarrow> \<not> is_docker_missing ps \<Longrightarrow> distinct (map dc_id (parsed_containers ps)) \<Longrightarrow>
      \<forall>c \<in> set (parsed_containers ps). listed host c (services w')"
    and "r = Inr () \<Longrightarrow> \<not> is_docker_missing ps \<Longrightarrow>
      \<forall>s \<in> set (services w'). svc_hostId s = host_id host \<longrightarrow>
        svc_containerId s \<notin> dc_id ` set (parsed_containers ps) \<longrightarrow> svc_status s = SS_UNKNOWN"
proof -
  have "services_ok (services w') \<and> foreign_services host (services w') = foreign_services host (services w)
    \<and> (r = Inr () \<longrightarrow> \<not> is_docker_missing ps \<longrightarrow>
        (distinct (map dc_id (parsed_containers ps)) \<longrightarrow> (\<forall>c \<in> set (parsed_containers ps). listed host c (services w')))
        \<and> (\<forall>s \<in> set (services w'). svc_hostId s = host_id host \<longrightarrow>
            svc_containerId s \<notin> dc_id ` set (parsed_containers ps) \<longrightarrow> svc_status s = SS_UNKNOWN))"
  proof (cases "is_docker_missing ps \<or> isl (parse_docker_ps_output (sr_stdout ps))")
    case True
    then have "w' = w \<and> (r = Inr () \<longrightarrow> is_docker_missing ps)"
      using run by (cases "parse_docker_ps_output (sr_stdout ps)"; cases "is_docker_missing ps")
        (auto simp: sync_def ret_def bind_def lift_result_def)
    then show ?thesis using ok by simp
  next
    case False
    then obtain cs k where p: "parse_docker_ps_output (sr_stdout ps) = Inr (cs, k)"
      by (cases "parse_docker_ps_output (sr_stdout ps)") auto
    then have cs: "parsed_containers ps = cs" by (simp add: parsed_containers_def)
    let ?t = "clock E (steps w)"
    obtain q u where u: "for_each cs (\<lambda>c. upsert_service E host c ?t) (tick w) = (q, u)" by force
    have ok': "services_ok (services (tick w))" using ok by simp
    note up = upsert_loop [OF ok' u]
    show ?thesis
    proof (cases q)
      case (Inl e)
      with sync_unfold [of ps cs k E host w] False p u run have "r = Inl e" "w' = u"
        by (auto simp: andthen_def bind_def)
      with up show ?thesis by simp
    next
      case (Inr x)
      with sync_unfold [of ps cs k E host w] False p u run
      have "mark_missing_services_unknown E host (set (map dc_id cs)) ?t u = (r, w')"
        by (auto simp: andthen_def bind_def)
      from mark_missing_result [OF _ this] up Inr show ?thesis unfolding cs by auto
    qed
  qed
  then show "services_ok (services w') \<and> foreign_services host (services w') = foreign_services host (services w)"
    "r = Inr () \<Longrightarrow> \<not> is_docker_missing ps \<Longrightarrow> distinct (map dc_id (parsed_containers ps)) \<Longrightarrow>
      \<forall>c \<in> set (parsed_containers ps). listed host c (services w')"
    "r = Inr () \<Longrightarrow> \<not> is_docker_missing ps \<Longrightarrow>
      \<forall>s \<in> set (services w'). svc_hostId s = host_id host \<longrightarrow>
        svc_containerId s \<notin> dc_id ` set (parsed_containers ps) \<longrightarrow> svc_status s = SS_UNKNOWN"
    by blast+
qed

text \<open>
  C12. A sync keeps the table well formed and to itself: under every failure, whatever the
  host prints, ids and (host, container) pairs stay unique and no row of another host is
  added, changed or removed.
\<close>

theorem sync_preserves_table:
  assumes "services_ok (services w)" and "sync E host ps w = (r, w')"
  shows "services_ok (services w')
    \<and> filter (\<lambda>s. svc_hostId s \<noteq> host_id host) (services w') = filter (\<lambda>s. svc_hostId s \<noteq> host_id host) (services w)"
  using sync_result(1) [OF assms] by (simp add: foreign_services_def)

text \<open>
  C11. A sync that resolves leaves the table mirroring the listing: every listed container
  has a row of its host with the listed name, image, tag, ports and the classified status,
  and every other row of the host is \<open>unknown\<close>.
\<close>

theorem sync_mirrors_listing:
  assumes "services_ok (services w)" and "sync E host ps w = (Inr (), w')"
    and "\<not> is_docker_missing ps" and "distinct (map dc_id (parsed_containers ps))"
  shows "(\<forall>c \<in> set (parsed_containers ps). \<exists>s \<in> set (services w').
        svc_hostId s = host_id host \<and> svc_containerId s = dc_id c \<and> svc_containerName s = dc_names c
        \<and> (svc_image s, svc_currentTag s) = split_image_and_tag (dc_image c)
        \<and> svc_status s = classify_container_status (dc_status c)
        \<and> svc_portMappings s = (if dc_ports c = [] then None else Some (dc_ports c)))
    \<and> (\<forall>s \<in> set (services w'). svc_hostId s = host_id host \<longrightarrow>
        svc_containerId s \<notin> dc_id ` set (parsed_containers ps) \<longrightarrow> svc_status s = SS_UNKNOWN)"
  using sync_result(2) [OF assms(1,2) refl assms(3,4)] sync_result(3) [OF assms(1,2) refl assms(3)]
  unfolding listed_def reflects_def by (rule conjI)

text \<open>
  A listing that failed is taken for an empty one. When \<open>docker ps\<close> exits with an error
  that is not one of the "not installed" messages (the daemon is down, say) and prints no
  line, a sync that resolves marks every service of the host \<open>unknown\<close>, with the logged
  reason that its container is no longer present, although nothing was listed at all.
\<close>

lemma failed_listing_marks_all_unknown:
  assumes "services_ok (services w)" and "sync E host ps w = (Inr (), w')"
    and "sr_exitCode ps = Some 1" and "\<not> is_docker_missing ps" and "output_lines (sr_stdout ps) = []"
  shows "\<forall>s \<in> set (services w'). svc_hostId s = host_id host \<longrightarrow> svc_status s = SS_UNKNOWN"
proof -
  have "parsed_containers ps = []"
    using assms(5) by (simp add: parsed_containers_def parse_docker_ps_output_def)
  with sync_result(3) [OF assms(1,2)] assms(4) show ?thesis by simp
qed

subsection \<open>What a sync never touches\<close>

definition sync_view :: "world \<Rightarrow> world" where
  "sync_view w = w\<lparr>services := [], snapshots := [], hc_logs := [], alert_logs := [], steps := 0\<rparr>"

lemma sync_view_simps [simp]:
  "sync_view (tick w) = sync_view w" "sync_view (w\<lparr>services := t\<rparr>) = sync_view w"
  "sync_view (w\<lparr>hc_logs := l\<rparr>) = sync_view w" "sync_view (w\<lparr>snapshots := ss\<rparr>) = sync_view w"
  "sync_view (w\<lparr>snapshots := ss, steps := n\<rparr>) = sync_view w" "sync_view (w\<lparr>steps := n\<rparr>) = sync_view w"
  "hosts (sync_view w) = hosts w" "rollback_events (sync_view w) = rollback_events w"
  by (simp_all add: sync_view_def tick_def)

lemma sync_view_core: "core_view w' = core_view w \<Longrightarrow> sync_view w' = sync_view w"
proof -
  assume "core_view w' = core_view w"
  then have "sync_view (core_view w') = sync_view (core_view w)" by simp
  moreover have "sync_view (core_view v) = sync_view v" for v by (simp add: sync_view_def core_view_def)
  ultimately show ?thesis by simp
qed

lemma sync_view_evaluate [pres]: "preserves (\<lambda>w. sync_view w = c) (evaluate_transition E i)"
  by (rule preservesI) (simp add: sync_view_core [OF core_view_evaluate_transition])

lemma sync_view_create_snapshot [pres]: "preserves (\<lambda>w. sync_view w = c) (create_snapshot E i)"
proof (rule preservesI)
  fix w :: world assume "sync_view w = c"
  moreover obtain r w' where "create_snapshot E i w = (r, w')" by force
  ultimately show "sync_view (snd (create_snapshot E i w)) = c"
    using create_snapshot_frame by fastforce
qed

lemma sync_view_save_service [pres]: "preserves (\<lambda>w. sync_view w = c) (save_service E s)"
  unfolding save_service_def by (rule preserves_repo_save) auto

lemma sync_view_save_refreshed [pres]: "preserves (\<lambda>w. sync_view w = c) (save_refreshed E host k t f)"
  unfolding save_refreshed_def by (intro pres preserves_repo_insert) auto

lemma sync_view_hc_log [pres]: "preserves (\<lambda>w. sync_view w = c) (write_hc_log E ty i st raw)"
  by (intro pres) auto

lemma sync_view_capture [pres]: "preserves (\<lambda>w. sync_view w = c) (capture_snapshot_if_image_changed E host s k)"
  unfolding capture_snapshot_if_image_changed_def capture_from_inspect_def find_current_for_service_def
  by (auto intro!: pres split: sum.split)

lemma keeps_sync: "keeps sync_view (sync E host ps)"
  unfolding sync_def upsert_service_def after_save_def mark_missing_services_unknown_def mark_one_def Let_def
  by (rule keepsI) (auto intro!: pres split: prod.split)

lemma hosts_sync: "hosts (snd (sync E host ps w)) = hosts w"
  using arg_cong [OF keepsD [OF keeps_sync [of E host ps], of w], of hosts] by simp

subsection \<open>Concrete runs\<close>

definition demo_host :: host where
  "demo_host = \<lparr>host_id = ''h'', host_orgId = ''org'', host_name = ''web-1'', host_provider = OVH,
     host_ipAddress = ''203.0.113.7'', host_sshPort = 22, host_sshUser = ''deploy'',
     host_sshKeyEncrypted = encrypt_with demo_env (replicate 12 (CHR ''r'')) ''key'', host_sshPublicKey = ''pub'',
     host_status = HS_HEALTHY, host_lastCheckedAt = None, host_setupVerifiedAt = Some 0, host_createdAt = 0\<rparr>"

definition demo_service :: service where
  "demo_service = \<lparr>svc_id = ''svc'', svc_orgId = ''org'', svc_hostId = ''h'', svc_containerId = ''c0ffee'',
     svc_containerName = ''web'', svc_image = ''nginx'', svc_currentTag = Some ''1.26'', svc_status = SS_RUNNING,
     svc_portMappings = None, svc_lastCheckedAt = 0, svc_createdAt = 0\<rparr>"

definition demo_world :: world where
  "demo_world = empty_world\<lparr>hosts := [demo_host], services := [demo_service], snapshots := [demo_snapshot]\<rparr>"

definition demo_listing :: "int \<Rightarrow> string \<Rightarrow> ssh_result" where
  "demo_listing code err = \<lparr>sr_command = ''docker ps'', sr_stdout = [], sr_stderr = err, sr_exitCode = Some code\<rparr>"

lemma demo_world_simps [simp]:
  "hosts demo_world = [demo_host]" "services demo_world = [demo_service]" "snapshots demo_world = [demo_snapshot]"
  "rollback_events demo_world = []" "alert_rules demo_world = []" "hc_logs demo_world = []" "steps demo_world = 0"
  by (simp_all add: demo_world_def)

lemma db_fault_demo_env [simp]: "db_fault demo_env n = None"
  by (simp add: demo_env_def)

lemma output_lines_empty [simp]: "output_lines [] = []"
  by (simp add: output_lines_def)

lemma parse_listing_empty: "sr_stdout ps = [] \<Longrightarrow> parse_docker_ps_output (sr_stdout ps) = Inr ([], 0)"
  by (simp add: parse_docker_ps_output_def)

lemma demo_simps [simp]:
  "svc_id demo_service = ''svc''" "svc_hostId demo_service = ''h''" "svc_containerId demo_service = ''c0ffee''"
  "svc_status demo_service = SS_RUNNING" "svc_orgId demo_service = ''org''" "host_id demo_host = ''h''"
  "host_orgId demo_host = ''org''" "host_setupVerifiedAt demo_host = Some 0"
  by (simp_all add: demo_service_def demo_host_def)

lemma fst_andthen_ret: "fst (andthen m (ret ()) w) = (case fst (m w) of Inl e \<Rightarrow> Inl e | Inr _ \<Rightarrow> Inr ())"
  by (simp add: andthen_def bind_def ret_def split: prod.split sum.split)

lemma demo_mark:
  "fst (mark_one demo_env t demo_service (tick (tick demo_world))) = Inr ()"
proof -
  let ?v = "tick (tick demo_world)"
  let ?s = "mark_unknown t demo_service"
  have "save_service demo_env ?s ?v = (Inr ?s, tick (?v\<lparr>services := [?s]\<rparr>))"
    by (simp add: save_service_def repo_save_def repo_def)
  then show ?thesis
    by (simp add: mark_one_def bind_def [of "save_service demo_env ?s"] fst_andthen_ret write_hc_log_def
        repo_insert_def repo_def Let_def)
qed

lemma demo_sync:
  assumes "\<not> is_docker_missing ps" "sr_stdout ps = []"
  shows "\<exists>w'. sync demo_env demo_host ps demo_world = (Inr (), w')"
proof -
  obtain u where u: "mark_one demo_env 0 demo_service (tick (tick demo_world)) = (Inr (), u)"
    using demo_mark [of 0] by (metis prod.collapse)
  have "mark_missing_services_unknown demo_env demo_host {} 0 (tick demo_world) = (Inr (), u)"
    using u by (simp add: mark_missing_services_unknown_def bind_def [of "repo_find demo_env services _"]
        repo_find_def repo_def missing_service_def andthen_def bind_def ret_def)
  then show ?thesis
    using sync_unfold [OF assms(1) parse_listing_empty [OF assms(2)], of demo_env demo_host demo_world]
    by (simp add: andthen_def bind_def ret_def)
qed

lemma demo_services_ok: "services_ok (services demo_world)"
  by (simp add: services_ok_def)

theorem sync_preserves_table_witness:
  "\<exists>r w'. sync demo_env demo_host (demo_listing 0 []) demo_world = (r, w') \<and> services_ok (services w')"
proof -
  obtain r w' where "sync demo_env demo_host (demo_listing 0 []) demo_world = (r, w')" by force
  with sync_preserves_table [OF demo_services_ok this] show ?thesis by blast
qed

theorem sync_mirrors_listing_witness:
  "\<exists>w'. sync demo_env demo_host (demo_listing 0 []) demo_world = (Inr (), w')
     \<and> (\<forall>s \<in> set (services w'). svc_hostId s = ''h'' \<longrightarrow> svc_status s = SS_UNKNOWN)"
proof -
  have m: "\<not> is_docker_missing (demo_listing 0 [])" by (simp add: is_docker_missing_def demo_listing_def)
  obtain w' where w': "sync demo_env demo_host (demo_listing 0 []) demo_world = (Inr (), w')"
    using demo_sync [OF m] by (auto simp: demo_listing_def)
  have c: "parsed_containers (demo_listing 0 []) = []"
    by (simp add: parsed_containers_def demo_listing_def parse_docker_ps_output_def)
  show ?thesis
    using w' sync_mirrors_listing [OF demo_services_ok w' m] by (simp add: c demo_host_def)
qed

lemma failed_listing_marks_all_unknown_witness:
  "\<exists>w'. sync demo_env demo_host (demo_listing 1 ''Cannot connect to the Docker daemon'') demo_world = (Inr (), w')
     \<and> (\<forall>s \<in> set (services w'). svc_hostId s = ''h'' \<longrightarrow> svc_status s = SS_UNKNOWN)"
proof -
  let ?ps = "demo_listing 1 ''Cannot connect to the Docker daemon''"
  have m: "\<not> is_docker_missing ?ps" by code_simp
  have e: "sr_exitCode ?ps = Some 1" "output_lines (sr_stdout ?ps) = []" by (simp_all add: demo_listing_def)
  obtain w' where w': "sync demo_env demo_host ?ps demo_world = (Inr (), w')"
    using demo_sync [OF m] by (auto simp: demo_listing_def)
  from failed_listing_marks_all_unknown [OF demo_services_ok w' e(1) m e(2)] w' show ?thesis
    by (simp add: demo_host_def)
qed

end
