(* ===== verification/Health_Check.thy ===== *)
theory Health_Check
  imports Services_Sync
begin

section \<open>Host health checks\<close>

text \<open>
  \<open>src/health-check/\<close>: the status mapper and the processor, whose jobs either fan one
  check out per host or check one host over SSH, record the outcome, alert and sync the
  services from the listing already fetched.
\<close>

subsection \<open>health-check-status-mapper.ts\<close>

record health_check_outcome =
  oc_status :: health_check_status
  oc_rawOutput :: json

fun is_authentication_failure :: "js_error \<Rightarrow> bool" where
  "is_authentication_failure (JsError _ _ level) = (level = Some ''client-authentication'')"
| "is_authentication_failure _ = False"

text \<open>\<open>error instanceof Error ? error.message : String(error)\<close>.\<close>

fun error_text :: "js_error \<Rightarrow> string" where
  "error_text (NonError s) = s"
| "error_text (HttpException _ m) = m"
| "error_text (QueryFailedError _ m) = m"
| "error_text (JsError _ m _) = m"

definition failure_json :: "js_error \<Rightarrow> string \<Rightarrow> json" where
  "failure_json error reason = JObj [(''error'', JStr (error_text error)), (''reason'', JStr reason)]"

definition map_ssh_failure_to_outcome :: "js_error \<Rightarrow> time option \<Rightarrow> health_check_outcome" where
  "map_ssh_failure_to_outcome error setupVerifiedAt =
    (if is_authentication_failure error then
       (if setupVerifiedAt = None
        then \<lparr>oc_status = HC_PENDING_SETUP, oc_rawOutput = failure_json error ''key_not_installed''\<rparr>
        else \<lparr>oc_status = HC_UNREACHABLE, oc_rawOutput = failure_json error ''auth_revoked''\<rparr>)
     else \<lparr>oc_status = HC_UNREACHABLE, oc_rawOutput = failure_json error ''network_unreachable''\<rparr>)"

definition exit_code_json :: "int option \<Rightarrow> json" where
  "exit_code_json c = (case c of None \<Rightarrow> JNull | Some n \<Rightarrow> JNum (show_int n))"

definition result_json :: "ssh_result \<Rightarrow> json" where
  "result_json r = JObj [(''stdout'', JStr (sr_stdout r)), (''stderr'', JStr (sr_stderr r)),
     (''exit_code'', exit_code_json (sr_exitCode r))]"

definition map_command_results_to_outcome :: "ssh_result \<Rightarrow> ssh_result \<Rightarrow> health_check_outcome" where
  "map_command_results_to_outcome uptimeResult dockerResult =
    (let rawOutput = JObj [(''uptime'', result_json uptimeResult), (''docker_ps'', result_json dockerResult)];
         uptimeFailed = sr_exitCode uptimeResult \<noteq> Some 0
     in if uptimeFailed then \<lparr>oc_status = HC_DEGRADED, oc_rawOutput = rawOutput\<rparr>
        else
          (let dockerNotInstalled = is_docker_missing dockerResult;
               dockerFailedUnexpectedly = sr_exitCode dockerResult \<noteq> Some 0 \<and> \<not> dockerNotInstalled
           in if dockerFailedUnexpectedly then \<lparr>oc_status = HC_DEGRADED, oc_rawOutput = rawOutput\<rparr>
              else \<lparr>oc_status = HC_HEALTHY, oc_rawOutput = rawOutput\<rparr>))"

subsection \<open>HealthCheckProcessor\<close>

definition DOCKER_PS_COMMAND :: string where
  "DOCKER_PS_COMMAND = ''docker ps -a --format '' @ [CHR 0x27] @ ''{{json .}}'' @ [CHR 0x27]"

definition UPTIME_COMMAND :: string where "UPTIME_COMMAND = ''uptime''"

fun host_status_of :: "health_check_status \<Rightarrow> host_status" where
  "host_status_of HC_HEALTHY = HS_HEALTHY"
| "host_status_of HC_DEGRADED = HS_DEGRADED"
| "host_status_of HC_UNREACHABLE = HS_UNREACHABLE"
| "host_status_of HC_PENDING_SETUP = HS_PENDING_SETUP"

definition SUCCESSFUL_CONNECTION_STATUSES :: "health_check_status set" where
  "SUCCESSFUL_CONNECTION_STATUSES = {HC_HEALTHY, HC_DEGRADED}"

definition save_host :: "env \<Rightarrow> host \<Rightarrow> host action" where
  "save_host E = repo_save E hosts (\<lambda>t w. w\<lparr>hosts := t\<rparr>) host_id (\<lambda>_ _. False)"

type_synonym check_result = "health_check_outcome \<times> ssh_result list option"

definition run_check :: "env \<Rightarrow> host \<Rightarrow> check_result action" where
  "run_check E host = (case decrypt E (host_sshKeyEncrypted host) of
     Inl error \<Rightarrow> ret (map_ssh_failure_to_outcome error (host_setupVerifiedAt host), None)
   | Inr privateKey \<Rightarrow>
       try_catch
         (bind (run_commands E (host_ssh_options host privateKey) [UPTIME_COMMAND, DOCKER_PS_COMMAND]) (\<lambda>results.
          ret (map_command_results_to_outcome (results ! 0) (results ! 1), Some results)))
         (\<lambda>error. ret (map_ssh_failure_to_outcome error (host_setupVerifiedAt host), None)))"

text \<open>The host with an outcome written into it at time \<open>t\<close>.\<close>

definition apply_outcome :: "health_check_outcome \<Rightarrow> time \<Rightarrow> host \<Rightarrow> host" where
  "apply_outcome outcome t host =
    (let host1 = host\<lparr>host_status := host_status_of (oc_status outcome), host_lastCheckedAt := Some t\<rparr>
     in if host_setupVerifiedAt host = None \<and> oc_status outcome \<in> SUCCESSFUL_CONNECTION_STATUSES
        then host1\<lparr>host_setupVerifiedAt := Some t\<rparr> else host1)"

definition check_host :: "env \<Rightarrow> uuid \<Rightarrow> unit action" where
  "check_host E hostId =
     bind (repo_find_one E hosts (\<lambda>h. host_id h = hostId)) (\<lambda>found.
     case found of
       None \<Rightarrow> ret ()
     | Some host \<Rightarrow>
         bind (run_check E host) (\<lambda>(outcome, sshResults).
         andthen (write_hc_log E HE_HOST (host_id host) (health_check_status_str (oc_status outcome)) (oc_rawOutput outcome))
         (bind (now E) (\<lambda>t.
          bind (save_host E (apply_outcome outcome t host)) (\<lambda>saved.
          andthen (evaluate_transition E \<lparr>ti_orgId = host_orgId host, ti_entityType = AE_HOST,
              ti_entityId = host_id host, ti_previousStatus = host_status_str (host_status host),
              ti_newStatus = host_status_str (host_status saved)\<rparr>)
          (case sshResults of None \<Rightarrow> ret () | Some results \<Rightarrow> sync E saved (results ! 1)))))))"

definition enqueue_check_for_all_hosts :: "env \<Rightarrow> unit action" where
  "enqueue_check_for_all_hosts E =
     bind (repo_find E hosts (\<lambda>_. True)) (\<lambda>hs. enqueue_per_entity_jobs E push_host_job (map host_id hs))"

datatype health_check_job = TickJob | CheckHostJob uuid

fun process_health_check :: "env \<Rightarrow> health_check_job \<Rightarrow> unit action" where
  "process_health_check E TickJob = enqueue_check_for_all_hosts E"
| "process_health_check E (CheckHostJob hostId) = check_host E hostId"

subsection \<open>Classification\<close>

lemma command_results_classification:
  "oc_status (map_command_results_to_outcome u d) =
    (if sr_exitCode u = Some 0 \<and> (sr_exitCode d = Some 0 \<or> is_docker_missing d) then HC_HEALTHY else HC_DEGRADED)"
  by (auto simp: map_command_results_to_outcome_def Let_def)

text \<open>
  A \<open>docker ps\<close> that failed with any text containing "no such file" counts as Docker
  not being installed, whatever the failure really was: with the daemon's socket gone
  (\<open>dial unix /var/run/docker.sock: connect: no such file or directory\<close>) an installed but
  dead Docker makes the host healthy, and its services are not synced.
\<close>

lemma dead_socket_is_healthy:
  assumes "sr_exitCode u = Some 0" and "sr_exitCode d \<noteq> Some 0" and "sublist ''no such file'' (to_lower (sr_stderr d))"
  shows "oc_status (map_command_results_to_outcome u d) = HC_HEALTHY \<and> sync E host d w = (Inr (), w)"
proof -
  have "to_lower (sr_stdout d @ '' '' @ sr_stderr d) = to_lower (sr_stdout d @ '' '') @ to_lower (sr_stderr d) @ []"
    by (simp add: to_lower_def)
  then have "sublist (to_lower (sr_stderr d)) (to_lower (sr_stdout d @ '' '' @ sr_stderr d))"
    unfolding sublist_def by blast
  with assms(3) have "sublist ''no such file'' (to_lower (sr_stdout d @ '' '' @ sr_stderr d))"
    by (rule sublist_order.order_trans)
  then have "is_docker_missing d"
    using assms(2) by (simp add: is_docker_missing_def DOCKER_NOT_INSTALLED_MARKERS_def str_includes_iff Let_def)
  with assms(1) show ?thesis by (simp add: map_command_results_to_outcome_def Let_def sync_def ret_def)
qed

lemma dead_socket_is_healthy_witness:
  "oc_status (map_command_results_to_outcome (demo_listing 0 [])
     (demo_listing 1 ''dial unix /var/run/docker.sock: connect: no such file or directory'')) = HC_HEALTHY"
proof -
  have "sublist ''no such file'' (to_lower (sr_stderr (demo_listing 1
      ''dial unix /var/run/docker.sock: connect: no such file or directory'')))"
    by (simp only: str_includes_iff [symmetric]) code_simp
  then show ?thesis
    using dead_socket_is_healthy [of "demo_listing 0 []"
        "demo_listing 1 ''dial unix /var/run/docker.sock: connect: no such file or directory''"]
    by (simp add: demo_listing_def)
qed

text \<open>
  A stored key that cannot be decrypted is reported as a network problem: the check
  records \<open>unreachable\<close> with reason \<open>network_unreachable\<close> although no connection was tried
  (the environment is not even asked), unless the cipher's error happens to carry ssh2's
  authentication level.
\<close>

lemma key_decrypt_failure_reads_as_network:
  assumes "decrypt E (host_sshKeyEncrypted host) = Inl error" and "\<not> is_authentication_failure error"
  shows "run_check E host w = (Inr (\<lparr>oc_status = HC_UNREACHABLE,
    oc_rawOutput = JObj [(''error'', JStr (error_text error)), (''reason'', JStr ''network_unreachable'')]\<rparr>, None), w)"
  using assms by (simp add: run_check_def map_ssh_failure_to_outcome_def failure_json_def ret_def)

definition bad_key_host :: host where
  "bad_key_host = demo_host\<lparr>host_sshKeyEncrypted := []\<rparr>"

lemma key_decrypt_failure_reads_as_network_witness:
  "\<exists>e. run_check demo_env bad_key_host empty_world = (Inr (\<lparr>oc_status = HC_UNREACHABLE,
    oc_rawOutput = JObj [(''error'', JStr e), (''reason'', JStr ''network_unreachable'')]\<rparr>, None), empty_world)"
proof -
  let ?e = "JsError ''Error'' ''Unsupported state or unable to authenticate data'' None"
  have "decrypt demo_env (host_sshKeyEncrypted bad_key_host) = Inl ?e" by code_simp
  from key_decrypt_failure_reads_as_network [OF this] show ?thesis by simp
qed

subsection \<open>What a check does to the hosts\<close>

lemma run_check_result:
  obtains oc rs n where "run_check E h w = (Inr (oc, rs), w\<lparr>steps := n\<rparr>)" "steps w \<le> n"
    "rs \<noteq> None \<longleftrightarrow> oc_status oc \<in> SUCCESSFUL_CONNECTION_STATUSES"
    "oc_status oc = HC_PENDING_SETUP \<longrightarrow> host_setupVerifiedAt h = None"
    "\<forall>xs. rs = Some xs \<longrightarrow> length xs = 2"
proof -
  have fail: "oc_status (map_ssh_failure_to_outcome e v) \<notin> SUCCESSFUL_CONNECTION_STATUSES"
    "oc_status (map_ssh_failure_to_outcome e v) = HC_PENDING_SETUP \<longrightarrow> v = None" for e v
    by (auto simp: map_ssh_failure_to_outcome_def SUCCESSFUL_CONNECTION_STATUSES_def)
  show ?thesis
  proof (cases "decrypt E (host_sshKeyEncrypted h)")
    case (Inl e)
    then show ?thesis
      using fail [of e "host_setupVerifiedAt h"]
      by (intro that [of "map_ssh_failure_to_outcome e (host_setupVerifiedAt h)" None "steps w"])
         (simp_all add: run_check_def ret_def)
  next
    case (Inr key)
    let ?o = "host_ssh_options h key" and ?cs = "[UPTIME_COMMAND, DOCKER_PS_COMMAND]"
    obtain r v where v: "run_commands E ?o ?cs w = (r, v)" by force
    have "preserves (\<lambda>u. u\<lparr>steps := 0\<rparr> = w\<lparr>steps := 0\<rparr> \<and> steps w \<le> steps u) (run_commands E ?o ?cs)"
      by (rule preserves_run_commands) (simp add: tick_def)
    from preservesD' [OF this _ v] have f: "v\<lparr>steps := 0\<rparr> = w\<lparr>steps := 0\<rparr>" "steps w \<le> steps v" by simp_all
    have "v = w\<lparr>steps := steps v\<rparr>" using arg_cong [OF f(1), of "\<lambda>u. u\<lparr>steps := steps v\<rparr>"] by simp
    then have vw: "(x, v) = (x, w\<lparr>steps := steps v\<rparr>)" for x :: "js_error + check_result" by simp
    show ?thesis
    proof (cases r)
      case (Inl e)
      have "run_check E h w = (Inr (map_ssh_failure_to_outcome e (host_setupVerifiedAt h), None), v)"
        using Inr v Inl by (simp add: run_check_def try_catch_def bind_def ret_def)
      with vw f(2) fail [of e "host_setupVerifiedAt h"] show ?thesis
        by (intro that [of _ None "steps v"]) simp_all
    next
      case results: (Inr rs)
      let ?oc = "map_command_results_to_outcome (rs ! 0) (rs ! 1)"
      have "run_check E h w = (Inr (?oc, Some rs), v)"
        using Inr v results by (simp add: run_check_def try_catch_def bind_def ret_def)
      moreover have "oc_status ?oc \<in> SUCCESSFUL_CONNECTION_STATUSES" "oc_status ?oc \<noteq> HC_PENDING_SETUP"
        by (simp_all add: map_command_results_to_outcome_def SUCCESSFUL_CONNECTION_STATUSES_def Let_def)
      moreover have "length rs = 2" using arg_cong [OF run_commands_results [OF v [unfolded results]], of length] by simp
      ultimately show ?thesis using vw f(2) by (intro that [of ?oc "Some rs" "steps v"]) simp_all
    qed
  qed
qed

lemma apply_outcome_simps [simp]:
  "host_id (apply_outcome oc t h) = host_id h" "host_orgId (apply_outcome oc t h) = host_orgId h"
  "host_status (apply_outcome oc t h) = host_status_of (oc_status oc)"
  "host_lastCheckedAt (apply_outcome oc t h) = Some t"
  "host_setupVerifiedAt (apply_outcome oc t h) =
     (if host_setupVerifiedAt h = None \<and> oc_status oc \<in> SUCCESSFUL_CONNECTION_STATUSES then Some t
      else host_setupVerifiedAt h)"
  by (simp_all add: apply_outcome_def Let_def)

lemma hosts_evaluate [pres]: "preserves (\<lambda>w. hosts w = c) (evaluate_transition E i)"
  by (rule preservesI) (metis core_view_evaluate_transition sync_view_core sync_view_simps(7))

lemma hosts_preserves_sync [pres]: "preserves (\<lambda>w. hosts w = c) (sync E host ps)"
  by (rule preservesI) (simp add: hosts_sync)

text \<open>The outcome of a check is recorded as an object, whatever happened.\<close>

lemma run_check_record: "run_check E h w = (Inr (oc, rs), w') \<Longrightarrow> \<exists>kvs. oc_rawOutput oc = JObj kvs"
  by (auto simp: run_check_def prog_simps map_ssh_failure_to_outcome_def failure_json_def
      map_command_results_to_outcome_def Let_def split: sum.splits prod.splits if_splits)

lemma check_host_hosts:
  obtains (unchanged) "hosts (snd (check_host E i w)) = hosts w"
  | (checked) h oc t where "h \<in> set (hosts w)" "host_id h = i"
      "oc_status oc = HC_PENDING_SETUP \<longrightarrow> host_setupVerifiedAt h = None"
      "hosts (snd (check_host E i w)) = save_row host_id (apply_outcome oc t h) (hosts w)"
proof (cases "db_fault E (steps w)")
  case (Some e)
  then show ?thesis by (intro unchanged) (simp add: check_host_def repo_find_one_def repo_def bind_def)
next
  case None
  show ?thesis
  proof (cases "List.find (\<lambda>h. host_id h = i) (hosts w)")
    case N: None
    with None show ?thesis by (intro unchanged) (simp add: check_host_def repo_find_one_def repo_def bind_def ret_def)
  next
    case (Some h)
    note h = find_SomeD [OF Some]
    obtain oc rs n where rc: "run_check E h (tick w) = (Inr (oc, rs), tick w\<lparr>steps := n\<rparr>)"
      "oc_status oc = HC_PENDING_SETUP \<longrightarrow> host_setupVerifiedAt h = None"
      by (rule run_check_result [of E h "tick w"])
    let ?log = "write_hc_log E HE_HOST (host_id h) (health_check_status_str (oc_status oc)) (oc_rawOutput oc)"
    let ?save = "\<lambda>t. save_host E (apply_outcome oc t h)"
    let ?rest = "\<lambda>saved. andthen (evaluate_transition E \<lparr>ti_orgId = host_orgId h, ti_entityType = AE_HOST,
              ti_entityId = host_id h, ti_previousStatus = host_status_str (host_status h),
              ti_newStatus = host_status_str (host_status saved)\<rparr>)
          (case rs of None \<Rightarrow> ret () | Some results \<Rightarrow> sync E saved (results ! 1))"
    have eq: "check_host E i w = andthen ?log (bind (now E) (\<lambda>t. bind (?save t) ?rest)) (tick w\<lparr>steps := n\<rparr>)"
      using None Some rc(1) by (simp add: check_host_def repo_find_one_def repo_def bind_def)
    have keep: "preserves (\<lambda>v. hosts v = c) (?rest saved)" for c saved by (intro pres)
    have keep_log: "preserves (\<lambda>v. hosts v = hosts w) ?log" by (intro pres) auto
    obtain r1 u1 where u1: "?log (tick w\<lparr>steps := n\<rparr>) = (r1, u1)" by force
    have hu1: "hosts u1 = hosts w" using preservesD' [OF keep_log _ u1] by simp
    show ?thesis
    proof (cases r1)
      case (Inl e)
      with u1 hu1 eq show ?thesis by (intro unchanged) (simp add: andthen_def bind_def)
    next
      case (Inr x)
      let ?t = "clock E (steps u1)"
      obtain r2 u2 where u2: "?save ?t (tick u1) = (r2, u2)" by force
      show ?thesis
      proof (cases "db_fault E (Suc (steps u1))")
        case (Some e)
        then have "u2 = tick (tick u1)" "r2 = Inl e"
          using u2 by (auto simp: save_host_def repo_save_def repo_def)
        with u1 u2 Inr eq hu1 show ?thesis
          by (intro unchanged) (simp add: andthen_def bind_def now_def)
      next
        case nofault: None
        then have s2: "r2 = Inr (apply_outcome oc ?t h)" "hosts u2 = save_row host_id (apply_outcome oc ?t h) (hosts w)"
          using u2 hu1 by (auto simp: save_host_def repo_save_def repo_def)
        have "check_host E i w = ?rest (apply_outcome oc ?t h) u2"
          using u1 u2 Inr s2(1) eq by (simp add: andthen_def bind_def now_def)
        moreover have "hosts (snd (?rest (apply_outcome oc ?t h) u2)) = hosts u2"
          by (rule preservesD [OF keep]) simp
        ultimately have "hosts (snd (check_host E i w)) = hosts u2" by simp
        with s2(2) h rc(2) show ?thesis by (intro checked [of h oc ?t]) simp_all
      qed
    qed
  qed
qed

subsection \<open>Setup verification\<close>

definition setup_ok :: "host \<Rightarrow> bool" where
  "setup_ok h \<longleftrightarrow> (host_status h = HS_PENDING_SETUP \<longrightarrow> host_setupVerifiedAt h = None)
     \<and> (host_status h \<in> {HS_HEALTHY, HS_DEGRADED} \<longrightarrow> host_setupVerifiedAt h \<noteq> None)"

definition hosts_ok :: "world \<Rightarrow> bool" where
  "hosts_ok w \<longleftrightarrow> distinct (map host_id (hosts w)) \<and> (\<forall>h \<in> set (hosts w). setup_ok h)"

lemma setup_ok_apply_outcome:
  assumes "oc_status oc = HC_PENDING_SETUP \<longrightarrow> host_setupVerifiedAt h = None"
  shows "setup_ok (apply_outcome oc t h)"
  using assms by (cases "oc_status oc") (auto simp: setup_ok_def SUCCESSFUL_CONNECTION_STATUSES_def)

lemma hosts_ok_save:
  assumes "hosts_ok w" "setup_ok h"
  shows "hosts_ok (w\<lparr>hosts := save_row host_id h (hosts w)\<rparr>)"
  using assms host_table.distinct_save [of "hosts w" h] host_table.save_pointwise [of "hosts w" setup_ok h]
  by (simp add: hosts_ok_def)

lemma hosts_ok_cong: "hosts w' = hosts w \<Longrightarrow> hosts_ok w' = hosts_ok w"
  by (simp add: hosts_ok_def)

text \<open>
  C24. Whatever a check meets (faults, dead hosts, refused keys), the hosts it leaves satisfy
  the setup discipline: a host reads \<open>pending_setup\<close> only while it has never been verified,
  reads healthy or degraded only once it has, and the date of its first verification is
  never changed or lost. No host is added or removed and no other host is touched.
\<close>

theorem check_host_setup_discipline:
  assumes "hosts_ok w" and "check_host E i w = (r, w')"
  shows "hosts_ok w' \<and> map host_id (hosts w') = map host_id (hosts w)
    \<and> filter (\<lambda>h. host_id h \<noteq> i) (hosts w') = filter (\<lambda>h. host_id h \<noteq> i) (hosts w)
    \<and> (\<forall>h \<in> set (hosts w). \<forall>t. host_setupVerifiedAt h = Some t \<longrightarrow>
         (\<exists>h' \<in> set (hosts w'). host_id h' = host_id h \<and> host_setupVerifiedAt h' = Some t))"
proof (cases rule: check_host_hosts [of E i w])
  case unchanged
  with assms hosts_ok_cong [of w' w] show ?thesis by auto
next
  case (checked h oc t)
  let ?h = "apply_outcome oc t h"
  have d: "distinct (map host_id (hosts w))" using assms(1) by (simp add: hosts_ok_def)
  have hw: "hosts w' = save_row host_id ?h (hosts w)" using checked(4) assms(2) by simp
  have m: "host_id ?h \<in> host_id ` set (hosts w)" using checked(1) by simp
  have "hosts_ok w'"
    using hosts_ok_save [OF assms(1) setup_ok_apply_outcome [OF checked(3)], of t] hosts_ok_cong [of w' "w\<lparr>hosts := save_row host_id ?h (hosts w)\<rparr>"]
    by (simp add: hw)
  moreover have "map host_id (hosts w') = map host_id (hosts w)" using m by (simp add: hw ids_save_row del: apply_outcome_simps)
  moreover have "filter (\<lambda>h. host_id h \<noteq> i) (save_row host_id ?h l) = filter (\<lambda>h. host_id h \<noteq> i) l"
    if "host_id ?h \<in> host_id ` set l" for l
    using that checked(2) by (induction l) auto
  then have "filter (\<lambda>h. host_id h \<noteq> i) (hosts w') = filter (\<lambda>h. host_id h \<noteq> i) (hosts w)"
    using m hw by simp
  moreover have "\<exists>h' \<in> set (hosts w'). host_id h' = host_id x \<and> host_setupVerifiedAt h' = Some v"
    if "x \<in> set (hosts w)" "host_setupVerifiedAt x = Some v" for x v
  proof (cases "host_id x = host_id h")
    case True
    then have "x = h" by (intro key_unique [OF d that(1) checked(1)])
    with that(2) show ?thesis by (intro bexI [of _ ?h]) (simp_all add: hw)
  next
    case False
    with that show ?thesis by (intro bexI [of _ x]) (simp_all add: hw mem_save_row [OF d])
  qed
  ultimately show ?thesis by blast
qed

theorem check_host_setup_discipline_witness:
  "hosts_ok (snd (check_host demo_env ''h'' demo_world))"
proof -
  have "hosts_ok demo_world" by (simp add: hosts_ok_def setup_ok_def demo_host_def)
  then show ?thesis using check_host_setup_discipline [of demo_world demo_env "''h''"] by (metis prod.collapse)
qed

subsection \<open>The tick\<close>

lemma enqueue_all_host_jobs:
  "enqueue_all E push_host_job is w = (e, w') \<Longrightarrow>
   w' = w\<lparr>host_jobs := host_jobs w @ map snd (filter (\<lambda>(k, i). queue_fault E k = None) (enumerate (steps w) is)),
          steps := steps w + length is\<rparr>
   \<and> (e = None \<longleftrightarrow> (\<forall>k. steps w \<le> k \<and> k < steps w + length is \<longrightarrow> queue_fault E k = None))"
proof (induction "is" arbitrary: w e w')
  case (Cons i "is")
  obtain r v where v: "queue_add E push_host_job i w = (r, v)" by force
  obtain e2 u where u: "enqueue_all E push_host_job is v = (e2, u)" by force
  note IH = Cons.IH [OF u]
  have sv: "steps v = Suc (steps w)"
    using v by (auto simp: queue_add_def push_host_job_def split: option.splits)
  have ran: "(\<forall>k. steps w \<le> k \<and> k < steps w + length (i # is) \<longrightarrow> queue_fault E k = None) \<longleftrightarrow>
      queue_fault E (steps w) = None \<and> (\<forall>k. steps v \<le> k \<and> k < steps v + length is \<longrightarrow> queue_fault E k = None)"
    unfolding sv by (auto simp: less_Suc_eq_le) (metis Suc_leI le_neq_implies_less)
  have res: "e = (case r of Inl x \<Rightarrow> Some x | Inr _ \<Rightarrow> e2)" "w' = u"
    using Cons.prems v u by (auto split: sum.splits)
  show ?case
  proof (cases "queue_fault E (steps w)")
    case None
    then have "v = w\<lparr>host_jobs := host_jobs w @ [i], steps := Suc (steps w)\<rparr>" "\<exists>x. r = Inr x"
      using v by (auto simp: queue_add_def push_host_job_def tick_def)
    with IH res None show ?thesis unfolding ran by auto
  next
    case (Some x)
    then have "v = w\<lparr>steps := Suc (steps w)\<rparr>" "r = Inl x"
      using v by (auto simp: queue_add_def tick_def)
    with IH res Some show ?thesis unfolding ran by auto
  qed
qed auto

text \<open>
  A tick enqueues one check per registered host, in table order, and one host's failing
  enqueue never costs another its check: with the hosts readable, the jobs added are exactly
  those whose own \<open>add\<close> call worked, and the tick resolves exactly when all of them did.
\<close>

lemma tick_fans_out:
  assumes "db_fault E (steps w) = None"
  shows "let ids = map host_id (hosts w); (r, w') = process_health_check E TickJob w in
    host_jobs w' = host_jobs w @ map snd (filter (\<lambda>(k, i). queue_fault E k = None) (enumerate (Suc (steps w)) ids))
    \<and> hosts w' = hosts w
    \<and> (r = Inr () \<longleftrightarrow> (\<forall>k. Suc (steps w) \<le> k \<and> k < Suc (steps w) + length ids \<longrightarrow> queue_fault E k = None))"
proof -
  obtain e w' where ew: "enqueue_all E push_host_job (map host_id (hosts w)) (tick w) = (e, w')" by force
  have "process_health_check E TickJob w = (case (e, w') of (Some e, w') \<Rightarrow> (Inl e, w') | (None, w') \<Rightarrow> (Inr (), w'))"
    using assms ew by (simp add: enqueue_check_for_all_hosts_def repo_find_def repo_def bind_def enqueue_per_entity_jobs_def)
  with enqueue_all_host_jobs [OF ew] show ?thesis by (cases e) (auto simp: Let_def)
qed

lemma tick_fans_out_witness:
  "host_jobs (snd (process_health_check demo_env TickJob demo_world)) = [''h'']"
proof -
  have "queue_fault demo_env k = None" for k by (simp add: demo_env_def)
  then show ?thesis
    using tick_fans_out [of demo_env demo_world]
    by (simp add: Let_def case_prod_unfold demo_world_def)
qed

end
