(* ===== verification/Tables.thy ===== *)
theory Tables
  imports Alerts
begin

section \<open>Following one table through a program\<close>

text \<open>
  Rules for triples whose assertion is the content of one table: a step that does not write
  the table keeps it, a lookup answers from it, a save or an insert replaces it. Each rule
  covers the database faults of the step.
\<close>

abbreviation (input) holds :: "(world \<Rightarrow> 't) \<Rightarrow> 't \<Rightarrow> world \<Rightarrow> bool" where
  "holds tab T \<equiv> \<lambda>w. tab w = T"

lemma triple_keep:
  assumes "\<And>c. preserves (\<lambda>w. tab w = c) m" "\<And>x. triple (holds tab T) (k x) Q R"
    and "\<And>e w. tab w = T \<Longrightarrow> R e w"
  shows "triple (holds tab T) (bind m k) Q R"
  by (rule triple_bind [OF triple_weaken [OF triple_preserves [OF assms(1)]] assms(2)]) (use assms(3) in auto)

lemma triple_keep_then:
  assumes "\<And>c. preserves (\<lambda>w. tab w = c) m" "triple (holds tab T) k Q R" "\<And>e w. tab w = T \<Longrightarrow> R e w"
  shows "triple (holds tab T) (andthen m k) Q R"
  unfolding andthen_def by (rule triple_keep [OF assms(1) assms(2) assms(3)])

lemma triple_kept:
  assumes "\<And>c. preserves (\<lambda>w. tab w = c) m" "\<And>x w. tab w = T \<Longrightarrow> Q x w" "\<And>e w. tab w = T \<Longrightarrow> R e w"
  shows "triple (holds tab T) m Q R"
  by (rule triple_weaken [OF triple_preserves [OF assms(1)]]) (use assms(2,3) in auto)

lemma triple_lookup:
  assumes "\<And>w. tab (tick w) = tab w" "triple (holds tab T) (k (List.find p T)) Q R"
    and "\<And>e w. tab w = T \<Longrightarrow> R e w"
  shows "triple (holds tab T) (bind (repo_find_one E tab p) k) Q R"
proof (rule triple_bind)
  show "triple (holds tab T) (repo_find_one E tab p) (\<lambda>x w. tab w = T \<and> x = List.find p T) R"
    by (auto simp: triple_def repo_find_one_def repo_def assms(1,3) split: option.splits)
  show "triple (\<lambda>w. tab w = T \<and> x = List.find p T) (k x) Q R" for x
    using assms(2) by (auto simp: triple_def)
qed

lemma triple_listing:
  assumes "\<And>w. tab (tick w) = tab w" "triple (holds tab T) (k (filter p T)) Q R"
    and "\<And>e w. tab w = T \<Longrightarrow> R e w"
  shows "triple (holds tab T) (bind (repo_find E tab p) k) Q R"
proof (rule triple_bind)
  show "triple (holds tab T) (repo_find E tab p) (\<lambda>x w. tab w = T \<and> x = filter p T) R"
    by (auto simp: triple_def repo_find_def repo_def assms(1,3) split: option.splits)
  show "triple (\<lambda>w. tab w = T \<and> x = filter p T) (k x) Q R" for x
    using assms(2) by (auto simp: triple_def)
qed

lemma triple_save:
  assumes "\<And>w. tab (tick w) = tab w" "\<And>t w. tab (upd t w) = t"
    and "\<forall>x \<in> set T. rid x \<noteq> rid r \<longrightarrow> \<not> clash x r \<Longrightarrow> triple (holds tab (save_row rid r T)) (k r) Q R"
    and "\<And>e w. tab w = T \<Longrightarrow> R e w"
  shows "triple (holds tab T) (bind (repo_save E tab upd rid clash r) k) Q R"
proof (rule triple_bind)
  let ?ok = "\<forall>x \<in> set T. rid x \<noteq> rid r \<longrightarrow> \<not> clash x r"
  show "triple (holds tab T) (repo_save E tab upd rid clash r) (\<lambda>x w. ?ok \<and> x = r \<and> tab w = save_row rid r T) R"
    by (auto simp: triple_def repo_save_def repo_def assms(1,2,4) split: option.splits)
  show "triple (\<lambda>w. ?ok \<and> x = r \<and> tab w = save_row rid r T) (k x) Q R" for x
    using assms(3) by (auto simp: triple_def)
qed

lemma triple_insert:
  assumes "\<And>w. tab (tick w) = tab w" "\<And>t w. tab (upd t w) = t"
    and "\<And>i d. \<forall>x \<in> set T. rid x \<noteq> rid (mk i d) \<and> \<not> clash x (mk i d) \<Longrightarrow>
           triple (holds tab (T @ [mk i d])) (k (mk i d)) Q R"
    and "\<And>e w. tab w = T \<Longrightarrow> R e w"
  shows "triple (holds tab T) (bind (repo_insert E tab upd rid clash mk) k) Q R"
proof (rule triple_bind)
  let ?B = "\<lambda>x w. \<exists>i d. (\<forall>y \<in> set T. rid y \<noteq> rid (mk i d) \<and> \<not> clash y (mk i d)) \<and> x = mk i d \<and> tab w = T @ [mk i d]"
  show "triple (holds tab T) (repo_insert E tab upd rid clash mk) ?B R"
    by (auto simp: triple_def repo_insert_def repo_def Let_def assms(1,2,4) split: option.splits)
  show "triple (?B x) (k x) Q R" for x
    using assms(3) by (fastforce simp: triple_def split: prod.splits sum.splits)
qed

lemma triple_run: "triple P m (\<lambda>_. Q) (\<lambda>_. Q) \<Longrightarrow> P w \<Longrightarrow> Q (snd (m w))"
  by (cases "m w"; cases "fst (m w)") (auto dest: tripleD tripleD_error)

text \<open>A part of the state that evaluating alerts does not touch.\<close>

lemma keeps_core:
  assumes "\<And>w. f (core_view w) = f w"
  shows "preserves (\<lambda>w. f w = c) (evaluate_transition E i)"
    and "preserves (\<lambda>w. f w = c) (evaluate_direct_condition E j)"
proof -
  have "f (snd (evaluate_transition E i w)) = f w" for w
    using arg_cong [OF keepsD [OF transition_alert.effect_keeps_view [of E i], of w], of f] by (simp only: assms)
  then show "preserves (\<lambda>w. f w = c) (evaluate_transition E i)" by (simp add: preserves_def)
  have "f (snd (evaluate_direct_condition E j w)) = f w" for w
    using arg_cong [OF keepsD [OF direct_alert.effect_keeps_view [of E j], of w], of f] by (simp only: assms)
  then show "preserves (\<lambda>w. f w = c) (evaluate_direct_condition E j)" by (simp add: preserves_def)
qed

lemma core_view_fields [simp]:
  "organizations (core_view w) = organizations w" "users (core_view w) = users w"
  "cloud_accounts (core_view w) = cloud_accounts w" "hosts (core_view w) = hosts w"
  "services (core_view w) = services w" "snapshots (core_view w) = snapshots w"
  "rollback_events (core_view w) = rollback_events w" "alert_rules (core_view w) = alert_rules w"
  "hc_logs (core_view w) = hc_logs w" "insight_states (core_view w) = insight_states w"
  "domains (core_view w) = domains w" "ssl_certificates (core_view w) = ssl_certificates w"
  by (simp_all add: core_view_def)

text \<open>Saving a row leaves every part of the table alone that does not contain it.\<close>

lemma filter_save_kept:
  "rid r \<in> rid ` set T \<Longrightarrow> \<not> p r \<Longrightarrow> (\<And>x. x \<in> set T \<Longrightarrow> rid x = rid r \<Longrightarrow> \<not> p x) \<Longrightarrow>
   filter p (save_row rid r T) = filter p T"
  by (induction T) auto

lemma andthen_InrE:
  assumes "andthen m k s = (Inr y, s')"
  obtains x u where "m s = (Inr x, u)" "k u = (Inr y, s')"
  using assms unfolding andthen_def by (rule bind_InrE)

lemma repo_find_Inr: "repo_find E tab p w = (Inr xs, w') \<Longrightarrow> xs = filter p (tab w) \<and> w' = tick w"
  by (auto simp: repo_find_def repo_def split: option.splits)

lemma save_same_key:
  assumes "distinct (map rid T)" "s \<in> set T" "rid r = rid s" "key r = key s"
  shows "map key (save_row rid r T) = map key T"
proof -
  have "rid r \<in> rid ` set T" using assms(2,3) by (metis imageI)
  then have "save_row rid r T = map (\<lambda>x. if rid x = rid r then r else x) T"
    by (rule save_row_map [OF assms(1)])
  moreover have "key (if rid x = rid r then r else x) = key x" if "x \<in> set T" for x
    using key_unique [OF assms(1) that assms(2)] assms(3,4) by auto
  ultimately show ?thesis by simp
qed

end
