(* ===== verification/Domain_Check.thy ===== *)
theory Domain_Check
  imports Tables
begin

section \<open>Domain checks\<close>

text \<open>
  \<open>src/domain-check/\<close>: the DNS, WHOIS and TLS lookups, the certificate status and the
  processor that runs them for one domain and records what they found.
\<close>

definition SSL_EXPIRY_WARNING_DAYS :: int where "SSL_EXPIRY_WARNING_DAYS = 14"
definition TLS_PORT :: int where "TLS_PORT = 443"
definition DOMAIN_CHECK_RATE_LIMIT_WINDOW_SECONDS :: int where "DOMAIN_CHECK_RATE_LIMIT_WINDOW_SECONDS = 60"

text \<open>A property whose value may be \<open>undefined\<close>: JSON leaves it out.\<close>

definition opt_field :: "string \<Rightarrow> json option \<Rightarrow> (string \<times> json) list" where
  "opt_field k v = (case v of None \<Rightarrow> [] | Some x \<Rightarrow> [(k, x)])"

definition error_field :: "js_error \<Rightarrow> (string \<times> json) list" where
  "error_field e = opt_field ''error'' (map_option JStr (error_message e))"

subsection \<open>ssl-status.util.ts\<close>

definition MS_PER_DAY :: int where "MS_PER_DAY = 24 * 60 * 60 * 1000"

text \<open>With an Invalid Date the difference is \<open>NaN\<close>, and both comparisons are false.\<close>

fun compute_ssl_status_from_valid_to :: "js_date \<Rightarrow> time \<Rightarrow> ssl_status" where
  "compute_ssl_status_from_valid_to (ValidDate t) n =
     (let msUntilExpiry = t - n in
      if msUntilExpiry < 0 then SSL_EXPIRED
      else if msUntilExpiry \<le> SSL_EXPIRY_WARNING_DAYS * MS_PER_DAY then SSL_EXPIRING_SOON
      else SSL_VALID)"
| "compute_ssl_status_from_valid_to InvalidDate n = SSL_VALID"

subsection \<open>checks/dns-check.ts\<close>

record dns_check_result =
  dr_status :: dns_status
  dr_resolvedIp :: "string option"
  dr_rawOutput :: "(string \<times> json) list"

definition perform_dns_check :: "env \<Rightarrow> string \<Rightarrow> int option \<Rightarrow> dns_check_result action" where
  "perform_dns_check E hostname timeoutMs w =
    (Inr (case with_timeout (dns_resolve4 E (steps w) hostname) timeoutMs (''DNS resolve('' @ hostname @ '')'') of
       Inr addresses \<Rightarrow> \<lparr>dr_status = DNS_RESOLVING,
         dr_resolvedIp = (case addresses of [] \<Rightarrow> None | a # _ \<Rightarrow> Some a),
         dr_rawOutput = [(''addresses'', JArr (map JStr addresses))]\<rparr>
     | Inl error \<Rightarrow> \<lparr>dr_status = DNS_NOT_RESOLVING, dr_resolvedIp = None, dr_rawOutput = error_field error\<rparr>),
     tick w)"

subsection \<open>checks/whois-check.ts\<close>

record whois_check_result =
  wr_ok :: bool
  wr_registrar :: "string option"
  wr_expiresAt :: "time option"
  wr_rawOutput :: "(string \<times> json) list"

definition EXPIRY_FIELD_NAMES :: "string list" where
  "EXPIRY_FIELD_NAMES = [''registryExpiryDate'', ''registrarRegistrationExpirationDate'', ''expiryDate'',
     ''expirationDate'', ''expiresOn'', ''expires'', ''paidTill'']"

definition REGISTRAR_FIELD_NAMES :: "string list" where
  "REGISTRAR_FIELD_NAMES = [''registrar'', ''sponsoringRegistrar'', ''registrarName'']"

text \<open>
  The map from lower-cased keys to keys keeps the last key of each; a candidate counts when
  its key is not empty and holds a string that is not blank.
\<close>

fun pick_field :: "(string \<times> json) list \<Rightarrow> string list \<Rightarrow> string option" where
  "pick_field record [] = None"
| "pick_field record (candidate # rest) =
    (let lowerCaseKeys = map_of (rev (map (\<lambda>(key, _). (to_lower key, key)) record)) in
     case lowerCaseKeys (to_lower candidate) of
       None \<Rightarrow> pick_field record rest
     | Some actualKey \<Rightarrow>
         (case map_of record actualKey of
            Some (JStr s) \<Rightarrow> if actualKey \<noteq> [] \<and> trim s \<noteq> [] then Some s else pick_field record rest
          | _ \<Rightarrow> pick_field record rest))"

definition valid_date :: "js_date \<Rightarrow> time option" where
  "valid_date d = (case d of ValidDate t \<Rightarrow> Some t | InvalidDate \<Rightarrow> None)"

definition perform_whois_lookup :: "env \<Rightarrow> string \<Rightarrow> int option \<Rightarrow> whois_check_result action" where
  "perform_whois_lookup E hostname timeoutMs w =
    (Inr (case with_timeout (whois_record E (steps w) hostname) timeoutMs (''WHOIS lookup('' @ hostname @ '')'') of
       Inr record \<Rightarrow> \<lparr>wr_ok = True, wr_registrar = pick_field record REGISTRAR_FIELD_NAMES,
         wr_expiresAt = (case pick_field record EXPIRY_FIELD_NAMES of
            None \<Rightarrow> None | Some expiryRaw \<Rightarrow> valid_date (parse_date E expiryRaw)),
         wr_rawOutput = [(''record'', JObj record)]\<rparr>
     | Inl error \<Rightarrow> \<lparr>wr_ok = False, wr_registrar = None, wr_expiresAt = None, wr_rawOutput = error_field error\<rparr>),
     tick w)"

subsection \<open>checks/tls-check.ts\<close>

record tls_check_result =
  tr_status :: ssl_status
  tr_issuer :: "string option"
  tr_validFrom :: "js_date option"
  tr_validTo :: "js_date option"
  tr_rawOutput :: "(string \<times> json) list"

definition open_tls_connection :: "env \<Rightarrow> string \<Rightarrow> string \<Rightarrow> int option \<Rightarrow> peer_cert option action" where
  "open_tls_connection E host servername timeoutMs w =
    ((case tls_peer E (steps w) host servername timeoutMs of
        SecureConnect cert \<Rightarrow> Inr cert
      | SocketError error \<Rightarrow> Inl error
      | SocketTimeout \<Rightarrow> Inl (JsError ''Error''
          (''TLS connection to '' @ host @ '':'' @ show_int TLS_PORT @ '' timed out'') None)), tick w)"

text \<open>A string, an array of strings, or nothing.\<close>

fun first_value :: "json option \<Rightarrow> string option" where
  "first_value (Some (JStr s)) = (if s = [] then None else Some s)"
| "first_value (Some (JArr (JStr s # _))) = Some s"
| "first_value _ = None"

definition format_issuer :: "json option \<Rightarrow> string option" where
  "format_issuer issuer = (case issuer of
     None \<Rightarrow> None
   | Some i \<Rightarrow> (case first_value (json_prop i ''O'') of
       Some s \<Rightarrow> Some s
     | None \<Rightarrow> first_value (json_prop i ''CN'')))"

definition compute_status :: "env \<Rightarrow> js_date option \<Rightarrow> ssl_status action" where
  "compute_status E validTo = (case validTo of
     None \<Rightarrow> ret SSL_INVALID
   | Some d \<Rightarrow> bind (now E) (\<lambda>t. ret (compute_ssl_status_from_valid_to d t)))"

definition date_field :: "env \<Rightarrow> string option \<Rightarrow> js_date option" where
  "date_field E s = (case s of
     None \<Rightarrow> None
   | Some x \<Rightarrow> if x = [] then None else Some (parse_date E x))"

definition invalid_result :: "(string \<times> json) list \<Rightarrow> tls_check_result" where
  "invalid_result raw = \<lparr>tr_status = SSL_INVALID, tr_issuer = None, tr_validFrom = None, tr_validTo = None,
     tr_rawOutput = raw\<rparr>"

definition perform_tls_check :: "env \<Rightarrow> string \<Rightarrow> string \<Rightarrow> int option \<Rightarrow> tls_check_result action" where
  "perform_tls_check E resolvedIp hostname timeoutMs =
     try_catch
       (bind (open_tls_connection E resolvedIp hostname timeoutMs) (\<lambda>peer.
        case peer of
          None \<Rightarrow> ret (invalid_result [(''error'', JStr ''No certificate presented by peer'')])
        | Some cert \<Rightarrow>
            let validFrom = date_field E (pc_valid_from cert); validTo = date_field E (pc_valid_to cert) in
            bind (compute_status E validTo) (\<lambda>status.
            ret \<lparr>tr_status = status, tr_issuer = format_issuer (pc_issuer cert), tr_validFrom = validFrom,
                 tr_validTo = validTo,
                 tr_rawOutput = opt_field ''issuer'' (pc_issuer cert) @ opt_field ''subject'' (pc_subject cert)
                   @ opt_field ''valid_from'' (map_option JStr (pc_valid_from cert))
                   @ opt_field ''valid_to'' (map_option JStr (pc_valid_to cert))
                   @ [(''authorized'', JBool (pc_authorized cert))]
                   @ opt_field ''authorization_error'' (map_option JStr (pc_authorization_error cert))\<rparr>)))
       (\<lambda>error. ret (invalid_result (error_field error)))"

subsection \<open>DomainCheckProcessor\<close>

definition domain_clash :: "domain \<Rightarrow> domain \<Rightarrow> bool" where
  "domain_clash x y \<longleftrightarrow> dom_orgId x = dom_orgId y \<and> dom_hostname x = dom_hostname y"

definition certificate_clash :: "ssl_certificate \<Rightarrow> ssl_certificate \<Rightarrow> bool" where
  "certificate_clash x y \<longleftrightarrow> cert_domainId x = cert_domainId y"

definition save_domain :: "env \<Rightarrow> domain \<Rightarrow> domain action" where
  "save_domain E = repo_save E domains (\<lambda>t w. w\<lparr>domains := t\<rparr>) dom_id domain_clash"

definition save_certificate :: "env \<Rightarrow> ssl_certificate \<Rightarrow> ssl_certificate action" where
  "save_certificate E = repo_save E ssl_certificates (\<lambda>t w. w\<lparr>ssl_certificates := t\<rparr>) cert_id certificate_clash"

definition apply_tls_result :: "tls_check_result \<Rightarrow> time \<Rightarrow> ssl_certificate \<Rightarrow> ssl_certificate" where
  "apply_tls_result r t cert = cert\<lparr>cert_status := tr_status r, cert_issuer := tr_issuer r,
     cert_validFrom := tr_validFrom r, cert_validTo := tr_validTo r, cert_lastCheckedAt := Some t\<rparr>"

definition check_tls :: "env \<Rightarrow> domain \<Rightarrow> string \<Rightarrow> unit action" where
  "check_tls E domain resolvedIp =
     bind (perform_tls_check E resolvedIp (dom_hostname domain) (ac_tlsTimeoutMs (app_conf E))) (\<lambda>tlsResult.
     andthen (write_hc_log E HE_SSL_CERTIFICATE (dom_id domain) (ssl_status_str (tr_status tlsResult))
                (JObj (tr_rawOutput tlsResult)))
     (bind (repo_find_one E ssl_certificates (\<lambda>c. cert_domainId c = dom_id domain)) (\<lambda>found.
      case found of
        None \<Rightarrow> ret ()
      | Some cert \<Rightarrow>
          bind (now E) (\<lambda>t.
          bind (save_certificate E (apply_tls_result tlsResult t cert)) (\<lambda>saved.
          evaluate_transition E \<lparr>ti_orgId = dom_orgId domain, ti_entityType = AE_SSL_CERTIFICATE,
            ti_entityId = dom_id domain, ti_previousStatus = ssl_status_str (cert_status cert),
            ti_newStatus = ssl_status_str (cert_status saved)\<rparr>)))))"

text \<open>The domain with what DNS and WHOIS said: WHOIS only ever adds.\<close>

definition apply_lookups :: "dns_check_result \<Rightarrow> whois_check_result \<Rightarrow> time \<Rightarrow> domain \<Rightarrow> domain" where
  "apply_lookups dnsResult whoisResult t d =
     d\<lparr>dom_dnsStatus := dr_status dnsResult, dom_resolvedIp := dr_resolvedIp dnsResult,
       dom_registrar := (case wr_registrar whoisResult of
          Some r \<Rightarrow> if r \<noteq> [] then Some r else dom_registrar d | None \<Rightarrow> dom_registrar d),
       dom_domainExpiresAt := (case wr_expiresAt whoisResult of Some e \<Rightarrow> Some e | None \<Rightarrow> dom_domainExpiresAt d),
       dom_lastCheckedAt := Some t\<rparr>"

text \<open>The certificate part of a check: only a domain that resolved to an address is connected to.\<close>

definition certificate_part :: "env \<Rightarrow> dns_check_result \<Rightarrow> domain \<Rightarrow> unit action" where
  "certificate_part E dnsResult domain =
    (let skipped = bind (write_hc_log E HE_SSL_CERTIFICATE (dom_id domain) ''skipped''
           (JObj [(''reason'', JStr ''DNS did not resolve; nothing to connect to'')])) (\<lambda>log. ret ())
     in case dr_resolvedIp dnsResult of
          Some ip \<Rightarrow> if dr_status dnsResult = DNS_RESOLVING \<and> ip \<noteq> [] then check_tls E domain ip else skipped
        | None \<Rightarrow> skipped)"

definition record_lookups :: "env \<Rightarrow> domain \<Rightarrow> dns_check_result \<Rightarrow> unit action" where
  "record_lookups E domain dnsResult =
     bind (write_hc_log E HE_DOMAIN (dom_id domain) (dns_status_str (dr_status dnsResult))
             (JObj ((''check'', JStr ''dns'') # dr_rawOutput dnsResult))) (\<lambda>log1.
     bind (perform_whois_lookup E (dom_hostname domain) (ac_whoisTimeoutMs (app_conf E))) (\<lambda>whoisResult.
     bind (write_hc_log E HE_DOMAIN (dom_id domain) (if wr_ok whoisResult then ''whois_ok'' else ''whois_failed'')
             (JObj ((''check'', JStr ''whois'') # wr_rawOutput whoisResult))) (\<lambda>log2.
     bind (now E) (\<lambda>t.
     bind (save_domain E (apply_lookups dnsResult whoisResult t domain)) (certificate_part E dnsResult)))))"

definition check_domain :: "env \<Rightarrow> uuid \<Rightarrow> unit action" where
  "check_domain E domainId =
     bind (repo_find_one E domains (\<lambda>d. dom_id d = domainId)) (\<lambda>found.
     case found of
       None \<Rightarrow> ret ()
     | Some domain \<Rightarrow>
         bind (perform_dns_check E (dom_hostname domain) (ac_dnsTimeoutMs (app_conf E))) (record_lookups E domain))"

definition enqueue_check_for_all_domains :: "env \<Rightarrow> unit action" where
  "enqueue_check_for_all_domains E =
     bind (repo_find E domains (\<lambda>_. True)) (\<lambda>ds. enqueue_per_entity_jobs E push_domain_job (map dom_id ds))"

datatype domain_check_job = DomainTickJob | CheckDomainJob uuid

fun process_domain_check :: "env \<Rightarrow> domain_check_job \<Rightarrow> unit action" where
  "process_domain_check E DomainTickJob = enqueue_check_for_all_domains E"
| "process_domain_check E (CheckDomainJob domainId) = check_domain E domainId"


subsection \<open>The certificate status over time\<close>

fun ssl_severity :: "ssl_status \<Rightarrow> nat" where
  "ssl_severity SSL_VALID = 0"
| "ssl_severity SSL_EXPIRING_SOON = 1"
| "ssl_severity SSL_EXPIRED = 2"
| "ssl_severity _ = 3"


text \<open>
  A certificate whose end date the code cannot read is reported valid: \<open>new Date(s)\<close> is
  then an Invalid Date, which is truthy, so it reaches the comparison, and both comparisons
  with \<open>NaN\<close> are false.
\<close>

lemma unreadable_valid_to_is_valid:
  assumes "tls_peer E (steps w) ip hostname tmo = SecureConnect (Some cert)"
    and "pc_valid_to cert = Some s" "s \<noteq> []" "parse_date E s = InvalidDate"
  shows "\<exists>r. fst (perform_tls_check E ip hostname tmo w) = Inr r \<and> tr_status r = SSL_VALID"
  using assms by (simp add: perform_tls_check_def try_catch_def bind_def open_tls_connection_def Let_def
    date_field_def compute_status_def now_def ret_def)

definition undated_cert :: peer_cert where
  "undated_cert = \<lparr>pc_issuer = None, pc_subject = None, pc_valid_from = None, pc_valid_to = Some ''soon'',
     pc_authorized = False, pc_authorization_error = None\<rparr>"

lemma unreadable_valid_to_is_valid_witness:
  "\<exists>r. fst (perform_tls_check (demo_env\<lparr>tls_peer := (\<lambda>n ip h t. SecureConnect (Some undated_cert))\<rparr>)
     ''203.0.113.7'' ''example.org'' (Some 8000) empty_world) = Inr r \<and> tr_status r = SSL_VALID"
  by (rule unreadable_valid_to_is_valid [where cert = undated_cert and s = "''soon''"])
     (simp_all add: undated_cert_def demo_env_def)

subsection \<open>What a check of one domain changes\<close>

lemma no_throw_perform_tls_check: "no_throw (perform_tls_check E ip h t)"
  unfolding perform_tls_check_def by (intro nothrow)

lemma keeps_lookups [pres]:
  assumes "\<And>w. P w \<Longrightarrow> P (tick w)"
  shows "preserves P (perform_dns_check E h t)" "preserves P (perform_whois_lookup E h t)"
    "preserves P (open_tls_connection E ip h t)"
  using assms by (simp_all add: preserves_def perform_dns_check_def perform_whois_lookup_def open_tls_connection_def)

lemma keeps_tls_check [pres]:
  assumes "\<And>w. P w \<Longrightarrow> P (tick w)"
  shows "preserves P (perform_tls_check E ip h t)"
  unfolding perform_tls_check_def compute_status_def Let_def
  by (intro pres keeps_lookups assms) 

text \<open>The latest version of a checked domain and the one before.\<close>

definition advanced :: "domain \<Rightarrow> domain \<Rightarrow> bool" where
  "advanced d d' \<longleftrightarrow> dom_id d' = dom_id d \<and> dom_orgId d' = dom_orgId d \<and> dom_hostId d' = dom_hostId d
     \<and> dom_hostname d' = dom_hostname d \<and> dom_createdAt d' = dom_createdAt d
     \<and> (dom_registrar d \<noteq> None \<longrightarrow> dom_registrar d' \<noteq> None)
     \<and> (dom_domainExpiresAt d \<noteq> None \<longrightarrow> dom_domainExpiresAt d' \<noteq> None)
     \<and> (dom_resolvedIp d' \<noteq> None \<longrightarrow> dom_dnsStatus d' = DNS_RESOLVING)
     \<and> dom_lastCheckedAt d' \<noteq> None"

lemma dns_check_resolved:
  "perform_dns_check E h t w = (Inr r, w') \<Longrightarrow> dr_resolvedIp r \<noteq> None \<Longrightarrow> dr_status r = DNS_RESOLVING"
  by (auto simp: perform_dns_check_def split: sum.splits)

lemma advanced_lookups:
  "(dr_resolvedIp r \<noteq> None \<longrightarrow> dr_status r = DNS_RESOLVING) \<Longrightarrow> advanced d (apply_lookups r wr t d)"
  by (auto simp: advanced_def apply_lookups_def split: option.split)

lemma check_tls_domains: "preserves (\<lambda>w. domains w = c) (check_tls E d ip)"
  unfolding check_tls_def
  by (intro pres keeps_core) (auto simp: save_certificate_def intro!: preserves_repo_save)

definition checked_domain :: "uuid \<Rightarrow> domain list \<Rightarrow> domain list \<Rightarrow> bool" where
  "checked_domain i T T' \<longleftrightarrow> T' = T \<or> (\<exists>d d'. d \<in> set T \<and> dom_id d = i \<and> advanced d d' \<and> T' = save_row dom_id d' T
     \<and> (\<forall>x \<in> set T. dom_id x \<noteq> i \<longrightarrow> \<not> domain_clash x d'))"

lemma checked_domain_refl [simp]: "checked_domain i T T"
  by (simp add: checked_domain_def)

lemma certificate_part_domains: "preserves (\<lambda>w. domains w = c) (certificate_part E r d)"
  unfolding certificate_part_def Let_def by (intro pres check_tls_domains; simp)

lemma record_lookups_domains:
  assumes "d \<in> set T" "dom_id d = i" and known: "dr_resolvedIp r \<noteq> None \<longrightarrow> dr_status r = DNS_RESOLVING"
  shows "triple (\<lambda>v. domains v = T) (record_lookups E d r)
    (\<lambda>_ v. checked_domain i T (domains v)) (\<lambda>_ v. checked_domain i T (domains v))" (is "triple _ _ (\<lambda>_. ?Q) _")
proof -
  have q: "?Q w" if "domains w = T" for w :: world using that by (simp add: checked_domain_def)
  have save: "triple (\<lambda>v. domains v = T) (bind (save_domain E (apply_lookups r wr t d)) (certificate_part E r)) (\<lambda>_. ?Q) (\<lambda>_. ?Q)"
    for wr t
  proof -
    have a: "advanced d (apply_lookups r wr t d)" by (rule advanced_lookups [OF known])
    then have id: "dom_id (apply_lookups r wr t d) = i" using assms(2) by (simp add: advanced_def)
    have new: "checked_domain i T (save_row dom_id (apply_lookups r wr t d) T)"
      if "\<forall>x \<in> set T. dom_id x \<noteq> i \<longrightarrow> \<not> domain_clash x (apply_lookups r wr t d)"
      unfolding checked_domain_def using assms(1,2) a that by blast
    show ?thesis
      unfolding save_domain_def
      by (rule triple_save, simp, simp, rule triple_kept, rule certificate_part_domains) (use id new q in auto)
  qed
  show ?thesis
    unfolding record_lookups_def by (rule triple_keep [OF _ triple_keep [OF _ triple_keep [OF _ triple_keep [OF _ save]]]])
      (auto intro!: pres intro: q)
qed

lemma check_domain_domains: "checked_domain i (domains w) (domains (snd (check_domain E i w)))"
proof -
  let ?T = "domains w"
  let ?Q = "\<lambda>w'. checked_domain i ?T (domains w')"
  have q: "?Q w'" if "domains w' = ?T" for w' :: world using that by (simp add: checked_domain_def)
  have "triple (\<lambda>v. domains v = ?T) (check_domain E i) (\<lambda>_. ?Q) (\<lambda>_. ?Q)"
    unfolding check_domain_def
  proof (rule triple_lookup, simp, rule triple_option)
    fix d assume "List.find (\<lambda>d. dom_id d = i) ?T = Some d"
    then have d: "d \<in> set ?T" "dom_id d = i" by (auto dest: find_SomeD)
    show "triple (\<lambda>v. domains v = ?T) (bind (perform_dns_check E (dom_hostname d) (ac_dnsTimeoutMs (app_conf E)))
        (record_lookups E d)) (\<lambda>_. ?Q) (\<lambda>_. ?Q)"
    proof (rule triple_bind)
      let ?known = "\<lambda>r. dr_resolvedIp r \<noteq> None \<longrightarrow> dr_status r = DNS_RESOLVING"
      show "triple (\<lambda>v. domains v = ?T) (perform_dns_check E h t) (\<lambda>r v. ?known r \<and> domains v = ?T) (\<lambda>_. ?Q)" for h t
        by (auto simp: triple_def perform_dns_check_def split: sum.splits list.splits)
      show "triple (\<lambda>v. ?known r \<and> domains v = ?T) (record_lookups E d r) (\<lambda>_. ?Q) (\<lambda>_. ?Q)" for r
        by (rule triple_pre [of _ "?known r"], simp, rule triple_weaken [OF record_lookups_domains [OF d]]) auto
    qed
  qed (auto intro: q triple_ret)
  then show ?thesis by (rule triple_run) simp
qed

definition checked_certificate :: "uuid \<Rightarrow> ssl_certificate list \<Rightarrow> ssl_certificate list \<Rightarrow> bool" where
  "checked_certificate i T T' \<longleftrightarrow> T' = T \<or> (\<exists>c c'. c \<in> set T \<and> cert_domainId c = i \<and> cert_id c' = cert_id c
     \<and> cert_domainId c' = i \<and> T' = save_row cert_id c' T
     \<and> (\<forall>x \<in> set T. cert_id x \<noteq> cert_id c \<longrightarrow> \<not> certificate_clash x c'))"

lemma checked_certificate_refl [simp]: "checked_certificate i T T"
  by (simp add: checked_certificate_def)

lemma apply_tls_result_simps [simp]:
  "cert_id (apply_tls_result r t c) = cert_id c" "cert_domainId (apply_tls_result r t c) = cert_domainId c"
  by (simp_all add: apply_tls_result_def)

lemma check_tls_certificates:
  "triple (\<lambda>v. ssl_certificates v = T) (check_tls E d ip)
     (\<lambda>_ v. checked_certificate (dom_id d) T (ssl_certificates v)) (\<lambda>_ v. checked_certificate (dom_id d) T (ssl_certificates v))"
  (is "triple _ _ (\<lambda>_. ?Q) _")
proof -
  have q: "?Q w'" if "ssl_certificates w' = T" for w' :: world using that by (simp add: checked_certificate_def)
  have new: "checked_certificate (dom_id d) T (save_row cert_id (apply_tls_result r t c) T)"
    if "c \<in> set T" "cert_domainId c = dom_id d"
      "\<forall>x \<in> set T. cert_id x \<noteq> cert_id c \<longrightarrow> \<not> certificate_clash x (apply_tls_result r t c)" for c r t
    unfolding checked_certificate_def using that apply_tls_result_simps [of r t c] by metis
  have save: "triple (\<lambda>v. ssl_certificates v = T) (bind (save_certificate E (apply_tls_result r t c)) (\<lambda>saved. evaluate_transition E (k saved)))
      (\<lambda>_. ?Q) (\<lambda>_. ?Q)" if "c \<in> set T" "cert_domainId c = dom_id d" for c r t k
    unfolding save_certificate_def
    by (rule triple_save, simp, simp, rule triple_kept, rule keeps_core) (use new [OF that] q in auto)
  show ?thesis
    unfolding check_tls_def
    by (rule triple_keep [OF _ triple_keep_then [OF _ triple_lookup]], intro pres, simp, intro pres, simp, simp, simp,
        rule triple_option, rule triple_ret, erule q, rule triple_keep, intro pres, simp, rule save)
      (auto dest: find_SomeD intro: q)
qed

lemma record_lookups_certificates:
  "triple (\<lambda>v. ssl_certificates v = T) (record_lookups E d r)
     (\<lambda>_ v. checked_certificate (dom_id d) T (ssl_certificates v)) (\<lambda>_ v. checked_certificate (dom_id d) T (ssl_certificates v))"
  (is "triple _ _ (\<lambda>_. ?Q) _")
proof -
  have q: "?Q w'" if "ssl_certificates w' = T" for w' :: world using that by (simp add: checked_certificate_def)
  have part: "triple (\<lambda>v. ssl_certificates v = T) (certificate_part E r s) (\<lambda>_. ?Q) (\<lambda>_. ?Q)" if "dom_id s = dom_id d" for s
    unfolding certificate_part_def Let_def
    by (rule triple_option, rule triple_keep [OF _ triple_ret], intro pres, simp, simp, erule q, erule q,
        rule triple_if, rule check_tls_certificates [where d = s, unfolded that], rule triple_keep [OF _ triple_ret])
      (auto intro!: pres intro: q)
  have save: "triple (\<lambda>v. ssl_certificates v = T) (bind (save_domain E (apply_lookups r wr t d)) (certificate_part E r)) (\<lambda>_. ?Q) (\<lambda>_. ?Q)"
    for wr t
  proof (rule triple_bind)
    show "triple (\<lambda>v. ssl_certificates v = T) (save_domain E (apply_lookups r wr t d))
       (\<lambda>x v. x = apply_lookups r wr t d \<and> ssl_certificates v = T) (\<lambda>_. ?Q)"
      by (auto simp: triple_def save_domain_def repo_save_def repo_def q split: option.splits)
    show "triple (\<lambda>v. x = apply_lookups r wr t d \<and> ssl_certificates v = T) (certificate_part E r x) (\<lambda>_. ?Q) (\<lambda>_. ?Q)" for x
      by (rule triple_pre [of _ "dom_id x = dom_id d"], force simp: apply_lookups_def, rule triple_weaken [OF part]) auto
  qed
  show ?thesis
    unfolding record_lookups_def by (rule triple_keep [OF _ triple_keep [OF _ triple_keep [OF _ triple_keep [OF _ save]]]])
      (auto intro!: pres intro: q)
qed

lemma check_domain_certificates:
  "checked_certificate i (ssl_certificates w) (ssl_certificates (snd (check_domain E i w)))"
proof -
  let ?T = "ssl_certificates w"
  let ?Q = "\<lambda>v. checked_certificate i ?T (ssl_certificates v)"
  have q: "?Q w'" if "ssl_certificates w' = ?T" for w' :: world using that by (simp add: checked_certificate_def)
  have found: "triple (\<lambda>v. ssl_certificates v = ?T) (bind (perform_dns_check E h t) (record_lookups E d)) (\<lambda>_. ?Q) (\<lambda>_. ?Q)"
    if "dom_id d = i" for d h t
    by (rule triple_keep, intro pres, simp, rule record_lookups_certificates [where d = d, unfolded that]) (rule q)
  have "triple (\<lambda>v. ssl_certificates v = ?T) (check_domain E i) (\<lambda>_. ?Q) (\<lambda>_. ?Q)"
    unfolding check_domain_def
  proof (rule triple_bind)
    show "triple (\<lambda>v. ssl_certificates v = ?T) (repo_find_one E domains (\<lambda>d. dom_id d = i))
       (\<lambda>x v. ssl_certificates v = ?T \<and> (\<forall>d. x = Some d \<longrightarrow> dom_id d = i)) (\<lambda>_. ?Q)"
      by (auto simp: triple_def repo_find_one_def repo_def q find_Some_iff split: option.splits)
    show "triple (\<lambda>v. ssl_certificates v = ?T \<and> (\<forall>d. x = Some d \<longrightarrow> dom_id d = i))
       (case x of None \<Rightarrow> ret () | Some domain \<Rightarrow>
         bind (perform_dns_check E (dom_hostname domain) (ac_dnsTimeoutMs (app_conf E))) (record_lookups E domain))
       (\<lambda>_. ?Q) (\<lambda>_. ?Q)" for x
    proof (cases x)
      case (Some d)
      show ?thesis
        unfolding Some option.case
        by (rule triple_pre [of _ "dom_id d = i"], simp, rule triple_weaken, erule found) auto
    qed (simp add: triple_def ret_def)
  qed
  then show ?thesis by (rule triple_run) simp
qed


text \<open>The tables of domains and certificates with their keys and unique indexes.\<close>

definition domains_ok :: "world \<Rightarrow> bool" where
  "domains_ok w \<longleftrightarrow> distinct (map dom_id (domains w)) \<and> distinct (map cert_id (ssl_certificates w))
     \<and> (\<forall>x \<in> set (domains w). \<forall>y \<in> set (domains w). dom_id x \<noteq> dom_id y \<longrightarrow> \<not> domain_clash x y)
     \<and> (\<forall>x \<in> set (ssl_certificates w). \<forall>y \<in> set (ssl_certificates w). cert_id x \<noteq> cert_id y \<longrightarrow> \<not> certificate_clash x y)"

lemma symp_clashes: "symp domain_clash" "symp certificate_clash"
  by (auto simp: symp_def domain_clash_def certificate_clash_def)

lemma checked_domain_ok:
  assumes "checked_domain i T T'" "distinct (map dom_id T)"
    and "\<forall>x \<in> set T. \<forall>y \<in> set T. dom_id x \<noteq> dom_id y \<longrightarrow> \<not> domain_clash x y"
  shows "map dom_id T' = map dom_id T"
    "\<forall>x \<in> set T'. \<forall>y \<in> set T'. dom_id x \<noteq> dom_id y \<longrightarrow> \<not> domain_clash x y"
    "filter (\<lambda>d. dom_id d \<noteq> i) T' = filter (\<lambda>d. dom_id d \<noteq> i) T"
    "\<forall>d \<in> set T. \<exists>d' \<in> set T'. d' = d \<or> advanced d d'"
proof -
  have "map dom_id T' = map dom_id T \<and> (\<forall>x \<in> set T'. \<forall>y \<in> set T'. dom_id x \<noteq> dom_id y \<longrightarrow> \<not> domain_clash x y)
    \<and> filter (\<lambda>d. dom_id d \<noteq> i) T' = filter (\<lambda>d. dom_id d \<noteq> i) T \<and> (\<forall>d \<in> set T. \<exists>d' \<in> set T'. d' = d \<or> advanced d d')"
  proof (cases "T' = T")
    case True
    with assms(3) show ?thesis by blast
  next
    case False
    then obtain d d' where d: "d \<in> set T" "dom_id d = i" "advanced d d'" "T' = save_row dom_id d' T"
      "\<forall>x \<in> set T. dom_id x \<noteq> i \<longrightarrow> \<not> domain_clash x d'"
      using assms(1) by (auto simp: checked_domain_def)
    then have id: "dom_id d' = i" by (simp add: advanced_def)
    have m: "dom_id d' \<in> dom_id ` set T" by (rule image_eqI [of _ _ d]) (simp_all add: id d(1,2))
    have "\<forall>x \<in> set T'. \<forall>y \<in> set T'. dom_id x \<noteq> dom_id y \<longrightarrow> \<not> domain_clash x y"
      unfolding d(4) by (rule domain_table.unique_save [OF assms(2,3) _ symp_clashes(1)]) (use d(5) id in auto)
    moreover have "filter (\<lambda>d. dom_id d \<noteq> i) T' = filter (\<lambda>d. dom_id d \<noteq> i) T"
      unfolding d(4) by (rule filter_save_kept [OF m]) (auto simp: id)
    moreover have "\<exists>y \<in> set T'. y = x \<or> advanced x y" if "x \<in> set T" for x
    proof (cases "dom_id x = i")
      case True
      then have "x = d" using key_unique [OF assms(2) that d(1)] d(2) by simp
      with d(3,4) show ?thesis by (intro bexI [of _ d']) simp_all
    next
      case False
      with that show ?thesis by (intro bexI [of _ x]) (auto simp: d(4) mem_save_row [OF assms(2)] id)
    qed
    ultimately show ?thesis using m by (simp add: d(4) ids_save_row)
  qed
  then show "map dom_id T' = map dom_id T"
    "\<forall>x \<in> set T'. \<forall>y \<in> set T'. dom_id x \<noteq> dom_id y \<longrightarrow> \<not> domain_clash x y"
    "filter (\<lambda>d. dom_id d \<noteq> i) T' = filter (\<lambda>d. dom_id d \<noteq> i) T"
    "\<forall>d \<in> set T. \<exists>d' \<in> set T'. d' = d \<or> advanced d d'" by blast+
qed

lemma checked_certificate_ok:
  assumes "checked_certificate i T T'" "distinct (map cert_id T)"
    and "\<forall>x \<in> set T. \<forall>y \<in> set T. cert_id x \<noteq> cert_id y \<longrightarrow> \<not> certificate_clash x y"
  shows "map cert_id T' = map cert_id T
    \<and> (\<forall>x \<in> set T'. \<forall>y \<in> set T'. cert_id x \<noteq> cert_id y \<longrightarrow> \<not> certificate_clash x y)
    \<and> filter (\<lambda>c. cert_domainId c \<noteq> i) T' = filter (\<lambda>c. cert_domainId c \<noteq> i) T"
proof (cases "T' = T")
  case True
  with assms(3) show ?thesis by blast
next
  case False
  then obtain c c' where c: "c \<in> set T" "cert_domainId c = i" "cert_id c' = cert_id c" "cert_domainId c' = i"
    "T' = save_row cert_id c' T" "\<forall>x \<in> set T. cert_id x \<noteq> cert_id c \<longrightarrow> \<not> certificate_clash x c'"
    using assms(1) by (auto simp: checked_certificate_def)
  have m: "cert_id c' \<in> cert_id ` set T" by (rule image_eqI [of _ _ c]) (simp_all add: c(1,3))
  have "\<forall>x \<in> set T'. \<forall>y \<in> set T'. cert_id x \<noteq> cert_id y \<longrightarrow> \<not> certificate_clash x y"
    unfolding c(5) by (rule certificate_table.unique_save [OF assms(2,3) _ symp_clashes(2)]) (use c(3,6) in auto)
  moreover have "cert_domainId x = i" if "x \<in> set T" "cert_id x = cert_id c" for x
    using key_unique [OF assms(2) that(1) c(1) that(2)] c(2) by simp
  then have "filter (\<lambda>c. cert_domainId c \<noteq> i) T' = filter (\<lambda>c. cert_domainId c \<noteq> i) T"
    unfolding c(5) by (intro filter_save_kept [OF m]) (auto simp: c(3,4))
  ultimately show ?thesis using m by (simp add: c(5) ids_save_row)
qed


definition demo_domain :: domain where
  "demo_domain = \<lparr>dom_id = ''dom'', dom_orgId = ''org'', dom_hostId = None, dom_hostname = ''example.org'',
     dom_registrar = Some ''Gandi'', dom_domainExpiresAt = None, dom_dnsStatus = DNS_UNKNOWN, dom_resolvedIp = None,
     dom_lastCheckedAt = None, dom_createdAt = 0\<rparr>"

definition demo_certificate :: ssl_certificate where
  "demo_certificate = \<lparr>cert_id = ''cert'', cert_domainId = ''dom'', cert_issuer = None, cert_validFrom = None,
     cert_validTo = None, cert_status = SSL_UNKNOWN, cert_lastCheckedAt = None, cert_createdAt = 0\<rparr>"


end
