(* ===== verification/Hosts.thy ===== *)
theory Hosts
  imports Ssh_Keys Health_Check Domain_Check
begin

section \<open>Hosts\<close>

text \<open>
  \<open>src/hosts/\<close>: registering a host with a generated key, reading, removing and checking it,
  the counts of the overview, the responses and the controller's handlers. Removing a row
  removes or unlinks the rows that refer to it, as the foreign keys say.
\<close>

text \<open>The characters of a text: bytes that do not continue a UTF-8 sequence.\<close>

definition char_count :: "string \<Rightarrow> nat" where
  "char_count s = length (filter (\<lambda>c. \<not> (128 \<le> (of_char c :: nat) \<and> (of_char c :: nat) < 192)) s)"

record create_host_dto =
  ch_name :: string
  ch_provider :: host_provider
  ch_ip_address :: string
  ch_ssh_port :: "int option"
  ch_ssh_user :: string

text \<open>What the validation pipe checks of a body whose fields have the right JSON types.\<close>

definition create_host_dto_valid :: "env \<Rightarrow> create_host_dto \<Rightarrow> bool" where
  "create_host_dto_valid E dto \<longleftrightarrow>
     1 \<le> char_count (ch_name dto) \<and> char_count (ch_name dto) \<le> 255
     \<and> is_ip E (ch_ip_address dto)
     \<and> (case ch_ssh_port dto of None \<Rightarrow> True | Some p \<Rightarrow> 1 \<le> p \<and> p \<le> 65535)
     \<and> 1 \<le> char_count (ch_ssh_user dto) \<and> char_count (ch_ssh_user dto) \<le> 255"

definition DEFAULT_SSH_PORT :: int where "DEFAULT_SSH_PORT = 22"

subsection \<open>HostsService\<close>

definition create_host :: "env \<Rightarrow> uuid \<Rightarrow> create_host_dto \<Rightarrow> host action" where
  "create_host E orgId dto =
     bind (generate_ssh_keypair E (ch_name dto)) (\<lambda>keypair.
     bind (encrypt E (kp_privateKey keypair)) (\<lambda>sshKeyEncrypted.
     repo_insert E hosts (\<lambda>t w. w\<lparr>hosts := t\<rparr>) host_id (\<lambda>_ _. False)
       (\<lambda>i d. \<lparr>host_id = i, host_orgId = orgId, host_name = ch_name dto, host_provider = ch_provider dto,
          host_ipAddress = ch_ip_address dto,
          host_sshPort = (case ch_ssh_port dto of None \<Rightarrow> DEFAULT_SSH_PORT | Some p \<Rightarrow> p),
          host_sshUser = ch_ssh_user dto, host_sshKeyEncrypted = sshKeyEncrypted,
          host_sshPublicKey = kp_publicKey keypair, host_status = HS_PENDING_SETUP,
          host_lastCheckedAt = None, host_setupVerifiedAt = None, host_createdAt = d\<rparr>)))"

definition find_all_hosts :: "env \<Rightarrow> uuid \<Rightarrow> host list action" where
  "find_all_hosts E orgId =
     bind (repo_find E hosts (\<lambda>h. host_orgId h = orgId)) (\<lambda>hs. ret (sort_key (\<lambda>h. - host_createdAt h) hs))"

definition find_host_or_throw :: "env \<Rightarrow> uuid \<Rightarrow> uuid \<Rightarrow> host action" where
  "find_host_or_throw E orgId i =
     bind (repo_find_one E hosts (\<lambda>h. host_id h = i \<and> host_orgId h = orgId)) (\<lambda>found.
     case found of
       None \<Rightarrow> throw (NotFoundException (''Host '' @ i @ '' not found''))
     | Some host \<Rightarrow> ret host)"

definition host_recent_logs :: "env \<Rightarrow> uuid \<Rightarrow> hc_log list action" where
  "host_recent_logs E hostId = find_recent E [HE_HOST] hostId RECENT_LOGS_LIMIT"

text \<open>
  Deleting a row: its services go with it, their snapshots and rollbacks with them, and a
  domain linked to it is unlinked.
\<close>

definition delete_services :: "(service \<Rightarrow> bool) \<Rightarrow> world \<Rightarrow> world" where
  "delete_services p w =
    (let svc_gone = svc_id ` set (filter p (services w));
         snap_gone = snap_id ` set (filter (\<lambda>s. snap_serviceId s \<in> svc_gone) (snapshots w))
     in w\<lparr>services := filter (\<lambda>s. \<not> p s) (services w),
          snapshots := filter (\<lambda>s. snap_serviceId s \<notin> svc_gone) (snapshots w),
          rollback_events := filter (\<lambda>e. ev_serviceId e \<notin> svc_gone \<and> ev_fromSnapshotId e \<notin> snap_gone
            \<and> ev_toSnapshotId e \<notin> snap_gone) (rollback_events w)\<rparr>)"

definition unlink_host :: "uuid \<Rightarrow> domain \<Rightarrow> domain" where
  "unlink_host i d = (if dom_hostId d = Some i then d\<lparr>dom_hostId := None\<rparr> else d)"

definition delete_host :: "uuid \<Rightarrow> world \<Rightarrow> world" where
  "delete_host i w =
    (let w1 = delete_services (\<lambda>s. svc_hostId s = i) w
     in w1\<lparr>hosts := filter (\<lambda>h. host_id h \<noteq> i) (hosts w1), domains := map (unlink_host i) (domains w1)\<rparr>)"

definition remove_host :: "env \<Rightarrow> uuid \<Rightarrow> uuid \<Rightarrow> unit action" where
  "remove_host E orgId i =
     bind (find_host_or_throw E orgId i) (\<lambda>host. repo E (\<lambda>w. (Inr (), delete_host (host_id host) w)))"

definition enqueue_host_check :: "env \<Rightarrow> uuid \<Rightarrow> uuid \<Rightarrow> string action" where
  "enqueue_host_check E orgId i =
     andthen (find_host_or_throw E orgId i) (queue_add E push_host_job i)"

text \<open>\<open>for (const x of xs) { count[key(x)] += 1; }\<close> over counts that start at 0.\<close>

definition tally :: "('a \<Rightarrow> 'k) \<Rightarrow> 'a list \<Rightarrow> 'k \<Rightarrow> nat" where
  "tally key xs = foldl (\<lambda>m x. m(key x := m (key x) + 1)) (\<lambda>_. 0) xs"

record host_overview_counts =
  oc_total_hosts :: nat
  oc_healthy :: nat
  oc_degraded :: nat
  oc_unreachable :: nat
  oc_unknown :: nat
  oc_pending_setup :: nat

definition host_overview :: "env \<Rightarrow> uuid \<Rightarrow> host_overview_counts action" where
  "host_overview E orgId =
     bind (repo_find E hosts (\<lambda>h. host_orgId h = orgId)) (\<lambda>hs.
     let byStatus = tally host_status hs in
     ret \<lparr>oc_total_hosts = length hs, oc_healthy = byStatus HS_HEALTHY, oc_degraded = byStatus HS_DEGRADED,
          oc_unreachable = byStatus HS_UNREACHABLE, oc_unknown = byStatus HS_UNKNOWN,
          oc_pending_setup = byStatus HS_PENDING_SETUP\<rparr>)"

subsection \<open>Responses\<close>

record hc_log_response =
  lr_id :: uuid
  lr_status :: string
  lr_raw_output :: json
  lr_checked_at :: time

definition to_hc_log_response :: "hc_log \<Rightarrow> hc_log_response" where
  "to_hc_log_response l = \<lparr>lr_id = hlog_id l, lr_status = hlog_status l, lr_raw_output = hlog_rawOutput l,
     lr_checked_at = hlog_checkedAt l\<rparr>"

record host_response =
  hr_id :: uuid
  hr_name :: string
  hr_provider :: host_provider
  hr_ip_address :: string
  hr_ssh_port :: int
  hr_ssh_user :: string
  hr_ssh_public_key :: string
  hr_status :: host_status
  hr_last_checked_at :: "time option"
  hr_setup_verified_at :: "time option"
  hr_created_at :: time

record create_host_response = host_response +
  hr_bootstrap_command :: string

record host_detail_response = host_response +
  hr_recent_logs :: "hc_log_response list"

record setup_instructions_response =
  si_ssh_public_key :: string
  si_bootstrap_command :: string

definition to_host_response :: "host \<Rightarrow> host_response" where
  "to_host_response h = \<lparr>hr_id = host_id h, hr_name = host_name h, hr_provider = host_provider h,
     hr_ip_address = host_ipAddress h, hr_ssh_port = host_sshPort h, hr_ssh_user = host_sshUser h,
     hr_ssh_public_key = host_sshPublicKey h, hr_status = host_status h,
     hr_last_checked_at = host_lastCheckedAt h, hr_setup_verified_at = host_setupVerifiedAt h,
     hr_created_at = host_createdAt h\<rparr>"

definition to_host_detail_response :: "host \<Rightarrow> hc_log list \<Rightarrow> host_detail_response" where
  "to_host_detail_response h logs =
     host_response.extend (to_host_response h) (host_detail_response.fields (map to_hc_log_response logs))"

definition to_create_host_response :: "host \<Rightarrow> create_host_response" where
  "to_create_host_response h =
     host_response.extend (to_host_response h) (create_host_response.fields (build_bootstrap_command (host_sshPublicKey h)))"

definition to_setup_instructions_response :: "host \<Rightarrow> setup_instructions_response" where
  "to_setup_instructions_response h =
     \<lparr>si_ssh_public_key = host_sshPublicKey h, si_bootstrap_command = build_bootstrap_command (host_sshPublicKey h)\<rparr>"

subsection \<open>HostsController\<close>

definition hosts_create :: "env \<Rightarrow> uuid \<Rightarrow> create_host_dto \<Rightarrow> create_host_response action" where
  "hosts_create E orgId dto = bind (create_host E orgId dto) (\<lambda>host. ret (to_create_host_response host))"

definition hosts_find_all :: "env \<Rightarrow> uuid \<Rightarrow> host_response list action" where
  "hosts_find_all E orgId = bind (find_all_hosts E orgId) (\<lambda>hs. ret (map to_host_response hs))"

definition hosts_find_one :: "env \<Rightarrow> uuid \<Rightarrow> uuid \<Rightarrow> host_detail_response action" where
  "hosts_find_one E orgId i =
     bind (find_host_or_throw E orgId i) (\<lambda>host.
     bind (host_recent_logs E (host_id host)) (\<lambda>logs. ret (to_host_detail_response host logs)))"

definition hosts_setup_instructions :: "env \<Rightarrow> uuid \<Rightarrow> uuid \<Rightarrow> setup_instructions_response action" where
  "hosts_setup_instructions E orgId i =
     bind (find_host_or_throw E orgId i) (\<lambda>host. ret (to_setup_instructions_response host))"

definition hosts_trigger_check :: "env \<Rightarrow> uuid \<Rightarrow> uuid \<Rightarrow> string action" where
  "hosts_trigger_check E orgId i = enqueue_host_check E orgId i"

lemma tally_Nil [simp]: "tally key [] k = 0"
  by (simp add: tally_def)

lemma tally_append [simp]: "tally key (xs @ [x]) = (tally key xs)(key x := tally key xs (key x) + 1)"
  by (simp add: tally_def)

lemma tally_count: "tally key xs k = length (filter (\<lambda>x. key x = k) xs)"
  by (induction xs rule: rev_induct) auto

end
