(* ===== verification/Rollback.thy ===== *)
theory Rollback
  imports Services_Sync
begin

section \<open>Rollback\<close>

text \<open>
  \<open>src/rollback/\<close>: \<open>RollbackService\<close>, which validates a request, records a pending event and
  queues its job, and \<open>RollbackProcessor\<close>, which runs the job. The table has a partial unique
  index on the active (pending or in-progress) event of a service.
\<close>

definition active_status :: "rollback_status \<Rightarrow> bool" where
  "active_status st \<longleftrightarrow> st = RB_PENDING \<or> st = RB_IN_PROGRESS"

definition event_clash :: "rollback_event \<Rightarrow> rollback_event \<Rightarrow> bool" where
  "event_clash x y \<longleftrightarrow> ev_serviceId x = ev_serviceId y \<and> active_status (ev_status x) \<and> active_status (ev_status y)"

definition save_event :: "env \<Rightarrow> rollback_event \<Rightarrow> rollback_event action" where
  "save_event E = repo_save E rollback_events (\<lambda>t w. w\<lparr>rollback_events := t\<rparr>) ev_id event_clash"

subsection \<open>RollbackService\<close>

definition find_service_or_throw :: "env \<Rightarrow> uuid \<Rightarrow> uuid \<Rightarrow> service action" where
  "find_service_or_throw E orgId i =
     bind (repo_find_one E services (\<lambda>s. svc_id s = i \<and> svc_orgId s = orgId)) (\<lambda>s.
     case s of None \<Rightarrow> throw (NotFoundException (''Service '' @ i @ '' not found''))
     | Some service \<Rightarrow> ret service)"

fun is_unique_violation :: "js_error \<Rightarrow> bool" where
  "is_unique_violation (QueryFailedError code _) = (code = ''23505'')"
| "is_unique_violation _ = False"

definition insert_and_queue :: "env \<Rightarrow> service \<Rightarrow> snapshot \<Rightarrow> snapshot \<Rightarrow> uuid \<Rightarrow> rollback_event action" where
  "insert_and_queue E service currentSnapshot targetSnapshot triggeredByUserId =
     bind (repo_insert E rollback_events (\<lambda>t w. w\<lparr>rollback_events := t\<rparr>) ev_id event_clash
       (\<lambda>i d. \<lparr>ev_id = i, ev_serviceId = svc_id service, ev_fromSnapshotId = snap_id currentSnapshot,
               ev_toSnapshotId = snap_id targetSnapshot, ev_triggeredById = triggeredByUserId,
               ev_status = RB_PENDING, ev_logOutput = [], ev_initiatedAt = d, ev_completedAt = None\<rparr>)) (\<lambda>event.
     andthen (andthen (queue_add E push_rollback_job (ev_id event)) (ret ())) (ret event))"

definition enqueue_rollback :: "env \<Rightarrow> uuid \<Rightarrow> uuid \<Rightarrow> uuid \<Rightarrow> uuid \<Rightarrow> rollback_event action" where
  "enqueue_rollback E orgId serviceId targetSnapshotId triggeredByUserId =
     bind (find_service_or_throw E orgId serviceId) (\<lambda>service.
     bind (find_one_for_service_or_throw E (svc_id service) targetSnapshotId) (\<lambda>targetSnapshot.
     bind (find_current_for_service E (svc_id service)) (\<lambda>current.
     case current of
       None \<Rightarrow> throw (BadRequestException
         (''Service '' @ svc_id service @ '' has no deployment history yet; nothing to roll back from''))
     | Some currentSnapshot \<Rightarrow>
         bind (repo_find_one E rollback_events
                 (\<lambda>e. ev_serviceId e = svc_id service \<and> active_status (ev_status e))) (\<lambda>active.
         case active of
           Some a \<Rightarrow> throw (ConflictException (''A rollback is already ''
             @ rollback_status_str (ev_status a) @ '' for service '' @ svc_id service))
         | None \<Rightarrow>
             try_catch (insert_and_queue E service currentSnapshot targetSnapshot triggeredByUserId)
               (\<lambda>error. if is_unique_violation error
                 then throw (ConflictException (''A rollback is already in progress for service '' @ svc_id service))
                 else throw error)))))"

definition event_of_org :: "world \<Rightarrow> uuid \<Rightarrow> rollback_event \<Rightarrow> bool" where
  "event_of_org w orgId e \<longleftrightarrow> (\<exists>s \<in> set (services w). svc_id s = ev_serviceId e \<and> svc_orgId s = orgId)"

definition find_event_or_throw :: "env \<Rightarrow> uuid \<Rightarrow> uuid \<Rightarrow> rollback_event action" where
  "find_event_or_throw E orgId i =
     bind (repo E (\<lambda>w. (Inr (List.find (\<lambda>e. ev_id e = i \<and> event_of_org w orgId e) (rollback_events w)), w))) (\<lambda>e.
     case e of None \<Rightarrow> throw (NotFoundException (''Rollback event '' @ i @ '' not found''))
     | Some event \<Rightarrow> ret event)"

definition ROLLBACK_EVENTS_LIST_LIMIT :: nat where "ROLLBACK_EVENTS_LIST_LIMIT = 50"

definition list_events_for_org :: "env \<Rightarrow> uuid \<Rightarrow> rollback_event list action" where
  "list_events_for_org E orgId =
     repo E (\<lambda>w. (Inr (take ROLLBACK_EVENTS_LIST_LIMIT (sort_key (\<lambda>e. - ev_initiatedAt e)
       (filter (event_of_org w orgId) (rollback_events w)))), w))"

subsection \<open>RollbackProcessor\<close>

definition append_log :: "env \<Rightarrow> rollback_event \<Rightarrow> rollback_log_entry \<Rightarrow> rollback_event action" where
  "append_log E event entry = save_event E (event\<lparr>ev_logOutput := ev_logOutput event @ [entry]\<rparr>)"

definition message_entry :: "time \<Rightarrow> string \<Rightarrow> string \<Rightarrow> rollback_log_entry" where
  "message_entry t step message = \<lparr>rle_timestamp = t, rle_step = step, rle_command = None, rle_exit_code = None,
     rle_stdout = None, rle_stderr = None, rle_message = Some message\<rparr>"

definition to_log_entry :: "time \<Rightarrow> string \<Rightarrow> ssh_result \<Rightarrow> rollback_log_entry" where
  "to_log_entry t step result = \<lparr>rle_timestamp = t, rle_step = step, rle_command = Some (sr_command result),
     rle_exit_code = Some (sr_exitCode result), rle_stdout = Some (sr_stdout result),
     rle_stderr = Some (sr_stderr result), rle_message = None\<rparr>"

definition fail_rollback :: "env \<Rightarrow> rollback_event \<Rightarrow> string \<Rightarrow> uuid option \<Rightarrow> unit action" where
  "fail_rollback E event0 reason orgId =
     bind (now E) (\<lambda>t.
     bind (append_log E event0 (message_entry t ''failure'' reason)) (\<lambda>event.
     bind (now E) (\<lambda>completedAt.
     bind (save_event E (event\<lparr>ev_status := RB_FAILED, ev_completedAt := Some completedAt\<rparr>)) (\<lambda>saved.
     case orgId of
       None \<Rightarrow> ret ()
     | Some org \<Rightarrow> do_when (org \<noteq> [])
         (evaluate_transition E \<lparr>ti_orgId = org, ti_entityType = AE_ROLLBACK_EVENT, ti_entityId = ev_id saved,
            ti_previousStatus = rollback_status_str (ev_status event),
            ti_newStatus = rollback_status_str (ev_status saved)\<rparr>)))))"

definition append_result :: "env \<Rightarrow> rollback_event \<Rightarrow> string \<Rightarrow> ssh_result \<Rightarrow> rollback_event action" where
  "append_result E event step result = bind (now E) (\<lambda>t. append_log E event (to_log_entry t step result))"

definition first_truthy :: "string list \<Rightarrow> string" where
  "first_truthy xs = (case filter (\<lambda>x. x \<noteq> []) xs of [] \<Rightarrow> [] | x # _ \<Rightarrow> x)"

definition restored_service :: "service \<Rightarrow> snapshot \<Rightarrow> string \<Rightarrow> service_status \<Rightarrow> time \<Rightarrow> service" where
  "restored_service service targetSnapshot newContainerId newStatus t =
    (let (img, tag) = split_image_and_tag (snap_imageTag targetSnapshot) in
     service\<lparr>svc_containerId := newContainerId, svc_image := img, svc_currentTag := tag,
       svc_status := newStatus, svc_lastCheckedAt := t\<rparr>)"

definition succeed_rollback :: "env \<Rightarrow> rollback_event \<Rightarrow> service \<Rightarrow> string \<Rightarrow> snapshot \<Rightarrow> service_status \<Rightarrow> unit action" where
  "succeed_rollback E event service newContainerId targetSnapshot newStatus =
     bind (now E) (\<lambda>t.
     bind (save_service E (restored_service service targetSnapshot newContainerId newStatus t)) (\<lambda>saved.
     bind (lift_result (decrypt_config E targetSnapshot)) (\<lambda>config.
     bind (now E) (\<lambda>deployedAt.
     bind (create_snapshot E \<lparr>cs_serviceId = svc_id service, cs_imageTag = snap_imageTag targetSnapshot,
         cs_config = config, cs_deployedAt = deployedAt, cs_deployedById = Some (ev_triggeredById event)\<rparr>) (\<lambda>snapshot.
     bind (write_hc_log E HE_SERVICE (svc_id service) (service_status_str newStatus)
         (JObj [(''reason'', JStr ''rollback''), (''rollback_event_id'', JStr (ev_id event)),
                (''image_tag'', JStr (snap_imageTag targetSnapshot))])) (\<lambda>log.
     bind (now E) (\<lambda>completedAt.
     bind (save_event E (event\<lparr>ev_status := RB_SUCCEEDED, ev_completedAt := Some completedAt\<rparr>)) (\<lambda>_.
     ret ()))))))))"

definition health_message :: "string \<Rightarrow> docker_ps_container option \<Rightarrow> service_status \<Rightarrow> string" where
  "health_message containerName recreated newStatus = (case recreated of
     Some _ \<Rightarrow> ''Container '' @ dquote # containerName @ dquote # '' classified as '' @ service_status_str newStatus
   | None \<Rightarrow> ''Container '' @ dquote # containerName @ dquote # '' not found in docker ps -a output after recreation'')"

definition DOCKER_PS_ALL_JSON_COMMAND :: string where
  "DOCKER_PS_ALL_JSON_COMMAND = ''docker ps -a --format '' @ [CHR 0x27] @ ''{{json .}}'' @ [CHR 0x27]"

definition rollback_commands :: "service \<Rightarrow> deployment_config \<Rightarrow> snapshot \<Rightarrow> string list" where
  "rollback_commands service config targetSnapshot =
     [''docker stop '' @ svc_containerId service, ''docker rm '' @ svc_containerId service,
      build_docker_run_command config (snap_imageTag targetSnapshot), DOCKER_PS_ALL_JSON_COMMAND]"

text \<open>The part after the container was started: look it up, classify it, finish the event.\<close>

definition verify_rollback :: "env \<Rightarrow> rollback_event \<Rightarrow> service \<Rightarrow> snapshot \<Rightarrow> deployment_config \<Rightarrow> ssh_result \<Rightarrow> unit action" where
  "verify_rollback E event0 service targetSnapshot config psResult =
     bind (lift_result (parse_docker_ps_output (sr_stdout psResult))) (\<lambda>(containers, skippedLines).
     let recreated = List.find (\<lambda>c. dc_names c = cfg_containerName config) containers;
         newStatus = (case recreated of Some c \<Rightarrow> classify_container_status (dc_status c) | None \<Rightarrow> SS_UNKNOWN)
     in bind (now E) (\<lambda>t.
        bind (append_log E event0 (message_entry t ''post_rollback_health_check''
               (health_message (cfg_containerName config) recreated newStatus))) (\<lambda>event.
        case recreated of
          Some c \<Rightarrow> if newStatus \<noteq> SS_RUNNING
            then fail_rollback E event (''Post-rollback health check failed: container status is ''
                   @ dquote # service_status_str newStatus @ [dquote]) (Some (svc_orgId service))
            else succeed_rollback E event service (dc_id c) targetSnapshot newStatus
        | None \<Rightarrow> fail_rollback E event (''Post-rollback health check failed: container status is ''
                   @ dquote # service_status_str newStatus @ [dquote]) (Some (svc_orgId service)))))"

definition record_results :: "env \<Rightarrow> rollback_event \<Rightarrow> service \<Rightarrow> snapshot \<Rightarrow> deployment_config \<Rightarrow> ssh_result list \<Rightarrow> unit action" where
  "record_results E event0 service targetSnapshot config results =
     bind (append_result E event0 ''stop_container'' (results ! 0)) (\<lambda>event1.
     bind (append_result E event1 ''remove_container'' (results ! 1)) (\<lambda>event2.
     bind (append_result E event2 ''start_container'' (results ! 2)) (\<lambda>event3.
     bind (append_result E event3 ''list_containers'' (results ! 3)) (\<lambda>event.
     let runResult = results ! 2 in
     if sr_exitCode runResult \<noteq> Some 0
     then fail_rollback E event (''docker run failed: ''
            @ first_truthy [sr_stderr runResult, sr_stdout runResult, ''unknown error'']) (Some (svc_orgId service))
     else verify_rollback E event service targetSnapshot config (results ! 3)))))"

definition execute_rollback :: "env \<Rightarrow> rollback_event \<Rightarrow> service \<Rightarrow> host \<Rightarrow> snapshot \<Rightarrow> string \<Rightarrow> unit action" where
  "execute_rollback E event service host targetSnapshot privateKey =
     bind (lift_result (decrypt_config E targetSnapshot)) (\<lambda>config.
     bind (attempt (run_commands E (host_ssh_options host privateKey)
                      (rollback_commands service config targetSnapshot))) (\<lambda>session.
     case session of
       Inl error \<Rightarrow> fail_rollback E event (''SSH connection to host failed: '' @ template_message error)
                      (Some (svc_orgId service))
     | Inr results \<Rightarrow> record_results E event service targetSnapshot config results))"

text \<open>The job once the event is in progress.\<close>

definition run_rollback :: "env \<Rightarrow> rollback_event \<Rightarrow> unit action" where
  "run_rollback E event =
     bind (repo_find_one E services (\<lambda>s. svc_id s = ev_serviceId event)) (\<lambda>foundService.
     case foundService of
       None \<Rightarrow> fail_rollback E event ''Service no longer exists'' None
     | Some service \<Rightarrow>
     bind (repo_find_one E hosts (\<lambda>h. host_id h = svc_hostId service)) (\<lambda>foundHost.
     case foundHost of
       None \<Rightarrow> fail_rollback E event ''Host no longer exists'' (Some (svc_orgId service))
     | Some host \<Rightarrow>
     bind (repo_find_one E snapshots (\<lambda>s. snap_id s = ev_toSnapshotId event)) (\<lambda>foundTarget.
     case foundTarget of
       None \<Rightarrow> fail_rollback E event ''Target snapshot no longer exists'' (Some (svc_orgId service))
     | Some targetSnapshot \<Rightarrow>
     (case decrypt E (host_sshKeyEncrypted host) of
        Inl error \<Rightarrow> fail_rollback E event (''Failed to decrypt SSH key: '' @ template_message error)
                       (Some (svc_orgId service))
      | Inr privateKey \<Rightarrow> execute_rollback E event service host targetSnapshot privateKey))))"

definition process_rollback :: "env \<Rightarrow> uuid \<Rightarrow> unit action" where
  "process_rollback E rollbackEventId =
     bind (repo_find_one E rollback_events (\<lambda>e. ev_id e = rollbackEventId)) (\<lambda>found.
     case found of
       None \<Rightarrow> ret ()
     | Some event \<Rightarrow>
         bind (save_event E (event\<lparr>ev_status := RB_IN_PROGRESS\<rparr>)) (run_rollback E))"

subsection \<open>The event's life in the table\<close>

text \<open>What every later version of an event has in common with an earlier one.\<close>

definition grows :: "rollback_event \<Rightarrow> rollback_event \<Rightarrow> bool" where
  "grows ev ev' \<longleftrightarrow> ev_id ev' = ev_id ev \<and> ev_serviceId ev' = ev_serviceId ev
     \<and> ev_fromSnapshotId ev' = ev_fromSnapshotId ev \<and> ev_toSnapshotId ev' = ev_toSnapshotId ev
     \<and> ev_triggeredById ev' = ev_triggeredById ev \<and> ev_initiatedAt ev' = ev_initiatedAt ev
     \<and> prefix (ev_logOutput ev) (ev_logOutput ev')"

lemma grows_refl [simp]: "grows ev ev"
  by (simp add: grows_def)

lemma grows_trans: "grows a b \<Longrightarrow> grows b c \<Longrightarrow> grows a c"
  by (auto simp: grows_def)

definition finished :: "rollback_event \<Rightarrow> bool" where
  "finished ev \<longleftrightarrow> ev_status ev \<in> {RB_SUCCEEDED, RB_FAILED} \<and> ev_completedAt ev \<noteq> None"

text \<open>The table at the start of the job, with the event's present version saved into it.\<close>

definition events_are :: "rollback_event list \<Rightarrow> rollback_event \<Rightarrow> world \<Rightarrow> bool" where
  "events_are T ev w \<longleftrightarrow> rollback_events w = save_row ev_id ev T"

lemma save_row_save_row: "rid a = rid b \<Longrightarrow> save_row rid a (save_row rid b t) = save_row rid a t"
  by (induction t) auto

lemma events_are_tick [simp]: "events_are T ev (tick w) = events_are T ev w"
  by (simp add: events_are_def)

lemma save_event_triple:
  assumes "ev_id ev' = ev_id ev"
  shows "triple (events_are T ev) (save_event E ev') (\<lambda>r w. r = ev' \<and> events_are T ev' w) (\<lambda>_. events_are T ev)"
proof (rule tripleI)
  fix s x s' assume "events_are T ev s" "save_event E ev' s = (Inr x, s')"
  then show "x = ev' \<and> events_are T ev' s'"
    using assms by (auto simp: save_event_def repo_save_def repo_def events_are_def save_row_save_row
        split: option.splits if_splits)
next
  fix s e s' assume "events_are T ev s" "save_event E ev' s = (Inl e, s')"
  then show "events_are T ev s'"
    by (auto simp: save_event_def repo_save_def repo_def events_are_def split: option.splits if_splits)
qed

lemma now_triple: "(\<And>w. P w \<Longrightarrow> P (tick w)) \<Longrightarrow> triple P (now E) (\<lambda>_. P) R"
  by (simp add: triple_def now_def)

lemma append_log_triple:
  "triple (events_are T ev) (append_log E ev entry)
     (\<lambda>r w. grows ev r \<and> ev_status r = ev_status ev \<and> events_are T r w) (\<lambda>_. events_are T ev)"
  unfolding append_log_def
  by (rule triple_weaken [OF save_event_triple [of "ev\<lparr>ev_logOutput := ev_logOutput ev @ [entry]\<rparr>" ev T E]])
     (auto simp: grows_def)

text \<open>How a step of the job may leave the table: with a later version of the event.\<close>

definition later :: "rollback_event list \<Rightarrow> rollback_event \<Rightarrow> world \<Rightarrow> bool" where
  "later T ev w \<longleftrightarrow> (\<exists>ev'. grows ev ev' \<and> events_are T ev' w)"

definition ended :: "rollback_event list \<Rightarrow> rollback_event \<Rightarrow> world \<Rightarrow> bool" where
  "ended T ev w \<longleftrightarrow> (\<exists>ev'. grows ev ev' \<and> finished ev' \<and> events_are T ev' w)"

lemma later_refl: "events_are T ev w \<Longrightarrow> later T ev w"
  unfolding later_def by (blast intro: grows_refl)

lemma later_mono: "grows a b \<Longrightarrow> later T b w \<Longrightarrow> later T a w"
  unfolding later_def by (blast intro: grows_trans)

lemma ended_mono: "grows a b \<Longrightarrow> ended T b w \<Longrightarrow> ended T a w"
  unfolding ended_def by (blast intro: grows_trans)

text \<open>Operations that do not touch the events.\<close>

lemma events_keepI: "(\<And>c. preserves (\<lambda>w. rollback_events w = c) m) \<Longrightarrow> preserves (events_are T ev) m"
  unfolding events_are_def by blast

lemma sync_view_events: "(\<And>c. preserves (\<lambda>w. sync_view w = c) m) \<Longrightarrow> preserves (\<lambda>w. rollback_events w = c) m"
  unfolding preserves_def by (metis sync_view_simps(8))

lemma events_evaluate [pres]: "preserves (\<lambda>w. rollback_events w = c) (evaluate_transition E i)"
  by (rule sync_view_events) (rule sync_view_evaluate)

lemma events_save_service [pres]: "preserves (\<lambda>w. rollback_events w = c) (save_service E s)"
  by (rule sync_view_events) (rule sync_view_save_service)

lemma events_create_snapshot [pres]: "preserves (\<lambda>w. rollback_events w = c) (create_snapshot E i)"
  by (rule sync_view_events) (rule sync_view_create_snapshot)

lemma events_hc_log [pres]: "preserves (\<lambda>w. rollback_events w = c) (write_hc_log E ty i st raw)"
  by (rule sync_view_events) (rule sync_view_hc_log)

lemma keep_triple:
  assumes "\<And>c. preserves (\<lambda>w. rollback_events w = c) m"
  shows "triple (events_are T ev) m (\<lambda>_. events_are T ev) (\<lambda>_. later T ev)"
  by (rule triple_weaken [OF triple_preserves [OF events_keepI [OF assms]]]) (auto intro: later_refl)

lemma grows_status [simp]: "grows ev (ev\<lparr>ev_status := st, ev_completedAt := c\<rparr>)" "grows ev (ev\<lparr>ev_status := st\<rparr>)"
  by (simp_all add: grows_def)

lemma finish_triple:
  assumes "st \<in> {RB_SUCCEEDED, RB_FAILED}"
  shows "triple (events_are T ev) (save_event E (ev\<lparr>ev_status := st, ev_completedAt := Some t\<rparr>))
     (\<lambda>_. ended T ev) (\<lambda>_. later T ev)"
proof (rule triple_weaken [OF save_event_triple [of "ev\<lparr>ev_status := st, ev_completedAt := Some t\<rparr>" ev T E]])
  fix x w assume "x = ev\<lparr>ev_status := st, ev_completedAt := Some t\<rparr>
      \<and> events_are T (ev\<lparr>ev_status := st, ev_completedAt := Some t\<rparr>) w"
  then show "ended T ev w" unfolding ended_def using assms
    by (intro exI [of _ "ev\<lparr>ev_status := st, ev_completedAt := Some t\<rparr>"]) (auto simp: finished_def)
qed (auto intro: later_refl)

lemma ended_keepI: "(\<And>c. preserves (\<lambda>w. rollback_events w = c) m) \<Longrightarrow> preserves (ended T ev) m"
  unfolding ended_def events_are_def preserves_def by metis

lemma ended_later: "ended T ev w \<Longrightarrow> later T ev w"
  unfolding ended_def later_def by blast

lemma ended_keep_triple:
  assumes "\<And>c. preserves (\<lambda>w. rollback_events w = c) m"
  shows "triple (ended T ev) m (\<lambda>_. ended T ev) (\<lambda>_. later T ev)"
  by (rule triple_weaken [OF triple_preserves [OF ended_keepI [OF assms]]]) (auto intro: ended_later)

lemma append_log_triple':
  "triple (events_are T ev) (append_log E ev entry)
     (\<lambda>r w. grows ev r \<and> events_are T r w) (\<lambda>_. later T ev)"
  by (rule triple_weaken [OF append_log_triple]) (auto intro: later_refl)

lemma step_on:
  assumes "\<And>r. grows ev r \<Longrightarrow> triple (events_are T r) (k r) (\<lambda>_. ended T r) (\<lambda>_. later T r)"
  shows "triple (\<lambda>w. grows ev r \<and> events_are T r w) (k r) (\<lambda>_. ended T ev) (\<lambda>_. later T ev)"
proof (rule triple_pre [of _ "grows ev r"])
  assume g: "grows ev r"
  show ?thesis
    by (rule triple_weaken [OF assms [OF g]]) (auto intro: ended_mono [OF g] later_mono [OF g])
qed simp

lemma append_then:
  assumes "\<And>r. grows ev r \<Longrightarrow> triple (events_are T r) (k r) (\<lambda>_. ended T r) (\<lambda>_. later T r)"
  shows "triple (events_are T ev) (bind (append_log E ev entry) k) (\<lambda>_. ended T ev) (\<lambda>_. later T ev)"
  by (rule triple_bind [OF append_log_triple' step_on [OF assms]])

lemma now_then:
  assumes "\<And>t. triple (events_are T ev) (k t) Q (\<lambda>_. later T ev)"
  shows "triple (events_are T ev) (bind (now E) k) Q (\<lambda>_. later T ev)"
  by (rule triple_bind [OF now_triple assms]) simp

lemma keep_then:
  assumes "\<And>c. preserves (\<lambda>w. rollback_events w = c) m"
    and "\<And>x. triple (events_are T ev) (k x) Q (\<lambda>_. later T ev)"
  shows "triple (events_are T ev) (bind m k) Q (\<lambda>_. later T ev)"
  by (rule triple_bind [OF keep_triple [OF assms(1)] assms(2)])

lemma ret_ended: "triple (ended T ev) (ret x) (\<lambda>_. ended T ev) R"
  by (rule triple_ret)

lemma finish_then:
  assumes "st \<in> {RB_SUCCEEDED, RB_FAILED}" and "\<And>x c. preserves (\<lambda>w. rollback_events w = c) (k x)"
  shows "triple (events_are T ev) (bind (save_event E (ev\<lparr>ev_status := st, ev_completedAt := Some t\<rparr>)) k)
     (\<lambda>_. ended T ev) (\<lambda>_. later T ev)"
  by (rule triple_bind [OF finish_triple [OF assms(1)] ended_keep_triple [OF assms(2)]])

definition rolls_on :: "rollback_event list \<Rightarrow> rollback_event \<Rightarrow> 'a action \<Rightarrow> bool" where
  "rolls_on T ev m \<longleftrightarrow> triple (events_are T ev) m (\<lambda>_. ended T ev) (\<lambda>_. later T ev)"

lemma rolls_fail: "rolls_on T ev (fail_rollback E ev reason orgId)"
  unfolding rolls_on_def fail_rollback_def
  by (intro now_then append_then finish_then) (auto intro!: pres split: option.split)

lemma rolls_succeed: "rolls_on T ev (succeed_rollback E ev service newId target st)"
  unfolding rolls_on_def succeed_rollback_def
  by (intro now_then keep_then finish_then) (auto intro!: pres)

lemma rolls_now: "(\<And>t. rolls_on T ev (k t)) \<Longrightarrow> rolls_on T ev (bind (now E) k)"
  unfolding rolls_on_def by (rule now_then)

lemma rolls_append: "(\<And>r. rolls_on T r (k r)) \<Longrightarrow> rolls_on T ev (bind (append_log E ev entry) k)"
  unfolding rolls_on_def by (rule append_then)

lemma rolls_append_result: "(\<And>r. rolls_on T r (k r)) \<Longrightarrow> rolls_on T ev (bind (append_result E ev st res) k)"
  unfolding append_result_def bind_assoc by (intro rolls_now rolls_append)

lemma rolls_keep:
  "(\<And>c. preserves (\<lambda>w. rollback_events w = c) m) \<Longrightarrow> (\<And>x. rolls_on T ev (k x)) \<Longrightarrow> rolls_on T ev (bind m k)"
  unfolding rolls_on_def by (rule keep_then)

lemma rolls_option:
  "rolls_on T ev m \<Longrightarrow> (\<And>y. rolls_on T ev (k y)) \<Longrightarrow> rolls_on T ev (case x of None \<Rightarrow> m | Some y \<Rightarrow> k y)"
  by (cases x) auto

lemma rolls_if: "rolls_on T ev m \<Longrightarrow> rolls_on T ev k \<Longrightarrow> rolls_on T ev (if b then m else k)"
  by simp

lemma rolls_verify: "rolls_on T ev (verify_rollback E ev service target config ps)"
  unfolding verify_rollback_def Let_def case_prod_unfold
  by (intro rolls_keep pres rolls_now rolls_append rolls_option rolls_if rolls_fail rolls_succeed)

lemma rolls_record: "rolls_on T ev (record_results E ev service target config results)"
  unfolding record_results_def Let_def
  by (intro rolls_append_result rolls_if rolls_fail rolls_verify)

lemma rolls_execute: "rolls_on T ev (execute_rollback E ev service host target key)"
  unfolding execute_rollback_def
  by (intro rolls_keep) (auto intro!: pres rolls_fail rolls_record split: sum.split)

lemma rolls_run: "rolls_on T ev (run_rollback E ev)"
  unfolding run_rollback_def
  by (intro rolls_keep rolls_option rolls_fail) (auto intro!: pres rolls_fail rolls_execute split: sum.split)

lemma process_rollback_result:
  assumes "process_rollback E i w = (r, w')"
  shows "case List.find (\<lambda>e. ev_id e = i) (rollback_events w) of
      None \<Rightarrow> rollback_events w' = rollback_events w
    | Some ev \<Rightarrow>
        (isl r \<and> rollback_events w' = rollback_events w)
        \<or> (\<exists>ev'. rollback_events w' = save_row ev_id ev' (rollback_events w) \<and> grows ev ev'
             \<and> (r = Inr () \<longrightarrow> finished ev'))"
proof (cases "db_fault E (steps w)")
  case (Some e)
  with assms have "isl r" "rollback_events w' = rollback_events w"
    by (auto simp: process_rollback_def repo_find_one_def repo_def bind_def)
  then show ?thesis by (simp split: option.split)
next
  case db: None
  show ?thesis
  proof (cases "List.find (\<lambda>e. ev_id e = i) (rollback_events w)")
    case None
    with assms db show ?thesis by (auto simp: process_rollback_def repo_find_one_def repo_def bind_def ret_def)
  next
    case (Some ev)
    let ?ip = "ev\<lparr>ev_status := RB_IN_PROGRESS\<rparr>"
    let ?T = "rollback_events w"
    have run: "bind (save_event E ?ip) (run_rollback E) (tick w) = (r, w')"
      using assms db Some by (simp add: process_rollback_def repo_find_one_def repo_def bind_def)
    obtain q u where u: "save_event E ?ip (tick w) = (q, u)" by force
    show ?thesis
    proof (cases q)
      case (Inl e)
      then have "rollback_events u = ?T"
        using u by (auto simp: save_event_def repo_save_def repo_def split: option.splits if_splits)
      with run u Inl Some show ?thesis by (auto simp: bind_def)
    next
      case (Inr x)
      then have x: "x = ?ip" "events_are ?T ?ip u"
        using u by (auto simp: save_event_def repo_save_def repo_def events_are_def split: option.splits if_splits)
      have t: "triple (events_are ?T ?ip) (run_rollback E ?ip) (\<lambda>_. ended ?T ?ip) (\<lambda>_. later ?T ?ip)"
        using rolls_run [of ?T ?ip E] by (simp add: rolls_on_def)
      have run': "run_rollback E ?ip u = (r, w')" using run u Inr x(1) by (simp add: bind_def)
      have g: "grows ev ?ip" by simp
      have "\<exists>ev'. grows ?ip ev' \<and> events_are ?T ev' w' \<and> (r = Inr () \<longrightarrow> finished ev')"
      proof (cases r)
        case (Inl e)
        with tripleD_error [OF t x(2)] run' show ?thesis by (auto simp: later_def)
      next
        case (Inr y)
        with tripleD [OF t x(2)] run' show ?thesis by (auto simp: ended_def)
      qed
      then obtain ev' where "grows ev ev'" "rollback_events w' = save_row ev_id ev' ?T" "r = Inr () \<longrightarrow> finished ev'"
        using grows_trans [OF g] unfolding events_are_def by blast
      with Some show ?thesis by auto
    qed
  qed
qed

text \<open>
  C6. One job writes one event, and once: when it resolves, the event has ended, as
  succeeded or failed with a completion date, unless there was no such event and nothing
  happened. Whether it resolves or rejects, every other event is untouched, and of its own
  event the service, snapshots, author and start date never change and the log only grows.
\<close>

theorem process_rollback_outcome:
  "case process_rollback E i w of (r, w') \<Rightarrow>
    (case List.find (\<lambda>e. ev_id e = i) (rollback_events w) of
      None \<Rightarrow> rollback_events w' = rollback_events w
    | Some ev \<Rightarrow>
        (isl r \<and> rollback_events w' = rollback_events w)
        \<or> (\<exists>ev'. rollback_events w' = save_row ev_id ev' (rollback_events w) \<and> grows ev ev'
             \<and> (r = Inr () \<longrightarrow> finished ev')))"
  using process_rollback_result [of E i w] by (cases "process_rollback E i w") simp

definition demo_pending :: rollback_event where
  "demo_pending = \<lparr>ev_id = ''e'', ev_serviceId = ''svc'', ev_fromSnapshotId = ''snap'', ev_toSnapshotId = ''snap'',
     ev_triggeredById = ''user'', ev_status = RB_PENDING, ev_logOutput = [], ev_initiatedAt = 0, ev_completedAt = None\<rparr>"

theorem process_rollback_outcome_witness:
  "case process_rollback demo_env ''e'' (demo_world\<lparr>rollback_events := [demo_pending]\<rparr>) of (r, w') \<Rightarrow>
     (isl r \<and> rollback_events w' = [demo_pending])
     \<or> (\<exists>ev'. rollback_events w' = [ev'] \<and> grows demo_pending ev' \<and> (r = Inr () \<longrightarrow> finished ev'))"
  using process_rollback_outcome [where E = demo_env and i = "''e''" and w = "demo_world\<lparr>rollback_events := [demo_pending]\<rparr>"]
  by (auto simp: demo_pending_def grows_def split: prod.splits)

subsection \<open>At most one active rollback per service\<close>

definition events_ok :: "rollback_event list \<Rightarrow> bool" where
  "events_ok t \<longleftrightarrow> distinct (map ev_id t) \<and>
     (\<forall>x \<in> set t. \<forall>y \<in> set t. ev_id x \<noteq> ev_id y \<longrightarrow> \<not> event_clash x y)"

lemma event_clash_sym: "event_clash x y \<longleftrightarrow> event_clash y x"
  by (auto simp: event_clash_def)

lemma events_ok_save [pres]: "preserves (\<lambda>w. events_ok (rollback_events w)) (save_event E ev)"
  unfolding save_event_def
proof (rule preserves_repo_save)
  fix w :: world
  assume ok: "events_ok (rollback_events w)" and c: "\<forall>x \<in> set (rollback_events w). ev_id x \<noteq> ev_id ev \<longrightarrow> \<not> event_clash x ev"
  have d: "distinct (map ev_id (rollback_events w))" using ok by (simp add: events_ok_def)
  have "symp event_clash" using event_clash_sym by (simp add: symp_def)
  from rollback_event_table.unique_save [OF d _ c this] rollback_event_table.distinct_save [OF d] ok
  show "events_ok (rollback_events (w\<lparr>rollback_events := save_row ev_id ev (rollback_events w)\<rparr>))"
    by (simp add: events_ok_def)
qed simp

lemma events_ok_kept:
  "(\<And>c. preserves (\<lambda>w. rollback_events w = c) m) \<Longrightarrow> preserves (\<lambda>w. events_ok (rollback_events w)) m"
  by (rule preserves_of_kept)

lemma events_ok_keeps [pres]:
  "preserves (\<lambda>w. events_ok (rollback_events w)) (evaluate_transition E i)"
  "preserves (\<lambda>w. events_ok (rollback_events w)) (save_service E s)"
  "preserves (\<lambda>w. events_ok (rollback_events w)) (create_snapshot E cs)"
  "preserves (\<lambda>w. events_ok (rollback_events w)) (write_hc_log E ty i2 st raw)"
  by (rule events_ok_kept, rule events_evaluate events_save_service events_create_snapshot events_hc_log)+

lemma events_ok_process: "preserves (\<lambda>w. events_ok (rollback_events w)) (process_rollback E i)"
proof -
  let ?P = "\<lambda>w. events_ok (rollback_events w)"
  have f: "preserves ?P (fail_rollback E ev reason org)" for ev reason org
    unfolding fail_rollback_def append_log_def by (auto intro!: pres split: option.split)
  have s: "preserves ?P (succeed_rollback E ev svc c t st)" for ev svc c t st
    unfolding succeed_rollback_def by (auto intro!: pres)
  have v: "preserves ?P (verify_rollback E ev svc t config ps)" for ev svc t config ps
    unfolding verify_rollback_def Let_def append_log_def
    by (auto intro!: pres f s split: option.split prod.split)
  have e: "preserves ?P (execute_rollback E ev svc h t key)" for ev svc h t key
    unfolding execute_rollback_def record_results_def append_result_def append_log_def Let_def
    by (auto intro!: pres f v split: sum.split)
  show ?thesis
    unfolding process_rollback_def run_rollback_def
    by (auto intro!: pres f e split: sum.split option.split)
qed

lemma events_ok_enqueue: "preserves (\<lambda>w. events_ok (rollback_events w)) (enqueue_rollback E org sid tid uid)"
proof -
  let ?P = "\<lambda>w. events_ok (rollback_events w)"
  have "preserves ?P (insert_and_queue E svc c t uid)" for svc c t
    unfolding insert_and_queue_def
  proof (intro pres preserves_repo_insert preserves_queue_add)
    fix w :: world and i d
    let ?ev = "\<lparr>ev_id = i, ev_serviceId = svc_id svc, ev_fromSnapshotId = snap_id c, ev_toSnapshotId = snap_id t,
        ev_triggeredById = uid, ev_status = RB_PENDING, ev_logOutput = [], ev_initiatedAt = d, ev_completedAt = None\<rparr>"
    assume ok: "?P w" and n: "\<forall>x \<in> set (rollback_events w). ev_id x \<noteq> ev_id ?ev \<and> \<not> event_clash x ?ev"
    have "\<forall>x \<in> set (rollback_events w). \<not> event_clash ?ev x" using n event_clash_sym by blast
    moreover have "ev_id ?ev \<notin> ev_id ` set (rollback_events w)"
      using n by (metis (no_types, lifting) imageE)
    ultimately show "?P (w\<lparr>rollback_events := rollback_events w @ [?ev]\<rparr>)"
      using ok n unfolding events_ok_def by simp
  qed (simp_all add: push_rollback_job_def)
  then show ?thesis
    unfolding enqueue_rollback_def find_service_or_throw_def find_one_for_service_or_throw_def
      find_current_for_service_def
    by (auto intro!: pres split: option.split)
qed

text \<open>What the partial unique index is for, spelled out.\<close>

definition one_active :: "rollback_event list \<Rightarrow> bool" where
  "one_active t \<longleftrightarrow> (\<forall>x \<in> set t. \<forall>y \<in> set t. ev_serviceId x = ev_serviceId y \<longrightarrow>
     ev_status x \<in> {RB_PENDING, RB_IN_PROGRESS} \<longrightarrow> ev_status y \<in> {RB_PENDING, RB_IN_PROGRESS} \<longrightarrow> x = y)"

lemma events_ok_one_active: "events_ok t \<Longrightarrow> one_active t"
  unfolding events_ok_def one_active_def event_clash_def active_status_def
  by (metis (no_types, lifting) distinct_map empty_iff inj_onD insert_iff)

text \<open>
  C5. At most one rollback per service is active at any time: requests, concurrent ones
  included, and jobs, failing ones and re-run ones included, all keep the table so, whatever
  database, queue, SSH or cipher failure they meet.
\<close>

theorem one_active_rollback:
  assumes "events_ok (rollback_events w)"
    and "w' \<in> {snd (enqueue_rollback E orgId serviceId targetId userId w), snd (process_rollback E eventId w)}"
  shows "events_ok (rollback_events w') \<and> one_active (rollback_events w')"
proof -
  have "events_ok (rollback_events w')"
    using assms(2) preservesD [OF events_ok_enqueue assms(1)] preservesD [OF events_ok_process assms(1)] by auto
  then show ?thesis using events_ok_one_active by simp
qed

theorem one_active_rollback_witness:
  "one_active (rollback_events (snd (enqueue_rollback demo_env ''org'' ''svc'' ''snap'' ''user'' demo_world)))
   \<and> one_active (rollback_events (snd (process_rollback demo_env ''id-1'' demo_world)))"
proof -
  have ok: "events_ok (rollback_events demo_world)" by (simp add: events_ok_def)
  show ?thesis
    using one_active_rollback [OF ok, where E = demo_env and orgId = "''org''" and serviceId = "''svc''"
        and targetId = "''snap''" and userId = "''user''" and eventId = "''id-1''"] by blast
qed

end
