(* ===== verification/Rollback_Requests.thy ===== *)
theory Rollback_Requests
  imports Rollback
begin

section \<open>Rollback requests: admission, and what blocks it\<close>

text \<open>
  The admission rules of \<open>enqueueRollback\<close> as a table, the equivalence of the handler with
  it, and the situations in which an event stays active for ever, so that every later
  request for its service is refused. Also the read side of \<open>RollbackService\<close>, the response
  mapper and the controllers' handlers.
\<close>

subsection \<open>Admission\<close>

definition request_error :: "world \<Rightarrow> uuid \<Rightarrow> uuid \<Rightarrow> uuid \<Rightarrow> js_error option" where
  "request_error w orgId serviceId targetId =
    (if \<not> (\<exists>s \<in> set (services w). svc_id s = serviceId \<and> svc_orgId s = orgId)
     then Some (NotFoundException (''Service '' @ serviceId @ '' not found''))
     else if \<not> (\<exists>t \<in> set (snapshots w). snap_id t = targetId \<and> snap_serviceId t = serviceId)
     then Some (BadRequestException (''Snapshot '' @ targetId @ '' does not belong to service '' @ serviceId))
     else if \<not> (\<exists>c \<in> set (snapshots w). snap_serviceId c = serviceId \<and> snap_isCurrent c)
     then Some (BadRequestException (''Service '' @ serviceId @ '' has no deployment history yet; nothing to roll back from''))
     else (case List.find (\<lambda>e. ev_serviceId e = serviceId \<and> active_status (ev_status e)) (rollback_events w) of
         Some a \<Rightarrow> Some (ConflictException (''A rollback is already '' @ rollback_status_str (ev_status a)
                    @ '' for service '' @ serviceId))
       | None \<Rightarrow> None))"

lemma request_error_None:
  "request_error w orgId serviceId targetId = None \<Longrightarrow>
   List.find (\<lambda>e. ev_serviceId e = serviceId \<and> active_status (ev_status e)) (rollback_events w) = None"
  unfolding request_error_def by (auto split: if_splits option.splits)

lemma find_service_ok:
  assumes "no_db_fault E"
  shows "find_service_or_throw E orgId i w =
    (case List.find (\<lambda>s. svc_id s = i \<and> svc_orgId s = orgId) (services w) of
       None \<Rightarrow> (Inl (NotFoundException (''Service '' @ i @ '' not found'')), tick w)
     | Some s \<Rightarrow> (Inr s, tick w))"
  using assms by (simp add: find_service_or_throw_def bind_def repo_find_one_ok throw_def ret_def split: option.split)

lemma find_target_ok:
  assumes "no_db_fault E"
  shows "find_one_for_service_or_throw E sid i w =
    (case List.find (\<lambda>s. snap_id s = i \<and> snap_serviceId s = sid) (snapshots w) of
       None \<Rightarrow> (Inl (BadRequestException (''Snapshot '' @ i @ '' does not belong to service '' @ sid)), tick w)
     | Some s \<Rightarrow> (Inr s, tick w))"
  using assms by (simp add: find_one_for_service_or_throw_def bind_def repo_find_one_ok throw_def ret_def split: option.split)

lemma find_None_ball: "List.find p xs = None \<longleftrightarrow> \<not> (\<exists>x \<in> set xs. p x)"
  by (auto simp: find_None_iff)

definition pending_event :: "uuid \<Rightarrow> uuid \<Rightarrow> snapshot \<Rightarrow> snapshot \<Rightarrow> uuid \<Rightarrow> time \<Rightarrow> rollback_event" where
  "pending_event i sid c t uid d = \<lparr>ev_id = i, ev_serviceId = sid, ev_fromSnapshotId = snap_id c,
     ev_toSnapshotId = snap_id t, ev_triggeredById = uid, ev_status = RB_PENDING, ev_logOutput = [],
     ev_initiatedAt = d, ev_completedAt = None\<rparr>"

lemma enqueue_rejected:
  assumes "no_db_fault E" and "request_error w orgId serviceId targetId = Some e"
  shows "\<exists>n. enqueue_rollback E orgId serviceId targetId userId w = (Inl e, w\<lparr>steps := n\<rparr>)"
proof (cases "List.find (\<lambda>s. svc_id s = serviceId \<and> svc_orgId s = orgId) (services w)")
  case None
  then have "e = NotFoundException (''Service '' @ serviceId @ '' not found'')"
    using assms(2) unfolding request_error_def find_None_ball by simp
  with assms(1) None show ?thesis
    by (intro exI [of _ "Suc (steps w)"]) (simp add: enqueue_rollback_def bind_def find_service_ok tick_def)
next
  case s: (Some s)
  note sd = find_SomeD [OF s]
  have S: "(\<exists>s \<in> set (services w). svc_id s = serviceId \<and> svc_orgId s = orgId) = True" using sd by blast
  show ?thesis
  proof (cases "List.find (\<lambda>t. snap_id t = targetId \<and> snap_serviceId t = serviceId) (snapshots w)")
    case None
    then have "e = BadRequestException (''Snapshot '' @ targetId @ '' does not belong to service '' @ serviceId)"
      using assms(2) unfolding request_error_def S find_None_ball by simp
    with assms(1) s sd None show ?thesis
      by (intro exI [of _ "Suc (Suc (steps w))"])
         (simp add: enqueue_rollback_def bind_def find_service_ok find_target_ok tick_def)
  next
    case t: (Some t)
    note td = find_SomeD [OF t]
    have T: "(\<exists>t \<in> set (snapshots w). snap_id t = targetId \<and> snap_serviceId t = serviceId) = True"
      using td by blast
    show ?thesis
    proof (cases "List.find (\<lambda>c. snap_serviceId c = serviceId \<and> snap_isCurrent c) (snapshots w)")
      case None
      then have "e = BadRequestException (''Service '' @ serviceId @ '' has no deployment history yet; nothing to roll back from'')"
        using assms(2) unfolding request_error_def S T find_None_ball by simp
      with assms(1) s sd t None show ?thesis
        by (intro exI [of _ "Suc (Suc (Suc (steps w)))"])
           (simp add: enqueue_rollback_def bind_def find_service_ok find_target_ok find_current_for_service_def
             repo_find_one_ok throw_def tick_def)
    next
      case c: (Some c)
      note cd = find_SomeD [OF c]
      have C: "(\<exists>c \<in> set (snapshots w). snap_serviceId c = serviceId \<and> snap_isCurrent c) = True"
        using cd by blast
      have "request_error w orgId serviceId targetId =
          (case List.find (\<lambda>e. ev_serviceId e = serviceId \<and> active_status (ev_status e)) (rollback_events w) of
             Some a \<Rightarrow> Some (ConflictException (''A rollback is already '' @ rollback_status_str (ev_status a)
                  @ '' for service '' @ serviceId))
           | None \<Rightarrow> None)"
        unfolding request_error_def S T C by simp
      then obtain a where a: "List.find (\<lambda>e. ev_serviceId e = serviceId \<and> active_status (ev_status e)) (rollback_events w) = Some a"
        "e = ConflictException (''A rollback is already '' @ rollback_status_str (ev_status a) @ '' for service '' @ serviceId)"
        using assms(2) by (auto split: option.splits)
      with assms(1) s sd t c show ?thesis
        by (intro exI [of _ "Suc (Suc (Suc (Suc (steps w))))"])
           (simp add: enqueue_rollback_def bind_def find_service_ok find_target_ok find_current_for_service_def
             repo_find_one_ok throw_def tick_def)
    qed
  qed
qed

lemma enqueue_admitted:
  assumes "no_db_fault E" and "request_error w orgId serviceId targetId = None"
    and "\<forall>n. fresh_uuid E n \<notin> ev_id ` set (rollback_events w)"
  obtains c t ev n where "c \<in> set (snapshots w)" "snap_serviceId c = serviceId" "snap_isCurrent c"
    "t \<in> set (snapshots w)" "snap_id t = targetId" "snap_serviceId t = serviceId"
    "ev = pending_event (fresh_uuid E (steps w + 4)) serviceId c t userId (clock E (steps w + 4))"
    "enqueue_rollback E orgId serviceId targetId userId w =
      (case queue_fault E (steps w + 5) of
         Some e \<Rightarrow> (Inl (if is_unique_violation e then ConflictException (''A rollback is already in progress for service '' @ serviceId) else e),
                    w\<lparr>rollback_events := rollback_events w @ [ev], steps := n\<rparr>)
       | None \<Rightarrow> (Inr ev, w\<lparr>rollback_events := rollback_events w @ [ev],
                      rollback_jobs := rollback_jobs w @ [ev_id ev], steps := n\<rparr>))"
proof -
  from assms(2) have ex: "\<exists>s \<in> set (services w). svc_id s = serviceId \<and> svc_orgId s = orgId"
    "\<exists>t \<in> set (snapshots w). snap_id t = targetId \<and> snap_serviceId t = serviceId"
    "\<exists>c \<in> set (snapshots w). snap_serviceId c = serviceId \<and> snap_isCurrent c"
    and none: "List.find (\<lambda>e. ev_serviceId e = serviceId \<and> active_status (ev_status e)) (rollback_events w) = None"
    unfolding request_error_def by (auto split: if_splits option.splits)
  obtain s where s: "List.find (\<lambda>s. svc_id s = serviceId \<and> svc_orgId s = orgId) (services w) = Some s"
    using ex(1) find_None_ball [of "\<lambda>s. svc_id s = serviceId \<and> svc_orgId s = orgId" "services w"] by (metis not_None_eq)
  obtain t where t: "List.find (\<lambda>t. snap_id t = targetId \<and> snap_serviceId t = serviceId) (snapshots w) = Some t"
    using ex(2) find_None_ball [of "\<lambda>t. snap_id t = targetId \<and> snap_serviceId t = serviceId" "snapshots w"] by (metis not_None_eq)
  obtain c where c: "List.find (\<lambda>c. snap_serviceId c = serviceId \<and> snap_isCurrent c) (snapshots w) = Some c"
    using ex(3) find_None_ball [of "\<lambda>c. snap_serviceId c = serviceId \<and> snap_isCurrent c" "snapshots w"] by (metis not_None_eq)
  note sd = find_SomeD [OF s] and td = find_SomeD [OF t] and cd = find_SomeD [OF c]
  let ?n = "Suc (Suc (Suc (Suc (steps w))))"
  define ev where "ev = pending_event (fresh_uuid E ?n) serviceId c t userId (clock E ?n)"
  have noclash: "\<forall>x \<in> set (rollback_events w). ev_id x \<noteq> ev_id ev \<and> \<not> event_clash x ev"
    using none assms(3) unfolding find_None_ball ev_def pending_event_def event_clash_def
    by (auto simp: image_iff) metis
  let ?u = "tick (tick (tick (tick w)))"
  have ins: "repo_insert E rollback_events (\<lambda>t w. w\<lparr>rollback_events := t\<rparr>) ev_id event_clash
       (\<lambda>i d. \<lparr>ev_id = i, ev_serviceId = serviceId, ev_fromSnapshotId = snap_id c,
               ev_toSnapshotId = snap_id t, ev_triggeredById = userId,
               ev_status = RB_PENDING, ev_logOutput = [], ev_initiatedAt = d, ev_completedAt = None\<rparr>) ?u
     = (Inr ev, tick (?u\<lparr>rollback_events := rollback_events w @ [ev]\<rparr>))"
    using repo_insert_ok [OF assms(1), of ev _ ?u] noclash by (simp add: ev_def pending_event_def)
  have adm: "enqueue_rollback E orgId serviceId targetId userId w =
     try_catch (insert_and_queue E s c t userId) (\<lambda>error. if is_unique_violation error
         then throw (ConflictException (''A rollback is already in progress for service '' @ svc_id s)) else throw error) ?u"
    using assms(1) s t c none sd
    by (simp add: enqueue_rollback_def bind_def find_service_ok find_target_ok find_current_for_service_def repo_find_one_ok)
  have res: "enqueue_rollback E orgId serviceId targetId userId w =
      (case queue_fault E (steps w + 5) of
         Some e \<Rightarrow> (Inl (if is_unique_violation e then ConflictException (''A rollback is already in progress for service '' @ serviceId) else e),
                    w\<lparr>rollback_events := rollback_events w @ [ev], steps := steps w + 6\<rparr>)
       | None \<Rightarrow> (Inr ev, w\<lparr>rollback_events := rollback_events w @ [ev],
                      rollback_jobs := rollback_jobs w @ [ev_id ev], steps := steps w + 6\<rparr>))"
    unfolding adm
    using sd ins
    by (simp add: try_catch_def insert_and_queue_def bind_def andthen_def queue_add_def ret_def throw_def
        push_rollback_job_def tick_def numeral_eq_Suc split: option.split)
  show ?thesis
    by (rule that [OF _ _ _ _ _ _ _ res]) (use sd td cd in \<open>simp_all add: ev_def numeral_eq_Suc\<close>)
qed

text \<open>
  C7. \<open>enqueueRollback\<close> is its admission table. With the database up, a request the table
  refuses is rejected with exactly the table's error (404, 400, 400, 409, tested in that
  order) and no table changes; an admitted one appends one pending event, from the service's
  current snapshot to the requested one, and either queues exactly its job and answers with
  it, or rejects because the queue did.
\<close>

theorem enqueue_rollback_is_admission_table:
  assumes "no_db_fault E" and "\<forall>n. fresh_uuid E n \<notin> ev_id ` set (rollback_events w)"
    and "enqueue_rollback E orgId serviceId targetId userId w = (r, w')"
  shows "case request_error w orgId serviceId targetId of
      Some e \<Rightarrow> r = Inl e \<and> (\<exists>n. w' = w\<lparr>steps := n\<rparr>)
    | None \<Rightarrow> \<exists>c ev. c \<in> set (snapshots w) \<and> snap_serviceId c = serviceId \<and> snap_isCurrent c
        \<and> ev_status ev = RB_PENDING \<and> ev_serviceId ev = serviceId \<and> ev_fromSnapshotId ev = snap_id c
        \<and> ev_toSnapshotId ev = targetId \<and> ev_triggeredById ev = userId
        \<and> rollback_events w' = rollback_events w @ [ev]
        \<and> (if queue_fault E (steps w + 5) = None
           then r = Inr ev \<and> rollback_jobs w' = rollback_jobs w @ [ev_id ev]
           else isl r \<and> rollback_jobs w' = rollback_jobs w)"
proof (cases "request_error w orgId serviceId targetId")
  case (Some e)
  with enqueue_rejected [OF assms(1) Some, of userId] assms(3) show ?thesis by auto
next
  case None
  obtain c t ev n where a: "c \<in> set (snapshots w)" "snap_serviceId c = serviceId" "snap_isCurrent c"
    "snap_id t = targetId"
    "ev = pending_event (fresh_uuid E (steps w + 4)) serviceId c t userId (clock E (steps w + 4))"
    "enqueue_rollback E orgId serviceId targetId userId w =
      (case queue_fault E (steps w + 5) of
         Some e \<Rightarrow> (Inl (if is_unique_violation e then ConflictException (''A rollback is already in progress for service '' @ serviceId) else e),
                    w\<lparr>rollback_events := rollback_events w @ [ev], steps := n\<rparr>)
       | None \<Rightarrow> (Inr ev, w\<lparr>rollback_events := rollback_events w @ [ev],
                      rollback_jobs := rollback_jobs w @ [ev_id ev], steps := n\<rparr>))"
    by (rule enqueue_admitted [OF assms(1) None assms(2), of userId]) blast
  have "rollback_events w' = rollback_events w @ [ev] \<and> (if queue_fault E (steps w + 5) = None
      then r = Inr ev \<and> rollback_jobs w' = rollback_jobs w @ [ev_id ev] else isl r \<and> rollback_jobs w' = rollback_jobs w)"
    using a(6) assms(3) by (cases "queue_fault E (steps w + 5)") auto
  with a(1-5) None show ?thesis by (auto simp: pending_event_def)
qed

lemma demo_request_admitted: "request_error demo_world ''org'' ''svc'' ''snap'' = None"
  by (simp add: request_error_def demo_snapshot_def)

theorem enqueue_rollback_is_admission_table_witness:
  "\<exists>ev w'. enqueue_rollback demo_env ''org'' ''svc'' ''snap'' ''user'' demo_world = (Inr ev, w')
     \<and> ev_status ev = RB_PENDING \<and> rollback_jobs w' = [ev_id ev]"
proof -
  obtain r w' where w': "enqueue_rollback demo_env ''org'' ''svc'' ''snap'' ''user'' demo_world = (r, w')" by force
  have q: "queue_fault demo_env n = None" for n by (simp add: demo_env_def)
  have j: "rollback_jobs demo_world = []" by (simp add: demo_world_def)
  from enqueue_rollback_is_admission_table [OF demo_env_ok(2) _ w'] show ?thesis
    using w' by (auto simp: demo_request_admitted q j)
qed

subsection \<open>What leaves a service blocked\<close>

definition blocked :: "env \<Rightarrow> uuid \<Rightarrow> uuid \<Rightarrow> world \<Rightarrow> bool" where
  "blocked E orgId serviceId w \<longleftrightarrow>
    (\<forall>targetId userId. \<exists>e n. enqueue_rollback E orgId serviceId targetId userId w = (Inl e, w\<lparr>steps := n\<rparr>))"

lemma active_event_blocks:
  assumes "no_db_fault E" and "ev \<in> set (rollback_events w)" "ev_serviceId ev = serviceId" "active_status (ev_status ev)"
  shows "blocked E orgId serviceId w"
  unfolding blocked_def
proof (intro allI)
  fix targetId userId
  have "List.find (\<lambda>e. ev_serviceId e = serviceId \<and> active_status (ev_status e)) (rollback_events w) \<noteq> None"
    using assms(2-4) unfolding find_None_ball by blast
  then have "request_error w orgId serviceId targetId \<noteq> None" by (metis request_error_None)
  then obtain e where "request_error w orgId serviceId targetId = Some e" by blast
  from enqueue_rejected [OF assms(1) this] show "\<exists>e n. enqueue_rollback E orgId serviceId targetId userId w = (Inl e, w\<lparr>steps := n\<rparr>)"
    by blast
qed

text \<open>
  C39. A request whose job cannot be queued is not undone: the caller gets the queue's error,
  but the pending event stays, no job will ever pick it up, and from then on every rollback
  request for the service is refused.
\<close>

theorem queue_failure_blocks_service:
  assumes "no_db_fault E" and "\<forall>n. fresh_uuid E n \<notin> ev_id ` set (rollback_events w)"
    and "request_error w orgId serviceId targetId = None" and "queue_fault E (steps w + 5) = Some e"
    and "enqueue_rollback E orgId serviceId targetId userId w = (r, w')"
  shows "isl r \<and> rollback_jobs w' = rollback_jobs w \<and> blocked E orgId serviceId w'"
proof -
  obtain c t ev n where a: "ev = pending_event (fresh_uuid E (steps w + 4)) serviceId c t userId (clock E (steps w + 4))"
    "enqueue_rollback E orgId serviceId targetId userId w =
      (case queue_fault E (steps w + 5) of
         Some e \<Rightarrow> (Inl (if is_unique_violation e then ConflictException (''A rollback is already in progress for service '' @ serviceId) else e),
                    w\<lparr>rollback_events := rollback_events w @ [ev], steps := n\<rparr>)
       | None \<Rightarrow> (Inr ev, w\<lparr>rollback_events := rollback_events w @ [ev],
                      rollback_jobs := rollback_jobs w @ [ev_id ev], steps := n\<rparr>))"
    by (rule enqueue_admitted [OF assms(1,3,2), of userId]) blast
  have w': "w' = w\<lparr>rollback_events := rollback_events w @ [ev], steps := n\<rparr>" "isl r"
    using a(2) assms(4,5) by auto
  have "blocked E orgId serviceId w'"
    by (rule active_event_blocks [OF assms(1), of ev]) (simp_all add: w' a(1) pending_event_def active_status_def)
  with w' show ?thesis by simp
qed

definition queue_down_env :: env where
  "queue_down_env = demo_env\<lparr>queue_fault := (\<lambda>_. Some (JsError ''Error'' ''connect ECONNREFUSED'' None))\<rparr>"

theorem queue_failure_blocks_service_witness:
  "blocked queue_down_env ''org'' ''svc''
     (snd (enqueue_rollback queue_down_env ''org'' ''svc'' ''snap'' ''user'' demo_world))"
proof -
  have "no_db_fault queue_down_env" by (simp add: no_db_fault_def queue_down_env_def demo_env_def)
  moreover have "queue_fault queue_down_env (steps demo_world + 5) = Some (JsError ''Error'' ''connect ECONNREFUSED'' None)"
    by (simp add: queue_down_env_def)
  ultimately show ?thesis
    using queue_failure_blocks_service [of queue_down_env demo_world "''org''" "''svc''" "''snap''"] demo_request_admitted
    by (cases "enqueue_rollback queue_down_env ''org'' ''svc'' ''snap'' ''user'' demo_world") auto
qed

lemma start_rollback_ok:
  assumes "no_db_fault E" "events_ok (rollback_events w)" "ev \<in> set (rollback_events w)"
    and "\<forall>x \<in> set (rollback_events w). ev_id x \<noteq> ev_id ev \<longrightarrow> ev_serviceId x = ev_serviceId ev \<longrightarrow> \<not> active_status (ev_status x)"
  shows "process_rollback E (ev_id ev) w = run_rollback E (ev\<lparr>ev_status := RB_IN_PROGRESS\<rparr>)
    (tick (tick w\<lparr>rollback_events := save_row ev_id (ev\<lparr>ev_status := RB_IN_PROGRESS\<rparr>) (rollback_events w)\<rparr>))"
proof -
  have f: "List.find (\<lambda>e. ev_id e = ev_id ev) (rollback_events w) = Some ev"
    using assms(2,3) by (intro find_by_key [of ev_id]) (simp_all add: events_ok_def)
  have c: "\<forall>x \<in> set (rollback_events (tick w)). ev_id x \<noteq> ev_id (ev\<lparr>ev_status := RB_IN_PROGRESS\<rparr>) \<longrightarrow>
      \<not> event_clash x (ev\<lparr>ev_status := RB_IN_PROGRESS\<rparr>)"
    using assms(4) by (auto simp: event_clash_def)
  show ?thesis
    using repo_save_ok [OF assms(1), where tab = rollback_events and rid = ev_id and clash = event_clash
        and r = "ev\<lparr>ev_status := RB_IN_PROGRESS\<rparr>" and w = "tick w"] c f
    by (simp add: process_rollback_def bind_def repo_find_one_ok [OF assms(1)] save_event_def)
qed

text \<open>
  A target snapshot whose config cannot be decrypted or read leaves the job rejected
  with the event in progress: \<open>decryptConfig\<close> runs in a \<open>try\<close> that has no \<open>catch\<close>. The event
  is never completed, no failure is logged in it, and every later rollback request for the
  service is refused.
\<close>

lemma unreadable_config_blocks_service:
  assumes "no_db_fault E" "events_ok (rollback_events w)" "ev \<in> set (rollback_events w)" "active_status (ev_status ev)"
    and "service \<in> set (services w)" "svc_id service = ev_serviceId ev" "distinct (map svc_id (services w))"
    and "host \<in> set (hosts w)" "host_id host = svc_hostId service" "distinct (map host_id (hosts w))"
    and "target \<in> set (snapshots w)" "snap_id target = ev_toSnapshotId ev" "distinct (map snap_id (snapshots w))"
    and "decrypt E (host_sshKeyEncrypted host) = Inr key" and "decrypt_config E target = Inl e"
    and "process_rollback E (ev_id ev) w = (r, w')"
  shows "r = Inl e \<and> ev\<lparr>ev_status := RB_IN_PROGRESS\<rparr> \<in> set (rollback_events w')
    \<and> blocked E (svc_orgId service) (ev_serviceId ev) w'"
proof -
  let ?ip = "ev\<lparr>ev_status := RB_IN_PROGRESS\<rparr>"
  let ?u = "tick (tick w\<lparr>rollback_events := save_row ev_id ?ip (rollback_events w)\<rparr>)"
  have s: "List.find (\<lambda>s. svc_id s = ev_serviceId ev) (services w) = Some service"
    using assms(5-7) by (intro find_by_key [of svc_id]) simp_all
  have h: "List.find (\<lambda>h. host_id h = svc_hostId service) (hosts w) = Some host"
    using assms(8-10) by (intro find_by_key [of host_id]) simp_all
  have t: "List.find (\<lambda>s. snap_id s = ev_toSnapshotId ev) (snapshots w) = Some target"
    using assms(11-13) by (intro find_by_key [of snap_id]) simp_all
  have others: "\<forall>x \<in> set (rollback_events w). ev_id x \<noteq> ev_id ev \<longrightarrow> ev_serviceId x = ev_serviceId ev \<longrightarrow> \<not> active_status (ev_status x)"
    using assms(2-4) by (auto simp: events_ok_def event_clash_def)
  have "run_rollback E ?ip ?u = (Inl e, tick (tick (tick ?u)))"
    using s h t assms(14,15)
    by (simp add: run_rollback_def bind_def repo_find_one_ok [OF assms(1)] execute_rollback_def lift_result_def)
  with start_rollback_ok [OF assms(1,2,3) others] assms(16)
  have w': "r = Inl e" "w' = tick (tick (tick ?u))" by auto
  have m: "?ip \<in> set (rollback_events w')" by (simp add: w'(2))
  have "blocked E (svc_orgId service) (ev_serviceId ev) w'"
    by (rule active_event_blocks [OF assms(1) m]) (simp_all add: active_status_def)
  with w'(1) m show ?thesis by simp
qed

text \<open>
  A completed event is not immutable: running its job again (a stalled job is run again
  by the queue) first sets it back to in progress and then completes it anew. If its service
  is gone meanwhile, a succeeded rollback becomes a failed one, with a new completion date.
\<close>

lemma rerun_overwrites_completed_event:
  assumes "no_db_fault E" "events_ok (rollback_events w)" "ev \<in> set (rollback_events w)" "ev_status ev = RB_SUCCEEDED"
    and "\<forall>x \<in> set (rollback_events w). ev_serviceId x = ev_serviceId ev \<longrightarrow> \<not> active_status (ev_status x)"
    and "\<forall>s \<in> set (services w). svc_id s \<noteq> ev_serviceId ev"
    and "process_rollback E (ev_id ev) w = (r, w')"
  shows "r = Inr () \<and> (\<exists>ev' \<in> set (rollback_events w'). ev_id ev' = ev_id ev \<and> ev_status ev' = RB_FAILED
    \<and> ev_completedAt ev' = Some (clock E (steps w + 5)) \<and> length (ev_logOutput ev') = length (ev_logOutput ev) + 1)"
proof -
  let ?ip = "ev\<lparr>ev_status := RB_IN_PROGRESS\<rparr>"
  let ?T = "rollback_events w"
  let ?u = "tick (tick w\<lparr>rollback_events := save_row ev_id ?ip ?T\<rparr>)"
  have n: "List.find (\<lambda>s. svc_id s = ev_serviceId ev) (services w) = None"
    using assms(6) by (simp add: find_None_iff)
  have d: "distinct (map ev_id ?T)" using assms(2) by (simp add: events_ok_def)
  have nc: "\<not> (\<exists>x \<in> set (save_row ev_id y ?T). ev_id x \<noteq> ev_id z \<and> event_clash x z)"
    if "ev_id y = ev_id ev" "ev_id z = ev_id ev" "ev_serviceId z = ev_serviceId ev" for y z
    using assms(5) that by (auto simp: mem_save_row [OF d] event_clash_def)
  have "\<forall>x \<in> set ?T. ev_id x \<noteq> ev_id ev \<longrightarrow> ev_serviceId x = ev_serviceId ev \<longrightarrow> \<not> active_status (ev_status x)"
    using assms(5) by blast
  from start_rollback_ok [OF assms(1,2,3) this] assms(7)
  have run: "run_rollback E ?ip ?u = (r, w')" by simp
  have g: "run_rollback E ?ip ?u = fail_rollback E ?ip ''Service no longer exists'' None (tick ?u)"
    using n by (simp add: run_rollback_def bind_def repo_find_one_ok [OF assms(1)])
  let ?l = "?ip\<lparr>ev_logOutput := ev_logOutput ev @ [message_entry (clock E (Suc (Suc (Suc (steps w))))) ''failure'' ''Service no longer exists'']\<rparr>"
  let ?f = "?l\<lparr>ev_status := RB_FAILED, ev_completedAt := Some (clock E (Suc (Suc (Suc (Suc (Suc (steps w)))))))\<rparr>"
  have db: "db_fault E k = None" for k using assms(1) by (simp add: no_db_fault_def)
  have c1: "\<not> (\<exists>x \<in> set (save_row ev_id ?ip ?T). ev_id x \<noteq> ev_id ?l \<and> event_clash x ?l)" by (rule nc) simp_all
  have c2: "\<not> (\<exists>x \<in> set (save_row ev_id ?l ?T). ev_id x \<noteq> ev_id ?f \<and> event_clash x ?f)" by (rule nc) simp_all
  have "\<exists>v. fail_rollback E ?ip ''Service no longer exists'' None (tick ?u) = (Inr (), v)
      \<and> rollback_events v = save_row ev_id ?f ?T"
    using c1 c2
    by (simp add: fail_rollback_def bind_def now_def append_log_def save_event_def repo_save_def repo_def db
        save_row_save_row ret_def)
  with run g have "r = Inr ()" "rollback_events w' = save_row ev_id ?f ?T" by auto
  then show ?thesis by (auto intro!: bexI [of _ ?f] simp: numeral_eq_Suc)
qed

definition demo_event :: "rollback_status \<Rightarrow> rollback_event" where
  "demo_event st = \<lparr>ev_id = ''ev'', ev_serviceId = ''svc'', ev_fromSnapshotId = ''snap'', ev_toSnapshotId = ''snap'',
     ev_triggeredById = ''user'', ev_status = st, ev_logOutput = [], ev_initiatedAt = 0,
     ev_completedAt = (if active_status st then None else Some 0)\<rparr>"

lemma demo_event_simps [simp]:
  "ev_id (demo_event st) = ''ev''" "ev_serviceId (demo_event st) = ''svc''" "ev_toSnapshotId (demo_event st) = ''snap''"
  "ev_status (demo_event st) = st" "ev_logOutput (demo_event st) = []"
  by (simp_all add: demo_event_def)

definition broken_world :: world where
  "broken_world = demo_world\<lparr>snapshots := [demo_snapshot\<lparr>snap_configBlob := []\<rparr>], rollback_events := [demo_event RB_PENDING]\<rparr>"

lemma decrypt_demo_key: "decrypt demo_env (host_sshKeyEncrypted demo_host) = Inr ''key''"
  using decrypt_encrypt_with [OF demo_env_ok(1), of "replicate 12 (CHR ''r'')" "''key''"]
  by (simp add: demo_host_def IV_LENGTH_BYTES_def)

lemma unreadable_config_blocks_service_witness:
  "blocked demo_env ''org'' ''svc'' (snd (process_rollback demo_env ''ev'' broken_world))"
proof -
  let ?t = "demo_snapshot\<lparr>snap_configBlob := []\<rparr>"
  have "decrypt demo_env [] = Inl (JsError ''Error'' ''Unsupported state or unable to authenticate data'' None)"
    by code_simp
  then have c: "decrypt_config demo_env ?t = Inl (JsError ''Error'' ''Unsupported state or unable to authenticate data'' None)"
    by (simp add: decrypt_config_def)
  obtain r w' where w': "process_rollback demo_env ''ev'' broken_world = (r, w')" by force
  have ids: "snap_id demo_snapshot = ''snap''" "svc_hostId demo_service = ''h''" by (simp_all add: demo_snapshot_def)
  have "blocked demo_env (svc_orgId demo_service) (ev_serviceId (demo_event RB_PENDING)) w'"
    using unreadable_config_blocks_service [OF demo_env_ok(2), of broken_world "demo_event RB_PENDING" demo_service demo_host
        ?t "''key''" _ r w'] c decrypt_demo_key w' ids
    by (simp add: broken_world_def events_ok_def active_status_def)
  with w' show ?thesis by simp
qed

definition orphan_world :: world where
  "orphan_world = empty_world\<lparr>rollback_events := [demo_event RB_SUCCEEDED]\<rparr>"

lemma rerun_overwrites_completed_event_witness:
  "\<exists>ev' \<in> set (rollback_events (snd (process_rollback demo_env ''ev'' orphan_world))). ev_status ev' = RB_FAILED"
proof -
  obtain r w' where w': "process_rollback demo_env ''ev'' orphan_world = (r, w')" by force
  with rerun_overwrites_completed_event [OF demo_env_ok(2), of orphan_world "demo_event RB_SUCCEEDED" r w']
  have "\<exists>ev' \<in> set (rollback_events w'). ev_status ev' = RB_FAILED"
    by (auto simp: orphan_world_def events_ok_def active_status_def)
  with w' show ?thesis by simp
qed

subsection \<open>Responses and handlers\<close>

record rollback_event_response =
  rer_id :: uuid
  rer_service_id :: uuid
  rer_from_snapshot_id :: uuid
  rer_to_snapshot_id :: uuid
  rer_triggered_by :: uuid
  rer_status :: rollback_status
  rer_log_output :: "rollback_log_entry list"
  rer_initiated_at :: time
  rer_completed_at :: "time option"

definition to_rollback_event_response :: "rollback_event \<Rightarrow> rollback_event_response" where
  "to_rollback_event_response event =
     \<lparr>rer_id = ev_id event, rer_service_id = ev_serviceId event, rer_from_snapshot_id = ev_fromSnapshotId event,
      rer_to_snapshot_id = ev_toSnapshotId event, rer_triggered_by = ev_triggeredById event,
      rer_status = ev_status event, rer_log_output = ev_logOutput event, rer_initiated_at = ev_initiatedAt event,
      rer_completed_at = ev_completedAt event\<rparr>"

definition rollback_events_find_all :: "env \<Rightarrow> uuid \<Rightarrow> rollback_event_response list action" where
  "rollback_events_find_all E orgId =
     bind (list_events_for_org E orgId) (\<lambda>events. ret (map to_rollback_event_response events))"

definition rollback_events_find_one :: "env \<Rightarrow> uuid \<Rightarrow> uuid \<Rightarrow> rollback_event_response action" where
  "rollback_events_find_one E orgId i =
     bind (find_event_or_throw E orgId i) (\<lambda>event. ret (to_rollback_event_response event))"

definition service_rollback :: "env \<Rightarrow> uuid \<Rightarrow> uuid \<Rightarrow> uuid \<Rightarrow> uuid \<Rightarrow> uuid action" where
  "service_rollback E orgId userId serviceId target_snapshot_id =
     bind (enqueue_rollback E orgId serviceId target_snapshot_id userId) (\<lambda>event. ret (ev_id event))"

end
