(* ===== verification/Rollback_Success.thy ===== *)
theory Rollback_Success
  imports Rollback_Requests
begin

section \<open>What a succeeded rollback means\<close>

text \<open>
  The contract of the rollback job, stated over the tables: an event that ends as succeeded
  is the record of a restored service. The job's steps are shown to keep it by triples over
  the same version-by-version view of the event as in \<open>Rollback\<close>.
\<close>

definition restored :: "uuid \<Rightarrow> string \<Rightarrow> uuid \<Rightarrow> world \<Rightarrow> bool" where
  "restored serviceId imageTag userId w \<longleftrightarrow>
    (\<exists>s \<in> set (services w). svc_id s = serviceId \<and> svc_status s = SS_RUNNING
        \<and> (svc_image s, svc_currentTag s) = split_image_and_tag imageTag)
    \<and> (\<exists>y \<in> set (snapshots w). snap_serviceId y = serviceId \<and> snap_isCurrent y \<and> snap_imageTag y = imageTag
        \<and> snap_deployedById y = Some userId)"

definition sound_end :: "(world \<Rightarrow> bool) \<Rightarrow> rollback_event list \<Rightarrow> uuid \<Rightarrow> world \<Rightarrow> bool" where
  "sound_end S T i w \<longleftrightarrow> (\<exists>ev'. ev_id ev' = i \<and> events_are T ev' w \<and> (ev_status ev' = RB_SUCCEEDED \<longrightarrow> S w))"

definition sound :: "(world \<Rightarrow> bool) \<Rightarrow> rollback_event list \<Rightarrow> rollback_event \<Rightarrow> unit action \<Rightarrow> bool" where
  "sound S T ev m \<longleftrightarrow> triple (events_are T ev) m (\<lambda>_. sound_end S T (ev_id ev)) (\<lambda>_ _. True)"

lemma sound_keep:
  assumes "\<And>c. preserves (\<lambda>w. rollback_events w = c) m" "\<And>x. sound S T ev (k x)"
  shows "sound S T ev (bind m k)"
  unfolding sound_def
  by (rule triple_bind [OF triple_weaken [OF triple_preserves [OF events_keepI [OF assms(1)]]] assms(2) [unfolded sound_def]])
     auto

lemma sound_now: "(\<And>t. sound S T ev (k t)) \<Longrightarrow> sound S T ev (bind (now E) k)"
  by (rule sound_keep) (auto intro!: pres)

lemma sound_append:
  assumes "\<And>r. ev_triggeredById r = ev_triggeredById ev \<Longrightarrow> ev_id r = ev_id ev \<Longrightarrow> sound S T r (k r)"
  shows "sound S T ev (bind (append_log E ev entry) k)"
  unfolding sound_def
proof (rule triple_bind)
  show "triple (events_are T ev) (append_log E ev entry) (\<lambda>r w. grows ev r \<and> events_are T r w) (\<lambda>_ _. True)"
    by (rule triple_weaken [OF append_log_triple']) auto
next
  fix r
  show "triple (\<lambda>w. grows ev r \<and> events_are T r w) (k r) (\<lambda>_. sound_end S T (ev_id ev)) (\<lambda>_ _. True)"
  proof (rule triple_pre [of _ "grows ev r"])
    assume g: "grows ev r"
    then have id: "ev_id r = ev_id ev" "ev_triggeredById r = ev_triggeredById ev" by (simp_all add: grows_def)
    show ?thesis
      using assms [OF id(2,1)] unfolding sound_def id(1) by (rule triple_weaken) auto
  qed simp
qed

lemma sound_append_result:
  assumes "\<And>r. ev_triggeredById r = ev_triggeredById ev \<Longrightarrow> ev_id r = ev_id ev \<Longrightarrow> sound S T r (k r)"
  shows "sound S T ev (bind (append_result E ev st res) k)"
  unfolding append_result_def bind_assoc by (intro sound_now sound_append) (rule assms)

lemma save_failed_triple:
  "triple (events_are T ev) (save_event E (ev\<lparr>ev_status := RB_FAILED, ev_completedAt := c\<rparr>))
     (\<lambda>_. sound_end S T (ev_id ev)) (\<lambda>_ _. True)"
  by (rule triple_weaken [OF save_event_triple [of "ev\<lparr>ev_status := RB_FAILED, ev_completedAt := c\<rparr>" ev T E]])
     (auto simp: sound_end_def intro!: exI [of _ "ev\<lparr>ev_status := RB_FAILED, ev_completedAt := c\<rparr>"])

text \<open>After the final save of a failure only the alert is left, which keeps events and tables.\<close>

lemma restored_core: "core_view w' = core_view w \<Longrightarrow> restored s t u w' = restored s t u w"
  unfolding core_view_def restored_def
  by (frule arg_cong [of _ _ services], drule arg_cong [of _ _ snapshots]) simp

lemma sound_end_alert: "preserves (sound_end (restored s t u) T i) (evaluate_transition E a)"
proof (rule preservesI)
  fix w assume "sound_end (restored s t u) T i w"
  moreover have "rollback_events (snd (evaluate_transition E a w)) = rollback_events w"
    using preservesD [OF events_evaluate refl] by blast
  ultimately show "sound_end (restored s t u) T i (snd (evaluate_transition E a w))"
    by (simp add: sound_end_def events_are_def restored_core [OF core_view_evaluate_transition])
qed

lemma sound_fail: "sound (restored s t u) T ev (fail_rollback E ev reason org)"
  unfolding fail_rollback_def
proof (intro sound_now sound_append)
  fix r t'
  show "sound (restored s t u) T r (bind (save_event E (r\<lparr>ev_status := RB_FAILED, ev_completedAt := Some t'\<rparr>)) (\<lambda>saved.
      case org of None \<Rightarrow> ret () | Some o' \<Rightarrow> do_when (o' \<noteq> []) (evaluate_transition E
        \<lparr>ti_orgId = o', ti_entityType = AE_ROLLBACK_EVENT, ti_entityId = ev_id saved,
           ti_previousStatus = rollback_status_str (ev_status r), ti_newStatus = rollback_status_str (ev_status saved)\<rparr>)))"
    unfolding sound_def
    by (rule triple_bind [OF save_failed_triple triple_weaken [OF triple_preserves]])
       (auto intro!: pres sound_end_alert split: option.split)
qed

lemma save_service_row:
  "triple (events_are T ev) (save_service E s)
     (\<lambda>r w. r = s \<and> events_are T ev w \<and> s \<in> set (services w)) (\<lambda>_ _. True)"
proof (rule tripleI)
  fix w r w' assume w: "events_are T ev w" and run: "save_service E s w = (Inr r, w')"
  have "events_are T ev w'" using preservesD' [OF events_keepI [OF events_save_service] w run] .
  moreover have "r = s" "s \<in> set (services w')"
    using run by (auto simp: save_service_def repo_save_def repo_def split: option.splits if_splits)
  ultimately show "r = s \<and> events_are T ev w' \<and> s \<in> set (services w')" by simp
qed simp

lemma sound_succeed:
  assumes "st = SS_RUNNING"
  shows "sound (restored (svc_id svc) (snap_imageTag target) (ev_triggeredById ev)) T ev
    (succeed_rollback E ev svc newId target st)"
proof -
  let ?row = "\<lambda>t. restored_service svc target newId st t"
  let ?S = "restored (svc_id svc) (snap_imageTag target) (ev_triggeredById ev)"
  let ?mid = "\<lambda>t w. events_are T ev w \<and> ?row t \<in> set (services w)"
  have row: "svc_id (?row t) = svc_id svc \<and> svc_status (?row t) = SS_RUNNING
      \<and> (svc_image (?row t), svc_currentTag (?row t)) = split_image_and_tag (snap_imageTag target)" for t
    using assms by (simp add: restored_service_def split: prod.split)
  have mid: "preserves (?mid t) m"
    if "\<And>c. preserves (\<lambda>w. rollback_events w = c) m" "\<And>c. preserves (\<lambda>w. services w = c) m"
    for t and m :: "'x action"
    using that unfolding preserves_def events_are_def by metis
  have snap: "triple (?mid t) (create_snapshot E \<lparr>cs_serviceId = svc_id svc, cs_imageTag = snap_imageTag target,
         cs_config = config, cs_deployedAt = d, cs_deployedById = Some (ev_triggeredById ev)\<rparr>)
      (\<lambda>_ w. events_are T ev w \<and> ?S w) (\<lambda>_ _. True)" for t config d
  proof (rule tripleI)
    let ?in = "\<lparr>cs_serviceId = svc_id svc, cs_imageTag = snap_imageTag target,
         cs_config = config, cs_deployedAt = d, cs_deployedById = Some (ev_triggeredById ev)\<rparr>"
    fix w s w' assume w: "?mid t w" and run: "create_snapshot E ?in w = (Inr s, w')"
    from preservesD' [OF mid [OF events_create_snapshot services_create_snapshot] w run]
    have m: "?mid t w'" .
    have "snap_serviceId s = svc_id svc \<and> snap_isCurrent s \<and> snap_imageTag s = snap_imageTag target
        \<and> snap_deployedById s = Some (ev_triggeredById ev) \<and> s \<in> set (snapshots w')"
      using run by (cases rule: create_snapshot_cases [of E ?in w]) auto
    with m row [of t] show "events_are T ev w' \<and> ?S w'" unfolding restored_def by blast
  qed simp
  have keepS: "preserves (\<lambda>w. events_are T ev w \<and> ?S w) m"
    if "\<And>c. preserves (\<lambda>w. rollback_events w = c) m" "\<And>c. preserves (\<lambda>w. services w = c) m"
      "\<And>c. preserves (\<lambda>w. snapshots w = c) m" for m :: "'x action"
    using that unfolding preserves_def events_are_def restored_def by metis
  have hc: "preserves (\<lambda>w. events_are T ev w \<and> ?S w) (write_hc_log E ty i x raw)" for ty i x raw
    by (rule keepS [OF events_hc_log services_write_hc_log]) (intro pres, auto)
  have fin: "triple (\<lambda>w. events_are T ev w \<and> ?S w) (save_event E (ev\<lparr>ev_status := RB_SUCCEEDED, ev_completedAt := c\<rparr>))
      (\<lambda>_. sound_end ?S T (ev_id ev)) (\<lambda>_ _. True)" for c
  proof (rule triple_weaken [OF triple_frame [OF save_event_triple [of "ev\<lparr>ev_status := RB_SUCCEEDED, ev_completedAt := c\<rparr>" ev T E]]])
    show "preserves ?S (save_event E (ev\<lparr>ev_status := RB_SUCCEEDED, ev_completedAt := c\<rparr>))"
      unfolding save_event_def by (rule preserves_repo_save) (simp_all add: restored_def)
  qed (auto simp: sound_end_def intro!: exI [of _ "ev\<lparr>ev_status := RB_SUCCEEDED, ev_completedAt := c\<rparr>"])
  show ?thesis
    unfolding succeed_rollback_def
  proof (intro sound_now)
    fix t0
    show "sound ?S T ev (bind (save_service E (?row t0)) (\<lambda>saved.
       bind (lift_result (decrypt_config E target)) (\<lambda>config.
       bind (now E) (\<lambda>deployedAt.
       bind (create_snapshot E \<lparr>cs_serviceId = svc_id svc, cs_imageTag = snap_imageTag target,
         cs_config = config, cs_deployedAt = deployedAt, cs_deployedById = Some (ev_triggeredById ev)\<rparr>) (\<lambda>snapshot.
       bind (write_hc_log E HE_SERVICE (svc_id svc) (service_status_str st)
         (JObj [(''reason'', JStr ''rollback''), (''rollback_event_id'', JStr (ev_id ev)),
                (''image_tag'', JStr (snap_imageTag target))])) (\<lambda>log.
       bind (now E) (\<lambda>completedAt.
       bind (save_event E (ev\<lparr>ev_status := RB_SUCCEEDED, ev_completedAt := Some completedAt\<rparr>)) (\<lambda>_. ret ()))))))))"
      unfolding sound_def
      by (rule triple_bind [OF save_service_row], rule triple_weaken [where P' = "?mid t0"],
          rule triple_bind [OF triple_weaken [OF triple_preserves [OF mid]]],
          (intro pres)+, assumption, assumption, simp,
          rule triple_bind [OF triple_weaken [OF triple_preserves [OF mid]]],
          (auto intro!: pres)[1], (auto intro!: pres)[1], assumption, assumption, simp,
          rule triple_bind [OF snap],
          rule triple_bind [OF triple_weaken [OF triple_preserves [OF hc]]], assumption, assumption, simp,
          rule triple_bind [OF now_triple], simp add: restored_def,
          rule triple_bind [OF fin], rule triple_ret, assumption, simp_all)
  qed
qed

lemma sound_succeed':
  "st = SS_RUNNING \<Longrightarrow> ev_triggeredById ev = u \<Longrightarrow>
   sound (restored (svc_id svc) (snap_imageTag target) u) T ev (succeed_rollback E ev svc newId target st)"
  using sound_succeed by blast

lemma sound_verify:
  "sound (restored (svc_id svc) (snap_imageTag target) (ev_triggeredById ev)) T ev
     (verify_rollback E ev svc target config ps)"
  unfolding verify_rollback_def Let_def case_prod_unfold
  by (intro sound_keep pres sound_now sound_append) (auto intro!: sound_fail sound_succeed' split: option.split)

lemma sound_execute:
  "sound (restored (svc_id svc) (snap_imageTag target) (ev_triggeredById ev)) T ev
     (execute_rollback E ev svc host target key)"
proof -
  have rec: "sound (restored (svc_id svc) (snap_imageTag target) (ev_triggeredById ev)) T ev
     (record_results E ev svc target config results)" for config results
    unfolding record_results_def Let_def
  proof (intro sound_append_result)
    fix r1 r2 r3 r4 :: rollback_event
    assume "ev_triggeredById r1 = ev_triggeredById ev" "ev_triggeredById r2 = ev_triggeredById r1"
      "ev_triggeredById r3 = ev_triggeredById r2" "ev_triggeredById r4 = ev_triggeredById r3"
    then have r: "ev_triggeredById ev = ev_triggeredById r4" by simp
    show "sound (restored (svc_id svc) (snap_imageTag target) (ev_triggeredById ev)) T r4
       (if sr_exitCode (results ! 2) \<noteq> Some 0
        then fail_rollback E r4 (''docker run failed: ''
            @ first_truthy [sr_stderr (results ! 2), sr_stdout (results ! 2), ''unknown error'']) (Some (svc_orgId svc))
        else verify_rollback E r4 svc target config (results ! 3))"
      unfolding r by (simp add: sound_fail sound_verify)
  qed
  show ?thesis
    unfolding execute_rollback_def
    by (intro sound_keep) (auto intro!: pres sound_fail rec split: sum.split)
qed

lemma preserves_triple: "preserves P m \<Longrightarrow> triple P m (\<lambda>_. P) (\<lambda>_ _. True)"
  by (rule triple_weaken [OF triple_preserves]) auto

lemma repo_find_one_Inr:
  "repo_find_one E tab p w = (Inr r, w') \<Longrightarrow> w' = tick w \<and> r = List.find p (tab w)"
  by (auto simp: repo_find_one_def repo_def split: option.splits)

lemma sound_mono: "sound S T ev m \<Longrightarrow> (\<And>w. S w \<Longrightarrow> S' w) \<Longrightarrow> sound S' T ev m"
  unfolding sound_def by (erule triple_weaken) (auto simp: sound_end_def)

text \<open>What the job promises of its event, the snapshots being \<open>Sn\<close> at its start.\<close>

definition job_promise :: "snapshot list \<Rightarrow> rollback_event \<Rightarrow> world \<Rightarrow> bool" where
  "job_promise Sn ev w \<longleftrightarrow> (\<exists>target \<in> set Sn. snap_id target = ev_toSnapshotId ev
     \<and> restored (ev_serviceId ev) (snap_imageTag target) (ev_triggeredById ev) w)"

lemma promise_fail: "sound (job_promise Sn ev) T ev (fail_rollback E ev reason org)"
proof -
  have "sound (\<lambda>_. False) T ev (fail_rollback E ev reason org)"
  proof -
    have al: "preserves (sound_end (\<lambda>_. False) T i) (evaluate_transition E a)" for i a
      unfolding sound_end_def events_are_def
      by (rule preserves_of_kept [of rollback_events "evaluate_transition E a"
            "\<lambda>es. \<exists>ev'. ev_id ev' = i \<and> es = save_row ev_id ev' T \<and> (ev_status ev' = RB_SUCCEEDED \<longrightarrow> False)"])
         (rule events_evaluate)
    have sv: "triple (events_are T r) (save_event E (r\<lparr>ev_status := RB_FAILED, ev_completedAt := c\<rparr>))
        (\<lambda>_. sound_end (\<lambda>_. False) T (ev_id r)) (\<lambda>_ _. True)" for r c
      by (rule triple_weaken [OF save_event_triple [of "r\<lparr>ev_status := RB_FAILED, ev_completedAt := c\<rparr>" r T E]])
         (auto simp: sound_end_def intro!: exI [of _ "r\<lparr>ev_status := RB_FAILED, ev_completedAt := c\<rparr>"])
    show ?thesis
      unfolding fail_rollback_def
    proof (intro sound_now sound_append)
      fix r :: rollback_event and t'
      show "sound (\<lambda>_. False) T r (bind (save_event E (r\<lparr>ev_status := RB_FAILED, ev_completedAt := Some t'\<rparr>)) (\<lambda>saved.
        case org of None \<Rightarrow> ret () | Some o' \<Rightarrow> do_when (o' \<noteq> []) (evaluate_transition E
          \<lparr>ti_orgId = o', ti_entityType = AE_ROLLBACK_EVENT, ti_entityId = ev_id saved,
           ti_previousStatus = rollback_status_str (ev_status r), ti_newStatus = rollback_status_str (ev_status saved)\<rparr>)))"
        unfolding sound_def
        by (rule triple_bind [OF sv triple_weaken [OF triple_preserves]])
           (auto intro!: pres al split: option.split)
    qed
  qed
  then show ?thesis by (rule sound_mono) simp
qed

lemma run_rollback_promise:
  assumes "run_rollback E ev u = (Inr (), w')" and u: "events_are T ev u"
  shows "sound_end (job_promise (snapshots u) ev) T (ev_id ev) w'"
proof -
  let ?S = "job_promise (snapshots u) ev"
  have end_of: "sound_end ?S T (ev_id ev) w'" if "sound ?S T ev m" "m v = (Inr (), w')" "events_are T ev v" for m v
    using tripleD [OF that(1) [unfolded sound_def] that(3) that(2)] .
  from assms(1) obtain fs v1 where 1: "fs = List.find (\<lambda>s. svc_id s = ev_serviceId ev) (services u)" "v1 = tick u"
    and r1: "(case fs of
       None \<Rightarrow> fail_rollback E ev ''Service no longer exists'' None
     | Some service \<Rightarrow>
     bind (repo_find_one E hosts (\<lambda>h. host_id h = svc_hostId service)) (\<lambda>foundHost.
     case foundHost of
       None \<Rightarrow> fail_rollback E ev ''Host no longer exists'' (Some (svc_orgId service))
     | Some host \<Rightarrow>
     bind (repo_find_one E snapshots (\<lambda>s. snap_id s = ev_toSnapshotId ev)) (\<lambda>foundTarget.
     case foundTarget of
       None \<Rightarrow> fail_rollback E ev ''Target snapshot no longer exists'' (Some (svc_orgId service))
     | Some targetSnapshot \<Rightarrow>
     (case decrypt E (host_sshKeyEncrypted host) of
        Inl error \<Rightarrow> fail_rollback E ev (''Failed to decrypt SSH key: '' @ template_message error)
                       (Some (svc_orgId service))
      | Inr privateKey \<Rightarrow> execute_rollback E ev service host targetSnapshot privateKey)))) v1 = (Inr (), w')"
    unfolding run_rollback_def by (elim bind_InrE) (use repo_find_one_Inr in blast)
  have v1: "events_are T ev v1" using u 1(2) by simp
  show ?thesis
  proof (cases fs)
    case None
    with r1 show ?thesis by (intro end_of [OF promise_fail _ v1]) simp
  next
    case svc: (Some service)
    have sid: "svc_id service = ev_serviceId ev" using find_SomeD [OF svc [unfolded 1(1)]] by simp
    from r1 [unfolded svc option.case] obtain fh v2 where v2: "v2 = tick v1"
      and r2: "(case fh of
         None \<Rightarrow> fail_rollback E ev ''Host no longer exists'' (Some (svc_orgId service))
       | Some host \<Rightarrow>
       bind (repo_find_one E snapshots (\<lambda>s. snap_id s = ev_toSnapshotId ev)) (\<lambda>foundTarget.
       case foundTarget of
         None \<Rightarrow> fail_rollback E ev ''Target snapshot no longer exists'' (Some (svc_orgId service))
       | Some targetSnapshot \<Rightarrow>
       (case decrypt E (host_sshKeyEncrypted host) of
          Inl error \<Rightarrow> fail_rollback E ev (''Failed to decrypt SSH key: '' @ template_message error)
                         (Some (svc_orgId service))
        | Inr privateKey \<Rightarrow> execute_rollback E ev service host targetSnapshot privateKey))) v2 = (Inr (), w')"
      by (elim bind_InrE) (use repo_find_one_Inr in blast)
    have e2: "events_are T ev v2" using v1 v2 by simp
    show ?thesis
    proof (cases fh)
      case None
      with r2 show ?thesis by (intro end_of [OF promise_fail _ e2]) simp
    next
      case host: (Some host)
      from r2 [unfolded host option.case] obtain ft v3 where
        3: "ft = List.find (\<lambda>s. snap_id s = ev_toSnapshotId ev) (snapshots v2)" "v3 = tick v2"
        and r3: "(case ft of
           None \<Rightarrow> fail_rollback E ev ''Target snapshot no longer exists'' (Some (svc_orgId service))
         | Some targetSnapshot \<Rightarrow>
         (case decrypt E (host_sshKeyEncrypted host) of
            Inl error \<Rightarrow> fail_rollback E ev (''Failed to decrypt SSH key: '' @ template_message error)
                           (Some (svc_orgId service))
          | Inr privateKey \<Rightarrow> execute_rollback E ev service host targetSnapshot privateKey)) v3 = (Inr (), w')"
        by (elim bind_InrE) (use repo_find_one_Inr in blast)
      have e3: "events_are T ev v3" using e2 3(2) by simp
      show ?thesis
      proof (cases ft)
        case None
        with r3 show ?thesis by (intro end_of [OF promise_fail _ e3]) simp
      next
        case target: (Some target)
        have t: "target \<in> set (snapshots u)" "snap_id target = ev_toSnapshotId ev"
          using find_SomeD [OF target [unfolded 3(1)]] v2 1(2) by simp_all
        have ex: "sound ?S T ev (execute_rollback E ev service host target key)" for key
          by (rule sound_mono [OF sound_execute]) (use t sid in \<open>auto simp: job_promise_def\<close>)
        show ?thesis
        proof (cases "decrypt E (host_sshKeyEncrypted host)")
          case (Inl e)
          with r3 target show ?thesis by (intro end_of [OF promise_fail _ e3]) simp
        next
          case (Inr key)
          with r3 target show ?thesis by (intro end_of [OF ex _ e3]) simp
        qed
      qed
    qed
  qed
qed

text \<open>
  C1. Success is never claimed falsely. When a job resolves and its event reads succeeded,
  the event's service is in the table with status running and the image and tag of the
  snapshot that was rolled back to, and that image is now the service's current snapshot,
  recorded as deployed by the user who asked for the rollback.
\<close>

theorem succeeded_rollback_restored:
  assumes "process_rollback E i w = (Inr (), w')" and "distinct (map ev_id (rollback_events w))"
    and "ev \<in> set (rollback_events w)" "ev_id ev = i"
    and "ev' \<in> set (rollback_events w')" "ev_id ev' = i" "ev_status ev' = RB_SUCCEEDED"
  shows "\<exists>target \<in> set (snapshots w). snap_id target = ev_toSnapshotId ev
    \<and> restored (ev_serviceId ev) (snap_imageTag target) (ev_triggeredById ev) w'"
proof -
  let ?ip = "ev\<lparr>ev_status := RB_IN_PROGRESS\<rparr>" and ?T = "rollback_events w"
  have f: "List.find (\<lambda>e. ev_id e = i) ?T = Some ev"
    using assms(2-4) by (intro find_by_key [of ev_id]) simp_all
  from assms(1) obtain fe v1 where "fe = List.find (\<lambda>e. ev_id e = i) ?T" "v1 = tick w"
    and r1: "(case fe of None \<Rightarrow> ret () | Some event \<Rightarrow>
         bind (save_event E (event\<lparr>ev_status := RB_IN_PROGRESS\<rparr>)) (run_rollback E)) v1 = (Inr (), w')"
    unfolding process_rollback_def by (elim bind_InrE) (use repo_find_one_Inr in blast)
  with f have "bind (save_event E ?ip) (run_rollback E) (tick w) = (Inr (), w')" by simp
  then obtain x u where sv: "save_event E ?ip (tick w) = (Inr x, u)" and run: "run_rollback E x u = (Inr (), w')"
    by (rule bind_InrE)
  have x: "x = ?ip" and u: "events_are ?T ?ip u" and sn: "snapshots u = snapshots w"
    using sv by (auto simp: save_event_def repo_save_def repo_def events_are_def split: option.splits if_splits)
  from run_rollback_promise [OF run [unfolded x] u] obtain ev2 where
    ev2: "ev_id ev2 = i" "rollback_events w' = save_row ev_id ev2 ?T"
      "ev_status ev2 = RB_SUCCEEDED \<longrightarrow> job_promise (snapshots w) ?ip w'"
    using assms(4) sn by (auto simp: sound_end_def events_are_def)
  have "ev' = ev2"
    using assms(5,6) ev2(1) unfolding ev2(2) mem_save_row [OF assms(2)] by auto
  with ev2(3) assms(7) show ?thesis by (simp add: job_promise_def)
qed

subsection \<open>A run that succeeds\<close>

text \<open>A host whose commands all succeed and print the listing of a running \<open>web\<close> container.\<close>

definition running_listing :: string where
  "running_listing = json_stringify (JObj [(''ID'', JStr ''f00d''), (''Names'', JStr ''web''),
     (''Image'', JStr ''nginx:1.26''), (''Status'', JStr ''Up 2 seconds'')])"

definition running_env :: env where
  "running_env = demo_env\<lparr>ssh_exec := (\<lambda>n opts c. Inr (running_listing, [], Some 0))\<rparr>"

definition running_container :: docker_ps_container where
  "running_container = \<lparr>dc_id = ''f00d'', dc_names = ''web'', dc_image = ''nginx:1.26'',
     dc_status = ''Up 2 seconds'', dc_ports = []\<rparr>"

lemma parse_running_listing: "parse_docker_ps_output running_listing = Inr ([running_container], 0)"
proof -
  let ?v = "JObj [(''ID'', JStr ''f00d''), (''Names'', JStr ''web''),
     (''Image'', JStr ''nginx:1.26''), (''Status'', JStr ''Up 2 seconds'')]"
  have t: "running_listing = ''{'' @ dquote # ''ID'' @ dquote # '':'' @ dquote # ''f00d'' @ dquote # '','' @ dquote
      # ''Names'' @ dquote # '':'' @ dquote # ''web'' @ dquote # '','' @ dquote # ''Image'' @ dquote # '':'' @ dquote
      # ''nginx:1.26'' @ dquote # '','' @ dquote # ''Status'' @ dquote # '':'' @ dquote # ''Up 2 seconds'' @ dquote # ''}''"
    by code_simp
  have "output_lines running_listing = [running_listing]"
    unfolding t by (simp add: output_lines_def trim_visible visible_def)
  moreover have "json_parse running_listing = Some ?v"
    unfolding running_listing_def by (rule json_roundtrip) simp
  then have "parse_line running_listing = Inr (Some running_container)"
    by (simp add: parse_line_def required_string_def string_or_empty_def json_prop.simps running_container_def)
  ultimately show ?thesis by (simp add: parse_docker_ps_output_def)
qed

lemma running_env_simps [simp]:
  "db_fault running_env n = None" "decrypt running_env = decrypt demo_env"
  "fresh_uuid running_env n = ''id-'' @ show_nat n"
  by (simp_all add: running_env_def demo_env_def decrypt_def fun_eq_iff)

lemma running_session: "run_commands running_env opts [a, b, c, d] w =
   (Inr (map (\<lambda>k. \<lparr>sr_command = k, sr_stdout = running_listing, sr_stderr = [], sr_exitCode = Some 0\<rparr>)
      [a, b, c, d]), w\<lparr>steps := steps w + 5\<rparr>)"
  by (simp add: run_commands_def connect_def exec_command_def running_env_def demo_env_def
      andthen_def bind_def ret_def tick_def)

lemma save_only_event:
  "rollback_events w = [x] \<Longrightarrow> ev_id x = ev_id ev \<Longrightarrow>
   save_event running_env ev w = (Inr ev, tick (w\<lparr>rollback_events := [ev]\<rparr>))"
  by (simp add: save_event_def repo_save_def repo_def)

lemma decrypt_demo_snapshot: "decrypt_config running_env demo_snapshot = Inr demo_config"
  by (rule decrypt_config_stored [where iv = "replicate 12 (CHR ''r'')"])
     (simp_all add: cipher_ok_def aead_ok_def demo_snapshot_def running_env_def demo_env_def encrypt_with_def
       AUTH_TAG_LENGTH_BYTES_def IV_LENGTH_BYTES_def)




definition running_world :: world where
  "running_world = demo_world\<lparr>rollback_events := [demo_pending]\<rparr>"


lemma succeed_running:
  assumes "rollback_events w = [x]" "ev_id x = ev_id ev" "ev_id ev = j" "services w = [demo_service]" "snapshots w = [demo_snapshot]" "hc_logs w = []"
  shows "\<exists>w'. succeed_rollback running_env ev demo_service i demo_snapshot SS_RUNNING w = (Inr (), w')
    \<and> (\<exists>ev'. rollback_events w' = [ev'] \<and> ev_id ev' = j \<and> ev_status ev' = RB_SUCCEEDED)"
proof -
  have sv: "save_service running_env (restored_service demo_service demo_snapshot i SS_RUNNING t) w
     = (Inr (restored_service demo_service demo_snapshot i SS_RUNNING t),
        tick (w\<lparr>services := [restored_service demo_service demo_snapshot i SS_RUNNING t]\<rparr>))"
    if "services w = [demo_service]" for w t
    using that by (simp add: save_service_def repo_save_def repo_def restored_service_def split: prod.split)
  show ?thesis
    by (simp add: succeed_rollback_def bind_def now_def sv assms lift_result_def decrypt_demo_snapshot create_snapshot_def
          transaction_def andthen_def encrypt_ok repo_def repo_insert_def Let_def write_hc_log_def retire_current_def
          save_only_event snapshot_clash_def ret_def demo_snapshot_def [THEN arg_cong, of snap_id]
          demo_snapshot_def [THEN arg_cong, of snap_isCurrent] demo_snapshot_def [THEN arg_cong, of snap_serviceId])
qed

lemma running_key: "decrypt demo_env (host_sshKeyEncrypted demo_host) = Inr ''key''"
  by (simp add: demo_host_def decrypt_encrypt_with [OF demo_env_ok(1)] IV_LENGTH_BYTES_def)

lemma process_running:
  "\<exists>w'. process_rollback running_env ''e'' running_world = (Inr (), w')
    \<and> (\<exists>ev'. rollback_events w' = [ev'] \<and> ev_id ev' = ''e'' \<and> ev_status ev' = RB_SUCCEEDED)"
proof -
  have run: "classify_container_status ''Up 2 seconds'' = SS_RUNNING" by code_simp
  have ids: "ev_id demo_pending = ''e''" "ev_serviceId demo_pending = ''svc''" "ev_toSnapshotId demo_pending = ''snap''"
    "svc_id demo_service = ''svc''" "svc_hostId demo_service = ''h''" "host_id demo_host = ''h''" "snap_id demo_snapshot = ''snap''"
    by (simp_all add: demo_pending_def demo_service_def demo_host_def demo_snapshot_def)
  show ?thesis
    by (simp add: process_rollback_def run_rollback_def execute_rollback_def record_results_def append_result_def
      append_log_def verify_rollback_def bind_def now_def repo_find_one_def repo_def save_only_event ids running_world_def
      running_key lift_result_def decrypt_demo_snapshot attempt_def running_session rollback_commands_def
      parse_running_listing running_container_def run Let_def demo_config_def [THEN arg_cong, of cfg_containerName])
       (rule succeed_running, simp, simp, simp add: rollback_event.simps ids, simp, simp, simp)
qed

theorem succeeded_rollback_restored_witness:
  "\<exists>w'. process_rollback running_env ''e'' running_world = (Inr (), w') \<and> restored ''svc'' ''nginx:1.26'' ''user'' w'"
proof -
  obtain w' ev' where run: "process_rollback running_env ''e'' running_world = (Inr (), w')"
    and ev': "rollback_events w' = [ev']" "ev_id ev' = ''e''" "ev_status ev' = RB_SUCCEEDED"
    using process_running by blast
  have "\<exists>target \<in> set (snapshots running_world). snap_id target = ev_toSnapshotId demo_pending
      \<and> restored (ev_serviceId demo_pending) (snap_imageTag target) (ev_triggeredById demo_pending) w'"
    by (rule succeeded_rollback_restored [OF run, where ev' = ev'])
       (simp_all add: running_world_def demo_pending_def ev')
  with run show ?thesis by (auto simp: running_world_def demo_pending_def demo_snapshot_def)
qed

end
