(* ===== verification/Services.thy ===== *)
theory Services
  imports Hosts Rollback_Success
begin

section \<open>Services\<close>

text \<open>
  \<open>src/services/services.service.ts\<close>, its mapper and its three controllers. Looking a service
  up by organization is \<open>find_service_or_throw\<close> of \<open>Rollback\<close>.
\<close>

definition find_all_services_for_host :: "env \<Rightarrow> uuid \<Rightarrow> uuid \<Rightarrow> service list action" where
  "find_all_services_for_host E orgId hostId =
     andthen (find_host_or_throw E orgId hostId)
     (bind (repo_find E services (\<lambda>s. svc_hostId s = hostId)) (\<lambda>ss.
      ret (sort_key (\<lambda>s. text_rank E (svc_containerName s)) ss)))"

definition service_recent_logs :: "env \<Rightarrow> uuid \<Rightarrow> hc_log list action" where
  "service_recent_logs E serviceId = find_recent E [HE_SERVICE] serviceId RECENT_LOGS_LIMIT"

definition enqueue_service_check :: "env \<Rightarrow> uuid \<Rightarrow> uuid \<Rightarrow> string action" where
  "enqueue_service_check E orgId i =
     bind (find_service_or_throw E orgId i) (\<lambda>service. enqueue_host_check E orgId (svc_hostId service))"

record service_overview_counts =
  so_services_total :: nat
  so_running :: nat
  so_unhealthy :: nat
  so_stopped :: nat
  so_crash_loop :: nat
  so_services_unknown :: nat

definition service_overview :: "env \<Rightarrow> uuid \<Rightarrow> service_overview_counts action" where
  "service_overview E orgId =
     bind (repo_find E services (\<lambda>s. svc_orgId s = orgId)) (\<lambda>ss.
     let byStatus = tally svc_status ss in
     ret \<lparr>so_services_total = length ss, so_running = byStatus SS_RUNNING, so_unhealthy = byStatus SS_UNHEALTHY,
          so_stopped = byStatus SS_STOPPED, so_crash_loop = byStatus SS_CRASH_LOOP,
          so_services_unknown = byStatus SS_UNKNOWN\<rparr>)"

subsection \<open>Responses\<close>

record service_response =
  vr_id :: uuid
  vr_host_id :: uuid
  vr_container_id :: string
  vr_container_name :: string
  vr_image :: string
  vr_current_tag :: "string option"
  vr_status :: service_status
  vr_port_mappings :: "string option"
  vr_last_checked_at :: time
  vr_created_at :: time

record service_detail_response = service_response +
  vr_recent_logs :: "hc_log_response list"

definition to_service_response :: "service \<Rightarrow> service_response" where
  "to_service_response s = \<lparr>vr_id = svc_id s, vr_host_id = svc_hostId s, vr_container_id = svc_containerId s,
     vr_container_name = svc_containerName s, vr_image = svc_image s, vr_current_tag = svc_currentTag s,
     vr_status = svc_status s, vr_port_mappings = svc_portMappings s, vr_last_checked_at = svc_lastCheckedAt s,
     vr_created_at = svc_createdAt s\<rparr>"

definition to_service_detail_response :: "service \<Rightarrow> hc_log list \<Rightarrow> service_detail_response" where
  "to_service_detail_response s logs =
     service_response.extend (to_service_response s) (service_detail_response.fields (map to_hc_log_response logs))"

subsection \<open>Controllers\<close>

definition services_find_one :: "env \<Rightarrow> uuid \<Rightarrow> uuid \<Rightarrow> service_detail_response action" where
  "services_find_one E orgId i =
     bind (find_service_or_throw E orgId i) (\<lambda>service.
     bind (service_recent_logs E (svc_id service)) (\<lambda>logs. ret (to_service_detail_response service logs)))"

definition services_trigger_check :: "env \<Rightarrow> uuid \<Rightarrow> uuid \<Rightarrow> string action" where
  "services_trigger_check E orgId i = enqueue_service_check E orgId i"

definition host_services_find_all :: "env \<Rightarrow> uuid \<Rightarrow> uuid \<Rightarrow> service_response list action" where
  "host_services_find_all E orgId hostId =
     bind (find_all_services_for_host E orgId hostId) (\<lambda>ss. ret (map to_service_response ss))"

definition service_snapshots_find_history :: "env \<Rightarrow> uuid \<Rightarrow> uuid \<Rightarrow> snapshot_response list action" where
  "service_snapshots_find_history E orgId serviceId =
     bind (find_service_or_throw E orgId serviceId) (\<lambda>service.
     bind (find_history_for_service E (svc_id service)) (\<lambda>ss. ret (map to_snapshot_response ss)))"

end
