(* ===== verification/Domains.thy ===== *)
theory Domains
  imports Hosts
begin

section \<open>Domains\<close>

text \<open>
  \<open>src/domains/\<close>: registering a domain with its certificate row and first check, reading,
  removing and checking it at most once a minute, the counts of the overview, the responses
  and the controller's handlers.
\<close>

record create_domain_dto =
  cd_hostname :: string
  cd_host_id :: "uuid option"

definition create_domain_dto_valid :: "env \<Rightarrow> create_domain_dto \<Rightarrow> bool" where
  "create_domain_dto_valid E dto \<longleftrightarrow> is_fqdn E (cd_hostname dto)
     \<and> (case cd_host_id dto of None \<Rightarrow> True | Some i \<Rightarrow> is_uuid E i)"

subsection \<open>DomainsService\<close>

definition enqueue_domain_job :: "env \<Rightarrow> uuid \<Rightarrow> string action" where
  "enqueue_domain_job E domainId = queue_add E push_domain_job domainId"

definition insert_domain :: "env \<Rightarrow> uuid \<Rightarrow> create_domain_dto \<Rightarrow> domain action" where
  "insert_domain E orgId dto = repo_insert E domains (\<lambda>t w. w\<lparr>domains := t\<rparr>) dom_id domain_clash
     (\<lambda>i d. \<lparr>dom_id = i, dom_orgId = orgId, dom_hostId = cd_host_id dto, dom_hostname = cd_hostname dto,
             dom_registrar = None, dom_domainExpiresAt = None, dom_dnsStatus = DNS_UNKNOWN,
             dom_resolvedIp = None, dom_lastCheckedAt = None, dom_createdAt = d\<rparr>)"

definition insert_certificate :: "env \<Rightarrow> uuid \<Rightarrow> ssl_certificate action" where
  "insert_certificate E domainId = repo_insert E ssl_certificates (\<lambda>t w. w\<lparr>ssl_certificates := t\<rparr>) cert_id certificate_clash
     (\<lambda>i d. \<lparr>cert_id = i, cert_domainId = domainId, cert_issuer = None, cert_validFrom = None, cert_validTo = None,
             cert_status = SSL_UNKNOWN, cert_lastCheckedAt = None, cert_createdAt = d\<rparr>)"

text \<open>Three separate writes: the domain, its certificate row, its first job.\<close>

definition create_domain :: "env \<Rightarrow> uuid \<Rightarrow> create_domain_dto \<Rightarrow> (domain \<times> string) action" where
  "create_domain E orgId dto =
     andthen (case cd_host_id dto of
        Some hostId \<Rightarrow> if hostId \<noteq> [] then bind (find_host_or_throw E orgId hostId) (\<lambda>host. ret ()) else ret ()
      | None \<Rightarrow> ret ())
     (bind (repo_find_one E domains (\<lambda>d. dom_orgId d = orgId \<and> dom_hostname d = cd_hostname dto)) (\<lambda>existing.
      case existing of
        Some d \<Rightarrow> throw (ConflictException (''Domain '' @ cd_hostname dto @ '' is already registered for this organization''))
      | None \<Rightarrow>
          bind (insert_domain E orgId dto) (\<lambda>domain.
          bind (insert_certificate E (dom_id domain)) (\<lambda>cert.
          bind (enqueue_domain_job E (dom_id domain)) (\<lambda>jobId. ret (domain, jobId))))))"

definition certificate_status_of :: "ssl_certificate list \<Rightarrow> uuid \<Rightarrow> ssl_status" where
  "certificate_status_of certs domainId =
    (case map_of (rev (map (\<lambda>c. (cert_domainId c, cert_status c)) certs)) domainId of
       None \<Rightarrow> SSL_UNKNOWN | Some s \<Rightarrow> s)"

definition find_all_domains :: "env \<Rightarrow> uuid \<Rightarrow> (domain \<times> ssl_status) list action" where
  "find_all_domains E orgId =
     bind (repo_find E domains (\<lambda>d. dom_orgId d = orgId)) (\<lambda>found.
     let ds = sort_key (\<lambda>d. - dom_createdAt d) found in
     if ds = [] then ret []
     else bind (repo_find E ssl_certificates (\<lambda>c. cert_domainId c \<in> dom_id ` set ds)) (\<lambda>certs.
       ret (map (\<lambda>d. (d, certificate_status_of certs (dom_id d))) ds)))"

definition find_domain_or_throw :: "env \<Rightarrow> uuid \<Rightarrow> uuid \<Rightarrow> domain action" where
  "find_domain_or_throw E orgId i =
     bind (repo_find_one E domains (\<lambda>d. dom_id d = i \<and> dom_orgId d = orgId)) (\<lambda>found.
     case found of
       None \<Rightarrow> throw (NotFoundException (''Domain '' @ i @ '' not found''))
     | Some domain \<Rightarrow> ret domain)"

definition get_certificate_or_throw :: "env \<Rightarrow> uuid \<Rightarrow> ssl_certificate action" where
  "get_certificate_or_throw E domainId =
     bind (repo_find_one E ssl_certificates (\<lambda>c. cert_domainId c = domainId)) (\<lambda>found.
     case found of
       None \<Rightarrow> throw (NotFoundException (''SSL certificate record for domain '' @ domainId @ '' not found''))
     | Some cert \<Rightarrow> ret cert)"

definition domain_recent_logs :: "env \<Rightarrow> uuid \<Rightarrow> hc_log list action" where
  "domain_recent_logs E domainId = find_recent E [HE_DOMAIN, HE_SSL_CERTIFICATE] domainId RECENT_LOGS_LIMIT"

definition delete_domain :: "uuid \<Rightarrow> world \<Rightarrow> world" where
  "delete_domain i w = w\<lparr>domains := filter (\<lambda>d. dom_id d \<noteq> i) (domains w),
     ssl_certificates := filter (\<lambda>c. cert_domainId c \<noteq> i) (ssl_certificates w)\<rparr>"

definition remove_domain :: "env \<Rightarrow> uuid \<Rightarrow> uuid \<Rightarrow> unit action" where
  "remove_domain E orgId i =
     bind (find_domain_or_throw E orgId i) (\<lambda>domain. repo E (\<lambda>w. (Inr (), delete_domain (dom_id domain) w)))"

definition domain_check_key :: "uuid \<Rightarrow> string" where
  "domain_check_key i = ''domain-check:'' @ i"

definition enqueue_domain_check :: "env \<Rightarrow> uuid \<Rightarrow> uuid \<Rightarrow> string action" where
  "enqueue_domain_check E orgId i =
     andthen (find_domain_or_throw E orgId i)
     (bind (try_acquire E (domain_check_key i) DOMAIN_CHECK_RATE_LIMIT_WINDOW_SECONDS) (\<lambda>acquired.
      if \<not> acquired
      then throw (HttpException 429 (''Domain '' @ i @ '' was checked too recently; try again in under a minute''))
      else enqueue_domain_job E i))"

record domain_overview_counts =
  dc_domains_total :: nat
  dc_ssl_valid :: nat
  dc_ssl_expiring_soon :: nat
  dc_ssl_expired :: nat
  dc_ssl_invalid :: nat
  dc_domains_not_resolving :: nat

definition domain_overview :: "env \<Rightarrow> uuid \<Rightarrow> domain_overview_counts action" where
  "domain_overview E orgId =
     bind (repo_find E domains (\<lambda>d. dom_orgId d = orgId)) (\<lambda>ds.
     if ds = [] then ret \<lparr>dc_domains_total = 0, dc_ssl_valid = 0, dc_ssl_expiring_soon = 0, dc_ssl_expired = 0,
       dc_ssl_invalid = 0, dc_domains_not_resolving = 0\<rparr>
     else bind (repo_find E ssl_certificates (\<lambda>c. cert_domainId c \<in> dom_id ` set ds)) (\<lambda>certs.
       let bySslStatus = tally cert_status certs in
       ret \<lparr>dc_domains_total = length ds, dc_ssl_valid = bySslStatus SSL_VALID,
            dc_ssl_expiring_soon = bySslStatus SSL_EXPIRING_SOON, dc_ssl_expired = bySslStatus SSL_EXPIRED,
            dc_ssl_invalid = bySslStatus SSL_INVALID,
            dc_domains_not_resolving = length (filter (\<lambda>d. dom_dnsStatus d = DNS_NOT_RESOLVING) ds)\<rparr>))"

subsection \<open>Responses\<close>

record ssl_certificate_response =
  sc_status :: ssl_status
  sc_issuer :: "string option"
  sc_valid_from :: "js_date option"
  sc_valid_to :: "js_date option"
  sc_last_checked_at :: "time option"

record domain_response =
  or_id :: uuid
  or_hostname :: string
  or_host_id :: "uuid option"
  or_registrar :: "string option"
  or_domain_expires_at :: "time option"
  or_dns_status :: dns_status
  or_resolved_ip :: "string option"
  or_ssl_status :: ssl_status
  or_last_checked_at :: "time option"
  or_created_at :: time

record domain_detail_response =
  od_id :: uuid
  od_hostname :: string
  od_host_id :: "uuid option"
  od_registrar :: "string option"
  od_domain_expires_at :: "time option"
  od_dns_status :: dns_status
  od_resolved_ip :: "string option"
  od_last_checked_at :: "time option"
  od_created_at :: time
  od_ssl_certificate :: ssl_certificate_response
  od_recent_logs :: "hc_log_response list"

definition to_ssl_certificate_response :: "ssl_certificate \<Rightarrow> ssl_certificate_response" where
  "to_ssl_certificate_response c = \<lparr>sc_status = cert_status c, sc_issuer = cert_issuer c, sc_valid_from = cert_validFrom c,
     sc_valid_to = cert_validTo c, sc_last_checked_at = cert_lastCheckedAt c\<rparr>"

definition to_domain_response :: "domain \<Rightarrow> ssl_status \<Rightarrow> domain_response" where
  "to_domain_response d sslStatus = \<lparr>or_id = dom_id d, or_hostname = dom_hostname d, or_host_id = dom_hostId d,
     or_registrar = dom_registrar d, or_domain_expires_at = dom_domainExpiresAt d, or_dns_status = dom_dnsStatus d,
     or_resolved_ip = dom_resolvedIp d, or_ssl_status = sslStatus, or_last_checked_at = dom_lastCheckedAt d,
     or_created_at = dom_createdAt d\<rparr>"

definition to_domain_detail_response :: "domain \<Rightarrow> ssl_certificate \<Rightarrow> hc_log list \<Rightarrow> domain_detail_response" where
  "to_domain_detail_response d cert logs = \<lparr>od_id = dom_id d, od_hostname = dom_hostname d, od_host_id = dom_hostId d,
     od_registrar = dom_registrar d, od_domain_expires_at = dom_domainExpiresAt d, od_dns_status = dom_dnsStatus d,
     od_resolved_ip = dom_resolvedIp d, od_last_checked_at = dom_lastCheckedAt d, od_created_at = dom_createdAt d,
     od_ssl_certificate = to_ssl_certificate_response cert, od_recent_logs = map to_hc_log_response logs\<rparr>"

subsection \<open>DomainsController\<close>

definition domains_create :: "env \<Rightarrow> uuid \<Rightarrow> create_domain_dto \<Rightarrow> domain_response action" where
  "domains_create E orgId dto =
     bind (create_domain E orgId dto) (\<lambda>(domain, jobId).
     bind (get_certificate_or_throw E (dom_id domain)) (\<lambda>cert.
     ret (to_domain_response domain (cert_status cert))))"

definition domains_find_all :: "env \<Rightarrow> uuid \<Rightarrow> domain_response list action" where
  "domains_find_all E orgId =
     bind (find_all_domains E orgId) (\<lambda>rows. ret (map (\<lambda>(d, s). to_domain_response d s) rows))"

definition domains_find_one :: "env \<Rightarrow> uuid \<Rightarrow> uuid \<Rightarrow> domain_detail_response action" where
  "domains_find_one E orgId i =
     bind (find_domain_or_throw E orgId i) (\<lambda>domain.
     bind (get_certificate_or_throw E (dom_id domain)) (\<lambda>cert.
     bind (domain_recent_logs E (dom_id domain)) (\<lambda>logs.
     ret (to_domain_detail_response domain cert logs))))"

definition domains_trigger_check :: "env \<Rightarrow> uuid \<Rightarrow> uuid \<Rightarrow> string action" where
  "domains_trigger_check E orgId i = enqueue_domain_check E orgId i"

end
