(* ===== verification/Insights.thy ===== *)
theory Insights
  imports Services Domains
begin

section \<open>Insights and the overview\<close>

text \<open>
  \<open>src/insights/\<close>: idle hosts, orphaned domains and orphaned hosts, computed from the tables, and
  the daily job that alerts once when an entity begins to match; \<open>src/overview/\<close>: all counts
  in one response. \<open>Promise.all\<close> of reading calls is modelled in the order of its array.
\<close>

definition INSIGHTS_QUEUE :: string where "INSIGHTS_QUEUE = ''insights''"
definition INSIGHTS_TICK_JOB :: string where "INSIGHTS_TICK_JOB = ''run-insights-check''"
definition INSIGHTS_REPEATABLE_JOB_ID :: string where "INSIGHTS_REPEATABLE_JOB_ID = ''insights-daily''"
definition IDLE_HOST_MIN_AGE_HOURS :: int where "IDLE_HOST_MIN_AGE_HOURS = 24"

fun insight_condition :: "insight_flag \<Rightarrow> string" where
  "insight_condition IDLE_HOST = ''system:idle_host_detected''"
| "insight_condition ORPHANED_DOMAIN = ''system:orphan_detected''"
| "insight_condition ORPHANED_HOST = ''system:orphan_detected''"

text \<open>An optional \<open>orgId\<close> filter: \<open>if (orgId) where.orgId = orgId\<close>.\<close>

definition in_org :: "uuid option \<Rightarrow> uuid \<Rightarrow> bool" where
  "in_org orgId rowOrg = (case orgId of None \<Rightarrow> True | Some i \<Rightarrow> i = [] \<or> rowOrg = i)"

subsection \<open>The heuristics\<close>

definition compute_idle_hosts :: "env \<Rightarrow> uuid option \<Rightarrow> host list action" where
  "compute_idle_hosts E orgId =
     bind (now E) (\<lambda>t.
     let cutoff = t - IDLE_HOST_MIN_AGE_HOURS * 60 * 60 * 1000 in
     bind (repo_find E hosts (\<lambda>h. host_status h = HS_HEALTHY \<and> host_createdAt h < cutoff \<and> in_org orgId (host_orgId h)))
       (\<lambda>candidates.
     if candidates = [] then ret []
     else bind (repo_find E services (\<lambda>s. svc_hostId s \<in> host_id ` set candidates \<and> svc_status s = SS_RUNNING))
       (\<lambda>runningServices.
     let hostsWithRunningServices = svc_hostId ` set runningServices in
     ret (filter (\<lambda>h. host_id h \<notin> hostsWithRunningServices) candidates))))"

definition compute_orphaned_domains :: "env \<Rightarrow> uuid option \<Rightarrow> domain list action" where
  "compute_orphaned_domains E orgId =
     bind (repo_find E domains (\<lambda>d. in_org orgId (dom_orgId d))) (\<lambda>ds.
     if ds = [] then ret []
     else bind (repo_find E hosts (\<lambda>_. True)) (\<lambda>hs.
     let knownHostIps = host_ipAddress ` set hs in
     ret (filter (\<lambda>d. dom_hostId d = None
       \<or> (case dom_resolvedIp d of None \<Rightarrow> False | Some ip \<Rightarrow> ip \<notin> knownHostIps)) ds)))"

definition compute_orphaned_hosts :: "env \<Rightarrow> uuid option \<Rightarrow> host list action" where
  "compute_orphaned_hosts E orgId =
     bind (repo_find E hosts (\<lambda>h. in_org orgId (host_orgId h))) (\<lambda>hs.
     if hs = [] then ret []
     else bind (repo_find E domains (\<lambda>d. dom_hostId d \<noteq> None)) (\<lambda>domainsWithHost.
     let referencedHostIds = dom_hostId ` set domainsWithHost in
     ret (filter (\<lambda>h. Some (host_id h) \<notin> referencedHostIds) hs)))"

record org_insights =
  oi_idleHosts :: "host list"
  oi_orphanedDomains :: "domain list"
  oi_orphanedHosts :: "host list"

definition get_insights_for_org :: "env \<Rightarrow> uuid \<Rightarrow> org_insights action" where
  "get_insights_for_org E orgId =
     bind (compute_idle_hosts E (Some orgId)) (\<lambda>idleHosts.
     bind (compute_orphaned_domains E (Some orgId)) (\<lambda>orphanedDomains.
     bind (compute_orphaned_hosts E (Some orgId)) (\<lambda>orphanedHosts.
     ret \<lparr>oi_idleHosts = idleHosts, oi_orphanedDomains = orphanedDomains, oi_orphanedHosts = orphanedHosts\<rparr>)))"

subsection \<open>The daily job\<close>

text \<open>
  The unique index on entity and flag. TypeORM writes a saved row, and its update date, only
  when a column changed.
\<close>

definition insight_clash :: "insight_state \<Rightarrow> insight_state \<Rightarrow> bool" where
  "insight_clash a b \<longleftrightarrow> ins_entityId a = ins_entityId b \<and> ins_flag a = ins_flag b"

definition upsert_flag :: "env \<Rightarrow> uuid \<Rightarrow> insight_flag \<Rightarrow> bool \<Rightarrow> unit action" where
  "upsert_flag E entityId flag active =
     bind (repo_find_one E insight_states (\<lambda>s. ins_entityId s = entityId \<and> ins_flag s = flag)) (\<lambda>found.
     case found of
       None \<Rightarrow> bind (repo_insert E insight_states (\<lambda>t w. w\<lparr>insight_states := t\<rparr>) ins_id insight_clash
         (\<lambda>i d. \<lparr>ins_id = i, ins_entityId = entityId, ins_flag = flag, ins_active = active, ins_updatedAt = d\<rparr>))
         (\<lambda>_. ret ())
     | Some state \<Rightarrow>
         bind (now E) (\<lambda>t.
         bind (repo_save E insight_states (\<lambda>t w. w\<lparr>insight_states := t\<rparr>) ins_id insight_clash
           (state\<lparr>ins_active := active, ins_updatedAt := (if ins_active state = active then ins_updatedAt state else t)\<rparr>))
         (\<lambda>_. ret ())))"

definition evaluate_flag_transitions :: "env \<Rightarrow> ('e \<Rightarrow> uuid) \<Rightarrow> ('e \<Rightarrow> uuid) \<Rightarrow> insight_flag \<Rightarrow> 'e list \<Rightarrow> ('e \<Rightarrow> string)
    \<Rightarrow> unit action" where
  "evaluate_flag_transitions E eid eorg flag currentlyMatching build_message =
    (let currentIds = eid ` set currentlyMatching in
     bind (repo_find E insight_states (\<lambda>s. ins_flag s = flag \<and> ins_active s)) (\<lambda>previousStates.
     let previouslyActiveIds = ins_entityId ` set previousStates in
     andthen
       (for_each currentlyMatching (\<lambda>entity.
          andthen (do_when (eid entity \<notin> previouslyActiveIds)
            (evaluate_direct_condition E \<lparr>ci_orgId = eorg entity, ci_entityType = AE_SYSTEM, ci_entityId = eid entity,
               ci_condition = insight_condition flag, ci_message = build_message entity\<rparr>))
          (upsert_flag E (eid entity) flag True)))
       (for_each (filter (\<lambda>s. ins_entityId s \<notin> currentIds) previousStates) (\<lambda>s.
          upsert_flag E (ins_entityId s) flag False))))"

definition idle_host_message :: "host \<Rightarrow> string" where
  "idle_host_message h = ''Host \"'' @ host_name h @ ''\" appears idle: healthy, zero running containers, registered over ''
     @ show_number (Some IDLE_HOST_MIN_AGE_HOURS) @ ''h ago''"

definition orphaned_domain_message :: "domain \<Rightarrow> string" where
  "orphaned_domain_message d =
    (if dom_hostId d = None then ''Domain \"'' @ dom_hostname d @ ''\" has no host linked''
     else ''Domain \"'' @ dom_hostname d @ ''\" resolves to ''
       @ (case dom_resolvedIp d of None \<Rightarrow> ''null'' | Some ip \<Rightarrow> ip) @ '', which matches no registered host'')"

definition orphaned_host_message :: "host \<Rightarrow> string" where
  "orphaned_host_message h = ''Host \"'' @ host_name h @ ''\" has no domain pointing at it''"

definition evaluate_idle_hosts :: "env \<Rightarrow> unit action" where
  "evaluate_idle_hosts E =
     bind (compute_idle_hosts E None) (\<lambda>hs. evaluate_flag_transitions E host_id host_orgId IDLE_HOST hs idle_host_message)"

definition evaluate_orphaned_domains :: "env \<Rightarrow> unit action" where
  "evaluate_orphaned_domains E =
     bind (compute_orphaned_domains E None) (\<lambda>ds.
       evaluate_flag_transitions E dom_id dom_orgId ORPHANED_DOMAIN ds orphaned_domain_message)"

definition evaluate_orphaned_hosts :: "env \<Rightarrow> unit action" where
  "evaluate_orphaned_hosts E =
     bind (compute_orphaned_hosts E None) (\<lambda>hs.
       evaluate_flag_transitions E host_id host_orgId ORPHANED_HOST hs orphaned_host_message)"

definition run_daily_check :: "env \<Rightarrow> unit action" where
  "run_daily_check E = andthen (evaluate_idle_hosts E) (andthen (evaluate_orphaned_domains E) (evaluate_orphaned_hosts E))"

definition process_insights :: "env \<Rightarrow> unit action" where
  "process_insights E = run_daily_check E"

subsection \<open>Responses\<close>

record idle_host_dto =
  ih_id :: uuid
  ih_name :: string
  ih_ip_address :: string
  ih_last_checked_at :: "time option"
  ih_created_at :: time

record orphaned_domain_dto =
  qd_id :: uuid
  qd_hostname :: string
  qd_host_id :: "uuid option"
  qd_resolved_ip :: "string option"

record orphaned_host_dto =
  qh_id :: uuid
  qh_name :: string
  qh_ip_address :: string

record insights_response =
  ir_idle_hosts :: "idle_host_dto list"
  ir_orphaned_domains :: "orphaned_domain_dto list"
  ir_orphaned_hosts :: "orphaned_host_dto list"

definition to_idle_host_dto :: "host \<Rightarrow> idle_host_dto" where
  "to_idle_host_dto h = \<lparr>ih_id = host_id h, ih_name = host_name h, ih_ip_address = host_ipAddress h,
     ih_last_checked_at = host_lastCheckedAt h, ih_created_at = host_createdAt h\<rparr>"

definition to_orphaned_domain_dto :: "domain \<Rightarrow> orphaned_domain_dto" where
  "to_orphaned_domain_dto d = \<lparr>qd_id = dom_id d, qd_hostname = dom_hostname d, qd_host_id = dom_hostId d,
     qd_resolved_ip = dom_resolvedIp d\<rparr>"

definition to_orphaned_host_dto :: "host \<Rightarrow> orphaned_host_dto" where
  "to_orphaned_host_dto h = \<lparr>qh_id = host_id h, qh_name = host_name h, qh_ip_address = host_ipAddress h\<rparr>"

definition get_insights :: "env \<Rightarrow> uuid \<Rightarrow> insights_response action" where
  "get_insights E orgId =
     bind (get_insights_for_org E orgId) (\<lambda>r.
     ret \<lparr>ir_idle_hosts = map to_idle_host_dto (oi_idleHosts r),
          ir_orphaned_domains = map to_orphaned_domain_dto (oi_orphanedDomains r),
          ir_orphaned_hosts = map to_orphaned_host_dto (oi_orphanedHosts r)\<rparr>)"

text \<open>The overview: the three services' counts side by side, and the lengths of the insight lists.\<close>

record overview_response =
  ov_hosts :: host_overview_counts
  ov_domains :: domain_overview_counts
  ov_services :: service_overview_counts
  ov_idle_hosts_count :: nat
  ov_orphaned_domains_count :: nat
  ov_orphaned_hosts_count :: nat

definition get_overview :: "env \<Rightarrow> uuid \<Rightarrow> overview_response action" where
  "get_overview E orgId =
     bind (host_overview E orgId) (\<lambda>hostCounts.
     bind (domain_overview E orgId) (\<lambda>domainCounts.
     bind (service_overview E orgId) (\<lambda>serviceCounts.
     bind (get_insights_for_org E orgId) (\<lambda>insights.
     ret \<lparr>ov_hosts = hostCounts, ov_domains = domainCounts, ov_services = serviceCounts,
          ov_idle_hosts_count = length (oi_idleHosts insights),
          ov_orphaned_domains_count = length (oi_orphanedDomains insights),
          ov_orphaned_hosts_count = length (oi_orphanedHosts insights)\<rparr>))))"

subsection \<open>What the overview counts\<close>

definition host_is_idle :: "world \<Rightarrow> time \<Rightarrow> host \<Rightarrow> bool" where
  "host_is_idle w t h \<longleftrightarrow> host_status h = HS_HEALTHY \<and> host_createdAt h < t - 86400000
     \<and> (\<forall>s \<in> set (services w). svc_hostId s = host_id h \<longrightarrow> svc_status s \<noteq> SS_RUNNING)"

definition domain_is_orphaned :: "world \<Rightarrow> domain \<Rightarrow> bool" where
  "domain_is_orphaned w d \<longleftrightarrow> dom_hostId d = None
     \<or> (\<exists>ip. dom_resolvedIp d = Some ip \<and> (\<forall>h \<in> set (hosts w). host_ipAddress h \<noteq> ip))"

definition host_is_orphaned :: "world \<Rightarrow> host \<Rightarrow> bool" where
  "host_is_orphaned w h \<longleftrightarrow> (\<forall>d \<in> set (domains w). dom_hostId d \<noteq> Some (host_id h))"

lemma filter_Nil: "filter p xs = [] \<Longrightarrow> filter (\<lambda>x. q x \<and> p x) xs = []"
  by (auto simp: filter_empty_conv)

text \<open>Each heuristic reads: what it answers, and that it changes nothing.\<close>

lemma compute_idle_hosts_Inr:
  assumes "compute_idle_hosts E orgId w = (Inr hs, w')"
  shows "hs = filter (\<lambda>h. host_is_idle w (clock E (steps w)) h \<and> in_org orgId (host_orgId h)) (hosts w)
     \<and> core_view w' = core_view w"
proof -
  let ?c = "\<lambda>h. host_status h = HS_HEALTHY \<and> host_createdAt h < clock E (steps w) - 86400000 \<and> in_org orgId (host_orgId h)"
  let ?run = "\<lambda>s. svc_hostId s \<in> host_id ` set (filter ?c (hosts w)) \<and> svc_status s = SS_RUNNING"
  have "filter (\<lambda>h. host_id h \<notin> svc_hostId ` set (filter ?run (services w))) (filter ?c (hosts w))
      = filter (\<lambda>h. host_is_idle w (clock E (steps w)) h \<and> in_org orgId (host_orgId h)) (hosts w)"
    unfolding filter_filter by (rule filter_cong) (auto simp: host_is_idle_def image_iff)
  moreover have "filter ?c (hosts w) = [] \<Longrightarrow>
      filter (\<lambda>h. host_is_idle w (clock E (steps w)) h \<and> in_org orgId (host_orgId h)) (hosts w) = []"
    by (auto simp: filter_empty_conv host_is_idle_def)
  ultimately show ?thesis
    using assms
    by (auto simp: compute_idle_hosts_def now_def Let_def IDLE_HOST_MIN_AGE_HOURS_def ret_def
        elim!: bind_InrE dest!: repo_find_Inr split: if_splits)
qed

lemma core_view_eqD:
  assumes "core_view w' = core_view w"
  shows "hosts w' = hosts w" "services w' = services w" "domains w' = domains w"
    "ssl_certificates w' = ssl_certificates w" "insight_states w' = insight_states w"
  using arg_cong [OF assms, of hosts] arg_cong [OF assms, of services] arg_cong [OF assms, of domains]
    arg_cong [OF assms, of ssl_certificates] arg_cong [OF assms, of insight_states] by simp_all

lemma compute_orphaned_domains_Inr:
  assumes "compute_orphaned_domains E orgId w = (Inr ds, w')"
  shows "ds = filter (\<lambda>d. domain_is_orphaned w d \<and> in_org orgId (dom_orgId d)) (domains w) \<and> core_view w' = core_view w"
proof -
  let ?o = "\<lambda>d. dom_hostId d = None \<or> (case dom_resolvedIp d of None \<Rightarrow> False | Some ip \<Rightarrow> ip \<notin> host_ipAddress ` set (hosts w))"
  have "filter ?o (filter (\<lambda>d. in_org orgId (dom_orgId d)) (domains w))
      = filter (\<lambda>d. domain_is_orphaned w d \<and> in_org orgId (dom_orgId d)) (domains w)"
    unfolding filter_filter
    by (rule filter_cong) (auto simp: domain_is_orphaned_def image_iff split: option.splits)
  moreover have "filter (\<lambda>d. in_org orgId (dom_orgId d)) (domains w) = [] \<Longrightarrow>
      filter (\<lambda>d. domain_is_orphaned w d \<and> in_org orgId (dom_orgId d)) (domains w) = []"
    by (auto simp: filter_empty_conv)
  ultimately show ?thesis
    using assms
    by (auto simp: compute_orphaned_domains_def Let_def ret_def elim!: bind_InrE dest!: repo_find_Inr split: if_splits
        cong: option.case_cong)
qed

lemma compute_orphaned_hosts_Inr:
  assumes "compute_orphaned_hosts E orgId w = (Inr hs, w')"
  shows "hs = filter (\<lambda>h. host_is_orphaned w h \<and> in_org orgId (host_orgId h)) (hosts w) \<and> core_view w' = core_view w"
proof -
  let ?o = "\<lambda>h. Some (host_id h) \<notin> dom_hostId ` set (filter (\<lambda>d. dom_hostId d \<noteq> None) (domains w))"
  have "filter ?o (filter (\<lambda>h. in_org orgId (host_orgId h)) (hosts w))
      = filter (\<lambda>h. host_is_orphaned w h \<and> in_org orgId (host_orgId h)) (hosts w)"
    unfolding filter_filter by (rule filter_cong) (force simp: host_is_orphaned_def image_iff)+
  moreover have "filter (\<lambda>h. in_org orgId (host_orgId h)) (hosts w) = [] \<Longrightarrow>
      filter (\<lambda>h. host_is_orphaned w h \<and> in_org orgId (host_orgId h)) (hosts w) = []"
    by (auto simp: filter_empty_conv)
  ultimately show ?thesis
    using assms
    by (auto simp: compute_orphaned_hosts_def Let_def ret_def elim!: bind_InrE dest!: repo_find_Inr split: if_splits)
qed

lemma compute_resolves:
  assumes "no_db_fault E"
  shows "\<exists>hs w'. compute_idle_hosts E orgId w = (Inr hs, w')"
    and "\<exists>ds w'. compute_orphaned_domains E orgId w = (Inr ds, w')"
    and "\<exists>hs w'. compute_orphaned_hosts E orgId w = (Inr hs, w')"
  using assms
  by (auto simp: compute_idle_hosts_def compute_orphaned_domains_def compute_orphaned_hosts_def prog_simps now_def
      repo_find_ok Let_def)

lemma host_heuristics_core:
  "core_view w' = core_view w \<Longrightarrow> host_is_idle w' t = host_is_idle w t \<and> domain_is_orphaned w' = domain_is_orphaned w
     \<and> host_is_orphaned w' = host_is_orphaned w"
  by (frule core_view_eqD(1), frule core_view_eqD(2), drule core_view_eqD(3))
     (simp add: fun_eq_iff host_is_idle_def domain_is_orphaned_def host_is_orphaned_def)

lemma get_insights_for_org_ok:
  assumes "no_db_fault E" "orgId \<noteq> []"
  shows "\<exists>w'. get_insights_for_org E orgId w =
     (Inr \<lparr>oi_idleHosts = filter (\<lambda>h. host_orgId h = orgId \<and> host_is_idle w (clock E (steps w)) h) (hosts w),
           oi_orphanedDomains = filter (\<lambda>d. dom_orgId d = orgId \<and> domain_is_orphaned w d) (domains w),
           oi_orphanedHosts = filter (\<lambda>h. host_orgId h = orgId \<and> host_is_orphaned w h) (hosts w)\<rparr>, w')"
proof -
  obtain hs u where u: "compute_idle_hosts E (Some orgId) w = (Inr hs, u)"
    using compute_resolves(1) [OF assms(1)] by blast
  obtain ds v where v: "compute_orphaned_domains E (Some orgId) u = (Inr ds, v)"
    using compute_resolves(2) [OF assms(1)] by blast
  obtain os x where x: "compute_orphaned_hosts E (Some orgId) v = (Inr os, x)"
    using compute_resolves(3) [OF assms(1)] by blast
  note r = compute_idle_hosts_Inr [OF u] compute_orphaned_domains_Inr [OF v] compute_orphaned_hosts_Inr [OF x]
  then have cu: "core_view u = core_view w" and cv: "core_view v = core_view w" by simp_all
  show ?thesis
    using r u v x assms(2) core_view_eqD [OF cu] core_view_eqD [OF cv] host_heuristics_core [OF cu] host_heuristics_core [OF cv]
    by (simp add: get_insights_for_org_def bind_def ret_def in_org_def conj_commute)
qed

text \<open>The number of rows with a property.\<close>

abbreviation (input) count_rows :: "('r \<Rightarrow> bool) \<Rightarrow> 'r list \<Rightarrow> nat" where
  "count_rows p xs \<equiv> length (filter p xs)"

lemma host_status_partition:
  "length xs = count_rows (\<lambda>h. host_status h = HS_HEALTHY) xs + count_rows (\<lambda>h. host_status h = HS_DEGRADED) xs
     + count_rows (\<lambda>h. host_status h = HS_UNREACHABLE) xs + count_rows (\<lambda>h. host_status h = HS_UNKNOWN) xs
     + count_rows (\<lambda>h. host_status h = HS_PENDING_SETUP) xs"
proof (induction xs)
  case (Cons h xs)
  then show ?case by (cases "host_status h") simp_all
qed simp

lemma service_status_partition:
  "length xs = count_rows (\<lambda>s. svc_status s = SS_RUNNING) xs + count_rows (\<lambda>s. svc_status s = SS_UNHEALTHY) xs
     + count_rows (\<lambda>s. svc_status s = SS_STOPPED) xs + count_rows (\<lambda>s. svc_status s = SS_CRASH_LOOP) xs
     + count_rows (\<lambda>s. svc_status s = SS_UNKNOWN) xs"
proof (induction xs)
  case (Cons s xs)
  then show ?case by (cases "svc_status s") simp_all
qed simp

lemma domain_overview_ok:
  assumes "no_db_fault E"
  shows "\<exists>c w'. domain_overview E orgId w = (Inr c, w') \<and> core_view w' = core_view w
    \<and> dc_domains_total c = count_rows (\<lambda>d. dom_orgId d = orgId) (domains w)
    \<and> dc_domains_not_resolving c = count_rows (\<lambda>d. dom_orgId d = orgId \<and> dom_dnsStatus d = DNS_NOT_RESOLVING) (domains w)
    \<and> dc_ssl_expired c = count_rows (\<lambda>k. cert_domainId k \<in> dom_id ` {d \<in> set (domains w). dom_orgId d = orgId}
         \<and> cert_status k = SSL_EXPIRED) (ssl_certificates w)"
proof (cases "filter (\<lambda>d. dom_orgId d = orgId) (domains w) = []")
  case True
  then have none: "d \<in> set (domains w) \<Longrightarrow> dom_orgId d \<noteq> orgId" for d by (auto simp: filter_empty_conv)
  then have "count_rows (\<lambda>d. dom_orgId d = orgId \<and> dom_dnsStatus d = DNS_NOT_RESOLVING) (domains w) = 0"
    "filter (\<lambda>k. cert_domainId k \<in> dom_id ` {d \<in> set (domains w). dom_orgId d = orgId}
       \<and> cert_status k = SSL_EXPIRED) (ssl_certificates w) = []"
    by (auto simp: filter_empty_conv)
  then show ?thesis
    using True assms by (simp add: domain_overview_def prog_simps repo_find_ok core_view_def)
next
  case False
  then show ?thesis
    using assms
    by (auto simp: domain_overview_def prog_simps repo_find_ok core_view_def Let_def tally_count)
qed


text \<open>
  The overview is consistent: without database faults it is answered, each group of counts
  adds up to its total, the totals are the numbers of rows of the organization, and the three
  insight counts are the numbers of hosts and domains of the organization that are idle or
  orphaned at that moment.
\<close>

lemma get_overview_consistent:
  assumes "no_db_fault E" "orgId \<noteq> []"
  shows "\<exists>r w' t. get_overview E orgId w = (Inr r, w')
    \<and> oc_total_hosts (ov_hosts r) = count_rows (\<lambda>h. host_orgId h = orgId) (hosts w)
    \<and> oc_total_hosts (ov_hosts r) = oc_healthy (ov_hosts r) + oc_degraded (ov_hosts r) + oc_unreachable (ov_hosts r)
        + oc_unknown (ov_hosts r) + oc_pending_setup (ov_hosts r)
    \<and> so_services_total (ov_services r) = count_rows (\<lambda>s. svc_orgId s = orgId) (services w)
    \<and> so_services_total (ov_services r) = so_running (ov_services r) + so_unhealthy (ov_services r)
        + so_stopped (ov_services r) + so_crash_loop (ov_services r) + so_services_unknown (ov_services r)
    \<and> dc_domains_total (ov_domains r) = count_rows (\<lambda>d. dom_orgId d = orgId) (domains w)
    \<and> ov_idle_hosts_count r = count_rows (\<lambda>h. host_orgId h = orgId \<and> host_is_idle w t h) (hosts w)
    \<and> ov_orphaned_domains_count r = count_rows (\<lambda>d. dom_orgId d = orgId \<and> domain_is_orphaned w d) (domains w)
    \<and> ov_orphaned_hosts_count r = count_rows (\<lambda>h. host_orgId h = orgId \<and> host_is_orphaned w h) (hosts w)"
proof -
  let ?hs = "filter (\<lambda>h. host_orgId h = orgId) (hosts w)" and ?ss = "filter (\<lambda>s. svc_orgId s = orgId) (services w)"
  obtain c u where c: "domain_overview E orgId (tick w) = (Inr c, u)" "core_view u = core_view w"
      "dc_domains_total c = count_rows (\<lambda>d. dom_orgId d = orgId) (domains w)"
    using domain_overview_ok [OF assms(1), of orgId "tick w"] by auto
  note same = core_view_eqD [OF c(2)]
  have idle: "host_is_idle (tick u) = host_is_idle w" "domain_is_orphaned (tick u) = domain_is_orphaned w"
      "host_is_orphaned (tick u) = host_is_orphaned w"
    by (simp_all add: fun_eq_iff host_is_idle_def domain_is_orphaned_def host_is_orphaned_def same)
  obtain x where x: "get_insights_for_org E orgId (tick u) =
     (Inr \<lparr>oi_idleHosts = filter (\<lambda>h. host_orgId h = orgId \<and> host_is_idle w (clock E (Suc (steps u))) h) (hosts w),
           oi_orphanedDomains = filter (\<lambda>d. dom_orgId d = orgId \<and> domain_is_orphaned w d) (domains w),
           oi_orphanedHosts = filter (\<lambda>h. host_orgId h = orgId \<and> host_is_orphaned w h) (hosts w)\<rparr>, x)"
    using get_insights_for_org_ok [OF assms, of "tick u"] by (auto simp: idle same)
  show ?thesis
    using host_status_partition [of ?hs] service_status_partition [of ?ss] c x
    by (auto simp: get_overview_def host_overview_def service_overview_def prog_simps repo_find_ok assms(1) Let_def
        tally_count same)
qed

lemma get_overview_consistent_witness:
  "\<exists>r w'. get_overview demo_env ''org'' (empty_world\<lparr>hosts := [demo_host]\<rparr>) = (Inr r, w') \<and> oc_total_hosts (ov_hosts r) = 1"
  using get_overview_consistent [OF demo_env_ok(2), of "''org''" "empty_world\<lparr>hosts := [demo_host]\<rparr>"]
  by (auto simp: demo_host_def)

end
