(* ===== verification/Cloud_Accounts.thy ===== *)
theory Cloud_Accounts
  imports Hosts
begin

section \<open>Cloud accounts\<close>

text \<open>
  \<open>src/cloud-accounts/\<close>: at most one stored API key per organization and provider, encrypted
  like the SSH keys, and a listing of every provider with its connection state.
\<close>

definition cloud_providers :: "cloud_provider list" where
  "cloud_providers = [VERCEL, RENDER, CP_AWS, CP_AZURE, GCP, CP_OVH, CLOUDFLARE]"

fun provider_label :: "cloud_provider \<Rightarrow> string" where
  "provider_label VERCEL = ''Vercel''"
| "provider_label RENDER = ''Render''"
| "provider_label CP_AWS = ''AWS''"
| "provider_label CP_AZURE = ''Azure''"
| "provider_label GCP = ''Google Cloud''"
| "provider_label CP_OVH = ''OVHcloud''"
| "provider_label CLOUDFLARE = ''Cloudflare''"

definition cloud_account_clash :: "cloud_account \<Rightarrow> cloud_account \<Rightarrow> bool" where
  "cloud_account_clash a b \<longleftrightarrow> ca_orgId a = ca_orgId b \<and> ca_provider a = ca_provider b"

record connect_cloud_account_dto =
  cc_provider :: cloud_provider
  cc_label :: string
  cc_apiKey :: string

definition connect_dto_valid :: "connect_cloud_account_dto \<Rightarrow> bool" where
  "connect_dto_valid dto \<longleftrightarrow> 1 \<le> char_count (cc_label dto) \<and> char_count (cc_label dto) \<le> 100
     \<and> 1 \<le> char_count (cc_apiKey dto)"

record cloud_account_response =
  cr_id :: "uuid option"
  cr_provider :: cloud_provider
  cr_provider_label :: string
  cr_connected :: bool
  cr_label :: "string option"
  cr_connected_at :: "time option"
  cr_monthly_cost_usd :: "int option"

definition to_cloud_account_response :: "cloud_provider \<Rightarrow> cloud_account option \<Rightarrow> cloud_account_response" where
  "to_cloud_account_response provider account =
     \<lparr>cr_id = map_option ca_id account, cr_provider = provider, cr_provider_label = provider_label provider,
      cr_connected = (account \<noteq> None), cr_label = map_option ca_label account,
      cr_connected_at = map_option ca_connectedAt account, cr_monthly_cost_usd = None\<rparr>"

definition cloud_find_all :: "env \<Rightarrow> uuid \<Rightarrow> cloud_account_response list action" where
  "cloud_find_all E orgId =
     bind (repo_find E cloud_accounts (\<lambda>a. ca_orgId a = orgId)) (\<lambda>connected.
     let byProvider = map_of (rev (map (\<lambda>a. (ca_provider a, a)) connected)) in
     ret (map (\<lambda>p. to_cloud_account_response p (byProvider p)) cloud_providers))"

definition save_cloud_account :: "env \<Rightarrow> cloud_account \<Rightarrow> cloud_account action" where
  "save_cloud_account E a =
     repo_save E cloud_accounts (\<lambda>t w. w\<lparr>cloud_accounts := t\<rparr>) ca_id cloud_account_clash a"

definition cloud_connect :: "env \<Rightarrow> uuid \<Rightarrow> connect_cloud_account_dto \<Rightarrow> cloud_account_response action" where
  "cloud_connect E orgId dto =
     bind (repo_find_one E cloud_accounts (\<lambda>a. ca_orgId a = orgId \<and> ca_provider a = cc_provider dto)) (\<lambda>existing.
     bind (encrypt E (cc_apiKey dto)) (\<lambda>apiKeyEncrypted.
     bind (now E) (\<lambda>t.
     bind (case existing of
         Some a \<Rightarrow> save_cloud_account E (a\<lparr>ca_label := cc_label dto, ca_apiKeyEncrypted := apiKeyEncrypted, ca_connectedAt := t\<rparr>)
       | None \<Rightarrow> repo_insert E cloud_accounts (\<lambda>t w. w\<lparr>cloud_accounts := t\<rparr>) ca_id cloud_account_clash
           (\<lambda>i d. \<lparr>ca_id = i, ca_orgId = orgId, ca_provider = cc_provider dto, ca_label = cc_label dto,
              ca_apiKeyEncrypted = apiKeyEncrypted, ca_connectedAt = t, ca_createdAt = d\<rparr>)) (\<lambda>account.
     ret (to_cloud_account_response (cc_provider dto) (Some account))))))"

definition cloud_disconnect :: "env \<Rightarrow> uuid \<Rightarrow> uuid \<Rightarrow> unit action" where
  "cloud_disconnect E orgId i =
     bind (repo_find_one E cloud_accounts (\<lambda>a. ca_id a = i \<and> ca_orgId a = orgId)) (\<lambda>found.
     case found of
       None \<Rightarrow> throw (NotFoundException ''Cloud account not found'')
     | Some account \<Rightarrow> repo E (\<lambda>w. (Inr (), w\<lparr>cloud_accounts :=
         filter (\<lambda>a. ca_id a \<noteq> ca_id account) (cloud_accounts w)\<rparr>)))"

subsection \<open>Connecting\<close>

definition ca_key :: "cloud_account \<Rightarrow> uuid \<times> cloud_provider" where
  "ca_key a = (ca_orgId a, ca_provider a)"

definition cloud_ok :: "world \<Rightarrow> bool" where
  "cloud_ok w \<longleftrightarrow> distinct (map ca_id (cloud_accounts w)) \<and> distinct (map ca_key (cloud_accounts w))"

text \<open>The row that a connection stores, inserted or saved over the old one.\<close>

lemma cloud_connect_effect:
  assumes ok: "cloud_ok w" and run: "cloud_connect E orgId dto w = (Inr r, w')"
  shows "cloud_ok w' \<and> (\<exists>a iv. set (cloud_accounts w') = insert a {x \<in> set (cloud_accounts w). ca_key x \<noteq> (orgId, cc_provider dto)}
    \<and> ca_key a = (orgId, cc_provider dto) \<and> ca_label a = cc_label dto
    \<and> ca_apiKeyEncrypted a = encrypt_with E (random_bytes E iv 12) (cc_apiKey dto)
    \<and> r = to_cloud_account_response (cc_provider dto) (Some a))"
proof -
  let ?T = "cloud_accounts w" and ?enc = "encrypt_with E (random_bytes E (Suc (steps w)) 12) (cc_apiKey dto)"
  let ?p = "\<lambda>a. ca_orgId a = orgId \<and> ca_provider a = cc_provider dto"
  have ids: "distinct (map ca_id ?T)" and keys: "distinct (map ca_key ?T)" using ok by (simp_all add: cloud_ok_def)
  have find: "repo_find_one E cloud_accounts ?p w = (Inr (List.find ?p ?T), tick w)"
    using run by (auto simp: cloud_connect_def repo_find_one_def repo_def bind_def split: option.splits)
  show ?thesis
  proof (cases "List.find ?p ?T")
    case None
    then have no: "x \<in> set ?T \<Longrightarrow> ca_key x \<noteq> (orgId, cc_provider dto)" for x by (auto simp: find_None_iff ca_key_def)
    let ?a = "\<lparr>ca_id = fresh_uuid E (Suc (Suc (Suc (steps w)))), ca_orgId = orgId, ca_provider = cc_provider dto, ca_label = cc_label dto,
        ca_apiKeyEncrypted = ?enc, ca_connectedAt = clock E (Suc (Suc (steps w))), ca_createdAt = clock E (Suc (Suc (Suc (steps w))))\<rparr>"
    from run find None have r: "w' = tick (tick (tick (tick (w\<lparr>cloud_accounts := ?T @ [?a]\<rparr>))))" "ca_id ?a \<notin> ca_id ` set ?T"
        "r = to_cloud_account_response (cc_provider dto) (Some ?a)"
      by (auto simp: cloud_connect_def bind_def ret_def encrypt_ok now_def repo_insert_def repo_def Let_def tick_def
          split: option.splits if_splits)
    have "{x \<in> set ?T. ca_key x \<noteq> (orgId, cc_provider dto)} = set ?T" using no by auto
    moreover have "ca_key ?a \<notin> ca_key ` set ?T" using no by (auto simp: ca_key_def) (metis ca_key_def)
    with ids keys r(1,2) have "cloud_ok w'" by (simp add: cloud_ok_def)
    ultimately show ?thesis using r by (intro conjI exI [of _ ?a] exI [of _ "Suc (steps w)"]) (auto simp: ca_key_def)
  next
    case (Some s)
    then have s: "s \<in> set ?T" "ca_key s = (orgId, cc_provider dto)" by (auto simp: find_Some_iff ca_key_def)
    from run find Some obtain t where r: "w' = tick (tick (tick (tick (w\<lparr>cloud_accounts := save_row ca_id
          (s\<lparr>ca_label := cc_label dto, ca_apiKeyEncrypted := ?enc, ca_connectedAt := t\<rparr>) ?T\<rparr>))))"
        "r = to_cloud_account_response (cc_provider dto) (Some (s\<lparr>ca_label := cc_label dto, ca_apiKeyEncrypted := ?enc, ca_connectedAt := t\<rparr>))"
      by (auto simp: cloud_connect_def bind_def ret_def encrypt_ok now_def save_cloud_account_def repo_save_def repo_def Let_def
          tick_def split: option.splits if_splits)
    define a where "a = s\<lparr>ca_label := cc_label dto, ca_apiKeyEncrypted := ?enc, ca_connectedAt := t\<rparr>"
    have a: "ca_id a = ca_id s" "ca_key a = ca_key s" by (simp_all add: a_def ca_key_def)
    have "ca_key x = (orgId, cc_provider dto) \<longleftrightarrow> ca_id x = ca_id s" if "x \<in> set ?T" for x
      using key_unique [OF ids that s(1)] key_unique [OF keys that s(1)] s(2) by auto
    then have "{x \<in> set ?T. ca_id x \<noteq> ca_id a} = {x \<in> set ?T. ca_key x \<noteq> (orgId, cc_provider dto)}"
      by (auto simp: a)
    then have "set (cloud_accounts w') = insert a {x \<in> set ?T. ca_key x \<noteq> (orgId, cc_provider dto)}"
      using cloud_account_table.mem_save [OF ids, of a] r(1) by (simp add: a_def)
    moreover have "ca_id a \<in> ca_id ` set ?T" using s(1) a(1) by (metis imageI)
    then have "cloud_ok w'"
      using ids keys save_same_key [OF ids s(1) a] r(1) by (simp add: cloud_ok_def a_def ids_save_row)
    ultimately show ?thesis using r(2) a s(2) unfolding a_def by (intro conjI exI [of _ a] exI [of _ "Suc (steps w)"]) (auto simp: a_def)
  qed
qed


text \<open>
  C37. One stored key per organization and provider: connecting replaces what was connected
  before, the stored key decrypts to the given one, every other row stays as it is, and the
  listing that follows has every provider once, in order, with the new connection among them.
\<close>

theorem cloud_connect_upserts:
  assumes "aead_ok E" "cloud_ok w" "cloud_connect E orgId dto w = (Inr r, w1)"
  shows "cloud_ok w1
    \<and> (\<exists>a. {x \<in> set (cloud_accounts w1). ca_key x = (orgId, cc_provider dto)} = {a}
         \<and> ca_label a = cc_label dto \<and> decrypt E (ca_apiKeyEncrypted a) = Inr (cc_apiKey dto))
    \<and> {x \<in> set (cloud_accounts w1). ca_key x \<noteq> (orgId, cc_provider dto)}
        = {x \<in> set (cloud_accounts w). ca_key x \<noteq> (orgId, cc_provider dto)}
    \<and> (case fst (cloud_find_all E orgId w1) of
         Inl e \<Rightarrow> db_fault E (steps w1) = Some e
       | Inr rs \<Rightarrow> map cr_provider rs = cloud_providers \<and> r \<in> set rs)"
proof -
  obtain a iv where a: "set (cloud_accounts w1) = insert a {x \<in> set (cloud_accounts w). ca_key x \<noteq> (orgId, cc_provider dto)}"
      "ca_key a = (orgId, cc_provider dto)" "ca_label a = cc_label dto"
      "ca_apiKeyEncrypted a = encrypt_with E (random_bytes E iv 12) (cc_apiKey dto)"
      "r = to_cloud_account_response (cc_provider dto) (Some a)" and ok1: "cloud_ok w1"
    using cloud_connect_effect [OF assms(2,3)] by blast
  have "length (random_bytes E iv 12) = IV_LENGTH_BYTES" using assms(1) by (simp add: aead_ok_def IV_LENGTH_BYTES_def)
  then have dec: "decrypt E (ca_apiKeyEncrypted a) = Inr (cc_apiKey dto)"
    by (simp add: a(4) decrypt_encrypt_with [OF assms(1)])
  have listing: "case fst (cloud_find_all E orgId w1) of
         Inl e \<Rightarrow> db_fault E (steps w1) = Some e
       | Inr rs \<Rightarrow> map cr_provider rs = cloud_providers \<and> r \<in> set rs"
  proof (cases "db_fault E (steps w1)")
    case None
    let ?own = "filter (\<lambda>x. ca_orgId x = orgId) (cloud_accounts w1)"
    have dist: "distinct (map ca_provider ?own)"
      using ok1 unfolding cloud_ok_def distinct_map by (auto simp: inj_on_def ca_key_def)
    have "(cc_provider dto, a) \<in> set (rev (map (\<lambda>x. (ca_provider x, x)) ?own))" using a(1,2) by (force simp: ca_key_def)
    with dist have "map_of (rev (map (\<lambda>x. (ca_provider x, x)) ?own)) (cc_provider dto) = Some a"
      by (intro map_of_is_SomeI) (auto simp: comp_def rev_map [symmetric])
    moreover have "cc_provider dto \<in> set cloud_providers" by (cases "cc_provider dto") (simp_all add: cloud_providers_def)
    ultimately show ?thesis
      using None a(5)
      by (auto simp: cloud_find_all_def repo_find_def repo_def bind_def ret_def Let_def to_cloud_account_response_def comp_def
          intro!: image_eqI [of _ _ "cc_provider dto"])
  qed (simp add: cloud_find_all_def repo_find_def repo_def bind_def)
  show ?thesis using ok1 a(1,2,3) dec listing by auto
qed


theorem cloud_connect_upserts_witness:
  "\<exists>r w1. cloud_connect demo_env ''org'' \<lparr>cc_provider = GCP, cc_label = ''prod'', cc_apiKey = ''key''\<rparr> empty_world = (Inr r, w1)
    \<and> (\<exists>a. {x \<in> set (cloud_accounts w1). ca_key x = (''org'', GCP)} = {a} \<and> decrypt demo_env (ca_apiKeyEncrypted a) = Inr ''key'')"
proof -
  let ?dto = "\<lparr>cc_provider = GCP, cc_label = ''prod'', cc_apiKey = ''key''\<rparr>"
  obtain r w1 where run: "cloud_connect demo_env ''org'' ?dto empty_world = (Inr r, w1)"
    by (simp add: cloud_connect_def bind_def ret_def repo_find_one_ok repo_insert_def repo_ok demo_env_ok now_def encrypt_ok Let_def)
  have "cloud_ok empty_world" by (simp add: cloud_ok_def)
  from cloud_connect_upserts [OF demo_env_ok(1) this run] run show ?thesis by auto
qed

end
