(* ===== verification/Accounts.thy ===== *)
theory Accounts
  imports Hosts
begin

section \<open>Accounts: organizations, users, sessions, cloud providers\<close>

text \<open>
  \<open>src/auth/\<close>, \<open>src/users/\<close>, \<open>src/organizations/\<close>, \<open>src/cloud-accounts/\<close>, the seed, the guards
  and the exception filter of \<open>src/common/\<close>. Signing and checking a token, and hashing and
  comparing a password, are parameters of the environment.
\<close>

subsection \<open>Users and organizations\<close>

definition BCRYPT_SALT_ROUNDS :: int where "BCRYPT_SALT_ROUNDS = 12"
definition DEFAULT_ORGANIZATION_NAME :: string where "DEFAULT_ORGANIZATION_NAME = ''Default Organization''"

fun user_role_str :: "user_role \<Rightarrow> string" where
  "user_role_str ADMIN = ''admin''"

definition user_clash :: "user \<Rightarrow> user \<Rightarrow> bool" where
  "user_clash a b \<longleftrightarrow> user_email a = user_email b"

definition create_organization :: "env \<Rightarrow> string \<Rightarrow> organization action" where
  "create_organization E name =
     repo_insert E organizations (\<lambda>t w. w\<lparr>organizations := t\<rparr>) org_id (\<lambda>_ _. False)
       (\<lambda>i d. \<lparr>org_id = i, org_name = name, org_createdAt = d\<rparr>)"

definition find_organization :: "env \<Rightarrow> uuid \<Rightarrow> organization option action" where
  "find_organization E i = repo_find_one E organizations (\<lambda>o'. org_id o' = i)"

definition find_user_by_email :: "env \<Rightarrow> string \<Rightarrow> user option action" where
  "find_user_by_email E email = repo_find_one E users (\<lambda>u. user_email u = email)"

text \<open>
  The id comes out of a token and need not be text: TypeORM drops a condition on
  \<open>undefined\<close> or \<open>null\<close>, and Postgres refuses a value that is not a uuid.
\<close>

definition find_user_by_id :: "env \<Rightarrow> json option \<Rightarrow> user option action" where
  "find_user_by_id E i = (case i of
       None \<Rightarrow> repo_find_one E users (\<lambda>_. True)
     | Some JNull \<Rightarrow> repo_find_one E users (\<lambda>_. True)
     | Some (JStr s) \<Rightarrow> repo_find_one E users (\<lambda>u. user_id u = s)
     | Some _ \<Rightarrow> repo E (\<lambda>w. (Inl (QueryFailedError ''22P02'' ''invalid input syntax for type uuid''), w)))"

record create_user_input =
  cu_orgId :: uuid
  cu_email :: string
  cu_passwordHash :: string
  cu_role :: "user_role option"

definition create_user :: "env \<Rightarrow> create_user_input \<Rightarrow> user action" where
  "create_user E input =
     repo_insert E users (\<lambda>t w. w\<lparr>users := t\<rparr>) user_id user_clash
       (\<lambda>i d. \<lparr>user_id = i, user_orgId = cu_orgId input, user_email = cu_email input,
          user_passwordHash = cu_passwordHash input,
          user_role = (case cu_role input of None \<Rightarrow> ADMIN | Some r \<Rightarrow> r), user_createdAt = d\<rparr>)"

definition seed :: "env \<Rightarrow> unit action" where
  "seed E =
     bind (repo_find_one E organizations (\<lambda>o'. org_name o' = DEFAULT_ORGANIZATION_NAME)) (\<lambda>existing.
     case existing of
       Some _ \<Rightarrow> ret ()
     | None \<Rightarrow> bind (create_organization E DEFAULT_ORGANIZATION_NAME) (\<lambda>_. ret ()))"

subsection \<open>AuthService\<close>

record register_dto =
  rd_email :: string
  rd_password :: string
  rd_organizationName :: string

record login_dto =
  ld_email :: string
  ld_password :: string

definition register_dto_valid :: "env \<Rightarrow> register_dto \<Rightarrow> bool" where
  "register_dto_valid E dto \<longleftrightarrow> is_email E (rd_email dto) \<and> 8 \<le> char_count (rd_password dto)
     \<and> 2 \<le> char_count (rd_organizationName dto) \<and> char_count (rd_organizationName dto) \<le> 100"

definition login_dto_valid :: "env \<Rightarrow> login_dto \<Rightarrow> bool" where
  "login_dto_valid E dto \<longleftrightarrow> is_email E (ld_email dto) \<and> 8 \<le> char_count (ld_password dto)"

text \<open>Its fields may come from a token's payload, where each may be missing.\<close>

record authenticated_user =
  au_id :: "json option"
  au_orgId :: "json option"
  au_orgName :: "json option"
  au_email :: "json option"
  au_role :: "json option"

record token_pair =
  tp_access_token :: string
  tp_refresh_token :: string

definition hash_password :: "env \<Rightarrow> string \<Rightarrow> string action" where
  "hash_password E password w = (Inr (bcrypt_hash E (steps w) password BCRYPT_SALT_ROUNDS), tick w)"

definition register :: "env \<Rightarrow> string \<Rightarrow> string \<Rightarrow> string \<Rightarrow> user action" where
  "register E email password organizationName =
     bind (find_user_by_email E email) (\<lambda>existing.
     case existing of
       Some _ \<Rightarrow> throw (ConflictException ''A user with this email already exists'')
     | None \<Rightarrow>
         bind (create_organization E organizationName) (\<lambda>organization.
         bind (hash_password E password) (\<lambda>passwordHash.
         create_user E \<lparr>cu_orgId = org_id organization, cu_email = email, cu_passwordHash = passwordHash, cu_role = None\<rparr>)))"

definition get_organization_name :: "env \<Rightarrow> uuid \<Rightarrow> string action" where
  "get_organization_name E orgId =
     bind (find_organization E orgId) (\<lambda>organization.
     case organization of
       None \<Rightarrow> throw (UnauthorizedException ''Organization no longer exists'')
     | Some o' \<Rightarrow> ret (org_name o'))"

definition validate_credentials :: "env \<Rightarrow> string \<Rightarrow> string \<Rightarrow> user action" where
  "validate_credentials E email password =
     bind (find_user_by_email E email) (\<lambda>found.
     case found of
       None \<Rightarrow> throw (UnauthorizedException ''Invalid email or password'')
     | Some user \<Rightarrow>
         if bcrypt_compare E password (user_passwordHash user) then ret user
         else throw (UnauthorizedException ''Invalid email or password''))"

definition access_payload :: "user \<Rightarrow> string \<Rightarrow> json" where
  "access_payload user orgName = JObj [(''sub'', JStr (user_id user)), (''orgId'', JStr (user_orgId user)),
     (''orgName'', JStr orgName), (''email'', JStr (user_email user)), (''role'', JStr (user_role_str (user_role user)))]"

definition refresh_payload :: "user \<Rightarrow> json" where
  "refresh_payload user = JObj [(''sub'', JStr (user_id user))]"

definition sign_access :: "env \<Rightarrow> user \<Rightarrow> string \<Rightarrow> string action" where
  "sign_access E user orgName = bind (now E) (\<lambda>t.
     ret (jwt_sign E (ac_accessSecret (app_conf E)) (ac_accessExpiresIn (app_conf E)) t (access_payload user orgName)))"

definition sign_refresh :: "env \<Rightarrow> user \<Rightarrow> string action" where
  "sign_refresh E user = bind (now E) (\<lambda>t.
     ret (jwt_sign E (ac_refreshSecret (app_conf E)) (ac_refreshExpiresIn (app_conf E)) t (refresh_payload user)))"

definition issue_token_pair :: "env \<Rightarrow> user \<Rightarrow> string \<Rightarrow> token_pair action" where
  "issue_token_pair E user orgName =
     bind (sign_access E user orgName) (\<lambda>accessToken.
     bind (sign_refresh E user) (\<lambda>refreshToken.
     ret \<lparr>tp_access_token = accessToken, tp_refresh_token = refreshToken\<rparr>))"

definition refresh_access_token :: "env \<Rightarrow> string \<Rightarrow> string action" where
  "refresh_access_token E refreshToken =
     bind (now E) (\<lambda>t.
     case jwt_verify E (ac_refreshSecret (app_conf E)) t refreshToken of
       Inl e \<Rightarrow> throw (UnauthorizedException ''Invalid or expired refresh token'')
     | Inr payload \<Rightarrow>
         bind (find_user_by_id E (json_prop payload ''sub'')) (\<lambda>found.
         case found of
           None \<Rightarrow> throw (UnauthorizedException ''Invalid or expired refresh token'')
         | Some user \<Rightarrow>
             bind (get_organization_name E (user_orgId user)) (\<lambda>orgName. sign_access E user orgName)))"

definition to_authenticated_user :: "user \<Rightarrow> string \<Rightarrow> authenticated_user" where
  "to_authenticated_user user orgName = \<lparr>au_id = Some (JStr (user_id user)), au_orgId = Some (JStr (user_orgId user)),
     au_orgName = Some (JStr orgName), au_email = Some (JStr (user_email user)),
     au_role = Some (JStr (user_role_str (user_role user)))\<rparr>"

subsection \<open>Guards\<close>

definition validate_payload :: "json \<Rightarrow> authenticated_user" where
  "validate_payload payload = \<lparr>au_id = json_prop payload ''sub'', au_orgId = json_prop payload ''orgId'',
     au_orgName = json_prop payload ''orgName'', au_email = json_prop payload ''email'', au_role = json_prop payload ''role''\<rparr>"

text \<open>The JWT guard: no token, or one that does not verify under the access secret, is a 401.\<close>

definition authenticate :: "env \<Rightarrow> string option \<Rightarrow> authenticated_user action" where
  "authenticate E token = (case token of
       None \<Rightarrow> throw (UnauthorizedException ''Unauthorized'')
     | Some tok \<Rightarrow> bind (now E) (\<lambda>t.
         case jwt_verify E (ac_accessSecret (app_conf E)) t tok of
           Inl e \<Rightarrow> throw (UnauthorizedException ''Unauthorized'')
         | Inr payload \<Rightarrow> ret (validate_payload payload)))"

definition can_activate :: "user_role list option \<Rightarrow> authenticated_user \<Rightarrow> bool" where
  "can_activate requiredRoles u = (case requiredRoles of
       None \<Rightarrow> True
     | Some rs \<Rightarrow> rs = [] \<or> au_role u \<in> (\<lambda>r. Some (JStr (user_role_str r))) ` set rs)"

definition guarded :: "env \<Rightarrow> user_role list option \<Rightarrow> string option \<Rightarrow> (authenticated_user \<Rightarrow> 'a action) \<Rightarrow> 'a action" where
  "guarded E requiredRoles token handler =
     bind (authenticate E token) (\<lambda>u.
     if can_activate requiredRoles u then handler u else throw (HttpException 403 ''Forbidden resource''))"

subsection \<open>AuthController\<close>

definition auth_register :: "env \<Rightarrow> register_dto \<Rightarrow> authenticated_user action" where
  "auth_register E dto =
     bind (register E (rd_email dto) (rd_password dto) (rd_organizationName dto)) (\<lambda>user.
     ret (to_authenticated_user user (rd_organizationName dto)))"

definition auth_login :: "env \<Rightarrow> login_dto \<Rightarrow> token_pair action" where
  "auth_login E dto =
     bind (validate_credentials E (ld_email dto) (ld_password dto)) (\<lambda>user.
     bind (get_organization_name E (user_orgId user)) (\<lambda>orgName. issue_token_pair E user orgName))"

definition auth_refresh :: "env \<Rightarrow> string \<Rightarrow> string action" where
  "auth_refresh E refresh_token = refresh_access_token E refresh_token"

definition auth_me :: "env \<Rightarrow> string option \<Rightarrow> authenticated_user action" where
  "auth_me E token = guarded E None token ret"

subsection \<open>AllExceptionsFilter\<close>

record error_body =
  eb_statusCode :: nat
  eb_timestamp :: time
  eb_path :: string
  eb_message :: string

fun error_status :: "js_error \<Rightarrow> nat" where
  "error_status (HttpException status _) = status"
| "error_status _ = 500"

definition extract_message :: "js_error \<Rightarrow> nat \<Rightarrow> string" where
  "extract_message e status = (case e of
       HttpException _ message \<Rightarrow> message
     | _ \<Rightarrow> if status = 500 then ''Internal server error'' else ''Unexpected error'')"

definition catch_exception :: "js_error \<Rightarrow> time \<Rightarrow> string \<Rightarrow> nat \<times> error_body" where
  "catch_exception e t url =
    (let statusCode = error_status e in
     (statusCode, \<lparr>eb_statusCode = statusCode, eb_timestamp = t, eb_path = url, eb_message = extract_message e statusCode\<rparr>))"

subsection \<open>Sessions\<close>

text \<open>
  What the code relies on: a token verifies under the secret it was signed with, within its
  lifetime, to its payload with the two registered claims added; under another secret it does
  not; and a password compares equal to its own hash.
\<close>

definition jwt_ok :: "env \<Rightarrow> (string \<Rightarrow> int) \<Rightarrow> bool" where
  "jwt_ok E lifetime \<longleftrightarrow>
     (\<forall>k life t t' kvs. json_wf (JObj kvs) \<and> t \<le> t' \<and> t' < t + lifetime life \<longrightarrow>
        (\<exists>extra. jwt_verify E k t' (jwt_sign E k life t (JObj kvs)) = Inr (JObj (kvs @ extra))
           \<and> fst ` set extra \<subseteq> {''iat'', ''exp''}))
     \<and> (\<forall>k k' life t t' kvs. json_wf (JObj kvs) \<and> k \<noteq> k' \<longrightarrow> isl (jwt_verify E k' t' (jwt_sign E k life t (JObj kvs))))"

lemma jwt_okD:
  assumes "jwt_ok E lifetime" "json_wf (JObj kvs)"
  shows "t \<le> t' \<Longrightarrow> t' < t + lifetime life \<Longrightarrow>
      \<exists>extra. jwt_verify E k t' (jwt_sign E k life t (JObj kvs)) = Inr (JObj (kvs @ extra))"
    and "k \<noteq> k' \<Longrightarrow> isl (jwt_verify E k' t' (jwt_sign E k life t (JObj kvs)))"
  using assms unfolding jwt_ok_def by metis+

definition bcrypt_ok :: "env \<Rightarrow> bool" where
  "bcrypt_ok E \<longleftrightarrow> (\<forall>n p r. bcrypt_compare E p (bcrypt_hash E n p r))"

lemma payloads_wf: "json_wf (access_payload u n)" "json_wf (refresh_payload u)"
  by (simp_all add: access_payload_def refresh_payload_def)

lemma validate_access_payload:
  "validate_payload (JObj (kvs @ extra)) = to_authenticated_user u n" if "access_payload u n = JObj kvs"
  using that by (auto simp: access_payload_def validate_payload_def to_authenticated_user_def)

text \<open>A fresh access token authenticates as its user.\<close>

lemma authenticate_access_token:
  assumes "jwt_ok E lifetime" "t \<le> clock E (steps w)" "clock E (steps w) < t + lifetime (ac_accessExpiresIn (app_conf E))"
  shows "authenticate E (Some (jwt_sign E (ac_accessSecret (app_conf E)) (ac_accessExpiresIn (app_conf E)) t (access_payload u n))) w
    = (Inr (to_authenticated_user u n), tick w)"
proof -
  obtain kvs where kvs: "access_payload u n = JObj kvs" by (simp add: access_payload_def)
  have "json_wf (JObj kvs)" using payloads_wf(1) [of u n] kvs by simp
  from jwt_okD(1) [OF assms(1) this assms(2,3)]
  obtain extra where "jwt_verify E (ac_accessSecret (app_conf E)) (clock E (steps w))
      (jwt_sign E (ac_accessSecret (app_conf E)) (ac_accessExpiresIn (app_conf E)) t (JObj kvs)) = Inr (JObj (kvs @ extra))"
    by blast
  then show ?thesis using validate_access_payload [OF kvs] by (simp add: authenticate_def prog_simps now_def kvs)
qed

text \<open>A token signed with the other secret is refused.\<close>

lemma authenticate_refresh_token:
  assumes "jwt_ok E lifetime" "ac_refreshSecret (app_conf E) \<noteq> ac_accessSecret (app_conf E)"
  shows "authenticate E (Some (jwt_sign E (ac_refreshSecret (app_conf E)) life t (refresh_payload u))) w
    = (Inl (UnauthorizedException ''Unauthorized''), tick w)"
proof -
  have "isl (jwt_verify E (ac_accessSecret (app_conf E)) (clock E (steps w))
      (jwt_sign E (ac_refreshSecret (app_conf E)) life t (refresh_payload u)))"
    unfolding refresh_payload_def
    by (rule jwt_okD(2) [OF assms(1) payloads_wf(2) [unfolded refresh_payload_def] assms(2)])
  then show ?thesis by (auto simp: authenticate_def prog_simps now_def split: sum.splits)
qed

lemma refresh_access_token_refused:
  assumes "jwt_ok E lifetime" "ac_refreshSecret (app_conf E) \<noteq> ac_accessSecret (app_conf E)"
  shows "auth_refresh E (jwt_sign E (ac_accessSecret (app_conf E)) life t (access_payload u n)) w
    = (Inl (UnauthorizedException ''Invalid or expired refresh token''), tick w)"
proof -
  have "isl (jwt_verify E (ac_refreshSecret (app_conf E)) (clock E (steps w))
      (jwt_sign E (ac_accessSecret (app_conf E)) life t (access_payload u n)))"
    unfolding access_payload_def
    by (rule jwt_okD(2) [OF assms(1) payloads_wf(1) [unfolded access_payload_def] not_sym [OF assms(2)]])
  then show ?thesis by (auto simp: auth_refresh_def refresh_access_token_def prog_simps now_def split: sum.splits)
qed




text \<open>Tokens for the witness: the secret and the payload as JSON, and hashes that are the password.\<close>

definition token_env :: env where
  "token_env = demo_env\<lparr>jwt_sign := (\<lambda>k life t p. json_stringify (JArr [JStr k, p])),
     jwt_verify := (\<lambda>k t s. case json_parse s of
        Some (JArr [JStr k', p]) \<Rightarrow> if k' = k then Inr p else Inl (JsError ''JsonWebTokenError'' ''invalid signature'' None)
      | _ \<Rightarrow> Inl (JsError ''JsonWebTokenError'' ''jwt malformed'' None))\<rparr>"

lemma token_env_ok: "jwt_ok token_env l" "bcrypt_ok token_env" "no_db_fault token_env"
    "ac_refreshSecret (app_conf token_env) \<noteq> ac_accessSecret (app_conf token_env)" "clock token_env n = 1000 * int n"
proof -
  have "json_parse (json_stringify (JArr [JStr k, JObj kvs])) = Some (JArr [JStr k, JObj kvs])" if "json_wf (JObj kvs)" for k kvs
    using that by (intro json_roundtrip) simp
  then show "jwt_ok token_env l"
    unfolding jwt_ok_def token_env_def by (auto simp del: json_stringify.simps json_wf.simps)
qed (auto simp: token_env_def demo_env_def bcrypt_ok_def no_db_fault_def demo_app_config_def)

definition demo_registration :: register_dto where
  "demo_registration = \<lparr>rd_email = ''a@b.c'', rd_password = ''password'', rd_organizationName = ''Acme''\<rparr>"


text \<open>
  Registering is two writes without a transaction: when the user cannot be saved, for
  instance because the same email registered at the same moment, the new organization stays
  behind without any user, and each further attempt that fails adds one more.
\<close>

lemma failed_registration_leaves_organization:
  assumes "db_fault E (steps w) = None" "db_fault E (Suc (steps w)) = None" "db_fault E (Suc (Suc (Suc (steps w)))) = Some e"
    and "\<forall>u \<in> set (users w). user_email u \<noteq> rd_email dto"
    and "fresh_uuid E (Suc (steps w)) \<notin> org_id ` set (organizations w)"
  shows "\<exists>o' w'. auth_register E dto w = (Inl e, w') \<and> organizations w' = organizations w @ [o']
    \<and> org_name o' = rd_organizationName dto \<and> users w' = users w"
proof -
  have "List.find (\<lambda>x. user_email x = rd_email dto) (users w) = None" using assms(4) by (auto simp: find_None_iff)
  moreover have "\<not> (\<exists>x \<in> set (organizations w). org_id x = fresh_uuid E (Suc (steps w)))" using assms(5) by (metis imageI)
  ultimately show ?thesis
    using assms(1-3)
    by (simp add: auth_register_def register_def find_user_by_email_def repo_find_one_def repo_insert_def repo_def prog_simps
        create_organization_def create_user_def hash_password_def Let_def tick_def)
qed

lemma failed_registration_leaves_organization_witness:
  "\<exists>o' w'. auth_register (demo_env\<lparr>db_fault := (\<lambda>n. if n = 3 then Some unique_violation else None)\<rparr>) demo_registration empty_world
      = (Inl unique_violation, w') \<and> organizations w' = [o'] \<and> users w' = []"
  using failed_registration_leaves_organization [of "demo_env\<lparr>db_fault := (\<lambda>n. if n = 3 then Some unique_violation else None)\<rparr>"
      empty_world unique_violation demo_registration]
  by (auto simp: numeral_3_eq_3)

end
