(* ===== verification/Alert_Rules.thy ===== *)
theory Alert_Rules
  imports Alerts
begin

section \<open>AlertsService: the rules and the log listing\<close>

text \<open>
  \<open>src/alerts/alerts.service.ts\<close>, \<open>alerts.mapper.ts\<close>, the request DTOs and the two
  controllers' handlers (which only pass the caller's organization on and map the results).
\<close>

record create_rule_dto =
  cr_name :: string
  cr_entity_type :: alert_entity_type
  cr_condition :: string
  cr_channel :: alert_channel
  cr_channel_config :: json
  cr_cooldown_minutes :: "int option"
  cr_enabled :: "bool option"

record update_rule_dto =
  ur_name :: "string option"
  ur_entity_type :: "alert_entity_type option"
  ur_condition :: "string option"
  ur_channel :: "alert_channel option"
  ur_channel_config :: "json option"
  ur_cooldown_minutes :: "int option"
  ur_enabled :: "bool option"

record list_logs_query =
  lq_alert_rule_id :: "uuid option"
  lq_entity_type :: "alert_entity_type option"

definition DEFAULT_COOLDOWN_MINUTES :: int where "DEFAULT_COOLDOWN_MINUTES = 30"
definition ALERT_LOGS_LIST_LIMIT :: nat where "ALERT_LOGS_LIST_LIMIT = 100"

definition or_default :: "'a option \<Rightarrow> 'a \<Rightarrow> 'a" where
  "or_default x d = (case x of None \<Rightarrow> d | Some y \<Rightarrow> y)"

lemma or_default_simps [simp]: "or_default None d = d" "or_default (Some x) d = x"
  by (simp_all add: or_default_def)

definition encrypt_config :: "env \<Rightarrow> json \<Rightarrow> string action" where
  "encrypt_config E config = encrypt E (json_stringify config)"

definition create_rule :: "env \<Rightarrow> uuid \<Rightarrow> create_rule_dto \<Rightarrow> alert_rule action" where
  "create_rule E orgId dto =
     bind (encrypt_config E (cr_channel_config dto)) (\<lambda>enc.
     repo_insert E alert_rules (\<lambda>t w. w\<lparr>alert_rules := t\<rparr>) rule_id (\<lambda>_ _. False)
       (\<lambda>i d. \<lparr>rule_id = i, rule_orgId = orgId, rule_name = cr_name dto,
               rule_entityType = cr_entity_type dto, rule_condition = cr_condition dto,
               rule_channel = cr_channel dto, rule_channelConfigEncrypted = enc,
               rule_cooldownMinutes = or_default (cr_cooldown_minutes dto) DEFAULT_COOLDOWN_MINUTES,
               rule_enabled = or_default (cr_enabled dto) True, rule_createdAt = d\<rparr>))"

definition find_all_rules :: "env \<Rightarrow> uuid \<Rightarrow> alert_rule list action" where
  "find_all_rules E orgId =
     bind (repo_find E alert_rules (\<lambda>r. rule_orgId r = orgId)) (\<lambda>rs.
     ret (sort_key (\<lambda>r. - rule_createdAt r) rs))"

definition find_rule_or_throw :: "env \<Rightarrow> uuid \<Rightarrow> uuid \<Rightarrow> alert_rule action" where
  "find_rule_or_throw E orgId i =
     bind (repo_find_one E alert_rules (\<lambda>r. rule_id r = i \<and> rule_orgId r = orgId)) (\<lambda>r.
     case r of None \<Rightarrow> throw (NotFoundException (''Alert rule '' @ i @ '' not found''))
     | Some rule \<Rightarrow> ret rule)"

definition save_rule :: "env \<Rightarrow> alert_rule \<Rightarrow> alert_rule action" where
  "save_rule E = repo_save E alert_rules (\<lambda>t w. w\<lparr>alert_rules := t\<rparr>) rule_id (\<lambda>_ _. False)"

definition update_rule :: "env \<Rightarrow> uuid \<Rightarrow> uuid \<Rightarrow> update_rule_dto \<Rightarrow> alert_rule action" where
  "update_rule E orgId i dto =
     bind (find_rule_or_throw E orgId i) (\<lambda>rule.
     let rule1 = rule\<lparr>rule_name := or_default (ur_name dto) (rule_name rule),
           rule_entityType := or_default (ur_entity_type dto) (rule_entityType rule),
           rule_condition := or_default (ur_condition dto) (rule_condition rule),
           rule_channel := or_default (ur_channel dto) (rule_channel rule)\<rparr>
     in bind (case ur_channel_config dto of None \<Rightarrow> ret (rule_channelConfigEncrypted rule)
              | Some c \<Rightarrow> encrypt_config E c) (\<lambda>enc.
        save_rule E (rule1\<lparr>rule_channelConfigEncrypted := enc,
           rule_cooldownMinutes := or_default (ur_cooldown_minutes dto) (rule_cooldownMinutes rule),
           rule_enabled := or_default (ur_enabled dto) (rule_enabled rule)\<rparr>)))"

text \<open>Removing a rule deletes its log entries with it (\<open>onDelete: 'CASCADE'\<close>).\<close>

definition remove_rule :: "env \<Rightarrow> uuid \<Rightarrow> uuid \<Rightarrow> unit action" where
  "remove_rule E orgId i =
     bind (find_rule_or_throw E orgId i) (\<lambda>rule.
     repo E (\<lambda>w. (Inr (),
       w\<lparr>alert_rules := filter (\<lambda>r. rule_id r \<noteq> rule_id rule) (alert_rules w),
         alert_logs := filter (\<lambda>l. alog_alertRuleId l \<noteq> rule_id rule) (alert_logs w)\<rparr>)))"

definition log_of_org :: "world \<Rightarrow> uuid \<Rightarrow> alert_log \<Rightarrow> bool" where
  "log_of_org w orgId l \<longleftrightarrow> (\<exists>r \<in> set (alert_rules w). rule_id r = alog_alertRuleId l \<and> rule_orgId r = orgId)"

definition log_query_matches :: "list_logs_query \<Rightarrow> alert_log \<Rightarrow> bool" where
  "log_query_matches q l \<longleftrightarrow>
     (case lq_alert_rule_id q of None \<Rightarrow> True | Some i \<Rightarrow> alog_alertRuleId l = i)
     \<and> (case lq_entity_type q of None \<Rightarrow> True | Some t \<Rightarrow> alog_entityType l = t)"

definition find_logs_for_org :: "env \<Rightarrow> uuid \<Rightarrow> list_logs_query \<Rightarrow> alert_log list action" where
  "find_logs_for_org E orgId q =
     repo E (\<lambda>w. (Inr (take ALERT_LOGS_LIST_LIMIT (sort_key (\<lambda>l. - alog_firedAt l)
       (filter (\<lambda>l. log_of_org w orgId l \<and> log_query_matches q l) (alert_logs w)))), w))"

subsection \<open>Responses\<close>

record alert_rule_response =
  rr_id :: uuid
  rr_name :: string
  rr_entity_type :: alert_entity_type
  rr_condition :: string
  rr_channel :: alert_channel
  rr_cooldown_minutes :: int
  rr_enabled :: bool
  rr_created_at :: time

definition to_alert_rule_response :: "alert_rule \<Rightarrow> alert_rule_response" where
  "to_alert_rule_response rule =
     \<lparr>rr_id = rule_id rule, rr_name = rule_name rule, rr_entity_type = rule_entityType rule,
      rr_condition = rule_condition rule, rr_channel = rule_channel rule,
      rr_cooldown_minutes = rule_cooldownMinutes rule, rr_enabled = rule_enabled rule,
      rr_created_at = rule_createdAt rule\<rparr>"

record alert_log_response =
  lr_id :: uuid
  lr_alert_rule_id :: uuid
  lr_entity_type :: alert_entity_type
  lr_entity_id :: uuid
  lr_message :: string
  lr_delivery_status :: delivery_status
  lr_error :: "string option"
  lr_fired_at :: time

definition to_alert_log_response :: "alert_log \<Rightarrow> alert_log_response" where
  "to_alert_log_response log =
     \<lparr>lr_id = alog_id log, lr_alert_rule_id = alog_alertRuleId log, lr_entity_type = alog_entityType log,
      lr_entity_id = alog_entityId log, lr_message = alog_message log,
      lr_delivery_status = alog_deliveryStatus log, lr_error = alog_error log, lr_fired_at = alog_firedAt log\<rparr>"

text \<open>The controllers' handlers; \<open>orgId\<close> is the authenticated caller's.\<close>

definition rules_create :: "env \<Rightarrow> uuid \<Rightarrow> create_rule_dto \<Rightarrow> alert_rule_response action" where
  "rules_create E orgId dto = bind (create_rule E orgId dto) (\<lambda>r. ret (to_alert_rule_response r))"

definition rules_find_all :: "env \<Rightarrow> uuid \<Rightarrow> alert_rule_response list action" where
  "rules_find_all E orgId = bind (find_all_rules E orgId) (\<lambda>rs. ret (map to_alert_rule_response rs))"

definition rules_find_one :: "env \<Rightarrow> uuid \<Rightarrow> uuid \<Rightarrow> alert_rule_response action" where
  "rules_find_one E orgId i = bind (find_rule_or_throw E orgId i) (\<lambda>r. ret (to_alert_rule_response r))"

definition rules_update :: "env \<Rightarrow> uuid \<Rightarrow> uuid \<Rightarrow> update_rule_dto \<Rightarrow> alert_rule_response action" where
  "rules_update E orgId i dto = bind (update_rule E orgId i dto) (\<lambda>r. ret (to_alert_rule_response r))"

definition logs_find_all :: "env \<Rightarrow> uuid \<Rightarrow> list_logs_query \<Rightarrow> alert_log_response list action" where
  "logs_find_all E orgId q = bind (find_logs_for_org E orgId q) (\<lambda>ls. ret (map to_alert_log_response ls))"

interpretation alert_rule_table: row_table rule_id "save_row rule_id"
  by unfold_locales (rule ids_save_row, rule mem_save_row)

subsection \<open>Properties\<close>

text \<open>What the rows of the other organizations look like.\<close>

definition foreign_rules :: "uuid \<Rightarrow> world \<Rightarrow> alert_rule list" where
  "foreign_rules orgId w = filter (\<lambda>r. rule_orgId r \<noteq> orgId) (alert_rules w)"

definition foreign_logs :: "uuid \<Rightarrow> world \<Rightarrow> alert_log list" where
  "foreign_logs orgId w = filter (\<lambda>l. \<exists>r \<in> set (foreign_rules orgId w). rule_id r = alog_alertRuleId l) (alert_logs w)"

definition rules_keyed :: "world \<Rightarrow> bool" where
  "rules_keyed w \<longleftrightarrow> distinct (map rule_id (alert_rules w))"

lemma foreign_tick [simp]:
  "foreign_rules orgId (tick w) = foreign_rules orgId w" "foreign_logs orgId (tick w) = foreign_logs orgId w"
  by (simp_all add: foreign_rules_def foreign_logs_def)

lemma find_rule_cases:
  obtains (error) e where "find_rule_or_throw E orgId i w = (Inl e, tick w)"
  | (found) r where "find_rule_or_throw E orgId i w = (Inr r, tick w)" "r \<in> set (alert_rules w)"
      "rule_id r = i" "rule_orgId r = orgId"
proof (cases "db_fault E (steps w)")
  case None
  show ?thesis
  proof (cases "List.find (\<lambda>r. rule_id r = i \<and> rule_orgId r = orgId) (alert_rules w)")
    case N: None
    with None show ?thesis by (intro error) (simp add: find_rule_or_throw_def repo_find_one_def repo_def prog_simps)
  next
    case (Some r)
    with None find_SomeD [OF Some] show ?thesis
      by (intro found [of r]) (simp_all add: find_rule_or_throw_def repo_find_one_def repo_def prog_simps)
  qed
qed (intro error, simp add: find_rule_or_throw_def repo_find_one_def repo_def prog_simps)

lemma filter_save_row:
  "distinct (map rid t) \<Longrightarrow> rid r \<in> rid ` set t \<Longrightarrow> \<not> p r \<Longrightarrow> (\<forall>x \<in> set t. rid x = rid r \<longrightarrow> \<not> p x) \<Longrightarrow>
   filter p (save_row rid r t) = filter p t"
  by (induction t) auto

lemma save_foreign:
  assumes "rules_keyed w" "old \<in> set (alert_rules w)" "rule_id old = rule_id r" "rule_orgId old = orgId"
    "rule_orgId r = orgId"
  shows "foreign_rules orgId (w\<lparr>alert_rules := save_row rule_id r (alert_rules w)\<rparr>) = foreign_rules orgId w"
proof -
  have "\<not> rule_orgId x \<noteq> orgId" if "x \<in> set (alert_rules w)" "rule_id x = rule_id r" for x
    using key_unique [of rule_id "alert_rules w" x old] that assms by (simp add: rules_keyed_def)
  then have "\<forall>x \<in> set (alert_rules w). rule_id x = rule_id r \<longrightarrow> \<not> rule_orgId x \<noteq> orgId" by blast
  moreover have "rule_id r \<in> rule_id ` set (alert_rules w)" using assms(2,3) by (metis imageI)
  ultimately show ?thesis
    using assms by (simp add: foreign_rules_def rules_keyed_def filter_save_row)
qed

lemma foreign_logs_eq:
  "alert_logs w' = alert_logs w \<Longrightarrow> foreign_rules orgId w' = foreign_rules orgId w \<Longrightarrow>
   foreign_logs orgId w' = foreign_logs orgId w"
  by (simp add: foreign_logs_def)

lemma save_rule_cases:
  obtains (kept) e where "save_rule E r w = (Inl e, tick w)"
  | (saved) "save_rule E r w = (Inr r, tick (w\<lparr>alert_rules := save_row rule_id r (alert_rules w)\<rparr>))"
  by (cases "db_fault E (steps w)")
     (auto simp: save_rule_def repo_save_def repo_def split: if_splits)

lemma encrypt_config_state: "encrypt_config E c w = (r, w') \<Longrightarrow> w' = tick w \<and> \<not> isl r"
  by (auto simp: encrypt_config_def encrypt_def)

text \<open>
  An administrator's update or removal of an alert rule never touches another
  organization: whatever id is given and whatever fails, the rules of the other organizations
  and the log entries of those rules are the same afterwards.
\<close>

lemma alert_rules_org_isolated:
  assumes "rules_keyed w" and "w' = snd (update_rule E orgId i dto w) \<or> w' = snd (remove_rule E orgId i w)"
  shows "foreign_rules orgId w' = foreign_rules orgId w \<and> foreign_logs orgId w' = foreign_logs orgId w"
  using assms(2)
proof
  assume w': "w' = snd (update_rule E orgId i dto w)"
  show ?thesis
  proof (cases rule: find_rule_cases [of E orgId i w])
    case (error e)
    then show ?thesis using w' by (simp add: update_rule_def bind_def)
  next
    case (found r)
    obtain enc v where v: "(case ur_channel_config dto of None \<Rightarrow> ret (rule_channelConfigEncrypted r)
        | Some c \<Rightarrow> encrypt_config E c) (tick w) = (Inr enc, v)" "v = tick w \<or> v = tick (tick w)"
      by (cases "ur_channel_config dto") (auto simp: ret_def encrypt_config_def encrypt_def)
    obtain r' where r': "w' = snd (save_rule E r' v)" "rule_id r' = i" "rule_orgId r' = orgId"
      using w' found v(1) by (simp add: update_rule_def bind_def Let_def)
    have vw: "rules_keyed v" "r \<in> set (alert_rules v)" "foreign_rules orgId v = foreign_rules orgId w"
      "foreign_logs orgId v = foreign_logs orgId w"
      using v(2) assms(1) found(2) by (auto simp: rules_keyed_def)
    show ?thesis
    proof (cases rule: save_rule_cases [of E r' v])
      case saved
      let ?u = "v\<lparr>alert_rules := save_row rule_id r' (alert_rules v)\<rparr>"
      have "foreign_rules orgId ?u = foreign_rules orgId v"
        using save_foreign [OF vw(1,2)] found r' by simp
      moreover from this have "foreign_logs orgId ?u = foreign_logs orgId v"
        by (intro foreign_logs_eq) simp_all
      ultimately show ?thesis using saved r'(1) vw by simp
    qed (use r'(1) vw in simp)
  qed
next
  assume w': "w' = snd (remove_rule E orgId i w)"
  show ?thesis
  proof (cases rule: find_rule_cases [of E orgId i w])
    case (error e)
    then show ?thesis using w' by (simp add: remove_rule_def bind_def)
  next
    case (found r)
    have uniq: "x = r" if "x \<in> set (alert_rules w)" "rule_id x = rule_id r" for x
      using key_unique [of rule_id "alert_rules w" x r] that found(2) assms(1) by (simp add: rules_keyed_def)
    let ?u = "w\<lparr>alert_rules := filter (\<lambda>x. rule_id x \<noteq> rule_id r) (alert_rules w),
        alert_logs := filter (\<lambda>l. alog_alertRuleId l \<noteq> rule_id r) (alert_logs w)\<rparr>"
    have fr: "foreign_rules orgId ?u = foreign_rules orgId w"
      using uniq found(4) by (auto simp: foreign_rules_def intro!: filter_cong)
    have "alog_alertRuleId l \<noteq> rule_id r" if "x \<in> set (foreign_rules orgId w)" "rule_id x = alog_alertRuleId l" for x l
      using uniq [of x] that found(4) by (auto simp: foreign_rules_def)
    then have "foreign_logs orgId ?u = foreign_logs orgId w"
      unfolding foreign_logs_def fr by (auto intro!: filter_cong)
    moreover have "w' = tick w \<or> w' = tick ?u \<or> w' = tick (tick ?u) \<or> w' = tick (tick w)"
      using w' found(1) by (auto simp: remove_rule_def bind_def repo_def tick_def split: option.splits)
    ultimately show ?thesis using fr by auto
  qed
qed

lemma alert_rules_org_isolated_witness:
  "foreign_rules ''other'' (snd (remove_rule demo_env ''other'' ''rule''
     (empty_world\<lparr>alert_rules := [demo_rule]\<rparr>))) = foreign_rules ''other'' (empty_world\<lparr>alert_rules := [demo_rule]\<rparr>)"
  using alert_rules_org_isolated [of "empty_world\<lparr>alert_rules := [demo_rule]\<rparr>"
      "snd (remove_rule demo_env ''other'' ''rule'' (empty_world\<lparr>alert_rules := [demo_rule]\<rparr>))"
      demo_env "''other''" "''rule''"]
  by (simp add: rules_keyed_def)

text \<open>
  The delivery log an administrator sees holds only entries of rules of their own
  organization that match the filters, at most 100 of them, newest first; an entry left out
  is never newer than one shown.
\<close>

lemma find_logs_for_org_newest:
  "case fst (find_logs_for_org E orgId q w) of
     Inl e \<Rightarrow> db_fault E (steps w) = Some e
   | Inr ls \<Rightarrow> length ls \<le> 100 \<and> sorted_wrt (\<lambda>a b. alog_firedAt b \<le> alog_firedAt a) ls
       \<and> (\<forall>l \<in> set ls. l \<in> set (alert_logs w) \<and> log_of_org w orgId l \<and> log_query_matches q l)
       \<and> (\<forall>l \<in> set (alert_logs w). log_of_org w orgId l \<longrightarrow> log_query_matches q l \<longrightarrow>
            l \<in> set ls \<or> (length ls = 100 \<and> (\<forall>s \<in> set ls. alog_firedAt l \<le> alog_firedAt s)))"
proof (cases "db_fault E (steps w)")
  case None
  let ?all = "filter (\<lambda>l. log_of_org w orgId l \<and> log_query_matches q l) (alert_logs w)"
  define shown where "shown = take 100 (sort_key (\<lambda>l. - alog_firedAt l) ?all)"
  have r: "fst (find_logs_for_org E orgId q w) = Inr shown"
    using None by (simp add: find_logs_for_org_def repo_def ALERT_LOGS_LIST_LIMIT_def shown_def)
  note n = newest_taken [OF shown_def]
  show ?thesis unfolding r sum.case using n(1,2,3) n(4) by fastforce
qed (simp add: find_logs_for_org_def repo_def)

lemma find_logs_for_org_newest_witness:
  "\<exists>ls. fst (find_logs_for_org demo_env ''org'' \<lparr>lq_alert_rule_id = None, lq_entity_type = None\<rparr>
       (empty_world\<lparr>alert_rules := [demo_rule], alert_logs := [demo_log]\<rparr>)) = Inr ls \<and> demo_log \<in> set ls"
proof -
  let ?w = "empty_world\<lparr>alert_rules := [demo_rule], alert_logs := [demo_log]\<rparr>"
  let ?q = "\<lparr>lq_alert_rule_id = None, lq_entity_type = None\<rparr>"
  obtain ls where ls: "fst (find_logs_for_org demo_env ''org'' ?q ?w) = Inr ls"
    by (simp add: find_logs_for_org_def repo_def demo_env_def)
  have log: "log_of_org ?w ''org'' demo_log" "log_query_matches ?q demo_log"
    by (simp_all add: log_of_org_def log_query_matches_def demo_log_def demo_rule_def)
  have "demo_log \<in> set ls \<or> length ls = 100 \<and> set ls \<subseteq> {demo_log}"
    using find_logs_for_org_newest [where E = demo_env and orgId = "''org''" and q = ?q and w = ?w] log unfolding ls by (auto simp: sum.case)
  then show ?thesis using ls by (cases ls) auto
qed

end
