(* ===== verification/Secrecy.thy ===== *)
theory Secrecy
  imports Insights Cloud_Accounts Accounts Alert_Rules
begin

section \<open>No endpoint discloses a secret\<close>

text \<open>
  Private keys, API keys, channel configurations, password hashes and captured container
  configurations are stored encrypted or hashed. Two databases that differ in these columns
  only give the same response, at every endpoint that shows the rows holding them: each reading
  program mirrors the replacement of the secrets, step by step.
\<close>

definition scrub_host :: "(string \<Rightarrow> string) \<Rightarrow> host \<Rightarrow> host" where
  "scrub_host g h = h\<lparr>host_sshKeyEncrypted := g (host_sshKeyEncrypted h)\<rparr>"

definition scrub_cloud_account :: "(string \<Rightarrow> string) \<Rightarrow> cloud_account \<Rightarrow> cloud_account" where
  "scrub_cloud_account g a = a\<lparr>ca_apiKeyEncrypted := g (ca_apiKeyEncrypted a)\<rparr>"

definition scrub_rule :: "(string \<Rightarrow> string) \<Rightarrow> alert_rule \<Rightarrow> alert_rule" where
  "scrub_rule g r = r\<lparr>rule_channelConfigEncrypted := g (rule_channelConfigEncrypted r)\<rparr>"

definition scrub_snapshot :: "(string \<Rightarrow> string) \<Rightarrow> snapshot \<Rightarrow> snapshot" where
  "scrub_snapshot g s = s\<lparr>snap_configBlob := g (snap_configBlob s)\<rparr>"

definition scrub_user :: "(string \<Rightarrow> string) \<Rightarrow> user \<Rightarrow> user" where
  "scrub_user g u = u\<lparr>user_passwordHash := g (user_passwordHash u)\<rparr>"

text \<open>Every secret column replaced by \<open>g\<close> of it.\<close>

definition scrub :: "(string \<Rightarrow> string) \<Rightarrow> world \<Rightarrow> world" where
  "scrub g w = w\<lparr>hosts := map (scrub_host g) (hosts w), cloud_accounts := map (scrub_cloud_account g) (cloud_accounts w),
     alert_rules := map (scrub_rule g) (alert_rules w), snapshots := map (scrub_snapshot g) (snapshots w),
     users := map (scrub_user g) (users w)\<rparr>"

text \<open>The second program does on the scrubbed state what the first does on the state itself.\<close>

definition mirrors :: "(string \<Rightarrow> string) \<Rightarrow> ('a \<Rightarrow> 'b) \<Rightarrow> 'a action \<Rightarrow> 'b action \<Rightarrow> bool" where
  "mirrors g f m m' \<longleftrightarrow> (\<forall>w. m' (scrub g w) = (map_sum id f (fst (m w)), scrub g (snd (m w))))"

named_theorems mirror

lemma mirrors_ret [mirror]: "y = f x \<Longrightarrow> mirrors g f (ret x) (ret y)"
  by (simp add: mirrors_def ret_def)

lemma mirrors_throw [mirror]: "mirrors g f (throw e) (throw e)"
  by (simp add: mirrors_def throw_def)

lemma mirrors_bind:
  assumes "mirrors g f m m'" "\<And>x. mirrors g h (k x) (k' (f x))"
  shows "mirrors g h (bind m k) (bind m' k')"
  unfolding mirrors_def
proof
  fix w
  obtain r v where m: "m w = (r, v)" by force
  then have m': "m' (scrub g w) = (map_sum id f r, scrub g v)" using assms(1) by (simp add: mirrors_def)
  show "bind m' k' (scrub g w) = (map_sum id h (fst (bind m k w)), scrub g (snd (bind m k w)))"
  proof (cases r)
    case (Inr x)
    then show ?thesis using assms(2) [of x] by (simp add: bind_def m m' mirrors_def)
  qed (simp add: bind_def m m')
qed

lemma mirrors_bind_public:
  "mirrors g id m m' \<Longrightarrow> (\<And>x. mirrors g h (k x) (k' x)) \<Longrightarrow> mirrors g h (bind m k) (bind m' k')"
  by (rule mirrors_bind [of g id]) simp_all

lemma mirrors_if [mirror]:
  "b = c \<Longrightarrow> (b \<Longrightarrow> mirrors g f m m') \<Longrightarrow> (\<not> b \<Longrightarrow> mirrors g f n n') \<Longrightarrow>
   mirrors g f (if b then m else n) (if c then m' else n')"
  by auto

lemma scrub_tick: "scrub g (tick w) = tick (scrub g w)"
  by (simp add: scrub_def tick_def)

lemma scrub_steps: "steps (scrub g w) = steps w"
  by (simp add: scrub_def)

lemma mirrors_now [mirror]: "mirrors g id (now E) (now E)"
  by (simp add: mirrors_def now_def scrub_tick scrub_steps)

text \<open>A query that does not look at the secret column.\<close>

lemma mirrors_find:
  assumes "\<And>w. tab (scrub g w) = map s (tab w)" "\<And>x. p (s x) = p x"
  shows "mirrors g (map s) (repo_find E tab p) (repo_find E tab p)"
  using assms by (auto simp: mirrors_def repo_find_def repo_def scrub_tick scrub_steps filter_map comp_def split: option.splits)

lemma mirrors_find_public:
  assumes "\<And>w. tab (scrub g w) = tab w"
  shows "mirrors g id (repo_find E tab p) (repo_find E tab p)"
  using mirrors_find [where s = id and tab = tab and p = p] assms by (simp add: list.map_id0)

lemma find_map: "List.find p (map s xs) = map_option s (List.find (p \<circ> s) xs)"
  by (induction xs) auto

lemma mirrors_find_one:
  assumes "\<And>w. tab (scrub g w) = map s (tab w)" "\<And>x. p (s x) = p x"
  shows "mirrors g (map_option s) (repo_find_one E tab p) (repo_find_one E tab p)"
  using assms
  by (auto simp: mirrors_def repo_find_one_def repo_def scrub_tick scrub_steps find_map comp_def split: option.splits)

lemma scrub_tables:
  "hosts (scrub g w) = map (scrub_host g) (hosts w)" "cloud_accounts (scrub g w) = map (scrub_cloud_account g) (cloud_accounts w)"
  "alert_rules (scrub g w) = map (scrub_rule g) (alert_rules w)" "snapshots (scrub g w) = map (scrub_snapshot g) (snapshots w)"
  "users (scrub g w) = map (scrub_user g) (users w)"
  "services (scrub g w) = map id (services w)" "domains (scrub g w) = map id (domains w)"
  "hc_logs (scrub g w) = map id (hc_logs w)" "organizations (scrub g w) = map id (organizations w)"
  by (simp_all add: scrub_def)

lemma scrub_host_public:
  "host_id (scrub_host g h) = host_id h" "host_sshPublicKey (scrub_host g h) = host_sshPublicKey h"
  by (simp_all add: scrub_host_def)

lemmas scrub_fields = scrub_host_def scrub_cloud_account_def scrub_rule_def scrub_snapshot_def scrub_user_def


lemma mirrors_rows:
  assumes "mirrors g (map s) m m'" "\<And>x. k (s x) = k x" "\<And>x. resp (s x) = resp x"
  shows "mirrors g id (bind (bind m (\<lambda>xs. ret (sort_key k xs))) (\<lambda>xs. ret (map resp xs)))
    (bind (bind m' (\<lambda>xs. ret (sort_key k xs))) (\<lambda>xs. ret (map resp xs)))"
proof -
  have ks: "k \<circ> s = k" and rs: "resp \<circ> s = resp" using assms(2,3) by (simp_all add: fun_eq_iff)
  show ?thesis
    by (rule mirrors_bind [where f = "map s", OF mirrors_bind [where f = "map s", OF assms(1)]])
       (auto intro!: mirrors_ret simp: sort_key_map ks rs)
qed

lemma mirrors_own_or_throw:
  assumes "\<And>w. tab (scrub g w) = map s (tab w)" "\<And>x. p (s x) = p x"
  shows "mirrors g s (bind (repo_find_one E tab p) (\<lambda>x. case x of None \<Rightarrow> throw e | Some r \<Rightarrow> ret r))
    (bind (repo_find_one E tab p) (\<lambda>x. case x of None \<Rightarrow> throw e | Some r \<Rightarrow> ret r))"
  by (rule mirrors_bind [OF mirrors_find_one [where s = s]])
     (auto simp: assms intro: mirrors_ret mirrors_throw split: option.split)

lemma mirrors_find_recent [mirror]: "mirrors g id (find_recent E tys i n) (find_recent E tys i n)"
  unfolding find_recent_def
  by (rule mirrors_bind [OF mirrors_find [where s = id]]) (auto intro!: mirrors_ret simp: scrub_tables)

lemma mirrors_find_host [mirror]: "mirrors g (scrub_host g) (find_host_or_throw E orgId i) (find_host_or_throw E orgId i)"
  unfolding find_host_or_throw_def by (rule mirrors_own_or_throw) (simp_all add: scrub_tables scrub_fields)

lemma mirrors_hosts_find_all: "mirrors g id (hosts_find_all E orgId) (hosts_find_all E orgId)"
  unfolding hosts_find_all_def find_all_hosts_def
  by (rule mirrors_rows [OF mirrors_find [where s = "scrub_host g"]]) (simp_all add: scrub_tables scrub_fields to_host_response_def)

lemma mirrors_hosts_find_one: "mirrors g id (hosts_find_one E orgId i) (hosts_find_one E orgId i)"
  unfolding hosts_find_one_def host_recent_logs_def
  by (rule mirrors_bind [OF mirrors_find_host], simp only: scrub_host_public,
      rule mirrors_bind [OF mirrors_find_recent], rule mirrors_ret)
     (simp add: to_host_detail_response_def to_host_response_def scrub_fields)

lemma mirrors_hosts_setup_instructions:
  "mirrors g id (hosts_setup_instructions E orgId i) (hosts_setup_instructions E orgId i)"
  unfolding hosts_setup_instructions_def
  by (rule mirrors_bind [OF mirrors_find_host], rule mirrors_ret) (simp add: to_setup_instructions_response_def scrub_fields)

lemma mirrors_rules_find_all: "mirrors g id (rules_find_all E orgId) (rules_find_all E orgId)"
  unfolding rules_find_all_def find_all_rules_def
  by (rule mirrors_rows [OF mirrors_find [where s = "scrub_rule g"]]) (simp_all add: scrub_tables scrub_fields to_alert_rule_response_def)

lemma mirrors_rules_find_one: "mirrors g id (rules_find_one E orgId i) (rules_find_one E orgId i)"
  unfolding rules_find_one_def find_rule_or_throw_def
  by (rule mirrors_bind [OF mirrors_own_or_throw [where s = "scrub_rule g"]])
     (auto intro!: mirrors_ret simp: scrub_tables scrub_fields to_alert_rule_response_def)

lemma mirrors_cloud_find_all: "mirrors g id (cloud_find_all E orgId) (cloud_find_all E orgId)"
proof -
  have "map_of (rev (map (\<lambda>a. (ca_provider a, a)) (map (scrub_cloud_account g) xs))) p
      = map_option (scrub_cloud_account g) (map_of (rev (map (\<lambda>a. (ca_provider a, a)) xs)) p)" for xs p
    by (induction xs rule: rev_induct) (auto simp: scrub_fields)
  moreover have "to_cloud_account_response p (map_option (scrub_cloud_account g) o') = to_cloud_account_response p o'" for p o'
    by (cases o') (simp_all add: to_cloud_account_response_def scrub_fields)
  ultimately show ?thesis
    unfolding cloud_find_all_def Let_def
    by (intro mirrors_bind [OF mirrors_find [where s = "scrub_cloud_account g"]] mirrors_ret)
       (simp_all add: scrub_tables scrub_fields)
qed

lemma mirrors_find_service [mirror]: "mirrors g id (find_service_or_throw E orgId i) (find_service_or_throw E orgId i)"
  unfolding find_service_or_throw_def by (rule mirrors_own_or_throw) (simp_all add: scrub_tables)

lemma mirrors_service_snapshots:
  "mirrors g id (service_snapshots_find_history E orgId i) (service_snapshots_find_history E orgId i)"
  unfolding service_snapshots_find_history_def find_history_for_service_def
  by (rule mirrors_bind [OF mirrors_find_service], simp only: id_apply, rule mirrors_rows [OF mirrors_find [where s = "scrub_snapshot g"]])
     (simp_all add: scrub_tables scrub_fields to_snapshot_response_def)

lemma mirrors_idle: "mirrors g (map (scrub_host g)) (compute_idle_hosts E o1) (compute_idle_hosts E o1)"
proof -
  have ids: "host_id \<circ> scrub_host g = host_id" by (simp add: fun_eq_iff scrub_host_public)
  have "mirrors g (map (scrub_host g))
      (if cs = [] then ret [] else bind (repo_find E services (\<lambda>s. svc_hostId s \<in> host_id ` set cs \<and> svc_status s = SS_RUNNING))
        (\<lambda>rs. ret (filter (\<lambda>h. host_id h \<notin> svc_hostId ` set rs) cs)))
      (if map (scrub_host g) cs = [] then ret [] else bind (repo_find E services
          (\<lambda>s. svc_hostId s \<in> host_id ` set (map (scrub_host g) cs) \<and> svc_status s = SS_RUNNING))
        (\<lambda>rs. ret (filter (\<lambda>h. host_id h \<notin> svc_hostId ` set rs) (map (scrub_host g) cs))))" for cs
    by (rule mirrors_if, simp, rule mirrors_ret, simp, unfold set_map image_image scrub_host_public,
        rule mirrors_bind [OF mirrors_find [where s = id]])
       (simp_all add: scrub_tables mirrors_ret filter_map comp_def scrub_host_public)
  note step = this
  show ?thesis
    unfolding compute_idle_hosts_def Let_def
    by (rule mirrors_bind_public [OF mirrors_now], rule mirrors_bind [OF mirrors_find [where s = "scrub_host g"]],
        simp add: scrub_tables, simp add: scrub_host_def, rule step)
qed

lemma mirrors_orphaned_domains: "mirrors g id (compute_orphaned_domains E o1) (compute_orphaned_domains E o1)"
proof -
  have "mirrors g id
      (if ds = [] then ret [] else bind (repo_find E hosts (\<lambda>_. True)) (\<lambda>hs. ret (filter (\<lambda>d. dom_hostId d = None
         \<or> (case dom_resolvedIp d of None \<Rightarrow> False | Some ip \<Rightarrow> ip \<notin> host_ipAddress ` set hs)) ds)))
      (if ds = [] then ret [] else bind (repo_find E hosts (\<lambda>_. True)) (\<lambda>hs. ret (filter (\<lambda>d. dom_hostId d = None
         \<or> (case dom_resolvedIp d of None \<Rightarrow> False | Some ip \<Rightarrow> ip \<notin> host_ipAddress ` set hs)) ds)))" for ds
    by (rule mirrors_if, simp, rule mirrors_ret, simp, rule mirrors_bind [OF mirrors_find [where s = "scrub_host g"]])
       (simp_all add: scrub_tables mirrors_ret image_image scrub_host_def cong: option.case_cong)
  note step = this
  show ?thesis
    unfolding compute_orphaned_domains_def Let_def
    by (rule mirrors_bind_public [OF mirrors_find_public], simp add: scrub_tables, rule step)
qed

lemma mirrors_orphaned_hosts: "mirrors g (map (scrub_host g)) (compute_orphaned_hosts E o1) (compute_orphaned_hosts E o1)"
proof -
  have "mirrors g (map (scrub_host g))
      (if hs = [] then ret [] else bind (repo_find E domains (\<lambda>d. dom_hostId d \<noteq> None))
        (\<lambda>ds. ret (filter (\<lambda>h. Some (host_id h) \<notin> dom_hostId ` set ds) hs)))
      (if map (scrub_host g) hs = [] then ret [] else bind (repo_find E domains (\<lambda>d. dom_hostId d \<noteq> None))
        (\<lambda>ds. ret (filter (\<lambda>h. Some (host_id h) \<notin> dom_hostId ` set ds) (map (scrub_host g) hs))))" for hs
    by (rule mirrors_if, simp, rule mirrors_ret, simp, rule mirrors_bind [OF mirrors_find [where s = id]])
       (simp_all add: scrub_tables mirrors_ret filter_map comp_def scrub_host_public)
  note step = this
  show ?thesis
    unfolding compute_orphaned_hosts_def Let_def
    by (rule mirrors_bind [OF mirrors_find [where s = "scrub_host g"]], simp add: scrub_tables, simp add: scrub_host_def, rule step)
qed

lemma mirrors_get_insights: "mirrors g id (get_insights E orgId) (get_insights E orgId)"
proof -
  let ?s = "\<lambda>r. r\<lparr>oi_idleHosts := map (scrub_host g) (oi_idleHosts r), oi_orphanedHosts := map (scrub_host g) (oi_orphanedHosts r)\<rparr>"
  have "mirrors g ?s (get_insights_for_org E orgId) (get_insights_for_org E orgId)"
    unfolding get_insights_for_org_def
    by (rule mirrors_bind [OF mirrors_idle], rule mirrors_bind [OF mirrors_orphaned_domains],
        rule mirrors_bind [OF mirrors_orphaned_hosts], rule mirrors_ret) simp
  then show ?thesis
    unfolding get_insights_def
    by (rule mirrors_bind, intro mirrors_ret) (simp add: to_idle_host_dto_def to_orphaned_host_dto_def scrub_fields)
qed

lemma mirrors_result: "mirrors g id m m \<Longrightarrow> fst (m (scrub g w)) = fst (m w)"
  by (simp add: mirrors_def sum.map_id0)


end
