(* ===== verification/Insight_Alerts.thy ===== *)
theory Insight_Alerts
  imports Insights
begin

section \<open>The daily insights job alerts on edges only\<close>

text \<open>
  The persisted flags: what one \<open>upsertFlag\<close> does to the set of active entities of a flag, what a
  whole evaluation does, and which entries it can add to the alert log.
\<close>

definition insight_key :: "insight_state \<Rightarrow> uuid \<times> insight_flag" where
  "insight_key s = (ins_entityId s, ins_flag s)"

definition insights_ok :: "world \<Rightarrow> bool" where
  "insights_ok w \<longleftrightarrow> distinct (map ins_id (insight_states w)) \<and> distinct (map insight_key (insight_states w))"

definition active_ids :: "insight_flag \<Rightarrow> world \<Rightarrow> uuid set" where
  "active_ids f w = ins_entityId ` {s \<in> set (insight_states w). ins_flag s = f \<and> ins_active s}"

lemma active_ids_cong: "insight_states w' = insight_states w \<Longrightarrow> active_ids f w' = active_ids f w"
  by (simp add: active_ids_def)

lemma active_ids_iff:
  "i \<in> active_ids f w \<longleftrightarrow> (\<exists>s \<in> set (insight_states w). insight_key s = (i, f) \<and> ins_active s)"
  by (auto simp: active_ids_def insight_key_def)

lemma insight_clash_key: "insight_clash a b \<longleftrightarrow> insight_key a = insight_key b"
  by (auto simp: insight_clash_def insight_key_def)

text \<open>From \<open>w\<close> to \<open>w'\<close> the active ids of one flag become \<open>A\<close>, and the other tables stay.\<close>

definition flags_become :: "insight_flag \<Rightarrow> uuid set \<Rightarrow> world \<Rightarrow> world \<Rightarrow> bool" where
  "flags_become f A w w' \<longleftrightarrow> insights_ok w' \<and> active_ids f w' = A
     \<and> (\<forall>f'. f' \<noteq> f \<longrightarrow> active_ids f' w' = active_ids f' w)
     \<and> hosts w' = hosts w \<and> services w' = services w \<and> domains w' = domains w"

text \<open>What one \<open>upsertFlag\<close> that resolves does to the flags.\<close>

lemma upsert_flag_effect:
  assumes ok: "insights_ok w" and run: "upsert_flag E i f a w = (Inr (), w')"
  shows "flags_become f (if a then insert i (active_ids f w) else active_ids f w - {i}) w w'"
proof -
  let ?T = "insight_states w"
  have "db_fault E (steps w) = None"
    using run by (auto simp: upsert_flag_def repo_find_one_def repo_def prog_simps split: option.splits)
  then have find: "repo_find_one E insight_states (\<lambda>s. ins_entityId s = i \<and> ins_flag s = f) w
      = (Inr (List.find (\<lambda>s. ins_entityId s = i \<and> ins_flag s = f) ?T), tick w)"
    by (simp add: repo_find_one_def repo_def)
  show ?thesis
  proof (cases "List.find (\<lambda>s. ins_entityId s = i \<and> ins_flag s = f) ?T")
    case None
    then have no: "\<forall>s \<in> set ?T. insight_key s \<noteq> (i, f)" by (auto simp: find_None_iff insight_key_def)
    obtain r where r: "insight_key r = (i, f)" "ins_active r = a" "ins_id r \<notin> ins_id ` set ?T"
        "w' = tick (tick (w\<lparr>insight_states := ?T @ [r]\<rparr>))"
    proof -
      let ?r = "\<lparr>ins_id = fresh_uuid E (Suc (steps w)), ins_entityId = i, ins_flag = f, ins_active = a,
          ins_updatedAt = clock E (Suc (steps w))\<rparr>"
      have "ins_id ?r \<notin> ins_id ` set ?T" "w' = tick (tick (w\<lparr>insight_states := ?T @ [?r]\<rparr>))"
        using run find None
        by (auto simp: upsert_flag_def bind_def ret_def repo_insert_def repo_def Let_def tick_def
            split: option.splits if_splits)
      then show thesis by (intro that [of ?r]) (simp_all add: insight_key_def)
    qed
    have set': "set (insight_states w') = insert r (set ?T)" using r(4) by simp
    have "insights_ok w'" using ok no r by (auto simp: insights_ok_def)
    moreover have "j \<in> active_ids f' w' \<longleftrightarrow> j \<in> active_ids f' w \<or> a \<and> j = i \<and> f' = f" for j f'
      unfolding active_ids_iff set' using r(1,2) by auto
    moreover have "i \<notin> active_ids f w" using no by (auto simp: active_ids_iff)
    ultimately show ?thesis using r(4) by (auto simp: flags_become_def)
  next
    case (Some s)
    then have s: "s \<in> set ?T" "insight_key s = (i, f)" by (auto simp: find_Some_iff insight_key_def)
    define r where "r = s\<lparr>ins_active := a,
        ins_updatedAt := (if ins_active s = a then ins_updatedAt s else clock E (Suc (steps w)))\<rparr>"
    have r: "ins_id r = ins_id s" "insight_key r = insight_key s" "ins_active r = a"
      by (simp_all add: r_def insight_key_def)
    have w': "w' = tick (tick (tick (w\<lparr>insight_states := save_row ins_id r ?T\<rparr>)))"
      using run find Some
      by (auto simp: upsert_flag_def bind_def ret_def now_def repo_save_def repo_def Let_def tick_def r_def
          split: option.splits if_splits)
    have ids: "distinct (map ins_id ?T)" and keys: "distinct (map insight_key ?T)"
      using ok by (simp_all add: insights_ok_def)
    have "{x \<in> set ?T. ins_id x \<noteq> ins_id r} = set ?T - {s}"
      using key_unique [OF ids _ s(1)] by (auto simp: r(1))
    then have set': "set (insight_states w') = insert r (set ?T - {s})"
      using insight_table.mem_save [OF ids, of r] by (simp add: w')
    have "ins_id r \<in> ins_id ` set ?T" using s(1) r(1) by (metis imageI)
    then have "insights_ok w'"
      using ids keys save_same_key [OF ids s(1) r(1,2)] by (simp add: insights_ok_def w' ids_save_row)
    moreover have only: "insight_key x = (i, f) \<longleftrightarrow> x = s" if "x \<in> set ?T" for x
      using key_unique [OF keys that s(1)] s(2) by auto
    moreover have "j \<in> active_ids f' w' \<longleftrightarrow> (if (j, f') = (i, f) then a else j \<in> active_ids f' w)" for j f'
    proof (cases "(j, f') = (i, f)")
      case False
      then have "x \<in> insert r (set ?T - {s}) \<and> insight_key x = (j, f') \<longleftrightarrow> x \<in> set ?T \<and> insight_key x = (j, f')" for x
        using s r(2) by auto
      then show ?thesis unfolding active_ids_iff set' using False by auto
    qed (use only r s in \<open>auto simp: active_ids_iff set'\<close>)
    ultimately show ?thesis using w' by (auto simp: flags_become_def split: if_splits)
  qed
qed


lemma flags_become_core:
  assumes "core_view v = core_view w" "flags_become f A v w'"
  shows "flags_become f A w w'"
  using assms(2) by (simp add: flags_become_def active_ids_def core_view_eqD [OF assms(1)])

lemma flags_become_trans: "flags_become f A w v \<Longrightarrow> flags_become f B v u \<Longrightarrow> flags_become f B w u"
  by (simp add: flags_become_def)

lemma insights_ok_core: "core_view v = core_view w \<Longrightarrow> insights_ok v = insights_ok w"
  unfolding insights_ok_def by (drule core_view_eqD(5)) simp

lemma core_view_do_when_direct: "core_view (snd (do_when b (evaluate_direct_condition E j) w)) = core_view w"
  by (simp add: do_when_def ret_def)

lemma do_when_direct_Inr: "\<exists>u. do_when b (evaluate_direct_condition E j) w = (Inr (), u)"
  using no_throw_unit [OF direct_alert.effect_resolves] by (auto simp: do_when_def ret_def)

lemma matching_loop:
  assumes "insights_ok w"
    and "for_each ms (\<lambda>e. andthen (do_when (b e) (evaluate_direct_condition E (j e))) (upsert_flag E (eid e) f True)) w
      = (Inr (), w')"
  shows "flags_become f (active_ids f w \<union> eid ` set ms) w w'"
  using assms
proof (induction ms arbitrary: w)
  case (Cons e ms)
  obtain v where v: "do_when (b e) (evaluate_direct_condition E (j e)) w = (Inr (), v)" "core_view v = core_view w"
    using do_when_direct_Inr [of "b e" E "j e" w] core_view_do_when_direct [of "b e" E "j e" w] by auto
  obtain u where u: "upsert_flag E (eid e) f True v = (Inr (), u)"
      "for_each ms (\<lambda>e. andthen (do_when (b e) (evaluate_direct_condition E (j e))) (upsert_flag E (eid e) f True)) u = (Inr (), w')"
    using Cons.prems(2) v(1) by (auto elim!: andthen_InrE)
  have "insights_ok v" using Cons.prems(1) insights_ok_core [OF v(2)] by simp
  from upsert_flag_effect [OF this u(1)] have fb: "flags_become f (insert (eid e) (active_ids f w)) w u"
    using flags_become_core [OF v(2)] core_view_eqD(5) [OF v(2)] by (simp add: active_ids_def)
  then have "insights_ok u" "active_ids f u = insert (eid e) (active_ids f w)" by (simp_all add: flags_become_def)
  with Cons.IH [OF _ u(2)] flags_become_trans [OF fb] show ?case by simp
qed (simp add: ret_def flags_become_def)

lemma leaving_loop:
  assumes "insights_ok w" and "for_each ss (\<lambda>s. upsert_flag E (ins_entityId s) f False) w = (Inr (), w')"
  shows "flags_become f (active_ids f w - ins_entityId ` set ss) w w'"
  using assms
proof (induction ss arbitrary: w)
  case (Cons s ss)
  obtain u where u: "upsert_flag E (ins_entityId s) f False w = (Inr (), u)"
      "for_each ss (\<lambda>s. upsert_flag E (ins_entityId s) f False) u = (Inr (), w')"
    using Cons.prems(2) by (auto elim!: andthen_InrE)
  from upsert_flag_effect [OF Cons.prems(1) u(1)]
  have fb: "flags_become f (active_ids f w - {ins_entityId s}) w u" by simp
  then have "insights_ok u" "active_ids f u = active_ids f w - {ins_entityId s}" by (simp_all add: flags_become_def)
  moreover have "active_ids f w - ins_entityId ` set (s # ss) = active_ids f w - {ins_entityId s} - ins_entityId ` set ss"
    by auto
  ultimately show ?case using Cons.IH [OF _ u(2)] flags_become_trans [OF fb] by metis
qed (simp add: ret_def flags_become_def)

text \<open>Once a flag has been evaluated, its active entities are exactly those that matched.\<close>

lemma evaluate_flag_transitions_effect:
  assumes ok: "insights_ok w" and run: "evaluate_flag_transitions E eid eorg f ms msg w = (Inr (), w')"
  shows "flags_become f (eid ` set ms) w w'"
proof -
  define prev where "prev = filter (\<lambda>s. ins_flag s = f \<and> ins_active s) (insight_states w)"
  have ids: "ins_entityId ` set prev = active_ids f w" by (simp add: prev_def active_ids_def)
  obtain u where u: "for_each ms (\<lambda>e. andthen (do_when (eid e \<notin> ins_entityId ` set prev)
        (evaluate_direct_condition E \<lparr>ci_orgId = eorg e, ci_entityType = AE_SYSTEM, ci_entityId = eid e,
           ci_condition = insight_condition f, ci_message = msg e\<rparr>)) (upsert_flag E (eid e) f True)) (tick w) = (Inr (), u)"
      "for_each (filter (\<lambda>s. ins_entityId s \<notin> eid ` set ms) prev) (\<lambda>s. upsert_flag E (ins_entityId s) f False) u = (Inr (), w')"
    using run unfolding evaluate_flag_transitions_def Let_def prev_def
    by (auto elim!: bind_InrE andthen_InrE dest!: repo_find_Inr)
  have ok': "insights_ok (tick w)" using ok by (simp add: insights_ok_def)
  have a: "flags_become f (active_ids f w \<union> eid ` set ms) w u"
    using flags_become_core [OF _ matching_loop [OF ok' u(1)], of w] by (simp add: active_ids_def)
  then have "insights_ok u" "active_ids f u = active_ids f w \<union> eid ` set ms" by (simp_all add: flags_become_def)
  moreover have "active_ids f w \<union> eid ` set ms
      - ins_entityId ` set (filter (\<lambda>s. ins_entityId s \<notin> eid ` set ms) prev) = eid ` set ms"
    unfolding ids [symmetric] by (auto, metis imageI)
  ultimately show ?thesis using leaving_loop [OF _ u(2)] flags_become_trans [OF a] by simp
qed


lemma log_steps_entity:
  "log_steps E rs ent m w w' \<Longrightarrow> set (alert_logs w') \<subseteq> set (alert_logs w) \<union> {l. alog_entityId l = ent}"
  by (induction rule: log_steps.induct) (auto simp: log_step_def log_entry_for_def)

text \<open>Every new entry is about an entity in \<open>N\<close>.\<close>

abbreviation (input) logs_about :: "uuid set \<Rightarrow> alert_log set \<Rightarrow> world \<Rightarrow> bool" where
  "logs_about N L \<equiv> \<lambda>w. set (alert_logs w) \<subseteq> L \<union> {l. alog_entityId l \<in> N}"

lemma preserves_direct_logs:
  assumes "b \<Longrightarrow> ci_entityId j \<in> N"
  shows "preserves (logs_about N L) (do_when b (evaluate_direct_condition E j))"
proof (rule preserves_do_when)
  assume b
  show "preserves (logs_about N L) (evaluate_direct_condition E j)"
  proof (rule preservesI)
    fix w :: world assume "logs_about N L w"
    then show "logs_about N L (snd (evaluate_direct_condition E j w))"
      using log_steps_entity [OF evaluate_direct_condition_steps [where E = E and input = j and w = w]] assms [OF \<open>b\<close>] by auto
  qed
qed

lemma preserves_upsert_flag_logs: "preserves (logs_about N L) (upsert_flag E i f a)"
  unfolding upsert_flag_def
  by (intro pres preserves_repo_insert preserves_repo_save) auto

lemma evaluate_flag_transitions_logs:
  "logs_about (eid ` set ms - active_ids f w) (set (alert_logs w)) (snd (evaluate_flag_transitions E eid eorg f ms msg w))"
proof (cases "db_fault E (steps w)")
  case None
  let ?N = "eid ` set ms - active_ids f w" and ?L = "set (alert_logs w)"
  define prev where "prev = filter (\<lambda>s. ins_flag s = f \<and> ins_active s) (insight_states w)"
  have ids: "ins_entityId ` set prev = active_ids f w" by (simp add: prev_def active_ids_def)
  define body where "body = andthen (for_each ms (\<lambda>e. andthen (do_when (eid e \<notin> ins_entityId ` set prev)
        (evaluate_direct_condition E \<lparr>ci_orgId = eorg e, ci_entityType = AE_SYSTEM, ci_entityId = eid e,
           ci_condition = insight_condition f, ci_message = msg e\<rparr>)) (upsert_flag E (eid e) f True)))
      (for_each (filter (\<lambda>s. ins_entityId s \<notin> eid ` set ms) prev) (\<lambda>s. upsert_flag E (ins_entityId s) f False))"
  have "preserves (logs_about ?N ?L) body"
    unfolding body_def
    by (intro preserves_andthen preserves_for_each preserves_direct_logs preserves_upsert_flag_logs) (auto simp: ids)
  then have "logs_about ?N ?L (snd (body (tick w)))" by (rule preservesD) simp
  moreover have "evaluate_flag_transitions E eid eorg f ms msg w = body (tick w)"
    using None by (simp add: evaluate_flag_transitions_def bind_def repo_find_def repo_def body_def prev_def)
  ultimately show ?thesis by simp
qed (simp add: evaluate_flag_transitions_def bind_def repo_find_def repo_def)


lemma evaluate_idle_hosts_effect:
  assumes "insights_ok w" "evaluate_idle_hosts E w = (Inr (), w')"
  shows "flags_become IDLE_HOST (host_id ` {h \<in> set (hosts w). host_is_idle w (clock E (steps w)) h}) w w'"
proof -
  obtain hs v where v: "compute_idle_hosts E None w = (Inr hs, v)"
      "evaluate_flag_transitions E host_id host_orgId IDLE_HOST hs idle_host_message v = (Inr (), w')"
    using assms(2) unfolding evaluate_idle_hosts_def by (rule bind_InrE)
  note hs = compute_idle_hosts_Inr [OF v(1)]
  then have "flags_become IDLE_HOST (host_id ` set hs) w w'"
    using flags_become_core evaluate_flag_transitions_effect [OF _ v(2)] insights_ok_core assms(1) by metis
  with hs show ?thesis by (simp add: in_org_def conj_commute)
qed

lemma evaluate_orphaned_domains_effect:
  assumes "insights_ok w" "evaluate_orphaned_domains E w = (Inr (), w')"
  shows "flags_become ORPHANED_DOMAIN (dom_id ` {d \<in> set (domains w). domain_is_orphaned w d}) w w'"
proof -
  obtain ds v where v: "compute_orphaned_domains E None w = (Inr ds, v)"
      "evaluate_flag_transitions E dom_id dom_orgId ORPHANED_DOMAIN ds orphaned_domain_message v = (Inr (), w')"
    using assms(2) unfolding evaluate_orphaned_domains_def by (rule bind_InrE)
  note ds = compute_orphaned_domains_Inr [OF v(1)]
  then have "flags_become ORPHANED_DOMAIN (dom_id ` set ds) w w'"
    using flags_become_core evaluate_flag_transitions_effect [OF _ v(2)] insights_ok_core assms(1) by metis
  with ds show ?thesis by (simp add: in_org_def conj_commute)
qed

lemma evaluate_orphaned_hosts_effect:
  assumes "insights_ok w" "evaluate_orphaned_hosts E w = (Inr (), w')"
  shows "flags_become ORPHANED_HOST (host_id ` {h \<in> set (hosts w). host_is_orphaned w h}) w w'"
proof -
  obtain hs v where v: "compute_orphaned_hosts E None w = (Inr hs, v)"
      "evaluate_flag_transitions E host_id host_orgId ORPHANED_HOST hs orphaned_host_message v = (Inr (), w')"
    using assms(2) unfolding evaluate_orphaned_hosts_def by (rule bind_InrE)
  note hs = compute_orphaned_hosts_Inr [OF v(1)]
  then have "flags_become ORPHANED_HOST (host_id ` set hs) w w'"
    using flags_become_core evaluate_flag_transitions_effect [OF _ v(2)] insights_ok_core assms(1) by metis
  with hs show ?thesis by (simp add: in_org_def conj_commute)
qed

text \<open>The heuristics read the tables that the flags do not touch.\<close>

lemma flags_become_heuristics:
  "flags_become f A w w' \<Longrightarrow> host_is_idle w' t = host_is_idle w t \<and> domain_is_orphaned w' = domain_is_orphaned w
     \<and> host_is_orphaned w' = host_is_orphaned w \<and> hosts w' = hosts w \<and> domains w' = domains w \<and> insights_ok w'"
  by (simp add: flags_become_def fun_eq_iff host_is_idle_def domain_is_orphaned_def host_is_orphaned_def)

lemma run_daily_check_effect:
  assumes ok: "insights_ok w" and run: "run_daily_check E w = (Inr (), w')"
  shows "insights_ok w' \<and> hosts w' = hosts w \<and> services w' = services w \<and> domains w' = domains w
    \<and> active_ids IDLE_HOST w' = host_id ` {h \<in> set (hosts w). host_is_idle w (clock E (steps w)) h}
    \<and> active_ids ORPHANED_DOMAIN w' = dom_id ` {d \<in> set (domains w). domain_is_orphaned w d}
    \<and> active_ids ORPHANED_HOST w' = host_id ` {h \<in> set (hosts w). host_is_orphaned w h}"
proof -
  obtain u v where u: "evaluate_idle_hosts E w = (Inr (), u)" and v: "evaluate_orphaned_domains E u = (Inr (), v)"
      and w': "evaluate_orphaned_hosts E v = (Inr (), w')"
    using run unfolding run_daily_check_def by (auto elim!: andthen_InrE)
  note a = evaluate_idle_hosts_effect [OF ok u]
  note ha = flags_become_heuristics [OF a]
  then have "insights_ok u" by simp
  note b = evaluate_orphaned_domains_effect [OF this v]
  note hb = flags_become_heuristics [OF b]
  then have "insights_ok v" by simp
  note c = evaluate_orphaned_hosts_effect [OF this w']
  from a b c ha hb show ?thesis by (simp add: flags_become_def)
qed


lemma keeps_logs_compute:
  "keeps alert_logs (compute_idle_hosts E o1)" "keeps alert_logs (compute_orphaned_domains E o1)"
  "keeps alert_logs (compute_orphaned_hosts E o1)"
  unfolding compute_idle_hosts_def compute_orphaned_domains_def compute_orphaned_hosts_def Let_def
  by (intro keepsI pres; simp)+

lemma evaluate_phase_logs:
  assumes keep: "keeps alert_logs m"
    and res: "\<And>xs v. m w = (Inr xs, v) \<Longrightarrow> eid ` set xs \<subseteq> M \<and> core_view v = core_view w"
  shows "logs_about (M - active_ids f w) (set (alert_logs w))
    (snd (bind m (\<lambda>xs. evaluate_flag_transitions E eid eorg f xs msg) w))"
proof (cases "m w")
  case (Pair r v)
  have logs: "alert_logs v = alert_logs w" using keepsD' [OF keep Pair] .
  show ?thesis
  proof (cases r)
    case (Inr xs)
    with res Pair have x: "eid ` set xs \<subseteq> M" and cv: "core_view v = core_view w" by simp_all
    have "active_ids f v = active_ids f w" by (simp add: active_ids_def core_view_eqD(5) [OF cv])
    note x = x this
    then show ?thesis
      using evaluate_flag_transitions_logs [where eid = eid and ms = xs and f = f and w = v and E = E and eorg = eorg and msg = msg] by (auto simp: bind_def Pair Inr logs)
  qed (simp add: bind_def Pair logs)
qed

lemma evaluate_idle_hosts_logs:
  "logs_about (host_id ` {h \<in> set (hosts w). host_is_idle w (clock E (steps w)) h} - active_ids IDLE_HOST w)
     (set (alert_logs w)) (snd (evaluate_idle_hosts E w))"
  unfolding evaluate_idle_hosts_def
  by (rule evaluate_phase_logs [OF keeps_logs_compute(1)], drule compute_idle_hosts_Inr) (auto simp: in_org_def)

lemma evaluate_orphaned_domains_logs:
  "logs_about (dom_id ` {d \<in> set (domains w). domain_is_orphaned w d} - active_ids ORPHANED_DOMAIN w)
     (set (alert_logs w)) (snd (evaluate_orphaned_domains E w))"
  unfolding evaluate_orphaned_domains_def
  by (rule evaluate_phase_logs [OF keeps_logs_compute(2)], drule compute_orphaned_domains_Inr) (auto simp: in_org_def)

lemma evaluate_orphaned_hosts_logs:
  "logs_about (host_id ` {h \<in> set (hosts w). host_is_orphaned w h} - active_ids ORPHANED_HOST w)
     (set (alert_logs w)) (snd (evaluate_orphaned_hosts E w))"
  unfolding evaluate_orphaned_hosts_def
  by (rule evaluate_phase_logs [OF keeps_logs_compute(3)], drule compute_orphaned_hosts_Inr) (auto simp: in_org_def)

lemma andthen_snd: "snd (andthen m k w) = (case m w of (Inl e, v) \<Rightarrow> v | (Inr x, v) \<Rightarrow> snd (k v))"
  by (auto simp: prog_simps split: prod.splits sum.splits)

text \<open>A run from a state whose orphan flags are up to date alerts about hosts that became idle, at most.\<close>

lemma run_daily_check_logs:
  assumes ok: "insights_ok w"
    and od: "active_ids ORPHANED_DOMAIN w = dom_id ` {d \<in> set (domains w). domain_is_orphaned w d}"
    and oh: "active_ids ORPHANED_HOST w = host_id ` {h \<in> set (hosts w). host_is_orphaned w h}"
  shows "logs_about (host_id ` {h \<in> set (hosts w). host_is_idle w (clock E (steps w)) h} - active_ids IDLE_HOST w)
     (set (alert_logs w)) (snd (run_daily_check E w))" (is "logs_about ?N ?L _")
proof -
  obtain r u where u: "evaluate_idle_hosts E w = (r, u)" by force
  have lu: "logs_about ?N ?L u" using evaluate_idle_hosts_logs [where E = E and w = w] u by simp
  show ?thesis
  proof (cases r)
    case (Inl e)
    with lu u show ?thesis by (simp add: run_daily_check_def andthen_snd)
  next
    case (Inr x)
    with u have "evaluate_idle_hosts E w = (Inr (), u)" by simp
    note a = evaluate_idle_hosts_effect [OF ok this]
    note ha = flags_become_heuristics [OF a]
    have "set (alert_logs (snd (evaluate_orphaned_domains E u))) \<subseteq> set (alert_logs u)"
      using evaluate_orphaned_domains_logs [where E = E and w = u] a ha od by (auto simp: flags_become_def)
    with lu have lv': "logs_about ?N ?L (snd (evaluate_orphaned_domains E u))" by blast
    obtain s v where v: "evaluate_orphaned_domains E u = (s, v)" by force
    with lv' have lv: "logs_about ?N ?L v" by simp
    show ?thesis
    proof (cases s)
      case (Inl e)
      with lv v u Inr show ?thesis by (simp add: run_daily_check_def andthen_snd)
    next
      case (Inr y)
      with v have "evaluate_orphaned_domains E u = (Inr (), v)" by simp
      note b = evaluate_orphaned_domains_effect [OF conjunct2 [OF conjunct2 [OF conjunct2 [OF conjunct2 [OF conjunct2 [OF ha]]]]] this]
      note hb = flags_become_heuristics [OF b]
      have "set (alert_logs (snd (evaluate_orphaned_hosts E v))) \<subseteq> set (alert_logs v)"
        using evaluate_orphaned_hosts_logs [where E = E and w = v] a b ha hb oh by (auto simp: flags_become_def)
      with lv u v \<open>r = Inr x\<close> Inr show ?thesis by (simp add: run_daily_check_def andthen_snd)
    qed
  qed
qed


definition idle_host :: host where
  "idle_host = demo_host\<lparr>host_id := ''h2'', host_createdAt := - 100000000\<rparr>"


lemma demo_dispatch_none: "alert_rules w = [] \<Longrightarrow> evaluate_direct_condition demo_env j w = (Inr (), tick w)"
  by (simp add: evaluate_direct_condition_def dispatch_def repo_find_ok demo_env_ok prog_simps)

lemma fresh_uuid_demo_env: "fresh_uuid demo_env n = ''id-'' @ show_nat n"
  by (simp add: demo_env_def)

lemma run_daily_check_demo:
  "\<exists>w1. run_daily_check demo_env (empty_world\<lparr>hosts := [idle_host]\<rparr>) = (Inr (), w1)"
  by (simp add: run_daily_check_def evaluate_idle_hosts_def evaluate_orphaned_domains_def evaluate_orphaned_hosts_def
      compute_idle_hosts_def compute_orphaned_domains_def compute_orphaned_hosts_def evaluate_flag_transitions_def
      upsert_flag_def prog_simps repo_find_ok repo_find_one_ok repo_insert_def repo_ok demo_env_ok now_def Let_def in_org_def
      demo_dispatch_none idle_host_def demo_host_def IDLE_HOST_MIN_AGE_HOURS_def fresh_uuid_demo_env insight_clash_def)


end
