(* ===== verification/Domain_Lifecycle.thy ===== *)
theory Domain_Lifecycle
  imports Domains
begin

section \<open>Registering and removing hosts and domains\<close>

text \<open>
  Referential integrity over the lifecycle of hosts and domains, what a failed registration of a
  domain leaves behind, and the rate limit of requested checks.
\<close>

subsection \<open>References between rows\<close>

definition refers :: "('a \<Rightarrow> 'k) \<Rightarrow> 'a list \<Rightarrow> ('b \<Rightarrow> 'k) \<Rightarrow> 'b list \<Rightarrow> bool" where
  "refers fk xs rid ys \<longleftrightarrow> fk ` set xs \<subseteq> rid ` set ys"

text \<open>Every foreign key has its row; a domain's host may be null.\<close>

definition refs_ok :: "world \<Rightarrow> bool" where
  "refs_ok w \<longleftrightarrow> refers svc_hostId (services w) host_id (hosts w)
     \<and> refers snap_serviceId (snapshots w) svc_id (services w)
     \<and> refers ev_serviceId (rollback_events w) svc_id (services w)
     \<and> refers ev_fromSnapshotId (rollback_events w) snap_id (snapshots w)
     \<and> refers ev_toSnapshotId (rollback_events w) snap_id (snapshots w)
     \<and> {i. Some i \<in> dom_hostId ` set (domains w)} \<subseteq> host_id ` set (hosts w)
     \<and> refers cert_domainId (ssl_certificates w) dom_id (domains w)"

lemma refs_ok_tick [simp]: "refs_ok (tick w) = refs_ok w"
  by (simp add: refs_ok_def)

lemma refers_filter:
  assumes "refers fk xs rid ys" and "\<And>x y. x \<in> set xs \<Longrightarrow> q x \<Longrightarrow> y \<in> set ys \<Longrightarrow> rid y = fk x \<Longrightarrow> p y"
  shows "refers fk (filter q xs) rid (filter p ys)"
  unfolding refers_def
proof
  fix k assume "k \<in> fk ` set (filter q xs)"
  then obtain x where x: "x \<in> set xs" "q x" "k = fk x" by auto
  with assms(1) obtain y where "y \<in> set ys" "rid y = fk x" unfolding refers_def by (metis image_iff image_subset_iff)
  with x assms(2) have "y \<in> set (filter p ys)" "k = rid y" by auto
  then show "k \<in> rid ` set (filter p ys)" by blast
qed

lemma refers_less: "refers fk xs rid ys \<Longrightarrow> refers fk (filter q xs) rid ys"
  by (auto simp: refers_def)

text \<open>Cascading over the services that are removed.\<close>

lemma refs_ok_delete_services:
  assumes "refs_ok w"
  shows "refs_ok (delete_services p w)"
proof -
  let ?svc = "svc_id ` set (filter p (services w))"
  let ?snap = "snap_id ` set (filter (\<lambda>s. snap_serviceId s \<in> ?svc) (snapshots w))"
  let ?ss = "filter (\<lambda>s. \<not> p s) (services w)" and ?sn = "filter (\<lambda>s. snap_serviceId s \<notin> ?svc) (snapshots w)"
  let ?ev = "filter (\<lambda>e. ev_serviceId e \<notin> ?svc \<and> ev_fromSnapshotId e \<notin> ?snap \<and> ev_toSnapshotId e \<notin> ?snap) (rollback_events w)"
  note r = assms [unfolded refs_ok_def]
  have "refers svc_hostId ?ss host_id (hosts w)" using r by (intro refers_less) simp
  moreover have "refers snap_serviceId ?sn svc_id ?ss"
    by (rule refers_filter, use r in simp) (force simp: image_iff)
  moreover have "refers ev_serviceId ?ev svc_id ?ss"
    by (rule refers_filter, use r in simp) (force simp: image_iff)
  moreover have "refers ev_fromSnapshotId ?ev snap_id ?sn"
    by (rule refers_filter, use r in simp) (force simp: image_iff)
  moreover have "refers ev_toSnapshotId ?ev snap_id ?sn"
    by (rule refers_filter, use r in simp) (force simp: image_iff)
  ultimately show ?thesis using r by (simp add: refs_ok_def delete_services_def Let_def)
qed

lemma refs_ok_delete_host:
  assumes "refs_ok w"
  shows "refs_ok (delete_host i w)"
proof -
  let ?v = "delete_services (\<lambda>s. svc_hostId s = i) w"
  have v: "refs_ok ?v" by (rule refs_ok_delete_services [OF assms])
  have "\<forall>s \<in> set (services ?v). svc_hostId s \<noteq> i" by (simp add: delete_services_def Let_def)
  then have "refers svc_hostId (filter (\<lambda>_. True) (services ?v)) host_id (filter (\<lambda>h. host_id h \<noteq> i) (hosts ?v))"
    using v unfolding refs_ok_def by (intro refers_filter) auto
  moreover have "{k. Some k \<in> dom_hostId ` set (map (unlink_host i) (domains ?v))}
      \<subseteq> host_id ` set (filter (\<lambda>h. host_id h \<noteq> i) (hosts ?v))"
  proof
    fix k assume "k \<in> {k. Some k \<in> dom_hostId ` set (map (unlink_host i) (domains ?v))}"
    then obtain d where d: "d \<in> set (domains ?v)" "dom_hostId (unlink_host i d) = Some k" by auto
    then have "dom_hostId d = Some k" "k \<noteq> i" by (auto simp: unlink_host_def split: if_splits)
    with d(1) v have "k \<in> host_id ` set (hosts ?v)" unfolding refs_ok_def by (metis (mono_tags) imageI mem_Collect_eq subsetD)
    with \<open>k \<noteq> i\<close> show "k \<in> host_id ` set (filter (\<lambda>h. host_id h \<noteq> i) (hosts ?v))" by auto
  qed
  moreover have "dom_id (unlink_host i d) = dom_id d" for d by (simp add: unlink_host_def)
  then have "dom_id ` set (map (unlink_host i) (domains ?v)) = dom_id ` set (domains ?v)"
    by (simp add: image_image)
  ultimately show ?thesis using v by (simp add: refs_ok_def delete_host_def Let_def refers_def)
qed

lemma refs_ok_delete_domain:
  assumes "refs_ok w"
  shows "refs_ok (delete_domain i w)"
proof -
  have "refers cert_domainId (filter (\<lambda>c. cert_domainId c \<noteq> i) (ssl_certificates w)) dom_id
      (filter (\<lambda>d. dom_id d \<noteq> i) (domains w))"
    using assms unfolding refs_ok_def by (intro refers_filter) auto
  moreover have "{k. Some k \<in> dom_hostId ` set (filter (\<lambda>d. dom_id d \<noteq> i) (domains w))} \<subseteq> {k. Some k \<in> dom_hostId ` set (domains w)}"
    by auto
  ultimately show ?thesis using assms by (auto simp: refs_ok_def delete_domain_def)
qed

subsection \<open>The operations keep the references\<close>

lemma triple_find_host:
  "triple refs_ok (find_host_or_throw E orgId i) (\<lambda>h w. refs_ok w \<and> host_id h = i \<and> host_orgId h = orgId \<and> h \<in> set (hosts w)) (\<lambda>_. refs_ok)"
  by (auto simp: triple_def find_host_or_throw_def repo_find_one_def repo_def prog_simps dest!: find_SomeD
      split: option.splits)

lemma triple_insert_domain:
  "triple (\<lambda>w. refs_ok w \<and> (\<forall>i. cd_host_id dto = Some i \<longrightarrow> i \<in> host_id ` set (hosts w))) (insert_domain E orgId dto)
     (\<lambda>d w. refs_ok w \<and> d \<in> set (domains w)) (\<lambda>_. refs_ok)"
  by (auto simp: triple_def insert_domain_def repo_insert_def repo_def Let_def refs_ok_def refers_def image_iff
      split: option.splits)

lemma triple_insert_certificate:
  "triple (\<lambda>w. refs_ok w \<and> (\<exists>d \<in> set (domains w). dom_id d = i)) (insert_certificate E i)
     (\<lambda>_. refs_ok) (\<lambda>_. refs_ok)"
  by (auto simp: triple_def insert_certificate_def repo_insert_def repo_def Let_def refs_ok_def refers_def
      split: option.splits)

lemma preserves_refs_remove_host: "preserves refs_ok (remove_host E orgId i)"
proof -
  have "preserves refs_ok (find_host_or_throw E orgId i)"
    unfolding find_host_or_throw_def by (intro pres) simp
  then show ?thesis
    unfolding remove_host_def
    by (intro preserves_bind preserves_repo) (auto intro: refs_ok_delete_host)
qed

lemma preserves_refs_remove_domain: "preserves refs_ok (remove_domain E orgId i)"
proof -
  have "preserves refs_ok (find_domain_or_throw E orgId i)"
    unfolding find_domain_or_throw_def by (intro pres) simp
  then show ?thesis
    unfolding remove_domain_def
    by (intro preserves_bind preserves_repo) (auto intro: refs_ok_delete_domain)
qed

lemma preserves_generate_ssh_keypair [pres]:
  "(\<And>w. P w \<Longrightarrow> P (tick w)) \<Longrightarrow> preserves P (generate_ssh_keypair E c)"
  by (auto simp: preserves_def generate_ssh_keypair_def Let_def split: prod.splits)

lemma preserves_refs_create_host: "preserves refs_ok (create_host E orgId dto)"
  unfolding create_host_def
  by (intro preserves_bind preserves_repo_insert pres) (auto simp: refs_ok_def refers_def)

lemma preserves_refs_create_domain:
  assumes "cd_host_id dto \<noteq> Some []"
  shows "preserves refs_ok (create_domain E orgId dto)"
proof -
  let ?linked = "\<lambda>w. refs_ok w \<and> (\<forall>i. cd_host_id dto = Some i \<longrightarrow> i \<in> host_id ` set (hosts w))"
  let ?R = "\<lambda>_::js_error. refs_ok"
  have host: "triple refs_ok (case cd_host_id dto of
        Some hostId \<Rightarrow> if hostId \<noteq> [] then bind (find_host_or_throw E orgId hostId) (\<lambda>host. ret ()) else ret ()
      | None \<Rightarrow> ret ()) (\<lambda>_. ?linked) ?R"
  proof (cases "cd_host_id dto")
    case (Some i)
    with assms have "i \<noteq> []" by auto
    have "triple (\<lambda>w. refs_ok w \<and> host_id h = i \<and> host_orgId h = orgId \<and> h \<in> set (hosts w)) (ret ()) (\<lambda>_. ?linked) ?R" for h
      using Some by (intro triple_ret) auto
    from triple_bind [OF triple_find_host this] Some \<open>i \<noteq> []\<close> show ?thesis by simp
  qed (auto intro: triple_ret)
  have find: "triple ?linked (repo_find_one E domains p) (\<lambda>_. ?linked) ?R" for p
    by (rule triple_weaken [OF triple_preserves [where P = ?linked]])
       (auto intro!: preserves_repo_find_one)
  have "preserves refs_ok (enqueue_domain_job E i)" for i
    unfolding enqueue_domain_job_def
    by (rule preserves_queue_add) (auto simp: refs_ok_def push_domain_job_def)
  then have job: "triple refs_ok (bind (enqueue_domain_job E i) (\<lambda>j. ret (d, j))) (\<lambda>_. refs_ok) ?R" for i and d :: domain
    by (intro triple_bind [OF triple_preserves triple_ret]) auto
  have cert: "triple (\<lambda>w. refs_ok w \<and> d \<in> set (domains w)) (insert_certificate E (dom_id d)) (\<lambda>_. refs_ok) ?R" for d
    by (rule triple_weaken [OF triple_insert_certificate]) auto
  have ins: "triple ?linked (bind (insert_domain E orgId dto) (\<lambda>domain. bind (insert_certificate E (dom_id domain)) (\<lambda>cert.
      bind (enqueue_domain_job E (dom_id domain)) (\<lambda>jobId. ret (domain, jobId))))) (\<lambda>_. refs_ok) ?R"
    by (rule triple_bind [OF triple_insert_domain triple_bind [OF cert job]])
  have "triple refs_ok (create_domain E orgId dto) (\<lambda>_. refs_ok) ?R"
    unfolding create_domain_def
    by (rule triple_andthen [OF host], rule triple_bind [OF find], rule triple_option)
       (auto intro: ins triple_throw)
  then show ?thesis by (auto simp: preserves_def triple_run)
qed


definition linked_domain :: domain where
  "linked_domain = demo_domain\<lparr>dom_hostId := Some ''h''\<rparr>"


subsection \<open>Failed registrations and the rate limit\<close>

text \<open>
  Creating a domain is three writes without a transaction: when the second one fails, the
  domain row stays without its certificate row. From then on, even without any further fault,
  the domain cannot be read (404) and cannot be registered again (409).
\<close>

lemma failed_certificate_blocks_domain:
  assumes "db_fault E (steps w) = None" "db_fault E (Suc (steps w)) = None" "db_fault E (Suc (Suc (steps w))) = Some e"
    and "cd_host_id dto = None" and "\<forall>d \<in> set (domains w). dom_orgId d = orgId \<longrightarrow> dom_hostname d \<noteq> cd_hostname dto"
    and "fresh_uuid E (Suc (steps w)) \<notin> dom_id ` set (domains w) \<union> cert_domainId ` set (ssl_certificates w)"
    and "no_db_fault E'"
  shows "\<exists>d w'. create_domain E orgId dto w = (Inl e, w') \<and> d \<in> set (domains w') \<and> dom_hostname d = cd_hostname dto
    \<and> fst (domains_find_one E' orgId (dom_id d) w') =
        Inl (NotFoundException (''SSL certificate record for domain '' @ dom_id d @ '' not found''))
    \<and> fst (create_domain E' orgId dto w') =
        Inl (ConflictException (''Domain '' @ cd_hostname dto @ '' is already registered for this organization''))"
proof -
  let ?d = "\<lparr>dom_id = fresh_uuid E (Suc (steps w)), dom_orgId = orgId, dom_hostId = None, dom_hostname = cd_hostname dto,
     dom_registrar = None, dom_domainExpiresAt = None, dom_dnsStatus = DNS_UNKNOWN, dom_resolvedIp = None,
     dom_lastCheckedAt = None, dom_createdAt = clock E (Suc (steps w))\<rparr>"
  let ?w = "tick (tick (tick (w\<lparr>domains := domains w @ [?d]\<rparr>)))"
  have free: "List.find (\<lambda>d. dom_orgId d = orgId \<and> dom_hostname d = cd_hostname dto) (domains w) = None"
    using assms(5) by (auto simp: find_None_iff)
  have noclash: "\<not> (\<exists>x \<in> set (domains w). dom_id x = dom_id ?d \<or> domain_clash x ?d)"
    using assms(5,6) by (auto simp: domain_clash_def image_iff)
  have run: "create_domain E orgId dto w = (Inl e, ?w)"
    using assms(1-4) free noclash
    by (simp add: create_domain_def insert_domain_def insert_certificate_def repo_find_one_def repo_insert_def repo_def
        prog_simps Let_def tick_def)
  have "List.find (\<lambda>d. dom_orgId d = orgId \<and> dom_hostname d = cd_hostname dto) (domains ?w) = Some ?d"
    using free by (simp add: find_append)
  moreover have "List.find (\<lambda>d. dom_id d = dom_id ?d \<and> dom_orgId d = orgId) (domains w) = None"
    using assms(6) by (auto simp: find_None_iff) (metis imageI)
  then have "List.find (\<lambda>d. dom_id d = dom_id ?d \<and> dom_orgId d = orgId) (domains ?w) = Some ?d"
    by (simp add: find_append)
  moreover have "List.find (\<lambda>c. cert_domainId c = dom_id ?d) (ssl_certificates ?w) = None"
    using assms(6) by (auto simp: find_None_iff) (metis imageI)
  ultimately have "fst (domains_find_one E' orgId (dom_id ?d) ?w) =
        Inl (NotFoundException (''SSL certificate record for domain '' @ dom_id ?d @ '' not found''))"
      "fst (create_domain E' orgId dto ?w) =
        Inl (ConflictException (''Domain '' @ cd_hostname dto @ '' is already registered for this organization''))"
    using assms(4,7)
    by (simp_all add: domains_find_one_def find_domain_or_throw_def get_certificate_or_throw_def create_domain_def
        repo_find_one_ok prog_simps)
  with run show ?thesis by (intro exI [of _ ?d] exI [of _ ?w]) simp
qed


definition failing_env :: env where
  "failing_env = demo_env\<lparr>db_fault := (\<lambda>n. if n = 2 then Some (JsError ''Error'' ''Connection terminated'' None) else None)\<rparr>"

lemma failed_certificate_blocks_domain_witness:
  "\<exists>d w'. create_domain failing_env ''org'' \<lparr>cd_hostname = ''example.com'', cd_host_id = None\<rparr> empty_world
      = (Inl (JsError ''Error'' ''Connection terminated'' None), w')
    \<and> d \<in> set (domains w')
    \<and> fst (domains_find_one demo_env ''org'' (dom_id d) w')
      = Inl (NotFoundException (''SSL certificate record for domain '' @ dom_id d @ '' not found''))"
  using failed_certificate_blocks_domain [of failing_env empty_world "JsError ''Error'' ''Connection terminated'' None"
      "\<lparr>cd_hostname = ''example.com'', cd_host_id = None\<rparr>" "''org''" demo_env] demo_env_ok(2)
  by (auto simp: failing_env_def numeral_2_eq_2)

text \<open>The moment until which the Redis key of a domain blocks its checks.\<close>

definition blocked_until :: "uuid \<Rightarrow> time \<Rightarrow> world \<Rightarrow> bool" where
  "blocked_until i t w \<longleftrightarrow> (\<exists>x. map_of (cooldown_keys w) (domain_check_key i) = Some x \<and> t \<le> x)"

lemma domain_check_key_inj [simp]: "domain_check_key i = domain_check_key j \<longleftrightarrow> i = j"
  by (simp add: domain_check_key_def)

lemma preserves_find_domain [pres]:
  "(\<And>w. P w \<Longrightarrow> P (tick w)) \<Longrightarrow> preserves P (find_domain_or_throw E orgId i)"
  unfolding find_domain_or_throw_def by (intro pres)

lemma blocked_until_tick [simp]: "blocked_until i t (tick w) = blocked_until i t w"
  by (simp add: blocked_until_def)

text \<open>A queued check: when its key was acquired.\<close>

lemma enqueue_domain_check_Inr:
  assumes "enqueue_domain_check E orgId i w = (Inr j, w')"
  shows "blocked_until i (clock E (Suc (steps w)) + 60000) w' \<and> Suc (steps w) \<le> steps w'
    \<and> (\<forall>t. blocked_until i t w \<longrightarrow> t \<le> clock E (Suc (steps w)))"
proof -
  obtain d where "find_domain_or_throw E orgId i w = (Inr d, tick w)"
    using assms by (auto simp: enqueue_domain_check_def find_domain_or_throw_def repo_find_one_def repo_def prog_simps
        split: option.splits)
  with assms show ?thesis
    by (auto simp: enqueue_domain_check_def enqueue_domain_job_def queue_add_def push_domain_job_def try_acquire_def
        prog_simps blocked_until_def Let_def DOMAIN_CHECK_RATE_LIMIT_WINDOW_SECONDS_def tick_def
        split: option.splits if_splits)
qed


lemma preserves_blocked_until:
  assumes "clock_mono E"
  shows "preserves (\<lambda>w. blocked_until i t w \<and> t \<le> clock E n + 60000 \<and> n \<le> steps w) (enqueue_domain_check E orgId j)"
proof -
  let ?P = "\<lambda>w. blocked_until i t w \<and> t \<le> clock E n + 60000 \<and> n \<le> steps w"
  have "?P (snd (try_acquire E (domain_check_key j) DOMAIN_CHECK_RATE_LIMIT_WINDOW_SECONDS w))" if "?P w" for w :: world
  proof -
    have "clock E n \<le> clock E (steps w)" using that assms by (simp add: clock_mono_def)
    with that show ?thesis
      by (auto simp: try_acquire_def blocked_until_def Let_def DOMAIN_CHECK_RATE_LIMIT_WINDOW_SECONDS_def tick_def
          split: option.splits)
  qed
  then have acquire: "preserves ?P (try_acquire E (domain_check_key j) DOMAIN_CHECK_RATE_LIMIT_WINDOW_SECONDS)"
    by (rule preservesI)
  show ?thesis
    unfolding enqueue_domain_check_def enqueue_domain_job_def
    by (intro preserves_andthen preserves_bind preserves_if preserves_find_domain acquire preserves_throw preserves_queue_add)
       (simp_all add: blocked_until_def push_domain_job_def)
qed

text \<open>Any number of check requests, each answered with a job or an error.\<close>

definition check_requests :: "env \<Rightarrow> (uuid \<times> uuid) list \<Rightarrow> unit action" where
  "check_requests E reqs = for_each reqs (\<lambda>(orgId, i). bind (attempt (enqueue_domain_check E orgId i)) (\<lambda>_. ret ()))"

text \<open>
  C29. The rate limit holds: two requested checks of one domain that are both queued are at least
  a minute apart, whatever requests for this and other domains come in between and however
  they end.
\<close>

theorem domain_checks_spaced:
  assumes "clock_mono E" and "enqueue_domain_check E o1 i w = (Inr j1, w1)"
    and "w2 = snd (check_requests E reqs w1)" and "enqueue_domain_check E o2 i w2 = (Inr j2, w3)"
  shows "clock E (Suc (steps w)) + 60000 \<le> clock E (Suc (steps w2))"
proof -
  let ?t = "clock E (Suc (steps w)) + 60000"
  let ?P = "\<lambda>w'. blocked_until i ?t w' \<and> ?t \<le> clock E (Suc (steps w)) + 60000 \<and> Suc (steps w) \<le> steps w'"
  have "preserves ?P (check_requests E reqs)"
    unfolding check_requests_def case_prod_beta
    by (intro preserves_for_each preserves_bind preserves_attempt preserves_blocked_until [OF assms(1)] preserves_ret)
  moreover have "?P w1" using enqueue_domain_check_Inr [OF assms(2)] by simp
  ultimately have "?P w2" unfolding assms(3) by (rule preservesD)
  with enqueue_domain_check_Inr [OF assms(4)] show ?thesis by blast
qed

definition slow_env :: env where
  "slow_env = demo_env\<lparr>clock := (\<lambda>n. 100000 * int n)\<rparr>"

lemma slow_env_simps:
  "no_db_fault slow_env" "no_queue_fault slow_env" "redis_fault slow_env n = None" "clock slow_env n = 100000 * int n"
  by (simp_all add: slow_env_def demo_env_def no_db_fault_def no_queue_fault_def)

lemma enqueue_domain_check_slow:
  assumes "domains w = [demo_domain]" "\<not> blocked_until ''dom'' (clock slow_env (Suc (steps w)) + 1) w"
  shows "\<exists>j w'. enqueue_domain_check slow_env ''org'' ''dom'' w = (Inr j, w') \<and> domains w' = [demo_domain]
    \<and> cooldown_keys w' = (domain_check_key ''dom'', 100000 * int (Suc (steps w)) + 60000) # cooldown_keys w \<and> steps w' = steps w + 3"
proof -
  have "repo_find_one slow_env domains (\<lambda>d. dom_id d = ''dom'' \<and> dom_orgId d = ''org'') w = (Inr (Some demo_domain), tick w)"
    by (simp add: repo_find_one_ok slow_env_simps assms(1) demo_domain_def)
  then show ?thesis
    using assms
    by (auto simp: enqueue_domain_check_def enqueue_domain_job_def find_domain_or_throw_def prog_simps try_acquire_def
        DOMAIN_CHECK_RATE_LIMIT_WINDOW_SECONDS_def Let_def slow_env_simps queue_add_ok push_domain_job_def tick_def
        blocked_until_def split: option.splits)
qed

theorem domain_checks_spaced_witness:
  "\<exists>j1 w1 j2 w3. enqueue_domain_check slow_env ''org'' ''dom'' (empty_world\<lparr>domains := [demo_domain]\<rparr>) = (Inr j1, w1)
    \<and> enqueue_domain_check slow_env ''org'' ''dom'' w1 = (Inr j2, w3)
    \<and> clock slow_env 1 + 60000 \<le> clock slow_env (Suc (steps w1))"
proof -
  let ?w = "empty_world\<lparr>domains := [demo_domain]\<rparr>"
  obtain j1 w1 where a: "enqueue_domain_check slow_env ''org'' ''dom'' ?w = (Inr j1, w1)" "domains w1 = [demo_domain]"
      "cooldown_keys w1 = [(domain_check_key ''dom'', 160000)]" "steps w1 = 3"
    using enqueue_domain_check_slow [of ?w] by (auto simp: blocked_until_def)
  then have "\<not> blocked_until ''dom'' (clock slow_env (Suc (steps w1)) + 1) w1"
    by (simp add: blocked_until_def slow_env_simps)
  with a obtain j2 w3 where b: "enqueue_domain_check slow_env ''org'' ''dom'' w1 = (Inr j2, w3)"
    using enqueue_domain_check_slow [of w1] by blast
  have "clock_mono slow_env" by (simp add: clock_mono_def slow_env_simps)
  from domain_checks_spaced [OF this a(1) _ b, of "[]"] a b show ?thesis
    by (auto simp: check_requests_def ret_def)
qed

end
