(* ===== verification/Config.thy ===== *)
theory Config
  imports Insights
begin

section \<open>Configuration and schedules\<close>

text \<open>
  \<open>src/config/configuration.ts\<close> reads the environment variables, \<open>src/config/env.validation.ts\<close>
  requires some of them first (what counts as a URI or a number is Joi's: parameters), and
  the three schedulers register their repeating job with the interval read.
\<close>

type_synonym process_env = "string \<Rightarrow> string option"

text \<open>\<open>parseInt(s, 10)\<close>: leading white space, a sign, digits; \<open>None\<close> is \<open>NaN\<close>.\<close>

definition digits_value :: "string \<Rightarrow> int" where
  "digits_value ds = foldl (\<lambda>n c. 10 * n + (of_char c - 48)) 0 ds"

definition parse_int :: "string \<Rightarrow> int option" where
  "parse_int s =
    (let t = trim_start s;
         (sign, u) = (case t of
             [] \<Rightarrow> (1, [])
           | c # r \<Rightarrow> if c = CHR ''-'' then (- 1, r) else if c = CHR ''+'' then (1, r) else (1, t));
         ds = takeWhile is_digit u
     in if ds = [] then None else Some (sign * digits_value ds))"

definition env_or :: "process_env \<Rightarrow> string \<Rightarrow> string \<Rightarrow> string" where
  "env_or penv name d = (case penv name of None \<Rightarrow> d | Some v \<Rightarrow> v)"

definition env_int :: "process_env \<Rightarrow> string \<Rightarrow> string \<Rightarrow> int option" where
  "env_int penv name d = parse_int (env_or penv name d)"

text \<open>A required variable is there once the validation has passed.\<close>

definition env_required :: "process_env \<Rightarrow> string \<Rightarrow> string" where
  "env_required penv name = (case penv name of Some v \<Rightarrow> v | None \<Rightarrow> [])"

text \<open>The length of a JavaScript string: two units for a character outside the basic plane.\<close>

definition utf16_length :: "string \<Rightarrow> nat" where
  "utf16_length s = char_count s + length (filter (\<lambda>c. 240 \<le> (of_char c :: nat)) s)"

definition is_hex_char :: "char \<Rightarrow> bool" where
  "is_hex_char c \<longleftrightarrow> hex_val c \<noteq> None"

definition NUMERIC_VARIABLES :: "string list" where
  "NUMERIC_VARIABLES =
     [''PORT'', ''REDIS_PORT'', ''HEALTH_CHECK_CONCURRENCY'', ''HEALTH_CHECK_INTERVAL_MS'', ''SSH_CONNECT_TIMEOUT_MS'',
      ''DOMAIN_CHECK_CONCURRENCY'', ''DOMAIN_CHECK_INTERVAL_MS'', ''DNS_TIMEOUT_MS'', ''WHOIS_TIMEOUT_MS'',
      ''TLS_TIMEOUT_MS'', ''ROLLBACK_CONCURRENCY'']"

definition env_valid :: "(string \<Rightarrow> bool) \<Rightarrow> (string \<Rightarrow> bool) \<Rightarrow> process_env \<Rightarrow> bool" where
  "env_valid joi_uri joi_number penv \<longleftrightarrow>
     (case penv ''NODE_ENV'' of None \<Rightarrow> True | Some v \<Rightarrow> v \<in> {''development'', ''production'', ''test''})
     \<and> (case penv ''DATABASE_URL'' of None \<Rightarrow> False | Some v \<Rightarrow> joi_uri v)
     \<and> (case penv ''REDIS_HOST'' of None \<Rightarrow> False | Some v \<Rightarrow> v \<noteq> [])
     \<and> (case penv ''JWT_ACCESS_SECRET'' of None \<Rightarrow> False | Some v \<Rightarrow> 16 \<le> utf16_length v)
     \<and> (case penv ''JWT_REFRESH_SECRET'' of None \<Rightarrow> False | Some v \<Rightarrow> 16 \<le> utf16_length v)
     \<and> (case penv ''JWT_ACCESS_EXPIRES_IN'' of None \<Rightarrow> True | Some v \<Rightarrow> v \<noteq> [])
     \<and> (case penv ''JWT_REFRESH_EXPIRES_IN'' of None \<Rightarrow> True | Some v \<Rightarrow> v \<noteq> [])
     \<and> (case penv ''SSH_KEY_ENCRYPTION_SECRET'' of None \<Rightarrow> False | Some v \<Rightarrow> list_all is_hex_char v \<and> length v = 64)
     \<and> list_all (\<lambda>name. case penv name of None \<Rightarrow> True | Some v \<Rightarrow> joi_number v) NUMERIC_VARIABLES"

definition configuration :: "process_env \<Rightarrow> app_config" where
  "configuration penv =
    \<lparr>ac_nodeEnv = env_or penv ''NODE_ENV'' ''development'',
     ac_port = env_int penv ''PORT'' ''3000'',
     ac_databaseUrl = env_required penv ''DATABASE_URL'',
     ac_redisHost = env_required penv ''REDIS_HOST'',
     ac_redisPort = env_int penv ''REDIS_PORT'' ''6379'',
     ac_accessSecret = env_required penv ''JWT_ACCESS_SECRET'',
     ac_accessExpiresIn = env_or penv ''JWT_ACCESS_EXPIRES_IN'' ''15m'',
     ac_refreshSecret = env_required penv ''JWT_REFRESH_SECRET'',
     ac_refreshExpiresIn = env_or penv ''JWT_REFRESH_EXPIRES_IN'' ''7d'',
     ac_sshKeyEncryptionSecret = env_required penv ''SSH_KEY_ENCRYPTION_SECRET'',
     ac_corsOrigins = filter (\<lambda>origin. origin \<noteq> [])
       (map trim (split_on (CHR '','') (env_or penv ''CORS_ORIGINS'' ''http://localhost:5173,http://localhost:5174''))),
     ac_healthConcurrency = env_int penv ''HEALTH_CHECK_CONCURRENCY'' ''5'',
     ac_healthIntervalMs = env_int penv ''HEALTH_CHECK_INTERVAL_MS'' ''120000'',
     ac_sshConnectTimeoutMs = env_int penv ''SSH_CONNECT_TIMEOUT_MS'' ''8000'',
     ac_domainConcurrency = env_int penv ''DOMAIN_CHECK_CONCURRENCY'' ''5'',
     ac_domainIntervalMs = env_int penv ''DOMAIN_CHECK_INTERVAL_MS'' ''21600000'',
     ac_dnsTimeoutMs = env_int penv ''DNS_TIMEOUT_MS'' ''5000'',
     ac_whoisTimeoutMs = env_int penv ''WHOIS_TIMEOUT_MS'' ''9000'',
     ac_tlsTimeoutMs = env_int penv ''TLS_TIMEOUT_MS'' ''8000''\<rparr>"

text \<open>Constants that read a variable when their module is loaded.\<close>

definition health_check_concurrency :: "process_env \<Rightarrow> int option" where
  "health_check_concurrency penv = env_int penv ''HEALTH_CHECK_CONCURRENCY'' ''5''"

definition domain_check_concurrency :: "process_env \<Rightarrow> int option" where
  "domain_check_concurrency penv = env_int penv ''DOMAIN_CHECK_CONCURRENCY'' ''5''"

definition rollback_concurrency :: "process_env \<Rightarrow> int option" where
  "rollback_concurrency penv = env_int penv ''ROLLBACK_CONCURRENCY'' ''5''"

definition insights_interval_ms :: "process_env \<Rightarrow> int option" where
  "insights_interval_ms penv = env_int penv ''INSIGHTS_INTERVAL_MS'' ''86400000''"

subsection \<open>Schedulers\<close>

definition HEALTH_CHECK_QUEUE :: string where "HEALTH_CHECK_QUEUE = ''health-check''"
definition HEALTH_CHECK_TICK_JOB :: string where "HEALTH_CHECK_TICK_JOB = ''check-all-hosts-tick''"
definition HEALTH_CHECK_REPEATABLE_JOB_ID :: string where "HEALTH_CHECK_REPEATABLE_JOB_ID = ''health-check-all-hosts''"
definition DOMAIN_CHECK_QUEUE :: string where "DOMAIN_CHECK_QUEUE = ''domain-check''"
definition DOMAIN_CHECK_TICK_JOB :: string where "DOMAIN_CHECK_TICK_JOB = ''check-all-domains-tick''"
definition DOMAIN_CHECK_REPEATABLE_JOB_ID :: string where "DOMAIN_CHECK_REPEATABLE_JOB_ID = ''domain-check-all-domains''"

definition schedule_health_checks :: "env \<Rightarrow> unit action" where
  "schedule_health_checks E = upsert_repeatable_tick E HEALTH_CHECK_QUEUE HEALTH_CHECK_REPEATABLE_JOB_ID
     (ac_healthIntervalMs (app_conf E)) HEALTH_CHECK_TICK_JOB"

definition schedule_domain_checks :: "env \<Rightarrow> unit action" where
  "schedule_domain_checks E = upsert_repeatable_tick E DOMAIN_CHECK_QUEUE DOMAIN_CHECK_REPEATABLE_JOB_ID
     (ac_domainIntervalMs (app_conf E)) DOMAIN_CHECK_TICK_JOB"

definition schedule_insights :: "env \<Rightarrow> process_env \<Rightarrow> unit action" where
  "schedule_insights E penv = upsert_repeatable_tick E INSIGHTS_QUEUE INSIGHTS_REPEATABLE_JOB_ID
     (insights_interval_ms penv) INSIGHTS_TICK_JOB"

subsection \<open>The encryption key\<close>

text \<open>\<open>Buffer.from(s, 'hex')\<close>: pairs of hexadecimal digits, up to the first that is none.\<close>

fun hex_bytes :: "string \<Rightarrow> nat list" where
  "hex_bytes (a # b # s) = (case (hex_val a, hex_val b) of (Some x, Some y) \<Rightarrow> (16 * x + y) # hex_bytes s | _ \<Rightarrow> [])"
| "hex_bytes _ = []"

text \<open>The key of \<open>CryptoService\<close>, from its constructor.\<close>

definition encryption_key :: "app_config \<Rightarrow> nat list" where
  "encryption_key conf = hex_bytes (ac_sshKeyEncryptionSecret conf)"

lemma hex_val_bound: "hex_val c = Some n \<Longrightarrow> n < 16"
  by (auto simp: hex_val_def Let_def split: if_splits)

lemma hex_bytes_ok: "list_all is_hex_char s \<Longrightarrow> length (hex_bytes s) = length s div 2 \<and> (\<forall>x \<in> set (hex_bytes s). x < 256)"
proof (induction s rule: hex_bytes.induct)
  case (1 a b s)
  then obtain x y where "hex_val a = Some x" "hex_val b = Some y" by (auto simp: is_hex_char_def)
  with 1 hex_val_bound [of a x] hex_val_bound [of b y] show ?case by auto
qed simp_all

subsection \<open>What a valid environment configures\<close>

definition plain_number :: "string \<Rightarrow> bool" where
  "plain_number v \<longleftrightarrow> v \<noteq> [] \<and> list_all is_digit v"

definition counts :: "int option \<Rightarrow> bool" where
  "counts n \<longleftrightarrow> (\<exists>k \<ge> 0. n = Some k)"

lemma digits_value_nonneg: "list_all is_digit ds \<Longrightarrow> 0 \<le> digits_value ds"
proof (induction ds rule: rev_induct)
  case (snoc c ds)
  moreover from snoc.prems have "48 \<le> (of_char c :: nat)" by (simp add: is_digit_def)
  then have "48 \<le> int (of_char c)" by linarith
  then have "48 \<le> (of_char c :: int)" by (simp only: of_nat_of_char)
  ultimately show ?case by (simp add: digits_value_def)
qed (simp add: digits_value_def)

lemma digit_visible: "is_digit c \<Longrightarrow> visible c \<and> c \<noteq> CHR ''-'' \<and> c \<noteq> CHR ''+''"
  by (auto simp: is_digit_def visible_def)

lemma parse_int_plain: "plain_number v \<Longrightarrow> parse_int v = Some (digits_value v)"
proof (cases v)
  case (Cons c r)
  assume v: "plain_number v"
  then have "is_digit c" using Cons by (simp add: plain_number_def)
  then have "trim_start v = v" using Cons digit_visible trim_start_visible [of v] by simp
  moreover have "takeWhile is_digit v = v" using v by (simp add: plain_number_def list_all_iff)
  ultimately show ?thesis using Cons digit_visible [OF \<open>is_digit c\<close>] by (simp add: parse_int_def)
qed (simp add: plain_number_def)

lemma env_int_counts: "plain_number d \<Longrightarrow> (\<And>v. penv name = Some v \<Longrightarrow> plain_number v) \<Longrightarrow> counts (env_int penv name d)"
  by (cases "penv name") (auto simp: env_int_def env_or_def counts_def parse_int_plain plain_number_def digits_value_nonneg)


definition demo_environment :: process_env where
  "demo_environment = [''DATABASE_URL'' \<mapsto> ''postgres://db/servers'', ''REDIS_HOST'' \<mapsto> ''redis'', ''PORT'' \<mapsto> ''8080'',
     ''JWT_ACCESS_SECRET'' \<mapsto> ''0123456789abcdef'', ''JWT_REFRESH_SECRET'' \<mapsto> ''fedcba9876543210'',
     ''SSH_KEY_ENCRYPTION_SECRET'' \<mapsto> replicate 64 (CHR ''a'')]"


text \<open>A number in the notation with an exponent is one for Joi, and \<open>parseInt\<close> reads its first digits.\<close>

lemma exponent_truncated: "parse_int ''1e5'' = Some 1"
  by code_simp

end
