(* ===== verification/Writes.thy ===== *)
theory Writes
  imports Secrecy Insight_Alerts Domain_Lifecycle Config Rollback_Success
begin

section \<open>What the operations write\<close>

text \<open>
  Whether an operation keeps a predicate of the database depends only on its writes. The
  locales below state, table by table, that a predicate survives the writes, and derive once
  that it survives the operations: first the effects every component uses (logs, queues,
  the rate limiter, alerts), then the settings of an organization, then the managed rows,
  then the hosts.
\<close>

lemmas finders = find_host_or_throw_def find_domain_or_throw_def find_service_or_throw_def find_rule_or_throw_def
  find_one_for_service_or_throw_def find_current_for_service_def

text \<open>Two more rules for any predicate: the fan-out and the password hash.\<close>

lemma preserves_enqueue_per_entity_jobs [pres]:
  assumes "\<And>w. P w \<Longrightarrow> P (tick w)" "\<And>w i. P w \<Longrightarrow> P (push i w)"
  shows "preserves P (enqueue_per_entity_jobs E push ids)"
proof -
  have "P (snd (enqueue_all E push ids w))" if "P w" for w
    using that assms
    by (induction ids arbitrary: w) (auto simp: queue_add_def Let_def split: option.splits prod.splits, metis snd_conv)
  then show ?thesis
    unfolding preserves_def enqueue_per_entity_jobs_def by (auto split: prod.split option.split) (metis snd_conv)+
qed

lemma preserves_hash_password [pres]: "(\<And>w. P w \<Longrightarrow> P (tick w)) \<Longrightarrow> preserves P (hash_password E pw)"
  by (simp add: preserves_def hash_password_def)

text \<open>What every result of the first part satisfies may be used for the second.\<close>

lemma preserves_bind_result:
  assumes "preserves P m" "\<And>w x w'. m w = (Inr x, w') \<Longrightarrow> Q x" "\<And>x. Q x \<Longrightarrow> preserves P (f x)"
  shows "preserves P (bind m f)"
proof (rule preservesI)
  fix w assume "P w"
  then show "P (snd (bind m f w))"
    using preservesD [OF assms(1)] assms(2) [of w] preservesD [OF assms(3)]
    by (auto simp: bind_def split: prod.split sum.split) (metis snd_conv)+
qed

lemma preserves_run_check: "(\<And>w n. P w \<Longrightarrow> P (w\<lparr>steps := n\<rparr>)) \<Longrightarrow> preserves P (run_check E h)"
proof (rule preservesI)
  fix w assume "P w" and kept: "\<And>w n. P w \<Longrightarrow> P (w\<lparr>steps := n\<rparr>)"
  then show "P (snd (run_check E h w))" by (cases rule: run_check_result [of E h w]) simp
qed

subsection \<open>Logs, queues and alerts\<close>

locale effect_writes =
  fixes P :: "world \<Rightarrow> bool"
  assumes kept_steps: "P w \<Longrightarrow> P (w\<lparr>steps := n\<rparr>)"
    and kept_logs: "P w \<Longrightarrow> hlog_rawOutput l = JObj kvs \<Longrightarrow> P (w\<lparr>hc_logs := hc_logs w @ [l]\<rparr>)" "P w \<Longrightarrow> P (w\<lparr>alert_logs := al\<rparr>)"
    and kept_jobs: "P w \<Longrightarrow> P (push_host_job i w)" "P w \<Longrightarrow> P (push_domain_job i w)" "P w \<Longrightarrow> P (push_rollback_job i w)"
    and kept_cooldowns: "P w \<Longrightarrow> P (w\<lparr>cooldown_keys := ck\<rparr>)"
begin

lemma kept_tick: "P w \<Longrightarrow> P (tick w)"
  by (simp add: tick_def kept_steps)

lemmas kept = kept_steps kept_tick kept_logs kept_jobs kept_cooldowns

lemma kept_core: "P w \<Longrightarrow> core_view w' = core_view w \<Longrightarrow> P w'"
proof -
  assume "P w" and eq: "core_view w' = core_view w"
  then have "P (w\<lparr>alert_logs := alert_logs w', steps := steps w'\<rparr>)" by (intro kept)
  moreover have "w' = w\<lparr>alert_logs := alert_logs w', steps := steps w'\<rparr>"
    using eq by (cases w; cases w') (simp add: core_view_def)
  ultimately show ?thesis by simp
qed

lemma kept_by_effects [pres]:
  "preserves P (now E)" "preserves P (write_hc_log E ty i st (JObj kvs))" "preserves P (encrypt E p)"
  "preserves P (queue_add E push_host_job i)" "preserves P (queue_add E push_domain_job i)"
  "preserves P (queue_add E push_rollback_job i)"
  "preserves P (try_acquire E key n)" "preserves P (run_commands E opts cs)"
  "preserves P (repo_find E tab1 p1)" "preserves P (repo_find_one E tab2 p2)"
  unfolding write_hc_log_def by (auto intro!: pres preserves_repo_insert preserves_queue_add kept)

lemma kept_by_alerts [pres]:
  "preserves P (evaluate_transition E ti)" "preserves P (evaluate_direct_condition E ci)"
  by (rule preservesI, erule kept_core, simp)+

lemma kept_by_checks_requested:
  "preserves P (enqueue_check_for_all_hosts E)" "preserves P (enqueue_check_for_all_domains E)"
  "preserves P (enqueue_host_check E org i)" "preserves P (enqueue_service_check E org i)"
  "preserves P (enqueue_domain_check E org i)"
  unfolding enqueue_check_for_all_hosts_def enqueue_check_for_all_domains_def enqueue_host_check_def
    enqueue_service_check_def enqueue_domain_check_def enqueue_domain_job_def finders
  by (auto intro!: pres kept split: option.split)

end

subsection \<open>Accounts, alert rules, cloud accounts and insights\<close>

locale setting_writes = effect_writes +
  assumes kept_by_rules: "preserves P (save_rule E r)"
      "preserves P (repo_insert E alert_rules (\<lambda>t w. w\<lparr>alert_rules := t\<rparr>) rule_id (\<lambda>_ _. False) mr)"
      "P w \<Longrightarrow> P (w\<lparr>alert_rules := filter rp (alert_rules w), alert_logs := al\<rparr>)"
    and kept_by_cloud: "preserves P (save_cloud_account E a)"
      "preserves P (repo_insert E cloud_accounts (\<lambda>t w. w\<lparr>cloud_accounts := t\<rparr>) ca_id cloud_account_clash ma)"
      "P w \<Longrightarrow> P (w\<lparr>cloud_accounts := filter cp (cloud_accounts w)\<rparr>)"
    and kept_by_flags: "preserves P (repo_save E insight_states (\<lambda>t w. w\<lparr>insight_states := t\<rparr>) ins_id insight_clash st)"
      "preserves P (repo_insert E insight_states (\<lambda>t w. w\<lparr>insight_states := t\<rparr>) ins_id insight_clash mi)"
    and kept_by_accounts: "preserves P (repo_insert E organizations (\<lambda>t w. w\<lparr>organizations := t\<rparr>) org_id (\<lambda>_ _. False) mo)"
      "preserves P (repo_insert E users (\<lambda>t w. w\<lparr>users := t\<rparr>) user_id user_clash mu)"
begin

lemmas kept_by_settings [pres] = kept_by_rules(1,2) kept_by_cloud(1,2) kept_by_flags kept_by_accounts

lemma kept_by_setting_requests:
  "preserves P (create_rule E org cdto)" "preserves P (update_rule E org i udto)" "preserves P (remove_rule E org i)"
  "preserves P (cloud_connect E org adto)" "preserves P (cloud_disconnect E org i)"
  "preserves P (register E email pw name)" "preserves P (seed E)"
  unfolding create_rule_def update_rule_def remove_rule_def cloud_connect_def cloud_disconnect_def register_def seed_def
    finders create_organization_def create_user_def find_user_by_email_def encrypt_config_def
  by (auto intro!: pres preserves_repo kept kept_by_rules(3) kept_by_cloud(3) split: option.split)

lemma kept_by_insights: "preserves P (process_insights E)"
proof -
  have f: "preserves P (evaluate_flag_transitions E g h fl xs m)" for g h fl xs and m :: "'x \<Rightarrow> string"
    unfolding evaluate_flag_transitions_def upsert_flag_def Let_def by (auto intro!: pres split: option.split)
  show ?thesis
    unfolding process_insights_def run_daily_check_def evaluate_idle_hosts_def evaluate_orphaned_domains_def
      evaluate_orphaned_hosts_def compute_idle_hosts_def compute_orphaned_domains_def compute_orphaned_hosts_def Let_def
    by (auto intro!: pres f)
qed

end

subsection \<open>Services, snapshots, rollbacks and domains\<close>

locale row_writes = setting_writes +
  assumes kept_by_services: "preserves P (save_service E s)"
      "preserves P (repo_insert E services (\<lambda>t w. w\<lparr>services := t\<rparr>) svc_id service_clash ms)"
    and kept_by_snapshots: "preserves P (create_snapshot E cs)"
    and kept_by_events: "preserves P (save_event E ev)"
      "preserves P (repo_insert E rollback_events (\<lambda>t w. w\<lparr>rollback_events := t\<rparr>) ev_id event_clash me)"
    and kept_by_domains: "preserves P (save_domain E d)"
      "preserves P (repo_insert E domains (\<lambda>t w. w\<lparr>domains := t\<rparr>) dom_id domain_clash md)"
    and kept_by_certificates: "preserves P (save_certificate E c)"
      "preserves P (repo_insert E ssl_certificates (\<lambda>t w. w\<lparr>ssl_certificates := t\<rparr>) cert_id certificate_clash mc)"
    and kept_by_removal: "P w \<Longrightarrow> P (delete_host i w)" "P w \<Longrightarrow> P (delete_domain i w)"
begin

lemmas kept_by_rows [pres] = kept_by_services kept_by_snapshots kept_by_events kept_by_domains kept_by_certificates

lemma kept_by_sync [pres]: "preserves P (sync E host ps)"
proof -
  have cap: "preserves P (capture_snapshot_if_image_changed E host s c)" for s c
    unfolding capture_snapshot_if_image_changed_def capture_from_inspect_def find_current_for_service_def
    by (auto intro!: pres split: option.split sum.split)
  have after: "preserves P (after_save E host c p s)" for c p s
    unfolding after_save_def service_log_json_def by (intro pres cap)
  have up: "preserves P (upsert_service E host c t)" for c t
    unfolding upsert_service_def save_refreshed_def by (auto intro!: pres after split: option.split)
  have miss: "preserves P (mark_missing_services_unknown E host seen t)" for seen t
    unfolding mark_missing_services_unknown_def mark_one_def by (auto intro!: pres)
  show ?thesis
    unfolding sync_def by (auto intro!: pres up miss split: sum.split prod.split)
qed

lemma kept_by_check_domain [pres]: "preserves P (check_domain E i)"
  unfolding check_domain_def record_lookups_def certificate_part_def check_tls_def Let_def
  by (auto intro!: pres keeps_lookups keeps_tls_check kept split: option.split)

lemma kept_by_domain_jobs: "preserves P (process_domain_check E j)"
  by (cases j) (auto intro: kept_by_check_domain kept_by_checks_requested)

lemma kept_by_process_rollback: "preserves P (process_rollback E i)"
proof -
  have f: "preserves P (fail_rollback E ev reason org)" for ev reason org
    unfolding fail_rollback_def append_log_def by (auto intro!: pres split: option.split)
  have s: "preserves P (succeed_rollback E ev svc c t st)" for ev svc c t st
    unfolding succeed_rollback_def by (auto intro!: pres)
  have v: "preserves P (verify_rollback E ev svc t config ps)" for ev svc t config ps
    unfolding verify_rollback_def Let_def append_log_def by (auto intro!: pres f s split: option.split prod.split)
  have e: "preserves P (execute_rollback E ev svc h t key)" for ev svc h t key
    unfolding execute_rollback_def record_results_def append_result_def append_log_def Let_def
    by (auto intro!: pres f v split: sum.split)
  show ?thesis
    unfolding process_rollback_def run_rollback_def by (auto intro!: pres f e split: sum.split option.split)
qed

lemma kept_by_row_requests:
  "preserves P (remove_host E org i)" "preserves P (create_domain E org ddto)" "preserves P (remove_domain E org i)"
  "preserves P (enqueue_rollback E org sid tid uid)"
  unfolding remove_host_def create_domain_def remove_domain_def enqueue_domain_job_def insert_domain_def
    insert_certificate_def enqueue_rollback_def insert_and_queue_def finders
  by (auto intro!: pres preserves_repo kept kept_by_removal split: option.split)

end

subsection \<open>Hosts\<close>

locale host_writes = row_writes +
  assumes kept_by_hosts: "preserves P (save_host E h)"
      "preserves P (repo_insert E hosts (\<lambda>t w. w\<lparr>hosts := t\<rparr>) host_id (\<lambda>_ _. False) mh)"
begin

lemma kept_by_create_host: "preserves P (create_host E org hdto)"
  unfolding create_host_def by (auto intro!: pres kept_by_hosts kept)

lemma kept_by_check_host: "preserves P (check_host E i)"
proof -
  have "preserves P (case (oc, rs) of (outcome, sshResults) \<Rightarrow>
      andthen (write_hc_log E HE_HOST (host_id h) (health_check_status_str (oc_status outcome)) (oc_rawOutput outcome))
        (bind (now E) (\<lambda>t. bind (save_host E (apply_outcome outcome t h)) (\<lambda>saved.
         andthen (evaluate_transition E (f saved))
           (case sshResults of None \<Rightarrow> ret () | Some results \<Rightarrow> sync E saved (results ! 1))))))"
    if "oc_rawOutput oc = JObj kvs" for oc rs h f kvs
    by (auto intro!: pres kept_by_hosts simp: that split: option.split)
  note rest = this
  have "preserves P (bind (run_check E h) (\<lambda>(outcome, sshResults).
      andthen (write_hc_log E HE_HOST (host_id h) (health_check_status_str (oc_status outcome)) (oc_rawOutput outcome))
        (bind (now E) (\<lambda>t. bind (save_host E (apply_outcome outcome t h)) (\<lambda>saved.
         andthen (evaluate_transition E (f saved))
           (case sshResults of None \<Rightarrow> ret () | Some results \<Rightarrow> sync E saved (results ! 1)))))))" for h f
    using rest by (intro preserves_bind_result [where Q = "\<lambda>(oc, rs). \<exists>kvs. oc_rawOutput oc = JObj kvs"] preserves_run_check kept_steps)
      (auto dest: run_check_record)
  note checked = this
  have opt: "preserves P (case found of None \<Rightarrow> ret () | Some host \<Rightarrow> k host)"
    if "\<And>host. preserves P (k host)" for found and k :: "host \<Rightarrow> unit action"
    using that by (cases found) auto
  show ?thesis
    unfolding check_host_def by (intro preserves_bind kept_by_effects opt checked)
qed

end

end
