(* ===== verification/Schema.thy ===== *)
theory Schema
  imports Writes
begin

section \<open>The schema of the whole database\<close>

text \<open>
  What the migrations under \<open>src/migrations/\<close> promise of all tables at once: primary keys and
  unique indexes (\<open>tables_ok\<close>). Every write keeps them, and with that every operation.
\<close>

definition table_ok :: "('r \<Rightarrow> uuid) \<Rightarrow> ('r \<Rightarrow> 'r \<Rightarrow> bool) \<Rightarrow> 'r list \<Rightarrow> bool" where
  "table_ok rid clash t \<longleftrightarrow> distinct (map rid t) \<and>
     (\<forall>x \<in> set t. \<forall>y \<in> set t. rid x \<noteq> rid y \<longrightarrow> \<not> clash x y)"

lemma table_ok_Nil [simp]: "table_ok rid clash []"
  by (simp add: table_ok_def)

lemma table_ok_filter [simp]: "table_ok rid clash t \<Longrightarrow> table_ok rid clash (filter p t)"
  by (auto simp: table_ok_def distinct_map_filter)

lemma table_ok_map:
  "table_ok rid clash t \<Longrightarrow> (\<And>x. rid (f x) = rid x) \<Longrightarrow> (\<And>x y. clash (f x) (f y) \<Longrightarrow> clash x y) \<Longrightarrow>
   table_ok rid clash (map f t)"
  unfolding table_ok_def by (simp add: comp_def) blast

lemma table_ok_save:
  assumes "table_ok rid clash t" "\<forall>x \<in> set t. rid x \<noteq> rid r \<longrightarrow> \<not> clash x r" "symp clash"
  shows "table_ok rid clash (save_row rid r t)"
proof -
  have d: "distinct (map rid t)" using assms(1) by (simp add: table_ok_def)
  have "distinct (map rid (save_row rid r t))" using d by (auto simp: ids_save_row)
  moreover have "\<forall>x \<in> set (save_row rid r t). \<forall>y \<in> set (save_row rid r t). rid x \<noteq> rid y \<longrightarrow> \<not> clash x y"
    using assms unfolding mem_save_row [OF d] table_ok_def by (auto dest: sympD)
  ultimately show ?thesis by (simp add: table_ok_def)
qed

lemma table_ok_insert:
  assumes "table_ok rid clash t" "\<forall>x \<in> set t. rid x \<noteq> rid r \<and> \<not> clash x r" "symp clash"
  shows "table_ok rid clash (t @ [r])"
  using assms by (auto simp: table_ok_def dest: sympD)

lemma table_ok_unique: "table_ok rid clash t \<Longrightarrow> x \<in> set t \<Longrightarrow> y \<in> set t \<Longrightarrow> clash x y \<Longrightarrow> x = y"
  unfolding table_ok_def by (metis key_unique)

lemma table_ok_distinct:
  assumes "table_ok rid clash t" "\<And>x y. k x = k y \<Longrightarrow> clash x y"
  shows "distinct (map k t)"
proof -
  have "inj_on k (set t)" using table_ok_unique [OF assms(1)] assms(2) by (meson inj_onI)
  moreover have "distinct t" using assms(1) by (auto simp: table_ok_def distinct_map)
  ultimately show ?thesis by (simp add: distinct_map)
qed

definition tables_ok :: "world \<Rightarrow> bool" where
  "tables_ok w \<longleftrightarrow> table_ok org_id (\<lambda>_ _. False) (organizations w)
     \<and> table_ok user_id user_clash (users w)
     \<and> table_ok host_id (\<lambda>_ _. False) (hosts w)
     \<and> table_ok svc_id service_clash (services w)
     \<and> table_ok snap_id snapshot_clash (snapshots w)
     \<and> table_ok ev_id event_clash (rollback_events w)
     \<and> table_ok dom_id domain_clash (domains w)
     \<and> table_ok cert_id certificate_clash (ssl_certificates w)
     \<and> table_ok rule_id (\<lambda>_ _. False) (alert_rules w)
     \<and> table_ok ins_id insight_clash (insight_states w)
     \<and> table_ok ca_id cloud_account_clash (cloud_accounts w)"

lemma tables_ok_tick [simp]: "tables_ok (tick w) = tables_ok w"
  by (simp add: tables_ok_def)

lemma tables_ok_other [simp]:
  "tables_ok (w\<lparr>hc_logs := l\<rparr>) = tables_ok w" "tables_ok (w\<lparr>alert_logs := al\<rparr>) = tables_ok w"
  "tables_ok (w\<lparr>steps := n\<rparr>) = tables_ok w" "tables_ok (w\<lparr>cooldown_keys := ck\<rparr>) = tables_ok w"
  "tables_ok (push_host_job i w) = tables_ok w" "tables_ok (push_domain_job i w) = tables_ok w"
  "tables_ok (push_rollback_job i w) = tables_ok w"
  by (simp_all add: tables_ok_def push_host_job_def push_domain_job_def push_rollback_job_def)

lemma clash_symps:
  "symp user_clash" "symp service_clash" "symp snapshot_clash" "symp event_clash" "symp domain_clash"
  "symp certificate_clash" "symp insight_clash" "symp cloud_account_clash" "symp (\<lambda>_ _. False)"
  by (auto simp: symp_def user_clash_def service_clash_def snapshot_clash_def event_clash_def domain_clash_def
      certificate_clash_def insight_clash_def cloud_account_clash_def)

subsection \<open>Writes\<close>

text \<open>A saved or inserted row keeps the keys of its table, and the other tables.\<close>

lemma tables_ok_save [pres]:
  "preserves tables_ok (repo_save E hosts (\<lambda>t w. w\<lparr>hosts := t\<rparr>) host_id (\<lambda>_ _. False) h)"
  "preserves tables_ok (repo_save E services (\<lambda>t w. w\<lparr>services := t\<rparr>) svc_id service_clash s)"
  "preserves tables_ok (repo_save E rollback_events (\<lambda>t w. w\<lparr>rollback_events := t\<rparr>) ev_id event_clash ev)"
  "preserves tables_ok (repo_save E domains (\<lambda>t w. w\<lparr>domains := t\<rparr>) dom_id domain_clash d)"
  "preserves tables_ok (repo_save E ssl_certificates (\<lambda>t w. w\<lparr>ssl_certificates := t\<rparr>) cert_id certificate_clash c)"
  "preserves tables_ok (repo_save E alert_rules (\<lambda>t w. w\<lparr>alert_rules := t\<rparr>) rule_id (\<lambda>_ _. False) r)"
  "preserves tables_ok (repo_save E insight_states (\<lambda>t w. w\<lparr>insight_states := t\<rparr>) ins_id insight_clash st)"
  "preserves tables_ok (repo_save E cloud_accounts (\<lambda>t w. w\<lparr>cloud_accounts := t\<rparr>) ca_id cloud_account_clash a)"
  by (rule preserves_repo_save; simp add: tables_ok_def table_ok_save clash_symps)+

lemma tables_ok_insert [pres]:
  "preserves tables_ok (repo_insert E organizations (\<lambda>t w. w\<lparr>organizations := t\<rparr>) org_id (\<lambda>_ _. False) mo)"
  "preserves tables_ok (repo_insert E users (\<lambda>t w. w\<lparr>users := t\<rparr>) user_id user_clash mu)"
  "preserves tables_ok (repo_insert E hosts (\<lambda>t w. w\<lparr>hosts := t\<rparr>) host_id (\<lambda>_ _. False) mh)"
  "preserves tables_ok (repo_insert E services (\<lambda>t w. w\<lparr>services := t\<rparr>) svc_id service_clash ms)"
  "preserves tables_ok (repo_insert E snapshots (\<lambda>t w. w\<lparr>snapshots := t\<rparr>) snap_id snapshot_clash mn)"
  "preserves tables_ok (repo_insert E rollback_events (\<lambda>t w. w\<lparr>rollback_events := t\<rparr>) ev_id event_clash me)"
  "preserves tables_ok (repo_insert E domains (\<lambda>t w. w\<lparr>domains := t\<rparr>) dom_id domain_clash md)"
  "preserves tables_ok (repo_insert E ssl_certificates (\<lambda>t w. w\<lparr>ssl_certificates := t\<rparr>) cert_id certificate_clash mc)"
  "preserves tables_ok (repo_insert E alert_rules (\<lambda>t w. w\<lparr>alert_rules := t\<rparr>) rule_id (\<lambda>_ _. False) mr)"
  "preserves tables_ok (repo_insert E insight_states (\<lambda>t w. w\<lparr>insight_states := t\<rparr>) ins_id insight_clash mi)"
  "preserves tables_ok (repo_insert E cloud_accounts (\<lambda>t w. w\<lparr>cloud_accounts := t\<rparr>) ca_id cloud_account_clash ma)"
  by (rule preserves_repo_insert; simp add: tables_ok_def table_ok_insert clash_symps)+

lemma tables_ok_create_snapshot [pres]: "preserves tables_ok (create_snapshot E input)"
proof (rule preservesI)
  fix w assume ok: "tables_ok w"
  show "tables_ok (snd (create_snapshot E input w))"
  proof (cases rule: create_snapshot_cases [of E input w])
    case (created s n)
    let ?old = "map (retire_current (cs_serviceId input)) (snapshots w)"
    have "table_ok snap_id snapshot_clash ?old"
      using ok by (intro table_ok_map) (auto simp: tables_ok_def snapshot_clash_def)
    then have "table_ok snap_id snapshot_clash (?old @ [s])"
      using created(3,9) by (intro table_ok_insert) (auto simp: snapshot_clash_def clash_symps image_iff)
    then show ?thesis using ok by (simp add: created(1) tables_ok_def)
  qed (use ok in simp)
qed

lemma tables_ok_delete:
  "tables_ok w \<Longrightarrow> tables_ok (delete_host i w)" "tables_ok w \<Longrightarrow> tables_ok (delete_domain i w)"
  by (auto simp: tables_ok_def delete_host_def delete_services_def delete_domain_def Let_def unlink_host_def
      domain_clash_def intro!: table_ok_map split: if_splits)

interpretation keys: host_writes tables_ok
proof
  fix w assume ok: "tables_ok w"
  show "tables_ok (w\<lparr>alert_rules := filter rp (alert_rules w), alert_logs := al\<rparr>)" for rp al
    using ok by (simp add: tables_ok_def)
  show "tables_ok (w\<lparr>cloud_accounts := filter cp (cloud_accounts w)\<rparr>)" for cp
    using ok by (simp add: tables_ok_def)
qed (simp_all add: tables_ok_delete save_rule_def save_cloud_account_def save_service_def save_event_def save_domain_def
    save_certificate_def save_host_def tables_ok_save tables_ok_insert tables_ok_create_snapshot)

end
