(* ===== verification/Foreign_Keys.thy ===== *)
theory Foreign_Keys
  imports Schema
begin

section \<open>Foreign keys across the whole database\<close>

text \<open>
  \<open>refs_ok\<close> (every foreign key has its row) through the jobs: a job reads rows, works over SSH
  for a while and writes rows that refer to what it read. \<open>refs_with\<close> carries the ids that a
  job has seen, which no step of a job takes away.
\<close>

definition refs_with :: "uuid set \<Rightarrow> uuid set \<Rightarrow> uuid set \<Rightarrow> uuid set \<Rightarrow> world \<Rightarrow> bool" where
  "refs_with H S N D w \<longleftrightarrow> refs_ok w \<and> H \<subseteq> host_id ` set (hosts w) \<and> S \<subseteq> svc_id ` set (services w)
     \<and> N \<subseteq> snap_id ` set (snapshots w) \<and> D \<subseteq> dom_id ` set (domains w)"

lemma refs_with_none: "refs_ok w \<longleftrightarrow> refs_with {} {} {} {} w"
  by (simp add: refs_with_def)

lemma preserves_refs_withI: "preserves (refs_with {} {} {} {}) m \<Longrightarrow> preserves refs_ok m"
  by (simp add: preserves_def refs_with_none)

lemma refs_with_tick [simp]: "refs_with H S N D (tick w) = refs_with H S N D w"
  by (simp add: refs_with_def)

lemma refs_with_other [simp]:
  "refs_with H S N D (w\<lparr>hc_logs := l\<rparr>) = refs_with H S N D w" "refs_with H S N D (w\<lparr>alert_logs := al\<rparr>) = refs_with H S N D w"
  "refs_with H S N D (w\<lparr>steps := n\<rparr>) = refs_with H S N D w" "refs_with H S N D (w\<lparr>cooldown_keys := ck\<rparr>) = refs_with H S N D w"
  "refs_with H S N D (w\<lparr>alert_rules := rs\<rparr>) = refs_with H S N D w" "refs_with H S N D (w\<lparr>cloud_accounts := cs\<rparr>) = refs_with H S N D w"
  "refs_with H S N D (w\<lparr>alert_rules := rs, alert_logs := al\<rparr>) = refs_with H S N D w"
  "refs_with H S N D (w\<lparr>insight_states := ss\<rparr>) = refs_with H S N D w" "refs_with H S N D (w\<lparr>organizations := os\<rparr>) = refs_with H S N D w"
  "refs_with H S N D (w\<lparr>users := us\<rparr>) = refs_with H S N D w"
  "refs_with H S N D (push_host_job i w) = refs_with H S N D w" "refs_with H S N D (push_domain_job i w) = refs_with H S N D w"
  "refs_with H S N D (push_rollback_job i w) = refs_with H S N D w"
  by (simp_all add: refs_with_def refs_ok_def push_host_job_def push_domain_job_def push_rollback_job_def)

text \<open>The ids of a table after a row was saved or inserted.\<close>

lemma ids_set_save [simp]: "rid ` set (save_row rid r t) = insert (rid r) (rid ` set t)"
  using arg_cong [OF ids_save_row [of rid r t], of set] by auto

lemma refers_save_parent: "refers fk xs rid ys \<Longrightarrow> refers fk xs rid (save_row rid r ys)"
  by (auto simp: refers_def)

lemma refers_save_child:
  "refers fk xs rid ys \<Longrightarrow> fk r \<in> rid ` set ys \<Longrightarrow> refers fk (save_row k r xs) rid ys"
  using set_save_row_subset [of k r xs] by (fastforce simp: refers_def)

lemma refers_insert_parent: "refers fk xs rid ys \<Longrightarrow> refers fk xs rid (ys @ [r])"
  by (auto simp: refers_def)

lemma refers_insert_child: "refers fk xs rid ys \<Longrightarrow> fk r \<in> rid ` set ys \<Longrightarrow> refers fk (xs @ [r]) rid ys"
  by (auto simp: refers_def)

lemmas refers_rules = refers_save_parent refers_save_child refers_insert_parent refers_insert_child

subsection \<open>Writes\<close>

lemma refs_save_host:
  "preserves (refs_with H S N D) (repo_save E hosts (\<lambda>t w. w\<lparr>hosts := t\<rparr>) host_id cl h)"
  by (rule preserves_repo_save) (auto simp: refs_with_def refs_ok_def intro!: refers_rules)

lemma refs_save_service:
  "svc_hostId s \<in> H \<Longrightarrow> preserves (refs_with H S N D) (repo_save E services (\<lambda>t w. w\<lparr>services := t\<rparr>) svc_id cl s)"
  by (rule preserves_repo_save) (auto simp: refs_with_def refs_ok_def intro!: refers_rules)

lemma refs_withD:
  "refs_with H S N D w \<Longrightarrow> i \<in> H \<Longrightarrow> i \<in> host_id ` set (hosts w)"
  "refs_with H S N D w \<Longrightarrow> i \<in> S \<Longrightarrow> i \<in> svc_id ` set (services w)"
  "refs_with H S N D w \<Longrightarrow> i \<in> N \<Longrightarrow> i \<in> snap_id ` set (snapshots w)"
  "refs_with H S N D w \<Longrightarrow> i \<in> D \<Longrightarrow> i \<in> dom_id ` set (domains w)"
  by (auto simp: refs_with_def)

text \<open>A written event refers to rows that are there.\<close>

lemma refs_write_event:
  assumes "refs_with H S N D w" "ev_serviceId e \<in> S" "ev_fromSnapshotId e \<in> N" "ev_toSnapshotId e \<in> N"
  shows "refs_with H S N D (w\<lparr>rollback_events := save_row ev_id e (rollback_events w)\<rparr>)"
    and "refs_with H S N D (w\<lparr>rollback_events := rollback_events w @ [e]\<rparr>)"
  using assms(1) refs_withD [OF assms(1)] assms(2-4)
  by (simp_all add: refs_with_def refs_ok_def refers_save_child refers_insert_child)

lemma refs_save_event:
  "ev_serviceId e \<in> S \<Longrightarrow> ev_fromSnapshotId e \<in> N \<Longrightarrow> ev_toSnapshotId e \<in> N \<Longrightarrow>
   preserves (refs_with H S N D) (repo_save E rollback_events (\<lambda>t w. w\<lparr>rollback_events := t\<rparr>) ev_id cl e)"
  by (rule preserves_repo_save) (simp_all add: refs_write_event)

lemma refs_save_domain:
  assumes "\<And>i. dom_hostId d = Some i \<Longrightarrow> i \<in> H"
  shows "preserves (refs_with H S N D) (repo_save E domains (\<lambda>t w. w\<lparr>domains := t\<rparr>) dom_id cl d)"
proof (rule preserves_repo_save)
  fix w :: world assume w: "refs_with H S N D w"
  have "dom_hostId ` set (save_row dom_id d (domains w)) \<subseteq> insert (dom_hostId d) (dom_hostId ` set (domains w))"
    using image_mono [OF set_save_row_subset [of dom_id d "domains w"], of dom_hostId] by simp
  moreover have "i \<in> host_id ` set (hosts w)" if "dom_hostId d = Some i" for i
    using refs_withD(1) [OF w assms [OF that]] .
  ultimately have "{i. Some i \<in> dom_hostId ` set (save_row dom_id d (domains w))} \<subseteq> host_id ` set (hosts w)"
    using w by (auto simp: refs_with_def refs_ok_def dest!: subsetD)
  with w show "refs_with H S N D (w\<lparr>domains := save_row dom_id d (domains w)\<rparr>)"
    by (auto simp: refs_with_def refs_ok_def refers_save_parent)
qed simp

lemma refs_save_certificate:
  "cert_domainId c \<in> D \<Longrightarrow> preserves (refs_with H S N D) (repo_save E ssl_certificates (\<lambda>t w. w\<lparr>ssl_certificates := t\<rparr>) cert_id cl c)"
  by (rule preserves_repo_save) (auto simp: refs_with_def refs_ok_def intro!: refers_rules)

lemma refs_insert_service:
  "(\<And>i t. svc_hostId (mk i t) \<in> H) \<Longrightarrow>
   preserves (refs_with H S N D) (repo_insert E services (\<lambda>t w. w\<lparr>services := t\<rparr>) svc_id cl mk)"
  by (rule preserves_repo_insert) (auto simp: refs_with_def refs_ok_def intro!: refers_rules)

lemma refs_insert_event:
  "(\<And>i t. ev_serviceId (mk i t) \<in> S) \<Longrightarrow> (\<And>i t. ev_fromSnapshotId (mk i t) \<in> N) \<Longrightarrow> (\<And>i t. ev_toSnapshotId (mk i t) \<in> N) \<Longrightarrow>
   preserves (refs_with H S N D) (repo_insert E rollback_events (\<lambda>t w. w\<lparr>rollback_events := t\<rparr>) ev_id cl mk)"
  by (rule preserves_repo_insert) (simp_all add: refs_write_event)

lemma refs_create_snapshot:
  assumes "cs_serviceId input \<in> S"
  shows "preserves (refs_with H S N D) (create_snapshot E input)"
proof (rule preservesI)
  fix w assume w: "refs_with H S N D w"
  show "refs_with H S N D (snd (create_snapshot E input w))"
  proof (cases rule: create_snapshot_cases [of E input w])
    case (created s n)
    have svc: "snap_serviceId s \<in> svc_id ` set (services w)"
      using w created(3) assms by (auto simp: refs_with_def)
    have child: "refers snap_serviceId (map (retire_current i) xs @ [s]) svc_id (services w)"
      if "refers snap_serviceId xs svc_id (services w)" for i xs
      using that svc by (simp add: refers_def image_image)
    have parent: "refers fk xs snap_id (map (retire_current i) ys @ [s])" if "refers fk xs snap_id ys"
      for fk i ys and xs :: "rollback_event list"
      using that by (auto simp: refers_def image_image)
    show ?thesis
      using w child parent unfolding created(1) refs_with_def refs_ok_def
      by (simp add: image_image subset_insertI2)
  qed (use w in simp)
qed

subsection \<open>Reads\<close>

text \<open>What is known after a lookup that found a row: the row's id, and the ids it refers to.\<close>

lemma preserves_bind_find_one:
  assumes "\<And>w. P w \<Longrightarrow> P (tick w)" and "\<And>w x. P w \<Longrightarrow> x \<in> set (tab w) \<Longrightarrow> p x \<Longrightarrow> Q x (tick w)" and "\<And>w x. Q x w \<Longrightarrow> P w"
    and "preserves P (k None)" and "\<And>x. preserves (Q x) (k (Some x))"
  shows "preserves P (bind (repo_find_one E tab p) k)"
proof (rule preservesI)
  fix w assume w: "P w"
  show "P (snd (bind (repo_find_one E tab p) k w))"
  proof (cases "db_fault E (steps w)")
    case None
    then have r: "bind (repo_find_one E tab p) k w = k (List.find p (tab w)) (tick w)"
      by (simp add: bind_def repo_find_one_def repo_def)
    show ?thesis
    proof (cases "List.find p (tab w)")
      case (Some x)
      then have "Q x (tick w)" using assms(2) [OF w] by (auto simp: find_Some_iff)
      from preservesD [OF assms(5) this] show ?thesis by (simp add: r Some assms(3))
    qed (use preservesD [OF assms(4)] assms(1) [OF w] r in simp)
  qed (use w assms(1) in \<open>simp add: bind_def repo_find_one_def repo_def\<close>)
qed

lemma preserves_bind_find:
  assumes "\<And>w. P w \<Longrightarrow> P (tick w)" and "\<And>w xs. P w \<Longrightarrow> set xs \<subseteq> set (tab w) \<Longrightarrow> Q xs (tick w)"
    and "\<And>w xs. Q xs w \<Longrightarrow> P w" and "\<And>xs. preserves (Q xs) (k xs)"
  shows "preserves P (bind (repo_find E tab p) k)"
proof (rule preservesI)
  fix w assume w: "P w"
  show "P (snd (bind (repo_find E tab p) k w))"
  proof (cases "db_fault E (steps w)")
    case None
    then have r: "bind (repo_find E tab p) k w = k (filter p (tab w)) (tick w)"
      by (simp add: bind_def repo_find_def repo_def)
    have "Q (filter p (tab w)) (tick w)" using assms(2) [OF w] by simp
    from preservesD [OF assms(4) this] show ?thesis by (simp add: r assms(3))
  qed (use w assms(1) in \<open>simp add: bind_def repo_find_def repo_def\<close>)
qed

text \<open>Saving a row resolves with that row.\<close>

lemma preserves_bind_save:
  assumes "preserves P (repo_save E tab upd rid clash r)" "preserves P (k r)"
  shows "preserves P (bind (repo_save E tab upd rid clash r) k)"
proof (rule preservesI)
  fix w assume w: "P w"
  show "P (snd (bind (repo_save E tab upd rid clash r) k w))"
  proof (cases "repo_save E tab upd rid clash r w")
    case (Pair x u)
    then have "P u" using preservesD' [OF assms(1) w] by blast
    moreover have "x = Inr y \<Longrightarrow> y = r" for y
      using Pair by (auto simp: repo_save_def repo_def split: option.splits if_splits prod.splits)
    ultimately show ?thesis using Pair preservesD [OF assms(2)] by (cases x) (auto simp: bind_def)
  qed
qed

lemma refs_withI:
  assumes "refs_with H S N D w" and "H' \<subseteq> host_id ` set (hosts w)" "S' \<subseteq> svc_id ` set (services w)"
    "N' \<subseteq> snap_id ` set (snapshots w)" "D' \<subseteq> dom_id ` set (domains w)"
  shows "refs_with (H' \<union> H) (S' \<union> S) (N' \<union> N) (D' \<union> D) w"
  using assms by (simp add: refs_with_def)

lemma refs_with_mono:
  "refs_with H' S' N' D' w \<Longrightarrow> H \<subseteq> H' \<Longrightarrow> S \<subseteq> S' \<Longrightarrow> N \<subseteq> N' \<Longrightarrow> D \<subseteq> D' \<Longrightarrow> refs_with H S N D w"
  by (auto simp: refs_with_def)

lemma refersD: "refers fk xs rid ys \<Longrightarrow> x \<in> set xs \<Longrightarrow> fk x \<in> rid ` set ys"
  by (auto simp: refers_def)

lemma refs_find_host:
  "preserves (refs_with H S N D) (k None) \<Longrightarrow> (\<And>h. preserves (refs_with (insert (host_id h) H) S N D) (k (Some h))) \<Longrightarrow>
   preserves (refs_with H S N D) (bind (repo_find_one E hosts p) k)"
  by (rule preserves_bind_find_one [where Q = "\<lambda>h. refs_with (insert (host_id h) H) S N D"]) (auto simp: refs_with_def)

lemma refs_find_service:
  assumes "preserves (refs_with H S N D) (k None)"
    and "\<And>s. preserves (refs_with (insert (svc_hostId s) H) (insert (svc_id s) S) N D) (k (Some s))"
  shows "preserves (refs_with H S N D) (bind (repo_find_one E services p) k)"
proof (rule preserves_bind_find_one [where Q = "\<lambda>s. refs_with (insert (svc_hostId s) H) (insert (svc_id s) S) N D"])
  fix w s assume "refs_with H S N D w" "s \<in> set (services w)"
  then show "refs_with (insert (svc_hostId s) H) (insert (svc_id s) S) N D (tick w)"
    using refersD [of svc_hostId "services w" host_id "hosts w" s] by (simp add: refs_with_def refs_ok_def)
qed (use assms in \<open>auto simp: refs_with_def\<close>)

lemma refs_find_snapshot:
  assumes "preserves (refs_with H S N D) (k None)"
    and "\<And>s. preserves (refs_with H (insert (snap_serviceId s) S) (insert (snap_id s) N) D) (k (Some s))"
  shows "preserves (refs_with H S N D) (bind (repo_find_one E snapshots p) k)"
proof (rule preserves_bind_find_one [where Q = "\<lambda>s. refs_with H (insert (snap_serviceId s) S) (insert (snap_id s) N) D"])
  fix w s assume "refs_with H S N D w" "s \<in> set (snapshots w)"
  then show "refs_with H (insert (snap_serviceId s) S) (insert (snap_id s) N) D (tick w)"
    using refersD [of snap_serviceId "snapshots w" svc_id "services w" s] by (simp add: refs_with_def refs_ok_def)
qed (use assms in \<open>auto simp: refs_with_def\<close>)

lemma refs_find_event:
  assumes "preserves (refs_with H S N D) (k None)"
    and "\<And>e. preserves (refs_with H (insert (ev_serviceId e) S) (insert (ev_fromSnapshotId e) (insert (ev_toSnapshotId e) N)) D) (k (Some e))"
  shows "preserves (refs_with H S N D) (bind (repo_find_one E rollback_events p) k)"
proof (rule preserves_bind_find_one [where Q = "\<lambda>e. refs_with H (insert (ev_serviceId e) S)
      (insert (ev_fromSnapshotId e) (insert (ev_toSnapshotId e) N)) D"])
  fix w e assume "refs_with H S N D w" "e \<in> set (rollback_events w)"
  then show "refs_with H (insert (ev_serviceId e) S) (insert (ev_fromSnapshotId e) (insert (ev_toSnapshotId e) N)) D (tick w)"
    using refersD [of ev_serviceId "rollback_events w" svc_id "services w" e]
      refersD [of ev_fromSnapshotId "rollback_events w" snap_id "snapshots w" e]
      refersD [of ev_toSnapshotId "rollback_events w" snap_id "snapshots w" e] by (simp add: refs_with_def refs_ok_def)
qed (use assms in \<open>auto simp: refs_with_def\<close>)

lemma refs_find_domain:
  assumes "preserves (refs_with H S N D) (k None)"
    and "\<And>d. preserves (refs_with ({i. dom_hostId d = Some i} \<union> H) S N (insert (dom_id d) D)) (k (Some d))"
  shows "preserves (refs_with H S N D) (bind (repo_find_one E domains p) k)"
proof (rule preserves_bind_find_one [where Q = "\<lambda>d. refs_with ({i. dom_hostId d = Some i} \<union> H) S N (insert (dom_id d) D)"])
  fix w d assume w: "refs_with H S N D w" and d: "d \<in> set (domains w)"
  have "i \<in> host_id ` set (hosts w)" if "dom_hostId d = Some i" for i
  proof -
    have "Some i \<in> dom_hostId ` set (domains w)" using d that by (metis imageI)
    with w show ?thesis by (auto simp: refs_with_def refs_ok_def)
  qed
  with w d show "refs_with ({i. dom_hostId d = Some i} \<union> H) S N (insert (dom_id d) D) (tick w)"
    by (auto simp: refs_with_def)
qed (use assms in \<open>auto simp: refs_with_def\<close>)

lemma refs_find_certificate:
  assumes "preserves (refs_with H S N D) (k None)"
    and "\<And>c. preserves (refs_with H S N (insert (cert_domainId c) D)) (k (Some c))"
  shows "preserves (refs_with H S N D) (bind (repo_find_one E ssl_certificates p) k)"
proof (rule preserves_bind_find_one [where Q = "\<lambda>c. refs_with H S N (insert (cert_domainId c) D)"])
  fix w c assume "refs_with H S N D w" "c \<in> set (ssl_certificates w)"
  then show "refs_with H S N (insert (cert_domainId c) D) (tick w)"
    using refersD [of cert_domainId "ssl_certificates w" dom_id "domains w" c] by (simp add: refs_with_def refs_ok_def)
qed (use assms in \<open>auto simp: refs_with_def\<close>)

lemma refs_find_services:
  assumes "\<And>ss. preserves (refs_with (svc_hostId ` set ss \<union> H) (svc_id ` set ss \<union> S) N D) (k ss)"
  shows "preserves (refs_with H S N D) (bind (repo_find E services p) k)"
proof (rule preserves_bind_find [where Q = "\<lambda>ss. refs_with (svc_hostId ` set ss \<union> H) (svc_id ` set ss \<union> S) N D"])
  fix w ss assume w: "refs_with H S N D w" and ss: "set ss \<subseteq> set (services w)"
  have "svc_hostId ` set ss \<subseteq> host_id ` set (hosts w)"
    using ss w unfolding refs_with_def refs_ok_def refers_def by (meson image_mono order_trans)
  with w ss show "refs_with (svc_hostId ` set ss \<union> H) (svc_id ` set ss \<union> S) N D (tick w)"
    by (simp add: refs_with_def image_mono)
qed (use assms in \<open>auto simp: refs_with_def\<close>)

lemmas refs_finds = refs_find_host refs_find_service refs_find_snapshot refs_find_event refs_find_domain
  refs_find_certificate refs_find_services

subsection \<open>Operations\<close>


lemmas refs_writes = refs_save_host refs_save_service refs_save_event refs_save_domain refs_save_certificate
  refs_insert_service refs_insert_event refs_create_snapshot

interpretation refs: setting_writes "refs_with H S N D" for H S N D
  by unfold_locales
     (auto intro!: preserves_repo_save preserves_repo_insert simp: save_rule_def save_cloud_account_def)

text \<open>A lookup followed by the case distinction on what it found.\<close>

lemmas refs_found = refs_find_host [where k = "case_option m k" for m k, simplified]
  refs_find_service [where k = "case_option m k" for m k, simplified]
  refs_find_snapshot [where k = "case_option m k" for m k, simplified]
  refs_find_event [where k = "case_option m k" for m k, simplified]
  refs_find_domain [where k = "case_option m k" for m k, simplified]
  refs_find_certificate [where k = "case_option m k" for m k, simplified]

lemma refs_check_tls: "dom_id d \<in> D \<Longrightarrow> preserves (refs_with H S N D) (check_tls E d ip)"
  unfolding check_tls_def save_certificate_def
  by (intro refs_finds preserves_bind_save refs_writes pres keeps_tls_check) (auto simp: apply_tls_result_def)

lemma refs_check_domain: "preserves (refs_with H S N D) (check_domain E i)"
  unfolding check_domain_def record_lookups_def certificate_part_def save_domain_def Let_def
  by (intro refs_finds preserves_bind_save refs_writes refs_check_tls pres keeps_lookups) (auto simp: apply_lookups_def)

lemma refs_capture: "svc_id s \<in> S \<Longrightarrow> preserves (refs_with H S N D) (capture_snapshot_if_image_changed E host s c)"
    unfolding capture_snapshot_if_image_changed_def capture_from_inspect_def find_current_for_service_def
    by (auto intro!: pres refs_writes split: option.split sum.split)

lemma refs_insert_service_then:
  assumes "\<And>i t. svc_hostId (mk i t) \<in> H" and "\<And>s. preserves (refs_with H (insert (svc_id s) S) N D) (k s)"
  shows "preserves (refs_with H S N D) (bind (repo_insert E services (\<lambda>t w. w\<lparr>services := t\<rparr>) svc_id cl mk) k)"
proof (rule preservesI)
  fix w assume w: "refs_with H S N D w"
  let ?m = "repo_insert E services (\<lambda>t w. w\<lparr>services := t\<rparr>) svc_id cl mk"
  obtain r u where m: "?m w = (r, u)" by force
  have u: "refs_with H S N D u" using preservesD' [OF refs_insert_service w m] assms(1) .
  have "x \<in> set (services u)" if "r = Inr x" for x
    using m that by (auto simp: repo_insert_def repo_def Let_def split: option.splits if_splits)
  then have known: "refs_with H (insert (svc_id x) S) N D u" if "r = Inr x" for x
    using u that by (simp add: refs_with_def)
  have "refs_with H S N D (snd (k x u))" if "r = Inr x" for x
    using preservesD [OF assms(2) known [OF that]] by (rule refs_with_mono) auto
  then show "refs_with H S N D (snd (bind ?m k w))"
    using m u by (cases r) (auto simp: bind_def)
qed

lemma refs_log [pres]: "preserves (refs_with H S N D) (write_hc_log E ty i st raw)"
  by (rule preserves_write_hc_log) simp_all

lemma refs_after_save: "svc_id s \<in> S \<Longrightarrow> preserves (refs_with H S N D) (after_save E host c p s)"
  unfolding after_save_def by (intro pres refs_capture)

lemma refs_upsert_service: "host_id host \<in> H \<Longrightarrow> preserves (refs_with H S N D) (upsert_service E host c t)"
  unfolding upsert_service_def Let_def
proof (rule refs_find_service)
  assume h: "host_id host \<in> H"
  show "preserves (refs_with H S N D) (bind (save_refreshed E host c t None) (after_save E host c p))" for p
    unfolding save_refreshed_def option.case
    by (intro refs_insert_service_then refs_after_save) (simp_all add: h)
  show "preserves (refs_with (insert (svc_hostId s) H) (insert (svc_id s) S) N D)
      (bind (save_refreshed E host c t (Some s)) (after_save E host c p))" for s p
    unfolding save_refreshed_def option.case save_service_def
    by (intro preserves_bind_save refs_save_service refs_after_save) simp_all
qed

lemma refs_sync: "host_id host \<in> H \<Longrightarrow> preserves (refs_with H S N D) (sync E host ps)"
  unfolding sync_def mark_missing_services_unknown_def mark_one_def save_service_def
  by (auto intro!: refs_finds preserves_bind_save refs_writes refs_upsert_service pres simp: mark_unknown_def split: prod.split)

lemma refs_check_host: "preserves (refs_with H S N D) (check_host E i)"
proof -
  have run: "preserves (refs_with H S N D) (run_check E h)" for H S N D h
    unfolding run_check_def by (auto intro!: pres split: sum.split)
  have "preserves (refs_with (insert (host_id h) H) S N D) (bind (save_host E (apply_outcome oc t h)) (\<lambda>saved.
      andthen (evaluate_transition E (f saved)) (case rs of None \<Rightarrow> ret () | Some results \<Rightarrow> sync E saved (results ! 1))))"
    for h oc t rs f
    unfolding save_host_def
    by (intro preserves_bind_save refs_save_host pres refs_sync) (simp add: apply_outcome_def Let_def)
  note tail = this
  show ?thesis
    unfolding check_host_def case_prod_beta
    by (rule refs_find_host)
       (simp_all, (rule pres run preserves_bind tail | simp)+)
qed

text \<open>A job keeps writing the event it loaded, whose references it knows.\<close>

definition refs_known :: "rollback_event \<Rightarrow> uuid set \<Rightarrow> uuid set \<Rightarrow> bool" where
  "refs_known ev S N \<longleftrightarrow> ev_serviceId ev \<in> S \<and> ev_fromSnapshotId ev \<in> N \<and> ev_toSnapshotId ev \<in> N"

lemma refs_known_simps [simp]:
  "refs_known (ev\<lparr>ev_status := st\<rparr>) S N = refs_known ev S N"
  "refs_known (ev\<lparr>ev_status := st, ev_completedAt := c\<rparr>) S N = refs_known ev S N"
  "refs_known (ev\<lparr>ev_logOutput := l\<rparr>) S N = refs_known ev S N"
  by (simp_all add: refs_known_def)

lemma refs_known_mono: "refs_known ev S N \<Longrightarrow> S \<subseteq> S' \<Longrightarrow> N \<subseteq> N' \<Longrightarrow> refs_known ev S' N'"
  by (auto simp: refs_known_def)

lemma refs_save_known: "refs_known ev S N \<Longrightarrow> preserves (refs_with H S N D) (save_event E ev)"
  unfolding save_event_def refs_known_def by (intro refs_save_event) auto

lemma refs_save_known_then:
  "refs_known ev S N \<Longrightarrow> preserves (refs_with H S N D) (k ev) \<Longrightarrow> preserves (refs_with H S N D) (bind (save_event E ev) k)"
  using refs_save_known [of ev S N H D E] unfolding save_event_def by (rule preserves_bind_save)

lemma refs_append_then:
  assumes "refs_known ev S N" "\<And>ev'. refs_known ev' S N \<Longrightarrow> preserves (refs_with H S N D) (k ev')"
  shows "preserves (refs_with H S N D) (bind (append_log E ev x) k)"
    and "preserves (refs_with H S N D) (bind (append_result E ev step r) k)"
  unfolding append_result_def append_log_def bind_assoc
  by (intro refs_save_known_then preserves_bind preserves_now, use assms in simp_all)+

lemma refs_fail_rollback: "refs_known ev S N \<Longrightarrow> preserves (refs_with H S N D) (fail_rollback E ev reason org)"
  unfolding fail_rollback_def
  by (intro preserves_bind [OF preserves_now] refs_append_then refs_save_known_then)
     (auto intro!: pres split: option.split)

lemma refs_succeed_rollback:
  assumes "refs_known ev S N" "svc_id svc \<in> S" "svc_hostId svc \<in> H"
  shows "preserves (refs_with H S N D) (succeed_rollback E ev svc c t st)"
  unfolding succeed_rollback_def save_service_def
  by (intro preserves_bind_save pres refs_save_known refs_save_service refs_create_snapshot)
     (use assms in \<open>simp_all add: restored_service_def split: prod.split\<close>)

lemma refs_verify_rollback:
  assumes "refs_known ev S N" "svc_id svc \<in> S" "svc_hostId svc \<in> H"
  shows "preserves (refs_with H S N D) (verify_rollback E ev svc t config ps)"
  unfolding verify_rollback_def Let_def case_prod_beta
  using assms
  by (intro preserves_bind [OF preserves_lift_result] preserves_bind [OF preserves_now] refs_append_then)
     (auto intro!: refs_fail_rollback refs_succeed_rollback split: option.split)

lemma refs_execute_rollback:
  assumes "refs_known ev S N" "svc_id svc \<in> S" "svc_hostId svc \<in> H"
  shows "preserves (refs_with H S N D) (execute_rollback E ev svc h t key)"
proof -
  have "preserves (refs_with H S N D) (record_results E ev svc t config results)" for config results
    unfolding record_results_def Let_def
    using assms by (intro refs_append_then) (auto intro!: refs_fail_rollback refs_verify_rollback)
  then show ?thesis
    unfolding execute_rollback_def using assms by (auto intro!: pres refs_fail_rollback split: sum.split)
qed

lemma refs_process_rollback: "preserves (refs_with H S N D) (process_rollback E i)"
proof -
  have "preserves (refs_with H S N D) (run_rollback E ev)" if "refs_known ev S N" for ev H S N D
    unfolding run_rollback_def
    by (intro refs_found) (use that in \<open>auto intro!: refs_fail_rollback refs_execute_rollback intro: refs_known_mono split: sum.split\<close>)
  then show ?thesis
    unfolding process_rollback_def
    by (intro refs_found preserves_ret refs_save_known_then) (simp_all add: refs_known_def)
qed

lemma refs_enqueue_rollback: "preserves (refs_with H S N D) (enqueue_rollback E org sid tid uid)"
proof -
  have ins: "preserves (refs_with H S N D) (insert_and_queue E svc c t uid)"
    if "svc_id svc \<in> S" "snap_id c \<in> N" "snap_id t \<in> N" for svc c t H S N D
    unfolding insert_and_queue_def using that by (auto intro!: pres refs_insert_event)
  show ?thesis
    unfolding enqueue_rollback_def finders bind_assoc
    by (rule refs_find_service, simp add: preserves_throw, simp, rule refs_find_snapshot, simp add: preserves_throw, simp)
       (intro refs_found preserves_throw preserves_try_catch preserves_if ins; simp)
qed

end
