(* ===== verification/Runs.thy ===== *)
theory Runs
  imports Main
begin

section \<open>Systems of steps\<close>

text \<open>
  A program whose parts run in any order is a relation between states; what holds at the start
  and is kept by every step holds of every state the program reaches. Used for the server
  (\<open>Backend\<close>), for the requests of a page (\<open>Client_Concurrency\<close>) and for its controls (\<open>Controls\<close>).
\<close>

inductive reachable :: "('s \<Rightarrow> bool) \<Rightarrow> ('s \<Rightarrow> 's \<Rightarrow> bool) \<Rightarrow> 's \<Rightarrow> bool" for start step where
  reachable_start: "start s \<Longrightarrow> reachable start step s"
| reachable_step: "reachable start step s \<Longrightarrow> step s s' \<Longrightarrow> reachable start step s'"

locale step_invariant =
  fixes start :: "'s \<Rightarrow> bool" and step :: "'s \<Rightarrow> 's \<Rightarrow> bool" and ok :: "'s \<Rightarrow> bool"
  assumes starts_ok: "start s \<Longrightarrow> ok s"
    and step_ok: "step s s' \<Longrightarrow> ok s \<Longrightarrow> ok s'"
begin

lemma reachable_ok: "reachable start step s \<Longrightarrow> ok s"
  by (induction rule: reachable.induct) (auto intro: starts_ok step_ok)

lemma run_ok: "step\<^sup>*\<^sup>* s s' \<Longrightarrow> ok s \<Longrightarrow> ok s'"
  by (induction rule: rtranclp_induct) (auto intro: step_ok)

end

text \<open>A system that runs down: each step uses up some of a budget, so every run ends.\<close>

locale terminating_steps = step_invariant +
  fixes budget :: "'s \<Rightarrow> nat" and final :: "'s \<Rightarrow> bool"
  assumes step_spends: "step s s' \<Longrightarrow> ok s \<Longrightarrow> budget s' < budget s"
    and progress: "ok s \<Longrightarrow> \<not> final s \<Longrightarrow> \<exists>s'. step s s'"
begin

lemma run_spends: "(step ^^ n) s s' \<Longrightarrow> ok s \<Longrightarrow> n + budget s' \<le> budget s \<and> ok s'"
proof (induction n arbitrary: s')
  case (Suc n)
  then obtain t where t: "(step ^^ n) s t" "step t s'" by auto
  with Suc.IH [OF t(1) Suc.prems(2)] step_spends [OF t(2)] step_ok [OF t(2)] show ?case by auto
qed auto

lemma run_ends: "ok s \<Longrightarrow> \<exists>s'. step\<^sup>*\<^sup>* s s' \<and> final s'"
proof (induction "budget s" arbitrary: s rule: less_induct)
  case less
  show ?case
  proof (cases "final s")
    case False
    from progress [OF less.prems False] obtain t where t: "step s t" by blast
    from less.hyps [OF step_spends [OF t less.prems] step_ok [OF t less.prems]]
    obtain s' where "step\<^sup>*\<^sup>* t s'" "final s'" by blast
    with t show ?thesis by (blast intro: converse_rtranclp_into_rtranclp)
  qed blast
qed

lemma stuck_final: "ok s \<Longrightarrow> (\<And>s'. \<not> step s s') \<Longrightarrow> final s"
  using progress by blast

end

end
