(* ===== verification/Backend.thy ===== *)
theory Backend
  imports Foreign_Keys Runs
begin

section \<open>The backend as a whole\<close>

text \<open>
  The state machine of the whole server: any request of its controllers and any job of its
  queues may run next, in any order, any number of times, under any fault. What holds of every
  state that can be reached is an invariant of the database.
\<close>

subsection \<open>The steps\<close>

text \<open>
  A body that reaches a handler has passed the validation pipe. A request that only reads is
  a step that draws on the clock.
\<close>

inductive backend_step :: "env \<Rightarrow> world \<Rightarrow> world \<Rightarrow> bool" for E where
  health_job: "backend_step E w (snd (process_health_check E hj w))"
| domain_job: "backend_step E w (snd (process_domain_check E dj w))"
| rollback_job: "backend_step E w (snd (process_rollback E eventId w))"
| insights_job: "backend_step E w (snd (process_insights E w))"
| seeding: "backend_step E w (snd (seed E w))"
| registering: "register_dto_valid E rdto \<Longrightarrow> backend_step E w (snd (auth_register E rdto w))"
| adding_host: "create_host_dto_valid E hdto \<Longrightarrow> backend_step E w (snd (hosts_create E org hdto w))"
| removing_host: "backend_step E w (snd (remove_host E org i w))"
| checking_host: "backend_step E w (snd (hosts_trigger_check E org i w))"
| checking_service: "backend_step E w (snd (services_trigger_check E org i w))"
| adding_domain: "create_domain_dto_valid E ddto \<Longrightarrow> backend_step E w (snd (domains_create E org ddto w))"
| removing_domain: "backend_step E w (snd (remove_domain E org i w))"
| checking_domain: "backend_step E w (snd (domains_trigger_check E org i w))"
| rolling_back: "backend_step E w (snd (service_rollback E org userId serviceId targetId w))"
| adding_rule: "backend_step E w (snd (create_rule E org cdto w))"
| changing_rule: "backend_step E w (snd (update_rule E org i udto w))"
| removing_rule: "backend_step E w (snd (remove_rule E org i w))"
| connecting: "backend_step E w (snd (cloud_connect E org adto w))"
| disconnecting: "backend_step E w (snd (cloud_disconnect E org i w))"
| reading: "steps w \<le> n \<Longrightarrow> backend_step E w (w\<lparr>steps := n\<rparr>)"

inductive_cases backend_stepE: "backend_step E w w'"

lemmas controllers = auth_register_def hosts_create_def hosts_trigger_check_def services_trigger_check_def
  domains_create_def domains_trigger_check_def service_rollback_def

subsection \<open>The setup discipline of the hosts\<close>

lemma hosts_ok_tick [simp]: "hosts_ok (tick w) = hosts_ok w"
  by (simp add: hosts_ok_def)

lemma hosts_ok_other [simp]:
  "hosts_ok (w\<lparr>hc_logs := l\<rparr>) = hosts_ok w" "hosts_ok (w\<lparr>alert_logs := al\<rparr>) = hosts_ok w"
  "hosts_ok (w\<lparr>steps := n\<rparr>) = hosts_ok w" "hosts_ok (w\<lparr>cooldown_keys := ck\<rparr>) = hosts_ok w"
  "hosts_ok (w\<lparr>services := sv\<rparr>) = hosts_ok w" "hosts_ok (w\<lparr>rollback_events := ev\<rparr>) = hosts_ok w"
  "hosts_ok (w\<lparr>domains := ds\<rparr>) = hosts_ok w" "hosts_ok (w\<lparr>ssl_certificates := ce\<rparr>) = hosts_ok w"
  "hosts_ok (w\<lparr>alert_rules := rs\<rparr>) = hosts_ok w" "hosts_ok (w\<lparr>cloud_accounts := ca\<rparr>) = hosts_ok w"
  "hosts_ok (w\<lparr>alert_rules := rs, alert_logs := al\<rparr>) = hosts_ok w" "hosts_ok (w\<lparr>insight_states := st\<rparr>) = hosts_ok w"
  "hosts_ok (w\<lparr>organizations := og\<rparr>) = hosts_ok w" "hosts_ok (w\<lparr>users := us\<rparr>) = hosts_ok w"
  "hosts_ok (push_host_job i w) = hosts_ok w" "hosts_ok (push_domain_job i w) = hosts_ok w"
  "hosts_ok (push_rollback_job i w) = hosts_ok w" "hosts_ok (delete_domain i w) = hosts_ok w"
  by (simp_all add: hosts_ok_def push_host_job_def push_domain_job_def push_rollback_job_def delete_domain_def)

lemma hosts_ok_create_snapshot: "preserves hosts_ok (create_snapshot E input)"
proof (rule preservesI)
  fix w assume "hosts_ok w"
  then show "hosts_ok (snd (create_snapshot E input w))"
    by (cases rule: create_snapshot_cases [of E input w]) (simp_all add: hosts_ok_def)
qed

lemma hosts_ok_delete_host: "hosts_ok w \<Longrightarrow> hosts_ok (delete_host j w)"
  by (auto simp: hosts_ok_def delete_host_def delete_services_def Let_def distinct_map_filter)

interpretation discipline: row_writes hosts_ok
  by unfold_locales
     (auto intro!: preserves_repo_save preserves_repo_insert hosts_ok_create_snapshot hosts_ok_delete_host
       simp: save_rule_def save_cloud_account_def save_service_def save_event_def save_domain_def save_certificate_def)

lemma hosts_ok_check_host: "preserves hosts_ok (check_host E i)"
proof (rule preservesI)
  fix w assume ok: "hosts_ok w"
  show "hosts_ok (snd (check_host E i w))"
  proof (cases rule: check_host_hosts [of E i w])
    case (checked h oc t)
    with hosts_ok_save [OF ok setup_ok_apply_outcome [OF checked(3)], of t] show ?thesis by (simp add: hosts_ok_def)
  qed (use ok in \<open>simp add: hosts_ok_def\<close>)
qed

lemma hosts_ok_create_host: "preserves hosts_ok (create_host E org hdto)"
  unfolding create_host_def
  by (intro preserves_bind pres preserves_repo_insert) (auto simp: hosts_ok_def setup_ok_def)

subsection \<open>The invariant\<close>

definition backend_ok :: "world \<Rightarrow> bool" where
  "backend_ok w \<longleftrightarrow> tables_ok w \<and> refs_ok w \<and> hosts_ok w"

lemma preserves_backend_ok:
  "preserves tables_ok m \<Longrightarrow> preserves refs_ok m \<Longrightarrow> preserves hosts_ok m \<Longrightarrow> preserves backend_ok m"
  by (simp add: preserves_def backend_ok_def)

lemma backend_ok_jobs:
  "preserves backend_ok (process_health_check E hj)" "preserves backend_ok (process_domain_check E dj)"
  "preserves backend_ok (process_rollback E i)" "preserves backend_ok (process_insights E)" "preserves backend_ok (seed E)"
proof -
  note refs = preserves_refs_withI
  show "preserves backend_ok (process_health_check E hj)"
    by (cases hj; simp; intro preserves_backend_ok refs keys.kept_by_check_host hosts_ok_check_host refs_check_host
          keys.kept_by_checks_requested discipline.kept_by_checks_requested refs.kept_by_checks_requested)
  show "preserves backend_ok (process_domain_check E dj)"
    by (cases dj; simp; intro preserves_backend_ok refs keys.kept_by_check_domain discipline.kept_by_check_domain refs_check_domain
          keys.kept_by_checks_requested discipline.kept_by_checks_requested refs.kept_by_checks_requested)
  show "preserves backend_ok (process_rollback E i)"
    by (intro preserves_backend_ok refs keys.kept_by_process_rollback discipline.kept_by_process_rollback refs_process_rollback)
  show "preserves backend_ok (process_insights E)"
    by (intro preserves_backend_ok refs keys.kept_by_insights discipline.kept_by_insights refs.kept_by_insights)
  show "preserves backend_ok (seed E)"
    by (intro preserves_backend_ok refs keys.kept_by_setting_requests discipline.kept_by_setting_requests refs.kept_by_setting_requests)
qed

lemma backend_ok_requests:
  "preserves backend_ok (register E email pw name)" "preserves backend_ok (create_host E org hdto)"
  "preserves backend_ok (remove_host E org i)" "preserves backend_ok (enqueue_host_check E org i)"
  "preserves backend_ok (enqueue_service_check E org i)" "preserves backend_ok (enqueue_domain_check E org i)"
  "cd_host_id ddto \<noteq> Some [] \<Longrightarrow> preserves backend_ok (create_domain E org ddto)"
  "preserves backend_ok (remove_domain E org i)" "preserves backend_ok (enqueue_rollback E org sid tid uid)"
  "preserves backend_ok (create_rule E org cdto)" "preserves backend_ok (update_rule E org i udto)"
  "preserves backend_ok (remove_rule E org i)" "preserves backend_ok (cloud_connect E org adto)"
  "preserves backend_ok (cloud_disconnect E org i)"
  by (intro preserves_backend_ok keys.kept_by_setting_requests discipline.kept_by_setting_requests
        keys.kept_by_checks_requested discipline.kept_by_checks_requested keys.kept_by_row_requests discipline.kept_by_row_requests
        keys.kept_by_create_host hosts_ok_create_host preserves_refs_create_host preserves_refs_remove_host
        preserves_refs_create_domain preserves_refs_remove_domain
        preserves_refs_withI [OF refs_enqueue_rollback] preserves_refs_withI [OF refs.kept_by_setting_requests(1)]
        preserves_refs_withI [OF refs.kept_by_setting_requests(2)] preserves_refs_withI [OF refs.kept_by_setting_requests(3)]
        preserves_refs_withI [OF refs.kept_by_setting_requests(4)] preserves_refs_withI [OF refs.kept_by_setting_requests(5)]
        preserves_refs_withI [OF refs.kept_by_setting_requests(6)]
        preserves_refs_withI [OF refs.kept_by_checks_requested(3)] preserves_refs_withI [OF refs.kept_by_checks_requested(4)]
        preserves_refs_withI [OF refs.kept_by_checks_requested(5)]; assumption)+

lemma empty_world_ok: "backend_ok empty_world"
  by (simp add: backend_ok_def tables_ok_def refs_ok_def refers_def hosts_ok_def)

lemma backend_ok_reading [simp]: "backend_ok (tick w) = backend_ok w" "backend_ok (w\<lparr>steps := n\<rparr>) = backend_ok w"
  by (simp_all add: backend_ok_def refs_ok_def)

lemma backend_ok_controllers:
  "preserves backend_ok (auth_register E rdto)" "preserves backend_ok (hosts_create E org hdto)"
  "preserves backend_ok (hosts_trigger_check E org i)" "preserves backend_ok (services_trigger_check E org i)"
  "preserves backend_ok (domains_trigger_check E org i)" "preserves backend_ok (service_rollback E org sid tid uid)"
  "cd_host_id ddto \<noteq> Some [] \<Longrightarrow> preserves backend_ok (domains_create E org ddto)"
  unfolding controllers get_certificate_or_throw_def
  by (intro preserves_bind backend_ok_requests; (assumption | auto intro!: pres split: prod.split option.split))+

text \<open>A validated body never names the empty string as the host of a domain.\<close>

lemma backend_ok_step:
  assumes "backend_step E w w'" "\<not> is_uuid E []" "backend_ok w"
  shows "backend_ok w'"
  using assms(1)
proof cases
  case (adding_domain ddto org)
  then have "cd_host_id ddto \<noteq> Some []" using assms(2) by (auto simp: create_domain_dto_valid_def)
  then show ?thesis using adding_domain(1) assms(3) preservesD [OF backend_ok_controllers(7)] by blast
qed (use assms(3) in \<open>simp_all add: backend_ok_jobs [THEN preservesD] backend_ok_controllers(1-6) [THEN preservesD]
       backend_ok_requests(3,8,10-14) [THEN preservesD]\<close>)

interpretation backend: step_invariant "\<lambda>w. w = empty_world" "backend_step E" "\<lambda>w. is_uuid E [] \<or> backend_ok w" for E
  by unfold_locales (auto simp: empty_world_ok intro: backend_ok_step)

definition one_current :: "snapshot list \<Rightarrow> bool" where
  "one_current t \<longleftrightarrow> (\<forall>x \<in> set t. \<forall>y \<in> set t. snap_serviceId x = snap_serviceId y \<longrightarrow>
     snap_isCurrent x \<longrightarrow> snap_isCurrent y \<longrightarrow> x = y)"


definition demo_host_dto :: create_host_dto where
  "demo_host_dto = \<lparr>ch_name = ''web'', ch_provider = AWS, ch_ip_address = ''203.0.113.10'', ch_ssh_port = None, ch_ssh_user = ''root''\<rparr>"


end
