(* ===== verification/Tenancy.thy ===== *)
theory Tenancy
  imports Backend
begin

section \<open>Rows and the organizations they belong to\<close>

text \<open>
  A service and a domain carry the organization of their host beside the host's id, and a
  rollback event names two snapshots beside the service: copies that the schema does not tie
  together. They agree in every database the server reaches. A job knows the row it read; \<open>f\<close>
  is the organization of each host, which never changes, and \<open>K\<close> holds the snapshots a job
  has seen, with their services.
\<close>

definition owned :: "(uuid \<Rightarrow> uuid) \<Rightarrow> world \<Rightarrow> bool" where
  "owned f w \<longleftrightarrow> (\<forall>h \<in> set (hosts w). f (host_id h) = host_orgId h)
     \<and> (\<forall>s \<in> set (services w). f (svc_hostId s) = svc_orgId s)
     \<and> (\<forall>d \<in> set (domains w). \<forall>i. dom_hostId d = Some i \<longrightarrow> f i = dom_orgId d)"

definition linked :: "(uuid \<times> uuid) set \<Rightarrow> world \<Rightarrow> bool" where
  "linked K w \<longleftrightarrow> K \<subseteq> (\<lambda>n. (snap_id n, snap_serviceId n)) ` set (snapshots w)"

definition event_links :: "rollback_event \<Rightarrow> (uuid \<times> uuid) set" where
  "event_links e = {(ev_fromSnapshotId e, ev_serviceId e), (ev_toSnapshotId e, ev_serviceId e)}"

definition tenancy :: "(uuid \<Rightarrow> uuid) \<Rightarrow> (uuid \<times> uuid) set \<Rightarrow> world \<Rightarrow> bool" where
  "tenancy f K w \<longleftrightarrow> owned f w \<and> linked K w \<and> (\<forall>e \<in> set (rollback_events w). linked (event_links e) w)"

lemma tenancy_tick [simp]: "tenancy f K (tick w) = tenancy f K w"
  by (simp add: tenancy_def owned_def linked_def)

lemma tenancy_mono: "tenancy f K' w \<Longrightarrow> K \<subseteq> K' \<Longrightarrow> tenancy f K w"
  by (auto simp: tenancy_def linked_def)

interpretation tenants: setting_writes "tenancy f K" for f K
  by unfold_locales
     (auto intro!: preserves_repo_save preserves_repo_insert
       simp: save_rule_def save_cloud_account_def tenancy_def owned_def linked_def push_host_job_def push_domain_job_def push_rollback_job_def)

lemma tenancy_log [pres]: "preserves (tenancy f K) (write_hc_log E ty i st raw)"
  by (rule preserves_write_hc_log) (simp_all add: tenancy_def owned_def linked_def)

subsection \<open>Writes\<close>

lemma in_save_row: "x \<in> set (save_row rid r t) \<Longrightarrow> x = r \<or> x \<in> set t"
  using set_save_row_subset [of rid r t] by auto

lemma tenancy_save_host:
  "f (host_id h) = host_orgId h \<Longrightarrow> preserves (tenancy f K) (repo_save E hosts (\<lambda>t w. w\<lparr>hosts := t\<rparr>) host_id cl h)"
  by (rule preserves_repo_save) (auto simp: tenancy_def owned_def linked_def dest!: in_save_row)

lemma tenancy_save_service:
  "f (svc_hostId s) = svc_orgId s \<Longrightarrow> preserves (tenancy f K) (repo_save E services (\<lambda>t w. w\<lparr>services := t\<rparr>) svc_id cl s)"
  by (rule preserves_repo_save) (auto simp: tenancy_def owned_def linked_def dest!: in_save_row)

lemma tenancy_insert_service:
  "(\<And>i t. f (svc_hostId (mk i t)) = svc_orgId (mk i t)) \<Longrightarrow>
   preserves (tenancy f K) (repo_insert E services (\<lambda>t w. w\<lparr>services := t\<rparr>) svc_id cl mk)"
  by (rule preserves_repo_insert) (auto simp: tenancy_def owned_def linked_def)

lemma tenancy_save_domain:
  "(\<And>i. dom_hostId d = Some i \<Longrightarrow> f i = dom_orgId d) \<Longrightarrow>
   preserves (tenancy f K) (repo_save E domains (\<lambda>t w. w\<lparr>domains := t\<rparr>) dom_id cl d)"
  by (rule preserves_repo_save) (auto simp: tenancy_def owned_def linked_def dest!: in_save_row)

lemma tenancy_insert_domain:
  "(\<And>i t j. dom_hostId (mk i t) = Some j \<Longrightarrow> f j = dom_orgId (mk i t)) \<Longrightarrow>
   preserves (tenancy f K) (repo_insert E domains (\<lambda>t w. w\<lparr>domains := t\<rparr>) dom_id cl mk)"
  by (rule preserves_repo_insert) (auto simp: tenancy_def owned_def linked_def)

lemma tenancy_certificates:
  "preserves (tenancy f K) (repo_save E ssl_certificates (\<lambda>t w. w\<lparr>ssl_certificates := t\<rparr>) cert_id cl c)"
  "preserves (tenancy f K) (repo_insert E ssl_certificates (\<lambda>t w. w\<lparr>ssl_certificates := t\<rparr>) cert_id cl mk)"
  by (rule preserves_repo_save preserves_repo_insert; simp add: tenancy_def owned_def linked_def)+

lemma tenancy_save_event:
  "event_links ev \<subseteq> K \<Longrightarrow> preserves (tenancy f K) (repo_save E rollback_events (\<lambda>t w. w\<lparr>rollback_events := t\<rparr>) ev_id cl ev)"
  by (rule preserves_repo_save) (auto simp: tenancy_def owned_def linked_def dest!: in_save_row)

lemma tenancy_insert_event:
  "(\<And>i t. event_links (mk i t) \<subseteq> K) \<Longrightarrow>
   preserves (tenancy f K) (repo_insert E rollback_events (\<lambda>t w. w\<lparr>rollback_events := t\<rparr>) ev_id cl mk)"
  by (rule preserves_repo_insert) (simp_all add: tenancy_def owned_def linked_def, meson subset_trans)

lemma tenancy_create_snapshot: "preserves (tenancy f K) (create_snapshot E input)"
proof (rule preservesI)
  fix w assume w: "tenancy f K w"
  show "tenancy f K (snd (create_snapshot E input w))"
  proof (cases rule: create_snapshot_cases [of E input w])
    case (created s n)
    have "(\<lambda>n. (snap_id n, snap_serviceId n)) (retire_current i x) = (snap_id x, snap_serviceId x)" for i x by simp
    then have "linked L (snd (create_snapshot E input w))" if "linked L w" for L
      using that unfolding created(1) by (auto simp: linked_def image_image)
    moreover have "owned f (snd (create_snapshot E input w))" "rollback_events (snd (create_snapshot E input w)) = rollback_events w"
      using w unfolding created(1) by (simp_all add: tenancy_def owned_def)
    ultimately show ?thesis using w by (simp add: tenancy_def)
  qed (use tenants.kept_steps [OF w] in simp)
qed

lemmas tenancy_writes = tenancy_save_host tenancy_save_service tenancy_insert_service tenancy_save_domain tenancy_insert_domain
  tenancy_certificates tenancy_save_event tenancy_insert_event tenancy_create_snapshot

subsection \<open>Reads\<close>

lemma preserves_pure: "(F \<Longrightarrow> preserves P m) \<Longrightarrow> preserves (\<lambda>w. P w \<and> F) m"
  by (simp add: preserves_def)

lemma tenancy_rows:
  "tenancy f K w \<Longrightarrow> h \<in> set (hosts w) \<Longrightarrow> f (host_id h) = host_orgId h"
  "tenancy f K w \<Longrightarrow> s \<in> set (services w) \<Longrightarrow> f (svc_hostId s) = svc_orgId s"
  "tenancy f K w \<Longrightarrow> d \<in> set (domains w) \<Longrightarrow> dom_hostId d = Some i \<Longrightarrow> f i = dom_orgId d"
  by (auto simp: tenancy_def owned_def)

lemma tenancy_find_host:
  assumes "preserves (tenancy f K) (k None)" "\<And>h. p h \<Longrightarrow> f (host_id h) = host_orgId h \<Longrightarrow> preserves (tenancy f K) (k (Some h))"
  shows "preserves (tenancy f K) (bind (repo_find_one E hosts p) k)"
  by (rule preserves_bind_find_one [where Q = "\<lambda>h w. tenancy f K w \<and> p h \<and> f (host_id h) = host_orgId h"])
     (simp_all add: tenancy_rows(1) assms preserves_pure)

lemma tenancy_find_service:
  assumes "preserves (tenancy f K) (k None)" "\<And>s. f (svc_hostId s) = svc_orgId s \<Longrightarrow> preserves (tenancy f K) (k (Some s))"
  shows "preserves (tenancy f K) (bind (repo_find_one E services p) k)"
  by (rule preserves_bind_find_one [where Q = "\<lambda>s w. tenancy f K w \<and> f (svc_hostId s) = svc_orgId s"])
     (simp_all add: tenancy_rows(2) assms preserves_pure)

lemma tenancy_find_services:
  assumes "\<And>ss. (\<And>s. s \<in> set ss \<Longrightarrow> f (svc_hostId s) = svc_orgId s) \<Longrightarrow> preserves (tenancy f K) (k ss)"
  shows "preserves (tenancy f K) (bind (repo_find E services p) k)"
proof (rule preserves_bind_find [where Q = "\<lambda>ss w. tenancy f K w \<and> (\<forall>s \<in> set ss. f (svc_hostId s) = svc_orgId s)"])
  fix w ss assume "tenancy f K w" "set ss \<subseteq> set (services w)"
  then show "tenancy f K (tick w) \<and> (\<forall>s \<in> set ss. f (svc_hostId s) = svc_orgId s)"
    by (simp add: subset_iff tenancy_rows(2))
qed (simp_all add: assms preserves_pure)

lemma tenancy_find_domain:
  assumes "preserves (tenancy f K) (k None)"
    "\<And>d. (\<And>i. dom_hostId d = Some i \<Longrightarrow> f i = dom_orgId d) \<Longrightarrow> preserves (tenancy f K) (k (Some d))"
  shows "preserves (tenancy f K) (bind (repo_find_one E domains p) k)"
  by (rule preserves_bind_find_one [where Q = "\<lambda>d w. tenancy f K w \<and> (\<forall>i. dom_hostId d = Some i \<longrightarrow> f i = dom_orgId d)"])
     (simp_all add: tenancy_rows(3) assms preserves_pure)

lemma linked_insert:
  "linked (insert (i, j) K) w \<longleftrightarrow> (\<exists>n \<in> set (snapshots w). snap_id n = i \<and> snap_serviceId n = j) \<and> linked K w"
  by (auto simp: linked_def)

lemma linked_Un: "linked (K \<union> L) w \<longleftrightarrow> linked K w \<and> linked L w"
  by (auto simp: linked_def)

lemma tenancy_insert: "tenancy f K w \<Longrightarrow> n \<in> set (snapshots w) \<Longrightarrow> tenancy f (insert (snap_id n, snap_serviceId n) K) w"
  by (auto simp: tenancy_def linked_insert)

lemma tenancy_find_snapshot:
  assumes "preserves (tenancy f K) (k None)"
    "\<And>n. p n \<Longrightarrow> preserves (tenancy f (insert (snap_id n, snap_serviceId n) K)) (k (Some n))"
  shows "preserves (tenancy f K) (bind (repo_find_one E snapshots p) k)"
  by (rule preserves_bind_find_one [where Q = "\<lambda>n w. tenancy f (insert (snap_id n, snap_serviceId n) K) w \<and> p n"])
     (simp_all add: tenancy_insert assms preserves_pure, blast intro: tenancy_mono)

lemma tenancy_find_event:
  assumes "preserves (tenancy f K) (k None)" "\<And>e. preserves (tenancy f (event_links e \<union> K)) (k (Some e))"
  shows "preserves (tenancy f K) (bind (repo_find_one E rollback_events p) k)"
  by (rule preserves_bind_find_one [where Q = "\<lambda>e. tenancy f (event_links e \<union> K)"])
     (use assms in \<open>simp_all only: tenancy_tick\<close>, auto simp: tenancy_def linked_Un)

lemmas tenancy_finds = tenancy_find_host tenancy_find_service tenancy_find_services tenancy_find_domain
  tenancy_find_snapshot tenancy_find_event

subsection \<open>Jobs\<close>

lemmas tenancy_found = tenancy_find_host [where k = "case_option m k" for m k, simplified]
  tenancy_find_service [where k = "case_option m k" for m k, simplified]
  tenancy_find_snapshot [where k = "case_option m k" for m k, simplified]
  tenancy_find_event [where k = "case_option m k" for m k, simplified]
  tenancy_find_domain [where k = "case_option m k" for m k, simplified]

lemma tenancy_check_domain: "preserves (tenancy f K) (check_domain E i)"
proof -
  have tls: "preserves (tenancy f K) (check_tls E d ip)" for d ip
    unfolding check_tls_def save_certificate_def by (intro tenancy_writes pres keeps_tls_check) auto
  show ?thesis
    unfolding check_domain_def record_lookups_def certificate_part_def save_domain_def Let_def
    by (intro tenancy_finds preserves_bind_save tenancy_writes tls tenancy_log pres keeps_lookups tenants.kept)
       (simp_all add: apply_lookups_def)
qed

lemma tenancy_capture: "preserves (tenancy f K) (capture_snapshot_if_image_changed E host s c)"
  unfolding capture_snapshot_if_image_changed_def capture_from_inspect_def find_current_for_service_def
  by (auto intro!: pres tenancy_writes split: option.split sum.split)

lemma tenancy_sync:
  assumes host: "f (host_id host) = host_orgId host"
  shows "preserves (tenancy f K) (sync E host ps)"
proof -
  have after: "preserves (tenancy f K) (after_save E host c p s)" for c p s
    unfolding after_save_def by (intro pres tenancy_capture)
  have up: "preserves (tenancy f K) (upsert_service E host c t)" for c t
    unfolding upsert_service_def Let_def save_refreshed_def save_service_def
    by (intro tenancy_find_service preserves_bind after) (simp_all add: host tenancy_writes)
  show ?thesis
    unfolding sync_def mark_missing_services_unknown_def mark_one_def save_service_def
    by (auto intro!: tenancy_finds preserves_bind_save tenancy_writes up pres simp: mark_unknown_def split: prod.split)
qed

lemma tenancy_check_host: "preserves (tenancy f K) (check_host E i)"
proof -
  have run: "preserves (tenancy f K) (run_check E h)" for h
    unfolding run_check_def by (auto intro!: pres split: sum.split)
  have tail: "preserves (tenancy f K) (bind (save_host E (apply_outcome oc t h)) (\<lambda>saved.
      andthen (evaluate_transition E (g saved)) (case rs of None \<Rightarrow> ret () | Some results \<Rightarrow> sync E saved (results ! 1))))"
    if "f (host_id h) = host_orgId h" for h oc t rs g
    unfolding save_host_def
    by (intro preserves_bind_save tenancy_save_host pres tenancy_sync) (use that in \<open>simp_all add: apply_outcome_def Let_def\<close>)
  show ?thesis
    unfolding check_host_def case_prod_beta
    by (rule tenancy_find_host) (simp_all, (rule pres run preserves_bind tail | simp)+)
qed

text \<open>A rollback job keeps writing the event it loaded, whose snapshots it knows.\<close>

lemma event_links_simps [simp]:
  "event_links (ev\<lparr>ev_status := st\<rparr>) = event_links ev"
  "event_links (ev\<lparr>ev_status := st, ev_completedAt := c\<rparr>) = event_links ev"
  "event_links (ev\<lparr>ev_logOutput := l\<rparr>) = event_links ev"
  by (simp_all add: event_links_def)

lemma tenancy_save_event_then:
  "event_links ev \<subseteq> K \<Longrightarrow> preserves (tenancy f K) (k ev) \<Longrightarrow> preserves (tenancy f K) (bind (save_event E ev) k)"
  unfolding save_event_def by (intro preserves_bind_save tenancy_save_event)

lemma tenancy_append_then:
  assumes "event_links ev \<subseteq> K" "\<And>ev'. event_links ev' \<subseteq> K \<Longrightarrow> preserves (tenancy f K) (k ev')"
  shows "preserves (tenancy f K) (bind (append_log E ev x) k)"
    and "preserves (tenancy f K) (bind (append_result E ev step r) k)"
  unfolding append_result_def append_log_def bind_assoc
  by (intro tenancy_save_event_then preserves_bind preserves_now, use assms in simp_all)+

lemma tenancy_fail_rollback: "event_links ev \<subseteq> K \<Longrightarrow> preserves (tenancy f K) (fail_rollback E ev reason org)"
  unfolding fail_rollback_def
  by (intro preserves_bind [OF preserves_now] tenancy_append_then tenancy_save_event_then)
     (auto intro!: pres split: option.split)

lemma tenancy_succeed_rollback:
  assumes "event_links ev \<subseteq> K" "f (svc_hostId svc) = svc_orgId svc"
  shows "preserves (tenancy f K) (succeed_rollback E ev svc c t st)"
  unfolding succeed_rollback_def save_service_def save_event_def
  by (intro preserves_bind_save pres tenancy_writes) (use assms in \<open>simp_all add: restored_service_def split: prod.split\<close>)

lemma tenancy_verify_rollback:
  assumes "event_links ev \<subseteq> K" "f (svc_hostId svc) = svc_orgId svc"
  shows "preserves (tenancy f K) (verify_rollback E ev svc t config ps)"
  unfolding verify_rollback_def Let_def case_prod_beta
  using assms
  by (intro preserves_bind [OF preserves_lift_result] preserves_bind [OF preserves_now] tenancy_append_then)
     (auto intro!: tenancy_fail_rollback tenancy_succeed_rollback split: option.split)

lemma tenancy_execute_rollback:
  assumes "event_links ev \<subseteq> K" "f (svc_hostId svc) = svc_orgId svc"
  shows "preserves (tenancy f K) (execute_rollback E ev svc h t key)"
proof -
  have "preserves (tenancy f K) (record_results E ev svc t config results)" for config results
    unfolding record_results_def Let_def
    using assms by (intro tenancy_append_then) (auto intro!: tenancy_fail_rollback tenancy_verify_rollback)
  then show ?thesis
    unfolding execute_rollback_def using assms by (auto intro!: pres tenancy_fail_rollback split: sum.split)
qed

lemma tenancy_process_rollback: "preserves (tenancy f K) (process_rollback E i)"
proof -
  have "preserves (tenancy f K) (run_rollback E ev)" if "event_links ev \<subseteq> K" for ev K
    unfolding run_rollback_def
    by (intro tenancy_found) (use that in \<open>auto intro!: tenancy_fail_rollback tenancy_execute_rollback split: sum.split\<close>)
  then show ?thesis
    unfolding process_rollback_def
    by (intro tenancy_found preserves_ret tenancy_save_event_then) simp_all
qed

subsection \<open>Requests\<close>

lemma linked_empty [simp]: "linked {} w"
  by (simp add: linked_def)

lemma tenancy_delete_host:
  assumes "tenancy f {} w" shows "tenancy f {} (delete_host i w)"
proof -
  let ?w = "delete_host i w"
  have "owned f ?w"
    using assms by (auto simp: tenancy_def owned_def delete_host_def delete_services_def Let_def unlink_host_def split: if_splits)
  moreover have "linked (event_links e) ?w" if "e \<in> set (rollback_events ?w)" for e
  proof -
    from that have e: "e \<in> set (rollback_events w)" "ev_serviceId e \<notin> svc_id ` set (filter (\<lambda>s. svc_hostId s = i) (services w))"
      by (auto simp: delete_host_def delete_services_def Let_def)
    with assms have "linked (event_links e) w" by (simp add: tenancy_def)
    with e(2) show ?thesis
      by (simp add: event_links_def linked_insert delete_host_def delete_services_def Let_def) metis
  qed
  ultimately show ?thesis by (simp add: tenancy_def linked_def)
qed

lemma tenancy_delete_domain: "tenancy f K w \<Longrightarrow> tenancy f K (delete_domain i w)"
  by (auto simp: tenancy_def owned_def linked_def delete_domain_def)

lemma tenancy_remove: "preserves (tenancy f {}) (remove_host E org i)" "preserves (tenancy f {}) (remove_domain E org i)"
  unfolding remove_host_def remove_domain_def finders
  by (auto intro!: pres preserves_repo tenancy_delete_host tenancy_delete_domain tenants.kept split: option.split)

lemma tenancy_create_domain:
  assumes "cd_host_id dto \<noteq> Some []"
  shows "preserves (tenancy f K) (create_domain E org dto)"
proof -
  have rest: "preserves (tenancy f K) (bind (repo_find_one E domains p) (case_option
      (bind (insert_domain E org dto) (\<lambda>d. bind (insert_certificate E (dom_id d)) (\<lambda>c.
         bind (enqueue_domain_job E (dom_id d)) (\<lambda>j. ret (d, j))))) (\<lambda>d. throw (e d))))"
    if "\<And>i. cd_host_id dto = Some i \<Longrightarrow> f i = org" for p e
    unfolding insert_domain_def insert_certificate_def enqueue_domain_job_def
    by (intro tenancy_found tenancy_writes pres tenants.kept) (simp_all add: that)
  show ?thesis
  proof (cases "cd_host_id dto")
    case (Some i)
    with assms have "i \<noteq> []" by auto
    with Some show ?thesis
      unfolding create_domain_def finders andthen_def
      by (simp add: bind_assoc) (rule tenancy_find_host, simp add: preserves_throw, simp, rule rest, simp)
  qed (use rest in \<open>simp add: create_domain_def andthen_def\<close>)
qed

lemma tenancy_enqueue_rollback: "preserves (tenancy f K) (enqueue_rollback E org sid tid uid)"
proof -
  have ins: "preserves (tenancy f K) (insert_and_queue E svc c t uid)"
    if "(snap_id c, svc_id svc) \<in> K" "(snap_id t, svc_id svc) \<in> K" for svc c t K
    unfolding insert_and_queue_def using that by (intro pres tenancy_insert_event tenants.kept) (auto simp: event_links_def)
  show ?thesis
    unfolding enqueue_rollback_def finders bind_assoc
    by (rule tenancy_find_service, simp add: preserves_throw, simp, rule tenancy_find_snapshot, simp add: preserves_throw, simp)
       (intro tenancy_found preserves_throw preserves_try_catch preserves_if ins; simp)
qed

text \<open>A new host gets an id that nothing refers to yet, and its organization with it.\<close>

definition tenancy_ok :: "world \<Rightarrow> bool" where
  "tenancy_ok w \<longleftrightarrow> (\<exists>f. tenancy f {} w)"

lemma preserves_tenancy_ok: "(\<And>f. preserves (tenancy f {}) m) \<Longrightarrow> preserves tenancy_ok m"
  unfolding preserves_def tenancy_ok_def by blast

lemma owned_new_host:
  assumes "owned f w" "refs_ok w" "host_id h \<notin> host_id ` set (hosts w)"
  shows "owned (f(host_id h := host_orgId h)) (w\<lparr>hosts := hosts w @ [h]\<rparr>)"
proof -
  have "svc_hostId s \<noteq> host_id h" if "s \<in> set (services w)" for s
    using assms(2,3) refersD [of svc_hostId "services w" host_id "hosts w" s] that by (auto simp: refs_ok_def)
  moreover have "dom_hostId d \<noteq> Some (host_id h)" if "d \<in> set (domains w)" for d
    using assms(2,3) that by (auto simp: refs_ok_def) (metis (mono_tags) imageI mem_Collect_eq subsetD)
  moreover have "host_id x \<noteq> host_id h" if "x \<in> set (hosts w)" for x using assms(3) that by (metis imageI)
  ultimately show ?thesis using assms(1) by (auto simp: owned_def)
qed

lemma tenancy_create_host: "preserves (\<lambda>w. backend_ok w \<and> tenancy_ok w) (create_host E org hdto)"
proof -
  have "preserves (\<lambda>w. refs_ok w \<and> tenancy_ok w) (repo_insert E hosts (\<lambda>t w. w\<lparr>hosts := t\<rparr>) host_id cl mk)"
    if "\<And>i d. host_id (mk i d) = i" for cl mk
  proof (rule preserves_repo_insert)
    fix w i t assume w: "refs_ok w \<and> tenancy_ok w" and new: "\<forall>x \<in> set (hosts w). host_id x \<noteq> host_id (mk i t) \<and> \<not> cl x (mk i t)"
    then obtain f where f: "tenancy f {} w" by (auto simp: tenancy_ok_def)
    then have "owned (f(host_id (mk i t) := host_orgId (mk i t))) (w\<lparr>hosts := hosts w @ [mk i t]\<rparr>)"
      using w new by (intro owned_new_host) (auto simp: tenancy_def)
    with f have "tenancy (f(host_id (mk i t) := host_orgId (mk i t))) {} (w\<lparr>hosts := hosts w @ [mk i t]\<rparr>)"
      by (simp add: tenancy_def linked_def)
    with w show "refs_ok (w\<lparr>hosts := hosts w @ [mk i t]\<rparr>) \<and> tenancy_ok (w\<lparr>hosts := hosts w @ [mk i t]\<rparr>)"
      by (auto simp: tenancy_ok_def refs_ok_def refers_def)
  qed (simp add: tenancy_ok_def)
  then have "preserves (\<lambda>w. refs_ok w \<and> tenancy_ok w) (create_host E org hdto)"
    unfolding create_host_def by (intro pres) (simp_all add: tenancy_ok_def)
  with backend_ok_requests(2) [of E org hdto] show ?thesis
    by (auto simp: preserves_def backend_ok_def)
qed

lemma tenancy_jobs:
  "preserves (tenancy f {}) (process_health_check E hj)" "preserves (tenancy f {}) (process_domain_check E dj)"
  "preserves (tenancy f {}) (process_insights E)"
  by (cases hj; cases dj; simp add: tenancy_check_host tenancy_check_domain tenants.kept_by_checks_requested tenants.kept_by_insights)+

lemma tenancy_controllers:
  "preserves (tenancy f {}) (auth_register E rdto)" "preserves (tenancy f {}) (hosts_trigger_check E org i)"
  "preserves (tenancy f {}) (services_trigger_check E org i)" "preserves (tenancy f {}) (domains_trigger_check E org i)"
  "preserves (tenancy f {}) (service_rollback E org sid tid uid)"
  "cd_host_id ddto \<noteq> Some [] \<Longrightarrow> preserves (tenancy f {}) (domains_create E org ddto)"
  unfolding controllers get_certificate_or_throw_def
  by (intro preserves_bind tenants.kept_by_setting_requests tenants.kept_by_checks_requested tenancy_enqueue_rollback tenancy_create_domain;
      (assumption | auto intro!: pres tenants.kept split: prod.split option.split))+

lemma tenancy_hosts_create: "preserves (\<lambda>w. backend_ok w \<and> tenancy_ok w) (hosts_create E org hdto)"
  unfolding hosts_create_def by (intro preserves_bind tenancy_create_host pres)

definition world_sound :: "world \<Rightarrow> bool" where
  "world_sound w \<longleftrightarrow> backend_ok w \<and> tenancy_ok w"

lemma sound_step:
  assumes "backend_step E w w'" "\<not> is_uuid E []" "world_sound w"
  shows "world_sound w'"
proof -
  have w: "backend_ok w" "tenancy_ok w" using assms(3) by (simp_all add: world_sound_def)
  have "backend_ok w'" using backend_ok_step [OF assms(1,2) w(1)] .
  moreover have "tenancy_ok w'"
    using assms(1)
  proof cases
    case (adding_host hdto org)
    then show ?thesis using preservesD [OF tenancy_hosts_create] w by blast
  next
    case (adding_domain ddto org)
    then have "cd_host_id ddto \<noteq> Some []" using assms(2) by (auto simp: create_domain_dto_valid_def)
    then show ?thesis using adding_domain(1) w(2) preservesD [OF preserves_tenancy_ok [OF tenancy_controllers(6)]] by blast
  next
    case (reading n)
    then show ?thesis using w(2) by (auto simp: tenancy_ok_def tenancy_def owned_def linked_def)
  qed (use w(2) in \<open>simp_all add: preservesD [OF preserves_tenancy_ok] tenancy_jobs tenancy_process_rollback tenancy_controllers(1-5)
         tenants.kept_by_setting_requests tenancy_remove\<close>)
  ultimately show ?thesis by (simp add: world_sound_def)
qed

lemma sound_empty: "world_sound empty_world"
  by (auto simp: world_sound_def empty_world_ok tenancy_ok_def tenancy_def owned_def linked_def)

interpretation world_sound: step_invariant "\<lambda>w. w = empty_world" "backend_step E" "\<lambda>w. is_uuid E [] \<or> world_sound w" for E
  by unfold_locales (auto simp: sound_empty intro: sound_step)

end
