(* ===== verification/Isolation.thy ===== *)
theory Isolation
  imports Tenancy
begin

section \<open>What a request may touch\<close>

text \<open>
  \<open>other_tenants orgId\<close> is the database as the other organizations see it: their hosts, services,
  domains, rules and cloud accounts with everything that hangs off them, the jobs queued for
  them and the rate limit of their domains. Every request that the controllers serve for an
  administrator of \<open>orgId\<close> leaves it as it is.
\<close>

definition foreign :: "('r \<Rightarrow> uuid) \<Rightarrow> uuid \<Rightarrow> 'r list \<Rightarrow> 'r list" where
  "foreign key orgId t = filter (\<lambda>x. key x \<noteq> orgId) t"

definition of_rows :: "('c \<Rightarrow> uuid) \<Rightarrow> ('r \<Rightarrow> uuid) \<Rightarrow> 'r list \<Rightarrow> 'c list \<Rightarrow> 'c list" where
  "of_rows fk rid rows t = filter (\<lambda>c. fk c \<in> rid ` set rows) t"

definition other_tenants :: "uuid \<Rightarrow> world \<Rightarrow> world" where
  "other_tenants orgId w =
    (let hs = foreign host_orgId orgId (hosts w); ss = foreign svc_orgId orgId (services w); ds = foreign dom_orgId orgId (domains w);
         rs = foreign rule_orgId orgId (alert_rules w); es = of_rows ev_serviceId svc_id ss (rollback_events w)
     in w\<lparr>cloud_accounts := foreign ca_orgId orgId (cloud_accounts w), hosts := hs, services := ss,
          snapshots := of_rows snap_serviceId svc_id ss (snapshots w), rollback_events := es, alert_rules := rs,
          alert_logs := of_rows alog_alertRuleId rule_id rs (alert_logs w), domains := ds,
          ssl_certificates := of_rows cert_domainId dom_id ds (ssl_certificates w),
          host_jobs := of_rows id host_id hs (host_jobs w), domain_jobs := of_rows id dom_id ds (domain_jobs w),
          rollback_jobs := of_rows id ev_id es (rollback_jobs w),
          cooldown_keys := of_rows fst (domain_check_key \<circ> dom_id) ds (cooldown_keys w), steps := 0\<rparr>)"

lemma other_tenants_steps [simp]: "other_tenants orgId (w\<lparr>steps := n\<rparr>) = other_tenants orgId w"
  by (simp add: other_tenants_def Let_def)

lemma other_tenants_tick [simp]: "other_tenants orgId (tick w) = other_tenants orgId w"
  by (simp add: tick_def)

lemma foreign_append [simp]: "foreign key orgId (t @ t') = foreign key orgId t @ foreign key orgId t'"
  by (simp add: foreign_def)

lemma foreign_one [simp]: "key x = orgId \<Longrightarrow> foreign key orgId [x] = []"
  by (simp add: foreign_def)

lemma of_rows_append [simp]: "of_rows fk rid rows (t @ t') = of_rows fk rid rows t @ of_rows fk rid rows t'"
  by (simp add: of_rows_def)

lemma of_rows_one: "fk c \<notin> rid ` set rows \<Longrightarrow> of_rows fk rid rows [c] = []"
  by (simp add: of_rows_def)

lemma own_not_foreign: "distinct (map rid t) \<Longrightarrow> x \<in> set t \<Longrightarrow> key x = orgId \<Longrightarrow> rid x \<notin> rid ` set (foreign key orgId t)"
  unfolding foreign_def by (auto dest: key_unique)

lemma other_id: "distinct (map rid t) \<Longrightarrow> x \<in> set t \<Longrightarrow> y \<in> set t \<Longrightarrow> key x \<noteq> key y \<Longrightarrow> rid x \<noteq> rid y"
  by (metis key_unique)

lemma foreign_save_row:
  assumes "distinct (map rid t)" "x \<in> set t" "rid r = rid x" "key x = orgId" "key r = orgId"
  shows "foreign key orgId (save_row rid r t) = foreign key orgId t"
proof -
  have "rid r \<in> rid ` set t" using assms(2,3) by (metis imageI)
  moreover have "key y = orgId" if "y \<in> set t" "rid y = rid r" for y
    using key_unique [OF assms(1) that(1) assms(2)] that(2) assms(3,4) by simp
  ultimately show ?thesis using assms(1,5) unfolding foreign_def by (intro filter_save_row) auto
qed

lemma foreign_filter:
  "(\<And>x. x \<in> set t \<Longrightarrow> key x \<noteq> orgId \<Longrightarrow> p x) \<Longrightarrow> foreign key orgId (filter p t) = foreign key orgId t"
  by (auto simp: foreign_def intro!: filter_cong)

lemma foreign_delete:
  "distinct (map rid t) \<Longrightarrow> x \<in> set t \<Longrightarrow> key x = orgId \<Longrightarrow> foreign key orgId (filter (\<lambda>y. rid y \<noteq> rid x) t) = foreign key orgId t"
  by (rule foreign_filter) (metis other_id)

lemma of_rows_filter:
  "(\<And>c. c \<in> set t \<Longrightarrow> fk c \<in> rid ` set rows \<Longrightarrow> p c) \<Longrightarrow> of_rows fk rid rows (filter p t) = of_rows fk rid rows t"
  by (auto simp: of_rows_def intro!: filter_cong)

lemma in_foreign [simp]: "x \<in> set (foreign key orgId t) \<longleftrightarrow> x \<in> set t \<and> key x \<noteq> orgId"
  by (simp add: foreign_def)

subsection \<open>Reading programs\<close>

definition reads :: "'a action \<Rightarrow> bool" where
  "reads m \<longleftrightarrow> (\<forall>w. \<exists>n. snd (m w) = w\<lparr>steps := n\<rparr> \<and> steps w \<le> n)"

named_theorems reading

lemma same_steps: "\<exists>n. w = w\<lparr>steps := n\<rparr> \<and> steps w \<le> n"
  by (rule exI [of _ "steps w"]) simp

lemma reads_simple [reading]: "reads (ret x)" "reads (throw e)" "reads (lift_result r)" "reads (now E)" "reads (encrypt E p)"
  "reads (hash_password E p)" "reads (repo_find E tab p1)" "reads (repo_find_one E tab2 p2)" "reads (repo E (\<lambda>w. (g w, w)))"
  "reads (generate_ssh_keypair E c)"
  unfolding reads_def
  by (auto simp: prog_simps now_def encrypt_def hash_password_def repo_find_def repo_find_one_def repo_def generate_ssh_keypair_def
      tick_def Let_def split: option.split prod.split intro: same_steps)

lemma reads_bind [reading]:
  assumes "reads m" "\<And>x. reads (k x)"
  shows "reads (bind m k)"
  unfolding reads_def
proof
  fix w
  obtain n where n: "snd (m w) = w\<lparr>steps := n\<rparr>" "steps w \<le> n" using assms(1) by (auto simp: reads_def)
  show "\<exists>n. snd (bind m k w) = w\<lparr>steps := n\<rparr> \<and> steps w \<le> n"
  proof (cases "fst (m w)")
    case (Inr x)
    moreover obtain n' where "snd (k x (w\<lparr>steps := n\<rparr>)) = w\<lparr>steps := n'\<rparr>" "n \<le> n'"
      using assms(2) [unfolded reads_def, rule_format, of x "w\<lparr>steps := n\<rparr>"] by auto
    ultimately show ?thesis using n by (intro exI [of _ n']) (auto simp: bind_def split: prod.splits)
  qed (use n in \<open>auto simp: bind_def split: prod.splits\<close>)
qed

lemma reads_andthen [reading]: "reads m \<Longrightarrow> reads k \<Longrightarrow> reads (andthen m k)"
  unfolding andthen_def by (rule reads_bind)

lemma reads_branch [reading]:
  "reads m \<Longrightarrow> reads k \<Longrightarrow> reads (if b then m else k)"
  "reads m \<Longrightarrow> (\<And>x. reads (f x)) \<Longrightarrow> reads (case opt of None \<Rightarrow> m | Some x \<Rightarrow> f x)"
  "(\<And>x y. reads (g x y)) \<Longrightarrow> reads (case q of (x, y) \<Rightarrow> g x y)"
  by (simp_all split: option.split prod.split)

subsection \<open>Programs that keep to one organization\<close>

definition isolates :: "uuid \<Rightarrow> (world \<Rightarrow> bool) \<Rightarrow> 'a action \<Rightarrow> bool" where
  "isolates orgId A m \<longleftrightarrow> (\<forall>w. A w \<longrightarrow> other_tenants orgId (snd (m w)) = other_tenants orgId w)"

lemma isolatesI: "(\<And>w. A w \<Longrightarrow> other_tenants orgId (snd (m w)) = other_tenants orgId w) \<Longrightarrow> isolates orgId A m"
  by (simp add: isolates_def)

lemma isolates_reads: "reads m \<Longrightarrow> isolates orgId A m"
  unfolding isolates_def reads_def by (metis other_tenants_steps)

lemma isolates_bind:
  assumes "isolates orgId A m" "\<And>w x w'. A w \<Longrightarrow> m w = (Inr x, w') \<Longrightarrow> B x w'" "\<And>x. isolates orgId (B x) (k x)"
  shows "isolates orgId A (bind m k)"
proof (rule isolatesI)
  fix w assume w: "A w"
  then have m: "other_tenants orgId (snd (m w)) = other_tenants orgId w" using assms(1) by (simp add: isolates_def)
  show "other_tenants orgId (snd (bind m k w)) = other_tenants orgId w"
  proof (cases "m w")
    case (Pair r w')
    then show ?thesis using m assms(2) [OF w, of _ w'] assms(3) by (cases r) (auto simp: bind_def isolates_def)
  qed
qed

definition stable :: "(world \<Rightarrow> bool) \<Rightarrow> bool" where
  "stable A \<longleftrightarrow> (\<forall>w n. A w \<longrightarrow> A (w\<lparr>steps := n\<rparr>))"

lemma stableD: "stable A \<Longrightarrow> A w \<Longrightarrow> A (w\<lparr>steps := n\<rparr>)" "stable A \<Longrightarrow> A w \<Longrightarrow> A (tick w)"
  by (simp_all add: stable_def tick_def)

lemma isolates_read_then:
  assumes "reads m" "stable A" "\<And>x. isolates orgId A (k x)"
  shows "isolates orgId A (bind m k)"
proof (rule isolates_bind [where B = "\<lambda>_. A"])
  fix w x w' assume "A w" "m w = (Inr x, w')"
  then show "A w'" using assms(1,2) unfolding reads_def stable_def by (metis snd_conv)
qed (use assms isolates_reads in auto)

text \<open>The lookups of the services, which throw when nothing was found.\<close>

lemma isolates_lookup:
  assumes "stable A" "\<And>w n. tab (w\<lparr>steps := n\<rparr>) = tab w"
    "isolates orgId A (k None)" "\<And>x. isolates orgId (\<lambda>w. A w \<and> x \<in> set (tab w) \<and> p x) (k (Some x))"
  shows "isolates orgId A (bind (repo_find_one E tab p) k)"
proof (rule isolates_bind [where B = "\<lambda>r w. A w \<and> (\<forall>x. r = Some x \<longrightarrow> x \<in> set (tab w) \<and> p x)"])
  fix w r w' assume "A w" "repo_find_one E tab p w = (Inr r, w')"
  then show "A w' \<and> (\<forall>x. r = Some x \<longrightarrow> x \<in> set (tab w') \<and> p x)"
    using assms(1,2) by (auto simp: repo_find_one_def repo_def stableD tick_def find_Some_iff split: option.splits)
next
  fix r show "isolates orgId (\<lambda>w. A w \<and> (\<forall>x. r = Some x \<longrightarrow> x \<in> set (tab w) \<and> p x)) (k r)"
    using assms(3,4) by (cases r) (simp_all add: isolates_def)
qed (simp add: isolates_reads reading)

lemma isolates_insert:
  assumes "\<And>w i t. A w \<Longrightarrow> \<forall>x \<in> set (tab w). rid x \<noteq> rid (mk i t) \<and> \<not> clash x (mk i t) \<Longrightarrow>
      other_tenants orgId (upd (tab w @ [mk i t]) w) = other_tenants orgId w"
  shows "isolates orgId A (repo_insert E tab upd rid clash mk)"
  using assms unfolding isolates_def by (auto simp: repo_insert_def repo_def Let_def split: option.split)

lemma isolates_save:
  assumes "\<And>w. A w \<Longrightarrow> other_tenants orgId (upd (save_row rid r (tab w)) w) = other_tenants orgId w"
  shows "isolates orgId A (repo_save E tab upd rid clash r)"
  using assms unfolding isolates_def by (auto simp: repo_save_def repo_def split: option.split)

lemma isolates_repo:
  "(\<And>w. A w \<Longrightarrow> other_tenants orgId (g w) = other_tenants orgId w) \<Longrightarrow> isolates orgId A (repo E (\<lambda>w. (r, g w)))"
  unfolding isolates_def by (auto simp: repo_def split: option.split)

lemma isolates_queue:
  "(\<And>w. A w \<Longrightarrow> other_tenants orgId (push i w) = other_tenants orgId w) \<Longrightarrow> isolates orgId A (queue_add E push i)"
  unfolding isolates_def by (auto simp: queue_add_def split: option.split)

lemma isolates_weaken: "isolates orgId B m \<Longrightarrow> (\<And>w. A w \<Longrightarrow> B w) \<Longrightarrow> isolates orgId A m"
  by (simp add: isolates_def)

lemma isolates_option:
  "isolates orgId A m \<Longrightarrow> (\<And>x. isolates orgId A (f x)) \<Longrightarrow> isolates orgId A (case opt of None \<Rightarrow> m | Some x \<Rightarrow> f x)"
  by (simp split: option.split)

lemma isolates_try_catch:
  assumes "isolates orgId A m" "\<And>e. reads (h e)"
  shows "isolates orgId A (try_catch m h)"
proof (rule isolatesI)
  fix w assume w: "A w"
  have "other_tenants orgId (snd (h e u)) = other_tenants orgId u" for e u
    using isolates_reads [OF assms(2), of orgId "\<lambda>_. True"] by (simp add: isolates_def)
  then show "other_tenants orgId (snd (try_catch m h w)) = other_tenants orgId w"
    using assms(1) w by (auto simp: isolates_def try_catch_def split: prod.splits sum.splits)
qed


subsection \<open>The requests\<close>

lemma sound_steps [simp]: "world_sound (w\<lparr>steps := n\<rparr>) = world_sound w"
  by (simp add: world_sound_def tenancy_ok_def tenancy_def owned_def linked_def)

lemma sound_cooldown [simp]: "world_sound (w\<lparr>cooldown_keys := ck\<rparr>) = world_sound w"
  by (simp add: world_sound_def backend_ok_def refs_ok_def tenancy_ok_def tenancy_def owned_def linked_def)

lemma stable_sound [simp, intro]: "stable world_sound"
  by (simp add: stable_def)

lemma sound_ids:
  assumes "world_sound w"
  shows "distinct (map host_id (hosts w))" "distinct (map svc_id (services w))" "distinct (map snap_id (snapshots w))"
    "distinct (map dom_id (domains w))" "distinct (map rule_id (alert_rules w))" "distinct (map ca_id (cloud_accounts w))"
    "distinct (map ev_id (rollback_events w))"
  using assms by (simp_all add: world_sound_def backend_ok_def tables_ok_def table_ok_def)

lemma sound_owned:
  assumes "world_sound w" "h \<in> set (hosts w)"
  shows "s \<in> set (services w) \<Longrightarrow> svc_hostId s = host_id h \<Longrightarrow> svc_orgId s = host_orgId h"
    and "d \<in> set (domains w) \<Longrightarrow> dom_hostId d = Some (host_id h) \<Longrightarrow> dom_orgId d = host_orgId h"
proof -
  obtain f where f: "tenancy f {} w" using assms(1) by (auto simp: world_sound_def tenancy_ok_def)
  note h = tenancy_rows(1) [OF f assms(2)]
  show "svc_orgId s = host_orgId h" if "s \<in> set (services w)" "svc_hostId s = host_id h"
    using tenancy_rows(2) [OF f that(1)] that(2) h by simp
  show "dom_orgId d = host_orgId h" if "d \<in> set (domains w)" "dom_hostId d = Some (host_id h)"
    using tenancy_rows(3) [OF f that] h by simp
qed

lemma sound_linked:
  assumes "world_sound w" "e \<in> set (rollback_events w)" "n \<in> set (snapshots w)" "snap_id n = ev_fromSnapshotId e \<or> snap_id n = ev_toSnapshotId e"
  shows "snap_serviceId n = ev_serviceId e"
proof -
  obtain f where "tenancy f {} w" using assms(1) by (auto simp: world_sound_def tenancy_ok_def)
  then have "linked (event_links e) w" using assms(2) by (simp add: tenancy_def)
  then obtain m where "m \<in> set (snapshots w)" "snap_id m = snap_id n" "snap_serviceId m = ev_serviceId e"
    using assms(4) by (auto simp: event_links_def linked_insert)
  with key_unique [OF sound_ids(3) [OF assms(1)], of m n] assms(3) show ?thesis by simp
qed

lemma isolates_create_host: "isolates orgId A (create_host E orgId dto)"
  unfolding create_host_def
  by (intro isolates_read_then [where A = "\<lambda>_. True", THEN isolates_weaken] isolates_insert reading TrueI)
     (simp_all add: stable_def other_tenants_def Let_def)

lemma isolates_lookup_or_throw:
  assumes "stable A" "\<And>w n. tab (w\<lparr>steps := n\<rparr>) = tab w" "\<And>x. isolates orgId (\<lambda>w. A w \<and> x \<in> set (tab w) \<and> p x) (k x)"
  shows "isolates orgId A (bind (bind (repo_find_one E tab p) (\<lambda>r. case r of None \<Rightarrow> throw e | Some x \<Rightarrow> ret x)) k)"
  unfolding bind_assoc by (rule isolates_lookup) (simp_all add: assms isolates_reads reading)

lemma isolates_lookup_or_throw_as:
  assumes "stable A" "\<And>w n. tab (w\<lparr>steps := n\<rparr>) = tab w" "\<And>w x. A w \<Longrightarrow> x \<in> set (tab w) \<Longrightarrow> p x \<Longrightarrow> B x w"
    "\<And>x. isolates orgId (B x) (k x)"
  shows "isolates orgId A (bind (bind (repo_find_one E tab p) (\<lambda>r. case r of None \<Rightarrow> throw e | Some x \<Rightarrow> ret x)) k)"
  by (rule isolates_lookup_or_throw [OF assms(1,2)]) (use assms(3,4) in \<open>auto intro: isolates_weaken\<close>)

lemma delete_host_isolated:
  assumes w: "world_sound w" and h: "h \<in> set (hosts w)" "host_orgId h = orgId"
  shows "other_tenants orgId (delete_host (host_id h) w) = other_tenants orgId w"
proof -
  let ?w = "delete_host (host_id h) w" and ?gone = "svc_id ` set (filter (\<lambda>s. svc_hostId s = host_id h) (services w))"
  have hs: "foreign host_orgId orgId (hosts ?w) = foreign host_orgId orgId (hosts w)"
    using foreign_delete [where key = host_orgId, OF sound_ids(1) [OF w] h]
    by (simp add: delete_host_def delete_services_def Let_def)
  have ss: "foreign svc_orgId orgId (services ?w) = foreign svc_orgId orgId (services w)"
    using sound_owned(1) [OF w h(1)] h(2)
    by (auto simp: delete_host_def delete_services_def Let_def intro!: foreign_filter)
  have gone: "i \<notin> ?gone" if "i \<in> svc_id ` set (foreign svc_orgId orgId (services w))" for i
  proof
    assume "i \<in> ?gone"
    then obtain s where s: "s \<in> set (services w)" "svc_id s = i" "svc_orgId s = orgId"
      using sound_owned(1) [OF w h(1)] h(2) by auto
    from own_not_foreign [OF sound_ids(2) [OF w], of s svc_orgId orgId] s that show False by simp
  qed
  have ns: "of_rows snap_serviceId svc_id (foreign svc_orgId orgId (services w)) (snapshots ?w)
      = of_rows snap_serviceId svc_id (foreign svc_orgId orgId (services w)) (snapshots w)"
    using gone by (auto simp: delete_host_def delete_services_def Let_def intro!: of_rows_filter)
  have snap: "ev_fromSnapshotId e \<noteq> snap_id n \<and> ev_toSnapshotId e \<noteq> snap_id n"
    if "e \<in> set (rollback_events w)" "ev_serviceId e \<in> svc_id ` set (foreign svc_orgId orgId (services w))"
      "n \<in> set (snapshots w)" "snap_serviceId n \<in> ?gone" for e n
    using sound_linked [OF w that(1,3)] gone [OF that(2)] that(4) by metis
  have es: "of_rows ev_serviceId svc_id (foreign svc_orgId orgId (services w)) (rollback_events ?w)
      = of_rows ev_serviceId svc_id (foreign svc_orgId orgId (services w)) (rollback_events w)"
    using gone snap by (auto simp: delete_host_def delete_services_def Let_def intro!: of_rows_filter)
  have ds: "foreign dom_orgId orgId (domains ?w) = foreign dom_orgId orgId (domains w)"
  proof -
    have "foreign dom_orgId orgId (map (unlink_host (host_id h)) t) = foreign dom_orgId orgId t" if "set t \<subseteq> set (domains w)" for t
      using that sound_owned(2) [OF w h(1)] h(2) by (induction t) (auto simp: foreign_def unlink_host_def)
    then show ?thesis by (simp add: delete_host_def delete_services_def Let_def)
  qed
  have "other_tenants orgId ?w = other_tenants orgId w"
    unfolding other_tenants_def Let_def hs ss ns es ds by (simp add: delete_host_def delete_services_def Let_def)
  then show ?thesis .
qed


text \<open>Each request: what it looks up is the caller's own, and it writes no row of anyone else.\<close>

lemma isolates_remove_host: "isolates orgId world_sound (remove_host E orgId i)"
  unfolding remove_host_def find_host_or_throw_def
  by (intro isolates_lookup_or_throw isolates_repo stable_sound) (auto intro: delete_host_isolated)

lemma own_job:
  "world_sound w \<Longrightarrow> h \<in> set (hosts w) \<Longrightarrow> host_orgId h = orgId \<Longrightarrow>
     other_tenants orgId (push_host_job (host_id h) w) = other_tenants orgId w"
  "world_sound w \<Longrightarrow> d \<in> set (domains w) \<Longrightarrow> dom_orgId d = orgId \<Longrightarrow>
     other_tenants orgId (push_domain_job (dom_id d) w) = other_tenants orgId w"
  using own_not_foreign [OF sound_ids(1), of w h host_orgId orgId] own_not_foreign [OF sound_ids(4), of w d dom_orgId orgId]
  by (simp_all add: other_tenants_def Let_def push_host_job_def push_domain_job_def of_rows_one)

lemma isolates_host_check: "isolates orgId world_sound (enqueue_host_check E orgId i)"
  unfolding enqueue_host_check_def find_host_or_throw_def andthen_def
  by (intro isolates_lookup_or_throw isolates_queue stable_sound) (auto dest: own_job(1))

lemma isolates_service_check: "isolates orgId world_sound (enqueue_service_check E orgId i)"
  unfolding enqueue_service_check_def find_service_or_throw_def
  by (intro isolates_lookup_or_throw stable_sound) (auto intro: isolates_weaken [OF isolates_host_check])

lemma isolates_remove_domain: "isolates orgId world_sound (remove_domain E orgId i)"
proof -
  have "other_tenants orgId (delete_domain (dom_id d) w) = other_tenants orgId w"
    if w: "world_sound w" and d: "d \<in> set (domains w)" "dom_orgId d = orgId" for d w
  proof -
    have ds: "foreign dom_orgId orgId (domains (delete_domain (dom_id d) w)) = foreign dom_orgId orgId (domains w)"
      using foreign_delete [where key = dom_orgId, OF sound_ids(4) [OF w] d] by (simp add: delete_domain_def)
    have "of_rows cert_domainId dom_id (foreign dom_orgId orgId (domains w)) (ssl_certificates (delete_domain (dom_id d) w))
        = of_rows cert_domainId dom_id (foreign dom_orgId orgId (domains w)) (ssl_certificates w)"
      using own_not_foreign [OF sound_ids(4) [OF w] d(1), of dom_orgId orgId] d(2)
      by (auto simp: delete_domain_def simp del: in_foreign intro!: of_rows_filter)
    with ds show ?thesis by (simp add: other_tenants_def Let_def) (simp add: delete_domain_def)
  qed
  then show ?thesis
    unfolding remove_domain_def find_domain_or_throw_def
    by (intro isolates_lookup_or_throw isolates_repo stable_sound) auto
qed

lemma isolates_domain_check: "isolates orgId world_sound (enqueue_domain_check E orgId i)"
proof -
  have cd: "of_rows fst (domain_check_key \<circ> dom_id) (foreign dom_orgId orgId (domains w)) ((domain_check_key (dom_id d), t) # ks)
      = of_rows fst (domain_check_key \<circ> dom_id) (foreign dom_orgId orgId (domains w)) ks"
    if "world_sound w" "d \<in> set (domains w)" "dom_orgId d = orgId" for w d and t :: time and ks
    using own_not_foreign [OF sound_ids(4), of w d dom_orgId orgId] that
    by (auto simp: of_rows_def domain_check_key_def simp del: in_foreign)
  have "isolates orgId (\<lambda>w. world_sound w \<and> d \<in> set (domains w) \<and> dom_id d = i \<and> dom_orgId d = orgId)
      (bind (try_acquire E (domain_check_key i) n) (\<lambda>acquired. if \<not> acquired then throw e else enqueue_domain_job E i))" for d n e
  proof (rule isolates_bind [where B = "\<lambda>_ w. world_sound w \<and> d \<in> set (domains w) \<and> dom_id d = i \<and> dom_orgId d = orgId"])
    show "isolates orgId (\<lambda>w. world_sound w \<and> d \<in> set (domains w) \<and> dom_id d = i \<and> dom_orgId d = orgId) (try_acquire E (domain_check_key i) n)"
    proof (rule isolatesI)
      fix w assume w: "world_sound w \<and> d \<in> set (domains w) \<and> dom_id d = i \<and> dom_orgId d = orgId"
      then have "other_tenants orgId (w\<lparr>cooldown_keys := (domain_check_key i, t) # cooldown_keys w\<rparr>) = other_tenants orgId w" for t
        using cd [of w d] by (auto simp: other_tenants_def Let_def)
      then show "other_tenants orgId (snd (try_acquire E (domain_check_key i) n w)) = other_tenants orgId w"
        by (simp add: try_acquire_def Let_def split: option.split)
    qed
  next
    fix w x w' assume "world_sound w \<and> d \<in> set (domains w) \<and> dom_id d = i \<and> dom_orgId d = orgId"
      and "try_acquire E (domain_check_key i) n w = (Inr x, w')"
    then show "world_sound w' \<and> d \<in> set (domains w') \<and> dom_id d = i \<and> dom_orgId d = orgId"
      by (auto simp: try_acquire_def Let_def tick_def split: option.splits if_splits)
  next
    fix a show "isolates orgId (\<lambda>w. world_sound w \<and> d \<in> set (domains w) \<and> dom_id d = i \<and> dom_orgId d = orgId)
        (if \<not> a then throw e else enqueue_domain_job E i)"
      by (cases a) (auto simp: enqueue_domain_job_def isolates_reads reading intro!: isolates_queue dest: own_job(2))
  qed
  then show ?thesis
    unfolding enqueue_domain_check_def find_domain_or_throw_def andthen_def
    by (intro isolates_lookup_or_throw stable_sound) simp_all
qed


lemma isolates_create_domain: "isolates orgId world_sound (create_domain E orgId dto)"
proof -
  let ?B = "\<lambda>d w. distinct (map dom_id (domains w)) \<and> d \<in> set (domains w) \<and> dom_orgId d = orgId"
  have job: "isolates orgId (?B d) (bind (enqueue_domain_job E (dom_id d)) (\<lambda>j. ret (d, j)))" for d
  proof (rule isolates_bind [where B = "\<lambda>_ _. True"])
    show "isolates orgId (?B d) (enqueue_domain_job E (dom_id d))"
      unfolding enqueue_domain_job_def
      by (rule isolates_queue)
         (simp add: other_tenants_def Let_def push_domain_job_def of_rows_one own_not_foreign del: in_foreign)
  qed (simp_all add: isolates_reads reading)
  have cert: "isolates orgId (?B d) (insert_certificate E (dom_id d))" for d
    unfolding insert_certificate_def
    by (rule isolates_insert)
       (simp add: other_tenants_def Let_def of_rows_one own_not_foreign del: in_foreign)
  have cert_keeps: "insert_certificate E (dom_id d) w = (Inr c, w') \<Longrightarrow> ?B d w \<Longrightarrow> ?B d w'" for d c w w'
    by (auto simp: insert_certificate_def repo_insert_def repo_def Let_def split: option.splits if_splits)
  have dom: "isolates orgId world_sound (insert_domain E orgId dto)"
    unfolding insert_domain_def by (rule isolates_insert) (simp add: other_tenants_def Let_def)
  have dom_new: "insert_domain E orgId dto w = (Inr d, w') \<Longrightarrow> world_sound w \<Longrightarrow> ?B d w'" for d w w'
    using sound_ids(4) [of w]
    by (auto simp: insert_domain_def repo_insert_def repo_def Let_def split: option.splits if_splits) blast
  have rest: "isolates orgId world_sound (bind (repo_find_one E domains p) (\<lambda>r. case r of Some d \<Rightarrow> throw (e d) | None \<Rightarrow>
      bind (insert_domain E orgId dto) (\<lambda>domain. bind (insert_certificate E (dom_id domain)) (\<lambda>cert.
        bind (enqueue_domain_job E (dom_id domain)) (\<lambda>jobId. ret (domain, jobId))))))" for p e
  proof (rule isolates_lookup)
    have "isolates orgId (?B d) (bind (insert_certificate E (dom_id d)) (\<lambda>cert. bind (enqueue_domain_job E (dom_id d)) (\<lambda>j. ret (d, j))))" for d
      by (rule isolates_bind [OF cert _ job]) (rule cert_keeps)
    then show "isolates orgId world_sound (case None of Some d \<Rightarrow> throw (e d) | None \<Rightarrow> bind (insert_domain E orgId dto) (\<lambda>domain.
        bind (insert_certificate E (dom_id domain)) (\<lambda>cert. bind (enqueue_domain_job E (dom_id domain)) (\<lambda>jobId. ret (domain, jobId)))))"
      unfolding option.case by (intro isolates_bind [OF dom, where B = ?B] dom_new)
  qed (simp_all add: isolates_reads reading)
  show ?thesis
    unfolding create_domain_def find_host_or_throw_def andthen_def
    by (rule isolates_read_then) (auto intro!: reading rest split: option.split)
qed

lemma isolates_enqueue_rollback: "isolates orgId world_sound (enqueue_rollback E orgId sid tid uid)"
proof -
  let ?A = "\<lambda>svc w. distinct (map svc_id (services w)) \<and> svc \<in> set (services w) \<and> svc_orgId svc = orgId"
  let ?B = "\<lambda>e w. ev_id e \<notin> ev_id ` set (of_rows ev_serviceId svc_id (foreign svc_orgId orgId (services w)) (rollback_events w))"
  have not_in: "?A svc w \<Longrightarrow> svc_id svc \<notin> svc_id ` set (foreign svc_orgId orgId (services w))" for svc and w :: world
    using own_not_foreign [of svc_id "services w" svc svc_orgId orgId] by simp
  have ins: "isolates orgId (?A svc) (insert_and_queue E svc c t uid)" for svc c t
    unfolding insert_and_queue_def
  proof (rule isolates_bind [where B = ?B])
    show "isolates orgId (?A svc) (repo_insert E rollback_events (\<lambda>t w. w\<lparr>rollback_events := t\<rparr>) ev_id event_clash (\<lambda>i d.
        \<lparr>ev_id = i, ev_serviceId = svc_id svc, ev_fromSnapshotId = snap_id c, ev_toSnapshotId = snap_id t,
         ev_triggeredById = uid, ev_status = RB_PENDING, ev_logOutput = [], ev_initiatedAt = d, ev_completedAt = None\<rparr>))"
      by (rule isolates_insert) (use not_in in \<open>simp add: other_tenants_def Let_def of_rows_one del: in_foreign\<close>)
  next
    fix e show "isolates orgId (?B e) (andthen (andthen (queue_add E push_rollback_job (ev_id e)) (ret ())) (ret e))"
      unfolding andthen_def bind_assoc
      by (rule isolates_bind [where B = "\<lambda>_ _. True"], rule isolates_queue)
         (simp_all add: other_tenants_def Let_def push_rollback_job_def of_rows_one isolates_reads reading)
  next
    fix w e w'
    assume w: "?A svc w" and run: "repo_insert E rollback_events (\<lambda>t w. w\<lparr>rollback_events := t\<rparr>) ev_id event_clash (\<lambda>i d.
        \<lparr>ev_id = i, ev_serviceId = svc_id svc, ev_fromSnapshotId = snap_id c, ev_toSnapshotId = snap_id t,
         ev_triggeredById = uid, ev_status = RB_PENDING, ev_logOutput = [], ev_initiatedAt = d, ev_completedAt = None\<rparr>) w = (Inr e, w')"
    from run have e: "ev_serviceId e = svc_id svc" "ev_id e \<notin> ev_id ` set (rollback_events w)" "services w' = services w"
        "rollback_events w' = rollback_events w @ [e]"
      by (auto simp: repo_insert_def repo_def Let_def split: option.splits if_splits)
    then show "?B e w'"
      using not_in [OF w] by (simp add: of_rows_one del: in_foreign) (auto simp: of_rows_def)
  qed
  show ?thesis
    unfolding enqueue_rollback_def find_service_or_throw_def
    by (rule isolates_lookup_or_throw_as [where B = ?A], simp, simp, simp add: sound_ids,
        intro isolates_read_then isolates_option isolates_try_catch ins)
       (auto simp: stable_def find_one_for_service_or_throw_def find_current_for_service_def intro!: isolates_reads reading)
qed


lemma isolates_create_rule: "isolates orgId A (create_rule E orgId dto)"
  unfolding create_rule_def encrypt_config_def
  by (intro isolates_read_then [where A = "\<lambda>_. True", THEN isolates_weaken] isolates_insert reading TrueI)
     (simp_all add: stable_def other_tenants_def Let_def)

lemma isolates_update_rule: "isolates orgId world_sound (update_rule E orgId i dto)"
  unfolding update_rule_def find_rule_or_throw_def Let_def encrypt_config_def save_rule_def
  by (intro isolates_lookup_or_throw isolates_read_then isolates_save)
     (auto simp: stable_def other_tenants_def Let_def foreign_save_row [OF sound_ids(5)] intro!: reading)

lemma isolates_remove_rule: "isolates orgId world_sound (remove_rule E orgId i)"
proof -
  have "other_tenants orgId (w\<lparr>alert_rules := filter (\<lambda>x. rule_id x \<noteq> rule_id r) (alert_rules w),
      alert_logs := filter (\<lambda>l. alog_alertRuleId l \<noteq> rule_id r) (alert_logs w)\<rparr>) = other_tenants orgId w"
    if w: "world_sound w" and r: "r \<in> set (alert_rules w)" "rule_orgId r = orgId" for r w
  proof -
    have rs: "foreign rule_orgId orgId (filter (\<lambda>x. rule_id x \<noteq> rule_id r) (alert_rules w)) = foreign rule_orgId orgId (alert_rules w)"
      using foreign_delete [OF sound_ids(5) [OF w] r(1)] r(2) .
    have "of_rows alog_alertRuleId rule_id (foreign rule_orgId orgId (alert_rules w)) (filter (\<lambda>l. alog_alertRuleId l \<noteq> rule_id r) (alert_logs w))
        = of_rows alog_alertRuleId rule_id (foreign rule_orgId orgId (alert_rules w)) (alert_logs w)"
      using own_not_foreign [OF sound_ids(5) [OF w] r(1), of rule_orgId orgId] r(2) by (auto simp del: in_foreign intro!: of_rows_filter)
    with rs show ?thesis by (simp add: other_tenants_def Let_def)
  qed
  then show ?thesis
    unfolding remove_rule_def find_rule_or_throw_def
    by (intro isolates_lookup_or_throw isolates_repo stable_sound) auto
qed

lemma isolates_cloud: "isolates orgId world_sound (cloud_connect E orgId adto)" "isolates orgId world_sound (cloud_disconnect E orgId i)"
proof -
  show "isolates orgId world_sound (cloud_connect E orgId adto)"
    unfolding cloud_connect_def
  proof (rule isolates_lookup)
    show "isolates orgId world_sound (bind (encrypt E (cc_apiKey adto)) (\<lambda>c. bind (now E) (\<lambda>t. bind (case None of
         Some a \<Rightarrow> save_cloud_account E (a\<lparr>ca_label := cc_label adto, ca_apiKeyEncrypted := c, ca_connectedAt := t\<rparr>)
       | None \<Rightarrow> repo_insert E cloud_accounts (\<lambda>t w. w\<lparr>cloud_accounts := t\<rparr>) ca_id cloud_account_clash
           (\<lambda>i d. \<lparr>ca_id = i, ca_orgId = orgId, ca_provider = cc_provider adto, ca_label = cc_label adto,
              ca_apiKeyEncrypted = c, ca_connectedAt = t, ca_createdAt = d\<rparr>)) (\<lambda>account.
       ret (to_cloud_account_response (cc_provider adto) (Some account))))))"
      unfolding option.case
      by (intro isolates_read_then stable_sound reading isolates_bind [where B = "\<lambda>_ _. True"] isolates_insert isolates_reads)
         (simp_all add: other_tenants_def Let_def)
  next
    fix a
    show "isolates orgId (\<lambda>w. world_sound w \<and> a \<in> set (cloud_accounts w) \<and> ca_orgId a = orgId \<and> ca_provider a = cc_provider adto)
      (bind (encrypt E (cc_apiKey adto)) (\<lambda>c. bind (now E) (\<lambda>t. bind (case Some a of
         Some a \<Rightarrow> save_cloud_account E (a\<lparr>ca_label := cc_label adto, ca_apiKeyEncrypted := c, ca_connectedAt := t\<rparr>)
       | None \<Rightarrow> repo_insert E cloud_accounts (\<lambda>t w. w\<lparr>cloud_accounts := t\<rparr>) ca_id cloud_account_clash
           (\<lambda>i d. \<lparr>ca_id = i, ca_orgId = orgId, ca_provider = cc_provider adto, ca_label = cc_label adto,
              ca_apiKeyEncrypted = c, ca_connectedAt = t, ca_createdAt = d\<rparr>)) (\<lambda>account.
       ret (to_cloud_account_response (cc_provider adto) (Some account))))))"
      unfolding option.case save_cloud_account_def
      by (intro isolates_read_then reading isolates_bind [where B = "\<lambda>_ _. True"] isolates_save isolates_reads)
         (auto simp: stable_def other_tenants_def Let_def foreign_save_row [OF sound_ids(6)])
  qed simp_all
  show "isolates orgId world_sound (cloud_disconnect E orgId i)"
    unfolding cloud_disconnect_def
    by (intro isolates_lookup stable_sound)
       (auto simp: other_tenants_def Let_def foreign_delete [OF sound_ids(6)] intro!: isolates_reads reading isolates_repo)
qed

end
