(* ===== verification/Api.thy ===== *)
theory Api
  imports Isolation
begin

section \<open>The API of an organization\<close>

text \<open>
  Every route behind \<open>JwtAuthGuard\<close> and \<open>RolesGuard\<close>, with the handler its controller runs. Each
  of these controllers requires the role \<open>admin\<close> and passes on the organization of the caller's
  token, never one from the request.
\<close>

datatype api_call =
    ListHosts | CreateHost create_host_dto | GetHost uuid | GetSetupInstructions uuid | RemoveHost uuid | CheckHost uuid
  | ListHostServices uuid | GetService uuid | CheckService uuid | ListSnapshots uuid | RollBack uuid uuid
  | ListRollbacks | GetRollback uuid
  | ListDomains | CreateDomain create_domain_dto | GetDomain uuid | RemoveDomain uuid | CheckDomain uuid
  | ListRules | CreateRule create_rule_dto | GetRule uuid | UpdateRule uuid update_rule_dto | RemoveRule uuid
  | ListAlertLogs list_logs_query
  | ListClouds | ConnectCloud connect_cloud_account_dto | DisconnectCloud uuid
  | GetInsights | GetOverview

datatype api_response =
    NoContent | JobQueued string | RollbackQueued uuid
  | HostList "host_response list" | HostCreated create_host_response | HostDetail host_detail_response
  | SetupInstructions setup_instructions_response
  | ServiceList "service_response list" | ServiceDetail service_detail_response | SnapshotList "snapshot_response list"
  | RollbackList "rollback_event_response list" | RollbackDetail rollback_event_response
  | DomainList "domain_response list" | DomainCreated domain_response | DomainDetail domain_detail_response
  | RuleList "alert_rule_response list" | RuleDetail alert_rule_response | LogList "alert_log_response list"
  | CloudList "cloud_account_response list" | CloudDetail cloud_account_response
  | Insights insights_response | Overview overview_response

text \<open>The controllers' handlers that only pass the organization on.\<close>

definition hosts_remove :: "env \<Rightarrow> uuid \<Rightarrow> uuid \<Rightarrow> unit action" where
  "hosts_remove E orgId i = remove_host E orgId i"

definition domains_remove :: "env \<Rightarrow> uuid \<Rightarrow> uuid \<Rightarrow> unit action" where
  "domains_remove E orgId i = remove_domain E orgId i"

definition rules_remove :: "env \<Rightarrow> uuid \<Rightarrow> uuid \<Rightarrow> unit action" where
  "rules_remove E orgId i = remove_rule E orgId i"

definition clouds_find_all :: "env \<Rightarrow> uuid \<Rightarrow> cloud_account_response list action" where
  "clouds_find_all E orgId = cloud_find_all E orgId"

definition clouds_connect :: "env \<Rightarrow> uuid \<Rightarrow> connect_cloud_account_dto \<Rightarrow> cloud_account_response action" where
  "clouds_connect E orgId dto = cloud_connect E orgId dto"

definition clouds_disconnect :: "env \<Rightarrow> uuid \<Rightarrow> uuid \<Rightarrow> unit action" where
  "clouds_disconnect E orgId i = cloud_disconnect E orgId i"

lemmas passed_on [simp] = hosts_remove_def domains_remove_def rules_remove_def clouds_find_all_def clouds_connect_def clouds_disconnect_def

definition responds :: "('a \<Rightarrow> api_response) \<Rightarrow> 'a action \<Rightarrow> api_response action" where
  "responds f m = bind m (\<lambda>x. ret (f x))"

definition create_rule_dto_valid :: "create_rule_dto \<Rightarrow> bool" where
  "create_rule_dto_valid dto \<longleftrightarrow> 1 \<le> char_count (cr_name dto) \<and> cr_condition dto \<in> set ALERT_CONDITIONS
     \<and> (\<exists>kvs. cr_channel_config dto = JObj kvs)
     \<and> (case cr_cooldown_minutes dto of None \<Rightarrow> True | Some n \<Rightarrow> 1 \<le> n)"

text \<open>\<open>PartialType\<close>: the same conditions on the fields that are there; \<open>IsOptional\<close> lets \<open>null\<close> pass.\<close>

definition update_rule_dto_valid :: "update_rule_dto \<Rightarrow> bool" where
  "update_rule_dto_valid dto \<longleftrightarrow> (case ur_name dto of None \<Rightarrow> True | Some n \<Rightarrow> 1 \<le> char_count n)
     \<and> (case ur_condition dto of None \<Rightarrow> True | Some c \<Rightarrow> c \<in> set ALERT_CONDITIONS)
     \<and> (case ur_channel_config dto of None \<Rightarrow> True | Some c \<Rightarrow> c = JNull \<or> (\<exists>kvs. c = JObj kvs))
     \<and> (case ur_cooldown_minutes dto of None \<Rightarrow> True | Some n \<Rightarrow> 1 \<le> n)"

definition list_logs_query_valid :: "env \<Rightarrow> list_logs_query \<Rightarrow> bool" where
  "list_logs_query_valid E q \<longleftrightarrow> (case lq_alert_rule_id q of None \<Rightarrow> True | Some i \<Rightarrow> is_uuid E i)"

text \<open>What the validation pipe checks of the body or the query of each route.\<close>

fun call_valid :: "env \<Rightarrow> api_call \<Rightarrow> bool" where
  "call_valid E (CreateHost dto) = create_host_dto_valid E dto"
| "call_valid E (CreateDomain dto) = create_domain_dto_valid E dto"
| "call_valid E (CreateRule dto) = create_rule_dto_valid dto"
| "call_valid E (UpdateRule i dto) = update_rule_dto_valid dto"
| "call_valid E (ConnectCloud dto) = connect_dto_valid dto"
| "call_valid E (RollBack i target) = is_uuid E target"
| "call_valid E (ListAlertLogs q) = list_logs_query_valid E q"
| "call_valid E _ = True"

fun api :: "env \<Rightarrow> uuid \<Rightarrow> uuid \<Rightarrow> api_call \<Rightarrow> api_response action" where
  "api E orgId userId ListHosts = responds HostList (hosts_find_all E orgId)"
| "api E orgId userId (CreateHost dto) = responds HostCreated (hosts_create E orgId dto)"
| "api E orgId userId (GetHost i) = responds HostDetail (hosts_find_one E orgId i)"
| "api E orgId userId (GetSetupInstructions i) = responds SetupInstructions (hosts_setup_instructions E orgId i)"
| "api E orgId userId (RemoveHost i) = responds (\<lambda>_. NoContent) (hosts_remove E orgId i)"
| "api E orgId userId (CheckHost i) = responds JobQueued (hosts_trigger_check E orgId i)"
| "api E orgId userId (ListHostServices i) = responds ServiceList (host_services_find_all E orgId i)"
| "api E orgId userId (GetService i) = responds ServiceDetail (services_find_one E orgId i)"
| "api E orgId userId (CheckService i) = responds JobQueued (services_trigger_check E orgId i)"
| "api E orgId userId (ListSnapshots i) = responds SnapshotList (service_snapshots_find_history E orgId i)"
| "api E orgId userId (RollBack i target) = responds RollbackQueued (service_rollback E orgId userId i target)"
| "api E orgId userId ListRollbacks = responds RollbackList (rollback_events_find_all E orgId)"
| "api E orgId userId (GetRollback i) = responds RollbackDetail (rollback_events_find_one E orgId i)"
| "api E orgId userId ListDomains = responds DomainList (domains_find_all E orgId)"
| "api E orgId userId (CreateDomain dto) = responds DomainCreated (domains_create E orgId dto)"
| "api E orgId userId (GetDomain i) = responds DomainDetail (domains_find_one E orgId i)"
| "api E orgId userId (RemoveDomain i) = responds (\<lambda>_. NoContent) (domains_remove E orgId i)"
| "api E orgId userId (CheckDomain i) = responds JobQueued (domains_trigger_check E orgId i)"
| "api E orgId userId ListRules = responds RuleList (rules_find_all E orgId)"
| "api E orgId userId (CreateRule dto) = responds RuleDetail (rules_create E orgId dto)"
| "api E orgId userId (GetRule i) = responds RuleDetail (rules_find_one E orgId i)"
| "api E orgId userId (UpdateRule i dto) = responds RuleDetail (rules_update E orgId i dto)"
| "api E orgId userId (RemoveRule i) = responds (\<lambda>_. NoContent) (rules_remove E orgId i)"
| "api E orgId userId (ListAlertLogs q) = responds LogList (logs_find_all E orgId q)"
| "api E orgId userId ListClouds = responds CloudList (clouds_find_all E orgId)"
| "api E orgId userId (ConnectCloud dto) = responds CloudDetail (clouds_connect E orgId dto)"
| "api E orgId userId (DisconnectCloud i) = responds (\<lambda>_. NoContent) (clouds_disconnect E orgId i)"
| "api E orgId userId GetInsights = responds Insights (get_insights E orgId)"
| "api E orgId userId GetOverview = responds Overview (get_overview E orgId)"

text \<open>
  A request: the guards, the validation pipe, the handler. \<open>rejected\<close> is the answer of
  class-validator; \<open>unscoped\<close> stands for what TypeORM makes of a condition without a value, which
  only a token that the server did not sign could cause.
\<close>

record outside =
  rejected :: "api_call \<Rightarrow> js_error"
  unscoped :: "authenticated_user \<Rightarrow> api_call \<Rightarrow> api_response action"

definition serve :: "env \<Rightarrow> outside \<Rightarrow> string option \<Rightarrow> api_call \<Rightarrow> api_response action" where
  "serve E X token call = guarded E (Some [ADMIN]) token (\<lambda>user.
     if \<not> call_valid E call then throw (rejected X call)
     else case (au_orgId user, au_id user) of
       (Some (JStr orgId), Some (JStr userId)) \<Rightarrow> api E orgId userId call
     | _ \<Rightarrow> unscoped X user call)"

lemma snd_responds [simp]: "snd (responds f m w) = snd (m w)"
  by (auto simp: responds_def prog_simps split: prod.split sum.split)

lemma reads_responds: "reads m \<Longrightarrow> reads (responds f m)"
  unfolding responds_def by (intro reading)

lemma isolates_responds: "isolates orgId A m \<Longrightarrow> isolates orgId A (responds f m)"
  by (simp add: isolates_def)

subsection \<open>The requests that only read\<close>

lemmas readers = hosts_find_all_def find_all_hosts_def hosts_find_one_def host_recent_logs_def find_recent_def
  hosts_setup_instructions_def host_services_find_all_def find_all_services_for_host_def services_find_one_def
  service_recent_logs_def service_snapshots_find_history_def find_history_for_service_def rollback_events_find_all_def
  list_events_for_org_def rollback_events_find_one_def find_event_or_throw_def domains_find_all_def find_all_domains_def
  domains_find_one_def get_certificate_or_throw_def domain_recent_logs_def rules_find_all_def find_all_rules_def
  rules_find_one_def logs_find_all_def find_logs_for_org_def cloud_find_all_def finders

lemmas counters = get_insights_def get_overview_def get_insights_for_org_def compute_idle_hosts_def compute_orphaned_domains_def
  compute_orphaned_hosts_def host_overview_def domain_overview_def service_overview_def

fun read_call :: "api_call \<Rightarrow> bool" where
  "read_call ListHosts = True" | "read_call (GetHost i) = True" | "read_call (GetSetupInstructions i) = True"
| "read_call (ListHostServices i) = True" | "read_call (GetService i) = True" | "read_call (ListSnapshots i) = True"
| "read_call ListRollbacks = True" | "read_call (GetRollback i) = True" | "read_call ListDomains = True"
| "read_call (GetDomain i) = True" | "read_call ListRules = True" | "read_call (GetRule i) = True"
| "read_call (ListAlertLogs q) = True" | "read_call ListClouds = True" | "read_call GetInsights = True"
| "read_call GetOverview = True" | "read_call _ = False"

lemma reads_read_call: "read_call call \<Longrightarrow> reads (api E orgId userId call)"
  by (cases call; simp only: read_call.simps simp_thms api.simps passed_on readers counters Let_def; (intro reads_responds reading)?)


subsection \<open>Isolation of the handlers\<close>

lemma isolates_api: "isolates orgId world_sound (api E orgId userId call)"
proof (cases "read_call call")
  case False
  have create: "isolates orgId world_sound (domains_create E orgId dto)" for dto
    unfolding domains_create_def
    by (rule isolates_bind [OF isolates_create_domain, where B = "\<lambda>_ _. True"])
       (auto intro!: isolates_reads reading simp: get_certificate_or_throw_def split: prod.split)
  note bind_ret = isolates_bind [where B = "\<lambda>_ _. True", OF _ TrueI isolates_reads [OF reads_simple(1)]]
  show ?thesis
    using False
    by (cases call)
       (simp_all add: isolates_responds create isolates_remove_host isolates_remove_domain isolates_remove_rule isolates_cloud
         hosts_create_def hosts_trigger_check_def services_trigger_check_def domains_trigger_check_def service_rollback_def
         rules_create_def rules_update_def bind_ret isolates_create_host isolates_host_check isolates_service_check
         isolates_domain_check isolates_enqueue_rollback isolates_create_rule isolates_update_rule)
qed (simp add: isolates_reads reads_read_call)

text \<open>A validated request is a step of the server, so what it reaches is sound again.\<close>

lemma api_step:
  assumes "call_valid E call"
  shows "backend_step E w (snd (api E orgId userId call w))"
proof (cases "read_call call")
  case True
  then obtain n where "snd (api E orgId userId call w) = w\<lparr>steps := n\<rparr>" "steps w \<le> n"
    using reads_read_call [of call E orgId userId] by (auto simp: reads_def)
  then show ?thesis by (simp add: backend_step.reading)
next
  case False
  have r: "snd (rules_create E orgId cdto w) = snd (create_rule E orgId cdto w)"
      "snd (rules_update E orgId i udto w) = snd (update_rule E orgId i udto w)" for cdto i udto
    by (auto simp: rules_create_def rules_update_def prog_simps split: prod.split sum.split)
  show ?thesis
    using False assms by (cases call) (simp_all add: r backend_step.intros)
qed

end
