(* ===== verification/Logs.thy ===== *)
theory Logs
  imports Backend
begin

section \<open>The health check log holds objects\<close>

text \<open>
  Every entry of \<open>health_check_logs\<close> is written by a host check, a service sync, a domain check or
  a rollback, each of which records an object. The pages rely on it: they list the keys of an
  entry's \<open>raw_output\<close>.
\<close>

definition logs_ok :: "world \<Rightarrow> bool" where
  "logs_ok w \<longleftrightarrow> (\<forall>l \<in> set (hc_logs w). \<exists>kvs. hlog_rawOutput l = JObj kvs)"

lemma logs_ok_create_snapshot: "preserves logs_ok (create_snapshot E input)"
proof (rule preservesI)
  fix w assume "logs_ok w"
  then show "logs_ok (snd (create_snapshot E input w))"
    by (cases rule: create_snapshot_cases [of E input w]) (simp_all add: logs_ok_def)
qed

interpretation recorded: host_writes logs_ok
  by unfold_locales
     (auto intro!: preserves_repo_save preserves_repo_insert logs_ok_create_snapshot
       simp: logs_ok_def save_rule_def save_cloud_account_def save_service_def save_event_def save_domain_def save_certificate_def save_host_def
         push_host_job_def push_domain_job_def push_rollback_job_def delete_host_def delete_services_def delete_domain_def Let_def)

lemma logs_ok_jobs:
  "preserves logs_ok (process_health_check E hj)" "preserves logs_ok (process_domain_check E dj)"
  "preserves logs_ok (process_rollback E i)" "preserves logs_ok (process_insights E)" "preserves logs_ok (seed E)"
  by (cases hj; simp add: recorded.kept_by_check_host recorded.kept_by_checks_requested)
     (rule recorded.kept_by_domain_jobs recorded.kept_by_process_rollback recorded.kept_by_insights recorded.kept_by_setting_requests)+

lemma logs_ok_controllers:
  "preserves logs_ok (auth_register E rdto)" "preserves logs_ok (hosts_create E org hdto)"
  "preserves logs_ok (hosts_trigger_check E org i)" "preserves logs_ok (services_trigger_check E org i)"
  "preserves logs_ok (domains_trigger_check E org i)" "preserves logs_ok (service_rollback E org sid tid uid)"
  "preserves logs_ok (domains_create E org ddto)"
  unfolding controllers get_certificate_or_throw_def
  by (intro preserves_bind recorded.kept_by_setting_requests recorded.kept_by_checks_requested recorded.kept_by_row_requests
        recorded.kept_by_create_host; (assumption | auto intro!: pres recorded.kept_by_effects split: prod.split option.split))+

lemma logs_ok_step: "backend_step E w w' \<Longrightarrow> logs_ok w \<Longrightarrow> logs_ok w'"
  by (erule backend_stepE)
     (simp_all add: logs_ok_jobs [THEN preservesD] logs_ok_controllers [THEN preservesD] recorded.kept_by_row_requests [THEN preservesD]
       recorded.kept_by_setting_requests [THEN preservesD] recorded.kept_steps)

interpretation recorded_system: step_invariant "\<lambda>w. w = empty_world" "backend_step E" logs_ok for E
  by unfold_locales (simp add: logs_ok_def, rule logs_ok_step)

end
