(* ===== verification/Page_Types.thy ===== *)
theory Page_Types
  imports Json
begin

section \<open>The types of the pages\<close>

text \<open>
  \<open>frontend/src/lib/types.ts\<close> declares the JSON the pages work with: it ``mirrors the backend's
  response DTOs field-for-field''. A declared type is a value of \<open>ts_type\<close>; \<open>inhabits\<close> decides
  whether a JSON value has it, an object having the declared fields and no others.
\<close>

subsection \<open>TypeScript types\<close>

datatype ts_type =
    TString | TNumber | TBoolean | TNull | TUnknown
  | TLiteral string | TUnion "ts_type list" | TArray ts_type
  | TRecord ts_type \<comment> \<open>\<open>Record<string, T>\<close>\<close>
  | TInterface "(string \<times> bool \<times> ts_type) list" \<comment> \<open>each field, whether it is optional, its type\<close>

fun inhabits :: "ts_type \<Rightarrow> json \<Rightarrow> bool" where
  "inhabits TString v = (case v of JStr s \<Rightarrow> True | _ \<Rightarrow> False)"
| "inhabits TNumber v = (case v of JNum l \<Rightarrow> True | _ \<Rightarrow> False)"
| "inhabits TBoolean v = (case v of JBool b \<Rightarrow> True | _ \<Rightarrow> False)"
| "inhabits TNull v = (v = JNull)"
| "inhabits TUnknown v = True"
| "inhabits (TLiteral s) v = (v = JStr s)"
| "inhabits (TUnion ts) v = list_ex (\<lambda>t. inhabits t v) ts"
| "inhabits (TArray t) v = (case v of JArr vs \<Rightarrow> list_all (inhabits t) vs | _ \<Rightarrow> False)"
| "inhabits (TRecord t) v = (case v of JObj kvs \<Rightarrow> list_all (\<lambda>kv. inhabits t (snd kv)) kvs | _ \<Rightarrow> False)"
| "inhabits (TInterface fs) v = (case v of
     JObj kvs \<Rightarrow> list_all (\<lambda>kv. fst kv \<in> fst ` set fs) kvs
       \<and> list_all (\<lambda>(k, optional, t). case map_of kvs k of Some x \<Rightarrow> inhabits t x | None \<Rightarrow> optional) fs
   | _ \<Rightarrow> False)"

definition nullable :: "ts_type \<Rightarrow> ts_type" where
  "nullable t = TUnion [t, TNull]"

definition literals :: "string list \<Rightarrow> ts_type" where
  "literals ss = TUnion (map TLiteral ss)"

definition field :: "string \<Rightarrow> ts_type \<Rightarrow> string \<times> bool \<times> ts_type" where
  "field k t = (k, False, t)"

definition optional_field :: "string \<Rightarrow> ts_type \<Rightarrow> string \<times> bool \<times> ts_type" where
  "optional_field k t = (k, True, t)"

subsection \<open>\<open>types.ts\<close>\<close>

definition ts_HostStatus :: ts_type where
  "ts_HostStatus = literals [''unknown'', ''healthy'', ''degraded'', ''unreachable'', ''pending_setup'']"

definition ts_HostProvider :: ts_type where
  "ts_HostProvider = literals [''azure'', ''vmware'', ''ovh'', ''aws'', ''digitalocean'', ''bare_metal'', ''other'']"

definition ts_DomainDnsStatus :: ts_type where
  "ts_DomainDnsStatus = literals [''unknown'', ''resolving'', ''not_resolving'']"

definition ts_SslCertificateStatus :: ts_type where
  "ts_SslCertificateStatus = literals [''unknown'', ''valid'', ''expiring_soon'', ''expired'', ''invalid'']"

definition ts_ServiceStatus :: ts_type where
  "ts_ServiceStatus = literals [''unknown'', ''running'', ''unhealthy'', ''stopped'', ''crash_loop'']"

definition ts_RollbackEventStatus :: ts_type where
  "ts_RollbackEventStatus = literals [''pending'', ''in_progress'', ''succeeded'', ''failed'']"

definition ts_HealthCheckLog :: ts_type where
  "ts_HealthCheckLog = TInterface [field ''id'' TString, field ''status'' TString,
     field ''raw_output'' (TRecord TUnknown), field ''checked_at'' TString]"

definition Host_fields :: "(string \<times> bool \<times> ts_type) list" where
  "Host_fields = [field ''id'' TString, field ''name'' TString, field ''provider'' ts_HostProvider,
     field ''ip_address'' TString, field ''ssh_port'' TNumber, field ''ssh_user'' TString,
     field ''ssh_public_key'' TString, field ''status'' ts_HostStatus, field ''last_checked_at'' (nullable TString),
     field ''setup_verified_at'' (nullable TString), field ''created_at'' TString]"

definition ts_Host :: ts_type where "ts_Host = TInterface Host_fields"

definition ts_HostDetail :: ts_type where
  "ts_HostDetail = TInterface (Host_fields @ [field ''recent_logs'' (TArray ts_HealthCheckLog)])"

definition ts_CreateHostRequest :: ts_type where
  "ts_CreateHostRequest = TInterface [field ''name'' TString, field ''provider'' ts_HostProvider,
     field ''ip_address'' TString, field ''ssh_port'' TNumber, field ''ssh_user'' TString]"

definition ts_CreateHostResponse :: ts_type where
  "ts_CreateHostResponse = TInterface (Host_fields @ [field ''bootstrap_command'' TString])"

definition ts_SetupInstructions :: ts_type where
  "ts_SetupInstructions = TInterface [field ''ssh_public_key'' TString, field ''bootstrap_command'' TString]"

definition ts_Domain :: ts_type where
  "ts_Domain = TInterface [field ''id'' TString, field ''hostname'' TString, field ''host_id'' (nullable TString),
     field ''registrar'' (nullable TString), field ''domain_expires_at'' (nullable TString),
     field ''dns_status'' ts_DomainDnsStatus, field ''resolved_ip'' (nullable TString),
     field ''ssl_status'' ts_SslCertificateStatus, field ''last_checked_at'' (nullable TString), field ''created_at'' TString]"

definition ts_SslCertificate :: ts_type where
  "ts_SslCertificate = TInterface [field ''status'' ts_SslCertificateStatus, field ''issuer'' (nullable TString),
     field ''valid_from'' (nullable TString), field ''valid_to'' (nullable TString), field ''last_checked_at'' (nullable TString)]"

definition ts_DomainDetail :: ts_type where
  "ts_DomainDetail = TInterface [field ''id'' TString, field ''hostname'' TString, field ''host_id'' (nullable TString),
     field ''registrar'' (nullable TString), field ''domain_expires_at'' (nullable TString),
     field ''dns_status'' ts_DomainDnsStatus, field ''resolved_ip'' (nullable TString),
     field ''last_checked_at'' (nullable TString), field ''created_at'' TString,
     field ''ssl_certificate'' ts_SslCertificate, field ''recent_logs'' (TArray ts_HealthCheckLog)]"

definition Service_fields :: "(string \<times> bool \<times> ts_type) list" where
  "Service_fields = [field ''id'' TString, field ''host_id'' TString, field ''container_id'' TString,
     field ''container_name'' TString, field ''image'' TString, field ''current_tag'' (nullable TString),
     field ''status'' ts_ServiceStatus, field ''port_mappings'' (nullable (TRecord TUnknown)),
     field ''last_checked_at'' TString, field ''created_at'' TString]"

definition ts_Service :: ts_type where "ts_Service = TInterface Service_fields"

definition ts_ServiceDetail :: ts_type where
  "ts_ServiceDetail = TInterface (Service_fields @ [field ''recent_logs'' (TArray ts_HealthCheckLog)])"

definition ts_DeploymentSnapshot :: ts_type where
  "ts_DeploymentSnapshot = TInterface [field ''id'' TString, field ''image_tag'' TString, field ''deployed_at'' TString,
     field ''deployed_by'' (nullable TString), field ''is_current'' TBoolean, field ''created_at'' TString]"

definition ts_RollbackLogEntry :: ts_type where
  "ts_RollbackLogEntry = TInterface [field ''timestamp'' TString, field ''step'' TString,
     optional_field ''command'' TString, optional_field ''exit_code'' (nullable TNumber),
     optional_field ''stdout'' TString, optional_field ''stderr'' TString, optional_field ''message'' TString]"

definition ts_RollbackEvent :: ts_type where
  "ts_RollbackEvent = TInterface [field ''id'' TString, field ''service_id'' TString,
     field ''from_snapshot_id'' TString, field ''to_snapshot_id'' TString, field ''triggered_by'' TString,
     field ''status'' ts_RollbackEventStatus, field ''log_output'' (TArray ts_RollbackLogEntry),
     field ''initiated_at'' TString, field ''completed_at'' (nullable TString)]"

definition ts_Overview :: ts_type where
  "ts_Overview = TInterface (map (\<lambda>k. field k TNumber)
     [''total_hosts'', ''healthy'', ''degraded'', ''unreachable'', ''unknown'', ''pending_setup'', ''domains_total'',
      ''ssl_valid'', ''ssl_expiring_soon'', ''ssl_expired'', ''ssl_invalid'', ''domains_not_resolving'',
      ''services_total'', ''running'', ''unhealthy'', ''stopped'', ''crash_loop'', ''services_unknown'',
      ''idle_hosts_count'', ''orphaned_domains_count'', ''orphaned_hosts_count''])"

definition ts_IdleHost :: ts_type where
  "ts_IdleHost = TInterface [field ''id'' TString, field ''name'' TString, field ''ip_address'' TString,
     field ''last_checked_at'' (nullable TString), field ''created_at'' TString]"

definition ts_OrphanedDomain :: ts_type where
  "ts_OrphanedDomain = TInterface [field ''id'' TString, field ''hostname'' TString,
     field ''host_id'' (nullable TString), field ''resolved_ip'' (nullable TString)]"

definition ts_OrphanedHost :: ts_type where
  "ts_OrphanedHost = TInterface [field ''id'' TString, field ''name'' TString, field ''ip_address'' TString]"

definition ts_Insights :: ts_type where
  "ts_Insights = TInterface [field ''idle_hosts'' (TArray ts_IdleHost),
     field ''orphaned_domains'' (TArray ts_OrphanedDomain), field ''orphaned_hosts'' (TArray ts_OrphanedHost)]"

definition ts_CloudProvider :: ts_type where
  "ts_CloudProvider = literals [''vercel'', ''render'', ''aws'', ''azure'', ''gcp'', ''ovh'', ''cloudflare'']"

definition ts_CloudAccount :: ts_type where
  "ts_CloudAccount = TInterface [field ''id'' (nullable TString), field ''provider'' ts_CloudProvider,
     field ''provider_label'' TString, field ''connected'' TBoolean, field ''label'' (nullable TString),
     field ''connected_at'' (nullable TString), field ''monthly_cost_usd'' (nullable TNumber)]"

definition ts_ConnectCloudAccountRequest :: ts_type where
  "ts_ConnectCloudAccountRequest = TInterface [field ''provider'' ts_CloudProvider, field ''label'' TString,
     field ''apiKey'' TString]"

definition ts_CheckTriggeredResponse :: ts_type where
  "ts_CheckTriggeredResponse = TInterface [field ''job_id'' TString]"

definition ts_RollbackTriggeredResponse :: ts_type where
  "ts_RollbackTriggeredResponse = TInterface [field ''rollback_event_id'' TString]"

definition ts_AlertEntityType :: ts_type where
  "ts_AlertEntityType = literals [''host'', ''domain'', ''ssl_certificate'', ''service'', ''rollback_event'', ''system'']"

definition ts_AlertChannel :: ts_type where "ts_AlertChannel = literals [''slack'', ''email'']"

definition ts_AlertRule :: ts_type where
  "ts_AlertRule = TInterface [field ''id'' TString, field ''name'' TString, field ''entity_type'' ts_AlertEntityType,
     field ''condition'' TString, field ''channel'' ts_AlertChannel, field ''cooldown_minutes'' TNumber,
     field ''enabled'' TBoolean, field ''created_at'' TString]"

definition ts_CreateAlertRuleRequest :: ts_type where
  "ts_CreateAlertRuleRequest = TInterface [field ''name'' TString, field ''entity_type'' ts_AlertEntityType,
     field ''condition'' TString, field ''channel'' ts_AlertChannel, field ''channel_config'' (TRecord TUnknown),
     optional_field ''cooldown_minutes'' TNumber]"

definition ts_AuthenticatedUser :: ts_type where
  "ts_AuthenticatedUser = TInterface [field ''id'' TString, field ''orgId'' TString, field ''orgName'' TString,
     field ''email'' TString, field ''role'' TString]"

definition ts_TokenPair :: ts_type where
  "ts_TokenPair = TInterface [field ''access_token'' TString, field ''refresh_token'' TString]"

end
