(* ===== verification/Wire.thy ===== *)
theory Wire
  imports Api Logs Page_Types
begin

section \<open>What the pages receive\<close>

text \<open>
  The JSON of each answer of the API, and that it has the type \<open>types.ts\<close> declares for it and
  reaches the page unchanged.
\<close>

subsection \<open>The JSON of the answers\<close>

text \<open>
  What \<open>JSON.stringify\<close> reads off the objects the mappers return. \<open>toISO\<close> is \<open>Date.toISOString\<close>; an
  invalid date has no ISO text and becomes \<open>null\<close>, and a property that is \<open>undefined\<close> is left out.
\<close>

fun host_provider_str :: "host_provider \<Rightarrow> string" where
  "host_provider_str AZURE = ''azure''"
| "host_provider_str VMWARE = ''vmware''"
| "host_provider_str OVH = ''ovh''"
| "host_provider_str AWS = ''aws''"
| "host_provider_str DIGITALOCEAN = ''digitalocean''"
| "host_provider_str BARE_METAL = ''bare_metal''"
| "host_provider_str OTHER_PROVIDER = ''other''"

fun cloud_provider_str :: "cloud_provider \<Rightarrow> string" where
  "cloud_provider_str VERCEL = ''vercel''"
| "cloud_provider_str RENDER = ''render''"
| "cloud_provider_str CP_AWS = ''aws''"
| "cloud_provider_str CP_AZURE = ''azure''"
| "cloud_provider_str GCP = ''gcp''"
| "cloud_provider_str CP_OVH = ''ovh''"
| "cloud_provider_str CLOUDFLARE = ''cloudflare''"

fun alert_channel_str :: "alert_channel \<Rightarrow> string" where
  "alert_channel_str SLACK = ''slack''"
| "alert_channel_str EMAIL = ''email''"

fun delivery_status_str :: "delivery_status \<Rightarrow> string" where
  "delivery_status_str SENT = ''sent''"
| "delivery_status_str DELIVERY_FAILED = ''failed''"

definition text_or_null :: "string option \<Rightarrow> json" where
  "text_or_null x = (case x of None \<Rightarrow> JNull | Some s \<Rightarrow> JStr s)"

definition js_date_json :: "(time \<Rightarrow> string) \<Rightarrow> js_date option \<Rightarrow> json" where
  "js_date_json toISO d = (case d of Some (ValidDate t) \<Rightarrow> JStr (toISO t) | _ \<Rightarrow> JNull)"

definition number_json :: "int \<Rightarrow> json" where "number_json n = JNum (show_int n)"

definition array_json :: "('a \<Rightarrow> json) \<Rightarrow> 'a list \<Rightarrow> json" where "array_json f xs = JArr (map f xs)"

definition hc_log_json :: "(time \<Rightarrow> string) \<Rightarrow> hc_log_response \<Rightarrow> json" where
  "hc_log_json toISO l = JObj [(''id'', JStr (hc_log_response.lr_id l)), (''status'', JStr (lr_status l)),
     (''raw_output'', lr_raw_output l), (''checked_at'', JStr (toISO (lr_checked_at l)))]"

definition host_entries :: "(time \<Rightarrow> string) \<Rightarrow> 'a host_response_scheme \<Rightarrow> (string \<times> json) list" where
  "host_entries toISO h = [(''id'', JStr (hr_id h)), (''name'', JStr (hr_name h)),
     (''provider'', JStr (host_provider_str (hr_provider h))), (''ip_address'', JStr (hr_ip_address h)),
     (''ssh_port'', number_json (hr_ssh_port h)), (''ssh_user'', JStr (hr_ssh_user h)),
     (''ssh_public_key'', JStr (hr_ssh_public_key h)), (''status'', JStr (host_status_str (hr_status h))),
     (''last_checked_at'', text_or_null (map_option toISO (hr_last_checked_at h))),
     (''setup_verified_at'', text_or_null (map_option toISO (hr_setup_verified_at h))), (''created_at'', JStr (toISO (hr_created_at h)))]"

definition host_json :: "(time \<Rightarrow> string) \<Rightarrow> host_response \<Rightarrow> json" where
  "host_json toISO h = JObj (host_entries toISO h)"

definition host_detail_json :: "(time \<Rightarrow> string) \<Rightarrow> host_detail_response \<Rightarrow> json" where
  "host_detail_json toISO h = JObj (host_entries toISO h @ [(''recent_logs'', array_json (hc_log_json toISO) (hr_recent_logs h))])"

definition create_host_json :: "(time \<Rightarrow> string) \<Rightarrow> create_host_response \<Rightarrow> json" where
  "create_host_json toISO h = JObj (host_entries toISO h @ [(''bootstrap_command'', JStr (hr_bootstrap_command h))])"

definition setup_instructions_json :: "setup_instructions_response \<Rightarrow> json" where
  "setup_instructions_json s = JObj [(''ssh_public_key'', JStr (si_ssh_public_key s)),
     (''bootstrap_command'', JStr (si_bootstrap_command s))]"

text \<open>The ports of a service are kept as \<open>{ raw: ports }\<close>, or \<open>null\<close> when there are none.\<close>

definition port_mappings_json :: "string option \<Rightarrow> json" where
  "port_mappings_json p = (case p of None \<Rightarrow> JNull | Some ports \<Rightarrow> JObj [(''raw'', JStr ports)])"

definition service_entries :: "(time \<Rightarrow> string) \<Rightarrow> 'a service_response_scheme \<Rightarrow> (string \<times> json) list" where
  "service_entries toISO s = [(''id'', JStr (vr_id s)), (''host_id'', JStr (vr_host_id s)),
     (''container_id'', JStr (vr_container_id s)), (''container_name'', JStr (vr_container_name s)),
     (''image'', JStr (vr_image s)), (''current_tag'', text_or_null (vr_current_tag s)),
     (''status'', JStr (service_status_str (vr_status s))), (''port_mappings'', port_mappings_json (vr_port_mappings s)),
     (''last_checked_at'', JStr (toISO (vr_last_checked_at s))), (''created_at'', JStr (toISO (vr_created_at s)))]"

definition service_json :: "(time \<Rightarrow> string) \<Rightarrow> service_response \<Rightarrow> json" where
  "service_json toISO s = JObj (service_entries toISO s)"

definition service_detail_json :: "(time \<Rightarrow> string) \<Rightarrow> service_detail_response \<Rightarrow> json" where
  "service_detail_json toISO s = JObj (service_entries toISO s @ [(''recent_logs'', array_json (hc_log_json toISO) (vr_recent_logs s))])"

definition snapshot_json :: "(time \<Rightarrow> string) \<Rightarrow> snapshot_response \<Rightarrow> json" where
  "snapshot_json toISO s = JObj [(''id'', JStr (sr_id s)), (''image_tag'', JStr (sr_image_tag s)),
     (''deployed_at'', JStr (toISO (sr_deployed_at s))), (''deployed_by'', text_or_null (sr_deployed_by s)),
     (''is_current'', JBool (sr_is_current s)), (''created_at'', JStr (toISO (sr_created_at s)))]"

definition log_entry_json :: "(time \<Rightarrow> string) \<Rightarrow> rollback_log_entry \<Rightarrow> json" where
  "log_entry_json toISO e = JObj ([(''timestamp'', JStr (toISO (rle_timestamp e))), (''step'', JStr (rle_step e))]
     @ List.map_filter (\<lambda>(k, v). map_option (Pair k) v)
         [(''command'', map_option JStr (rle_command e)), (''exit_code'', map_option exit_code_json (rle_exit_code e)),
          (''stdout'', map_option JStr (rle_stdout e)), (''stderr'', map_option JStr (rle_stderr e)),
          (''message'', map_option JStr (rle_message e))])"

definition rollback_event_json :: "(time \<Rightarrow> string) \<Rightarrow> rollback_event_response \<Rightarrow> json" where
  "rollback_event_json toISO e = JObj [(''id'', JStr (rer_id e)), (''service_id'', JStr (rer_service_id e)),
     (''from_snapshot_id'', JStr (rer_from_snapshot_id e)), (''to_snapshot_id'', JStr (rer_to_snapshot_id e)),
     (''triggered_by'', JStr (rer_triggered_by e)), (''status'', JStr (rollback_status_str (rer_status e))),
     (''log_output'', array_json (log_entry_json toISO) (rer_log_output e)),
     (''initiated_at'', JStr (toISO (rer_initiated_at e))), (''completed_at'', text_or_null (map_option toISO (rer_completed_at e)))]"

definition certificate_json :: "(time \<Rightarrow> string) \<Rightarrow> ssl_certificate_response \<Rightarrow> json" where
  "certificate_json toISO c = JObj [(''status'', JStr (ssl_status_str (sc_status c))), (''issuer'', text_or_null (sc_issuer c)),
     (''valid_from'', js_date_json toISO (sc_valid_from c)), (''valid_to'', js_date_json toISO (sc_valid_to c)),
     (''last_checked_at'', text_or_null (map_option toISO (sc_last_checked_at c)))]"

definition domain_json :: "(time \<Rightarrow> string) \<Rightarrow> domain_response \<Rightarrow> json" where
  "domain_json toISO d = JObj [(''id'', JStr (or_id d)), (''hostname'', JStr (or_hostname d)),
     (''host_id'', text_or_null (or_host_id d)), (''registrar'', text_or_null (or_registrar d)),
     (''domain_expires_at'', text_or_null (map_option toISO (or_domain_expires_at d))),
     (''dns_status'', JStr (dns_status_str (or_dns_status d))), (''resolved_ip'', text_or_null (or_resolved_ip d)),
     (''ssl_status'', JStr (ssl_status_str (or_ssl_status d))),
     (''last_checked_at'', text_or_null (map_option toISO (or_last_checked_at d))), (''created_at'', JStr (toISO (or_created_at d)))]"

definition domain_detail_json :: "(time \<Rightarrow> string) \<Rightarrow> domain_detail_response \<Rightarrow> json" where
  "domain_detail_json toISO d = JObj [(''id'', JStr (od_id d)), (''hostname'', JStr (od_hostname d)),
     (''host_id'', text_or_null (od_host_id d)), (''registrar'', text_or_null (od_registrar d)),
     (''domain_expires_at'', text_or_null (map_option toISO (od_domain_expires_at d))),
     (''dns_status'', JStr (dns_status_str (od_dns_status d))), (''resolved_ip'', text_or_null (od_resolved_ip d)),
     (''last_checked_at'', text_or_null (map_option toISO (od_last_checked_at d))), (''created_at'', JStr (toISO (od_created_at d))),
     (''ssl_certificate'', certificate_json toISO (od_ssl_certificate d)),
     (''recent_logs'', array_json (hc_log_json toISO) (od_recent_logs d))]"

definition alert_rule_json :: "(time \<Rightarrow> string) \<Rightarrow> alert_rule_response \<Rightarrow> json" where
  "alert_rule_json toISO r = JObj [(''id'', JStr (rr_id r)), (''name'', JStr (rr_name r)),
     (''entity_type'', JStr (alert_entity_type_str (rr_entity_type r))), (''condition'', JStr (rr_condition r)),
     (''channel'', JStr (alert_channel_str (rr_channel r))), (''cooldown_minutes'', number_json (rr_cooldown_minutes r)),
     (''enabled'', JBool (rr_enabled r)), (''created_at'', JStr (toISO (rr_created_at r)))]"

definition alert_log_json :: "(time \<Rightarrow> string) \<Rightarrow> alert_log_response \<Rightarrow> json" where
  "alert_log_json toISO l = JObj [(''id'', JStr (alert_log_response.lr_id l)), (''alert_rule_id'', JStr (lr_alert_rule_id l)),
     (''entity_type'', JStr (alert_entity_type_str (lr_entity_type l))), (''entity_id'', JStr (lr_entity_id l)),
     (''message'', JStr (lr_message l)), (''delivery_status'', JStr (delivery_status_str (lr_delivery_status l))),
     (''error'', text_or_null (lr_error l)), (''fired_at'', JStr (toISO (lr_fired_at l)))]"

definition cloud_account_json :: "(time \<Rightarrow> string) \<Rightarrow> cloud_account_response \<Rightarrow> json" where
  "cloud_account_json toISO a = JObj [(''id'', text_or_null (cr_id a)), (''provider'', JStr (cloud_provider_str (cr_provider a))),
     (''provider_label'', JStr (cr_provider_label a)), (''connected'', JBool (cr_connected a)),
     (''label'', text_or_null (cr_label a)), (''connected_at'', text_or_null (map_option toISO (cr_connected_at a))),
     (''monthly_cost_usd'', (case cr_monthly_cost_usd a of None \<Rightarrow> JNull | Some n \<Rightarrow> number_json n))]"

definition idle_host_json :: "(time \<Rightarrow> string) \<Rightarrow> idle_host_dto \<Rightarrow> json" where
  "idle_host_json toISO h = JObj [(''id'', JStr (ih_id h)), (''name'', JStr (ih_name h)), (''ip_address'', JStr (ih_ip_address h)),
     (''last_checked_at'', text_or_null (map_option toISO (ih_last_checked_at h))), (''created_at'', JStr (toISO (ih_created_at h)))]"

definition orphaned_domain_json :: "orphaned_domain_dto \<Rightarrow> json" where
  "orphaned_domain_json d = JObj [(''id'', JStr (qd_id d)), (''hostname'', JStr (qd_hostname d)),
     (''host_id'', text_or_null (qd_host_id d)), (''resolved_ip'', text_or_null (qd_resolved_ip d))]"

definition orphaned_host_json :: "orphaned_host_dto \<Rightarrow> json" where
  "orphaned_host_json h = JObj [(''id'', JStr (qh_id h)), (''name'', JStr (qh_name h)), (''ip_address'', JStr (qh_ip_address h))]"

definition insights_json :: "(time \<Rightarrow> string) \<Rightarrow> insights_response \<Rightarrow> json" where
  "insights_json toISO r = JObj [(''idle_hosts'', array_json (idle_host_json toISO) (ir_idle_hosts r)),
     (''orphaned_domains'', array_json orphaned_domain_json (ir_orphaned_domains r)),
     (''orphaned_hosts'', array_json orphaned_host_json (ir_orphaned_hosts r))]"

definition count_json :: "nat \<Rightarrow> json" where "count_json n = number_json (int n)"

definition overview_json :: "overview_response \<Rightarrow> json" where
  "overview_json v = (let h = ov_hosts v; d = ov_domains v; s = ov_services v in
     JObj ([(''total_hosts'', count_json (oc_total_hosts h)), (''healthy'', count_json (oc_healthy h)),
       (''degraded'', count_json (oc_degraded h)), (''unreachable'', count_json (oc_unreachable h)),
       (''unknown'', count_json (oc_unknown h)), (''pending_setup'', count_json (oc_pending_setup h))]
     @ [(''domains_total'', count_json (dc_domains_total d)), (''ssl_valid'', count_json (dc_ssl_valid d)),
       (''ssl_expiring_soon'', count_json (dc_ssl_expiring_soon d)), (''ssl_expired'', count_json (dc_ssl_expired d)),
       (''ssl_invalid'', count_json (dc_ssl_invalid d)), (''domains_not_resolving'', count_json (dc_domains_not_resolving d))]
     @ [(''services_total'', count_json (so_services_total s)), (''running'', count_json (so_running s)),
       (''unhealthy'', count_json (so_unhealthy s)), (''stopped'', count_json (so_stopped s)),
       (''crash_loop'', count_json (so_crash_loop s)), (''services_unknown'', count_json (so_services_unknown s))]
     @ [(''idle_hosts_count'', count_json (ov_idle_hosts_count v)),
       (''orphaned_domains_count'', count_json (ov_orphaned_domains_count v)),
       (''orphaned_hosts_count'', count_json (ov_orphaned_hosts_count v))]))"

text \<open>A handler without a result is answered with no body.\<close>

fun response_json_of :: "(time \<Rightarrow> string) \<Rightarrow> api_response \<Rightarrow> json option" where
  "response_json_of toISO NoContent = None"
| "response_json_of toISO (JobQueued i) = Some (JObj [(''job_id'', JStr i)])"
| "response_json_of toISO (RollbackQueued i) = Some (JObj [(''rollback_event_id'', JStr i)])"
| "response_json_of toISO (HostList hs) = Some (array_json (host_json toISO) hs)"
| "response_json_of toISO (HostCreated h) = Some (create_host_json toISO h)"
| "response_json_of toISO (HostDetail h) = Some (host_detail_json toISO h)"
| "response_json_of toISO (SetupInstructions s) = Some (setup_instructions_json s)"
| "response_json_of toISO (ServiceList ss) = Some (array_json (service_json toISO) ss)"
| "response_json_of toISO (ServiceDetail s) = Some (service_detail_json toISO s)"
| "response_json_of toISO (SnapshotList ss) = Some (array_json (snapshot_json toISO) ss)"
| "response_json_of toISO (RollbackList es) = Some (array_json (rollback_event_json toISO) es)"
| "response_json_of toISO (RollbackDetail e) = Some (rollback_event_json toISO e)"
| "response_json_of toISO (DomainList ds) = Some (array_json (domain_json toISO) ds)"
| "response_json_of toISO (DomainCreated d) = Some (domain_json toISO d)"
| "response_json_of toISO (DomainDetail d) = Some (domain_detail_json toISO d)"
| "response_json_of toISO (RuleList rs) = Some (array_json (alert_rule_json toISO) rs)"
| "response_json_of toISO (RuleDetail r) = Some (alert_rule_json toISO r)"
| "response_json_of toISO (LogList ls) = Some (array_json (alert_log_json toISO) ls)"
| "response_json_of toISO (CloudList cs) = Some (array_json (cloud_account_json toISO) cs)"
| "response_json_of toISO (CloudDetail c) = Some (cloud_account_json toISO c)"
| "response_json_of toISO (Insights r) = Some (insights_json toISO r)"
| "response_json_of toISO (Overview v) = Some (overview_json v)"

subsection \<open>Every answer has its declared type\<close>

text \<open>The interface of \<open>types.ts\<close> for the answer of each call; it has none for the alert log.\<close>

fun answer_type :: "api_call \<Rightarrow> ts_type option" where
  "answer_type ListHosts = Some (TArray ts_Host)"
| "answer_type (CreateHost dto) = Some ts_CreateHostResponse"
| "answer_type (GetHost i) = Some ts_HostDetail"
| "answer_type (GetSetupInstructions i) = Some ts_SetupInstructions"
| "answer_type (CheckHost i) = Some ts_CheckTriggeredResponse"
| "answer_type (ListHostServices i) = Some (TArray ts_Service)"
| "answer_type (GetService i) = Some ts_ServiceDetail"
| "answer_type (CheckService i) = Some ts_CheckTriggeredResponse"
| "answer_type (ListSnapshots i) = Some (TArray ts_DeploymentSnapshot)"
| "answer_type (RollBack i target) = Some ts_RollbackTriggeredResponse"
| "answer_type ListRollbacks = Some (TArray ts_RollbackEvent)"
| "answer_type (GetRollback i) = Some ts_RollbackEvent"
| "answer_type ListDomains = Some (TArray ts_Domain)"
| "answer_type (CreateDomain dto) = Some ts_Domain"
| "answer_type (GetDomain i) = Some ts_DomainDetail"
| "answer_type (CheckDomain i) = Some ts_CheckTriggeredResponse"
| "answer_type ListRules = Some (TArray ts_AlertRule)"
| "answer_type (CreateRule dto) = Some ts_AlertRule"
| "answer_type (GetRule i) = Some ts_AlertRule"
| "answer_type (UpdateRule i dto) = Some ts_AlertRule"
| "answer_type ListClouds = Some (TArray ts_CloudAccount)"
| "answer_type (ConnectCloud dto) = Some ts_CloudAccount"
| "answer_type GetInsights = Some ts_Insights"
| "answer_type GetOverview = Some ts_Overview"
| "answer_type _ = None"

lemma inhabits_literals [simp]: "inhabits (literals ss) v \<longleftrightarrow> (\<exists>s \<in> set ss. v = JStr s)"
  by (auto simp: literals_def list_ex_iff)

lemma inhabits_nullable: "inhabits (nullable t) v \<longleftrightarrow> v = JNull \<or> inhabits t v"
  by (auto simp: nullable_def)

lemma inhabits_unions [simp]:
  "inhabits ts_HostStatus (JStr (host_status_str hs))" "inhabits ts_HostProvider (JStr (host_provider_str hp))"
  "inhabits ts_DomainDnsStatus (JStr (dns_status_str ds))" "inhabits ts_SslCertificateStatus (JStr (ssl_status_str ss))"
  "inhabits ts_ServiceStatus (JStr (service_status_str vs))" "inhabits ts_RollbackEventStatus (JStr (rollback_status_str rs))"
  "inhabits ts_CloudProvider (JStr (cloud_provider_str cp))" "inhabits ts_AlertEntityType (JStr (alert_entity_type_str ae))"
  "inhabits ts_AlertChannel (JStr (alert_channel_str ac))"
proof -
  show "inhabits ts_HostStatus (JStr (host_status_str hs))" by (cases hs) (simp_all add: ts_HostStatus_def)
  show "inhabits ts_HostProvider (JStr (host_provider_str hp))" by (cases hp) (simp_all add: ts_HostProvider_def)
  show "inhabits ts_DomainDnsStatus (JStr (dns_status_str ds))" by (cases ds) (simp_all add: ts_DomainDnsStatus_def)
  show "inhabits ts_SslCertificateStatus (JStr (ssl_status_str ss))" by (cases ss) (simp_all add: ts_SslCertificateStatus_def)
  show "inhabits ts_ServiceStatus (JStr (service_status_str vs))" by (cases vs) (simp_all add: ts_ServiceStatus_def)
  show "inhabits ts_RollbackEventStatus (JStr (rollback_status_str rs))" by (cases rs) (simp_all add: ts_RollbackEventStatus_def)
  show "inhabits ts_CloudProvider (JStr (cloud_provider_str cp))" by (cases cp) (simp_all add: ts_CloudProvider_def)
  show "inhabits ts_AlertEntityType (JStr (alert_entity_type_str ae))" by (cases ae) (simp_all add: ts_AlertEntityType_def)
  show "inhabits ts_AlertChannel (JStr (alert_channel_str ac))" by (cases ac) (simp_all add: ts_AlertChannel_def)
qed

lemma inhabits_null [simp]: "inhabits (nullable t) JNull"
  by (simp add: nullable_def)

lemma inhabits_values [simp]:
  "(case number_json n of JNum l \<Rightarrow> True | _ \<Rightarrow> False)" "(case count_json k of JNum l \<Rightarrow> True | _ \<Rightarrow> False)"
  "inhabits (nullable TNumber) (number_json n)" "inhabits (nullable TNumber) (exit_code_json c)"
  "inhabits (nullable TString) (text_or_null x)" "inhabits (nullable TString) (js_date_json toISO d)"
  "inhabits (nullable (TRecord TUnknown)) (port_mappings_json p)"
  by (simp_all add: inhabits_nullable text_or_null_def js_date_json_def number_json_def count_json_def port_mappings_json_def
      exit_code_json_def split: option.split js_date.split)

lemmas declared_fields = field_def optional_field_def

lemma host_type [simp]:
  "inhabits ts_Host (host_json toISO h)" "inhabits ts_CreateHostResponse (create_host_json toISO c)"
  "inhabits ts_SetupInstructions (setup_instructions_json i)"
  by (simp_all add: ts_Host_def ts_CreateHostResponse_def ts_SetupInstructions_def Host_fields_def declared_fields
      host_json_def create_host_json_def host_entries_def setup_instructions_json_def)

lemma service_type [simp]:
  "inhabits ts_Service (service_json toISO s)" "inhabits ts_DeploymentSnapshot (snapshot_json toISO p)"
  by (simp_all add: ts_Service_def Service_fields_def ts_DeploymentSnapshot_def declared_fields
      service_json_def service_entries_def snapshot_json_def)

lemma rollback_type [simp]:
  "inhabits ts_RollbackLogEntry (log_entry_json toISO l)" "inhabits ts_RollbackEvent (rollback_event_json toISO e)"
proof -
  show log: "inhabits ts_RollbackLogEntry (log_entry_json toISO l)" for l
    by (cases "rle_command l"; cases "rle_exit_code l"; cases "rle_stdout l"; cases "rle_stderr l"; cases "rle_message l")
       (simp_all add: ts_RollbackLogEntry_def declared_fields log_entry_json_def List.map_filter_simps)
  show "inhabits ts_RollbackEvent (rollback_event_json toISO e)"
    by (simp add: ts_RollbackEvent_def declared_fields rollback_event_json_def array_json_def log list_all_iff)
qed

lemma domain_type [simp]:
  "inhabits ts_Domain (domain_json toISO d)" "inhabits ts_SslCertificate (certificate_json toISO c)"
  by (simp_all add: ts_Domain_def ts_SslCertificate_def declared_fields domain_json_def certificate_json_def)

lemma setting_type [simp]:
  "inhabits ts_AlertRule (alert_rule_json toISO r)" "inhabits ts_CloudAccount (cloud_account_json toISO a)"
  by (simp_all add: ts_AlertRule_def ts_CloudAccount_def declared_fields alert_rule_json_def cloud_account_json_def
      split: option.split)

lemma insight_type [simp]:
  "inhabits ts_IdleHost (idle_host_json toISO h)" "inhabits ts_OrphanedDomain (orphaned_domain_json d)"
  "inhabits ts_OrphanedHost (orphaned_host_json o')" "inhabits ts_Insights (insights_json toISO i)"
proof -
  show one: "inhabits ts_IdleHost (idle_host_json toISO h)" "inhabits ts_OrphanedDomain (orphaned_domain_json d)"
    "inhabits ts_OrphanedHost (orphaned_host_json o')" for h d o'
    by (simp_all add: ts_IdleHost_def ts_OrphanedDomain_def ts_OrphanedHost_def declared_fields
        idle_host_json_def orphaned_domain_json_def orphaned_host_json_def)
  show "inhabits ts_Insights (insights_json toISO i)"
    by (simp add: ts_Insights_def declared_fields insights_json_def array_json_def one list_all_iff)
qed

lemma overview_type [simp]: "inhabits ts_Overview (overview_json v)"
  by (simp add: ts_Overview_def declared_fields overview_json_def Let_def)

lemma queued_type [simp]:
  "inhabits ts_CheckTriggeredResponse (JObj [(''job_id'', JStr i)])"
  "inhabits ts_RollbackTriggeredResponse (JObj [(''rollback_event_id'', JStr i)])"
  by (simp_all add: ts_CheckTriggeredResponse_def ts_RollbackTriggeredResponse_def declared_fields)

text \<open>The detail pages carry log entries, which are objects because of what the jobs record.\<close>

lemma hc_log_type: "hlog_rawOutput l = JObj kvs \<Longrightarrow> inhabits ts_HealthCheckLog (hc_log_json toISO (to_hc_log_response l))"
  by (simp add: ts_HealthCheckLog_def declared_fields hc_log_json_def to_hc_log_response_def list_all_iff)

lemma find_recent_logs: "find_recent E tys i n w = (Inr ls, w') \<Longrightarrow> set ls \<subseteq> set (hc_logs w)"
  by (auto simp: find_recent_def repo_find_def repo_def prog_simps dest!: in_set_takeD split: option.splits if_splits)

lemma finders_logs:
  "find_host_or_throw E org i w = (r1, w') \<Longrightarrow> hc_logs w' = hc_logs w" "find_service_or_throw E org i w = (r2, w') \<Longrightarrow> hc_logs w' = hc_logs w"
  "find_domain_or_throw E org i w = (r3, w') \<Longrightarrow> hc_logs w' = hc_logs w" "get_certificate_or_throw E i w = (r4, w') \<Longrightarrow> hc_logs w' = hc_logs w"
  by (auto simp: finders get_certificate_or_throw_def repo_find_one_def repo_def prog_simps split: prod.splits sum.splits option.splits)

lemma detail_logs:
  "hosts_find_one E org i w = (Inr dh, w') \<Longrightarrow> \<exists>h ls. dh = to_host_detail_response h ls \<and> set ls \<subseteq> set (hc_logs w)"
  "services_find_one E org i w = (Inr ds, w') \<Longrightarrow> \<exists>s ls. ds = to_service_detail_response s ls \<and> set ls \<subseteq> set (hc_logs w)"
  "domains_find_one E org i w = (Inr dm, w') \<Longrightarrow> \<exists>d c ls. dm = to_domain_detail_response d c ls \<and> set ls \<subseteq> set (hc_logs w)"
  by (auto simp: hosts_find_one_def host_recent_logs_def services_find_one_def service_recent_logs_def domains_find_one_def
      domain_recent_logs_def prog_simps split: prod.splits sum.splits dest!: find_recent_logs finders_logs) blast+

lemma detail_type:
  assumes "\<forall>l \<in> set ls. \<exists>kvs. hlog_rawOutput l = JObj kvs"
  shows "inhabits ts_HostDetail (host_detail_json toISO (to_host_detail_response h ls))"
    "inhabits ts_ServiceDetail (service_detail_json toISO (to_service_detail_response s ls))"
    "inhabits ts_DomainDetail (domain_detail_json toISO (to_domain_detail_response d c ls))"
proof -
  have "inhabits ts_HealthCheckLog (hc_log_json toISO (to_hc_log_response l))" if "l \<in> set ls" for l
    using assms that hc_log_type by blast
  then show "inhabits ts_HostDetail (host_detail_json toISO (to_host_detail_response h ls))"
    "inhabits ts_ServiceDetail (service_detail_json toISO (to_service_detail_response s ls))"
    "inhabits ts_DomainDetail (domain_detail_json toISO (to_domain_detail_response d c ls))"
    by (simp_all add: ts_HostDetail_def Host_fields_def declared_fields host_detail_json_def host_entries_def to_host_detail_response_def
        to_host_response_def host_response.defs host_detail_response.defs array_json_def list_all_iff
        ts_ServiceDetail_def Service_fields_def service_detail_json_def service_entries_def to_service_detail_response_def
        to_service_response_def service_response.defs service_detail_response.defs
        ts_DomainDetail_def domain_detail_json_def to_domain_detail_response_def)
qed

lemma responds_Inr: "responds f m w = (Inr r, w') \<longleftrightarrow> (\<exists>x. m w = (Inr x, w') \<and> r = f x)"
  by (auto simp: responds_def prog_simps split: prod.split sum.split)

lemma api_answer_typed:
  assumes "logs_ok w" "api E org uid call w = (Inr r, w')" "answer_type call = Some T"
  shows "\<exists>v. response_json_of toISO r = Some v \<and> inhabits T v"
  using assms
  by (cases call) (auto simp: responds_Inr array_json_def list_all_iff logs_ok_def subset_iff dest!: detail_logs intro!: detail_type)

subsection \<open>The answers survive the wire\<close>

text \<open>
  An answer is sent as text. It arrives as it was if it is a value that JSON can express: the
  numbers are, and the objects have distinct keys. For the recorded outputs this is what the
  column type promises: \<open>jsonb\<close> holds a JSON value and keeps no duplicate keys.
\<close>

definition jsonb_ok :: "world \<Rightarrow> bool" where
  "jsonb_ok w \<longleftrightarrow> (\<forall>l \<in> set (hc_logs w). json_wf (hlog_rawOutput l))"

lemma digit_char_range: "n < 10 \<Longrightarrow> of_char (digit_char n) = 48 + (n :: nat)"
  by (simp add: digit_char_def)

lemma show_nat_digit_list: "list_all is_digit (show_nat n)"
proof (induction n rule: show_nat.induct)
  case (1 n)
  then show ?case
    using digit_char_range [of n] digit_char_range [of "n mod 10"] mod_less_divisor [of 10 n]
    by (subst show_nat.simps) (auto simp: is_digit_def [of "digit_char _"])
qed

lemma show_nat_head: "0 < n \<Longrightarrow> hd (show_nat n) \<noteq> CHR ''0''"
proof (induction n rule: show_nat.induct)
  case (1 n)
  show ?case
  proof (cases "n < 10")
    case True
    then have "(of_char (digit_char n) :: nat) \<noteq> of_char CHR ''0''" using 1(2) digit_char_range [of n] by simp
    then show ?thesis using True by (auto simp: show_nat.simps [of n])
  next
    case False
    then show ?thesis using 1 show_nat_ne [of "n div 10"] by (simp add: show_nat.simps [of n])
  qed
qed

lemma show_nat_zero: "show_nat 0 = ''0''"
  by code_simp

lemma digits_number: "ds \<noteq> [] \<Longrightarrow> list_all is_digit ds \<Longrightarrow> takeWhile is_digit ds = ds \<and> dropWhile is_digit ds = []"
  by (simp add: list_all_iff takeWhile_eq_all_conv dropWhile_eq_Nil_conv)

lemma valid_num_show_nat: "valid_num (show_nat n) \<and> valid_num (CHR ''-'' # show_nat n)"
proof -
  have d: "takeWhile is_digit (show_nat n) = show_nat n" "dropWhile is_digit (show_nat n) = []"
    using digits_number [OF show_nat_ne show_nat_digit_list] by blast+
  have minus: "strip_char ''-'' (show_nat n) = show_nat n"
    using show_nat_digit_list [of n] by (cases "show_nat n") (auto simp: strip_char_def is_digit_def)
  have "hd (show_nat n) = CHR ''0'' \<longrightarrow> length (show_nat n) = 1"
    using show_nat_head [of n] show_nat_zero by (cases "n = 0") auto
  moreover have "valid_frac []" by (simp add: valid_frac_def)
  ultimately show ?thesis
    using minus show_nat_ne [of n] unfolding valid_num_def Let_def
    by (simp only: d minus) (simp add: strip_char_def d)
qed

lemma number_json_wf [simp]: "json_wf (number_json n)" "json_wf (count_json k)"
proof -
  have "list_all num_char (show_nat m)" for m
    using show_nat_digit_list [of m] by (auto simp: list_all_iff num_char_def)
  then have wf: "json_wf (JNum (show_int n))" for n
    using valid_num_show_nat [of "nat n"] valid_num_show_nat [of "nat (- n)"] by (auto simp: show_int_def num_char_def)
  from wf show "json_wf (number_json n)" by (simp only: number_json_def)
  from wf show "json_wf (count_json k)" by (simp only: number_json_def count_json_def)
qed

lemma value_wf [simp]:
  "json_wf (text_or_null x)" "json_wf (js_date_json toISO d)" "json_wf (port_mappings_json p)" "json_wf (exit_code_json c)"
  "json_wf (array_json f xs) \<longleftrightarrow> (\<forall>x \<in> set xs. json_wf (f x))"
  using number_json_wf(1) unfolding number_json_def
  by (simp_all add: text_or_null_def js_date_json_def port_mappings_json_def exit_code_json_def array_json_def
      del: json_wf.simps(1) split: option.split js_date.split)

lemma answer_wf [simp]:
  "json_wf (host_json toISO h)" "json_wf (create_host_json toISO ch)" "json_wf (setup_instructions_json si)"
  "json_wf (service_json toISO s)" "json_wf (snapshot_json toISO sn)" "json_wf (domain_json toISO d)"
  "json_wf (certificate_json toISO c)" "json_wf (alert_rule_json toISO r)" "json_wf (alert_log_json toISO al)"
  "json_wf (cloud_account_json toISO a)" "json_wf (overview_json v)"
  by (simp_all add: host_json_def create_host_json_def host_entries_def setup_instructions_json_def service_json_def service_entries_def
      snapshot_json_def domain_json_def certificate_json_def alert_rule_json_def alert_log_json_def cloud_account_json_def
      overview_json_def Let_def split: option.split)

lemma insights_wf [simp]: "json_wf (insights_json toISO i)"
  by (simp add: insights_json_def idle_host_json_def orphaned_domain_json_def orphaned_host_json_def)

lemma rollback_wf [simp]: "json_wf (rollback_event_json toISO e)"
proof -
  have "json_wf (log_entry_json toISO l)" for l
    by (cases "rle_command l"; cases "rle_exit_code l"; cases "rle_stdout l"; cases "rle_stderr l"; cases "rle_message l")
       (simp_all add: log_entry_json_def List.map_filter_simps)
  then show ?thesis by (simp add: rollback_event_json_def)
qed

lemma hc_log_wf: "json_wf (hc_log_json toISO (to_hc_log_response l)) \<longleftrightarrow> json_wf (hlog_rawOutput l)"
  by (simp add: hc_log_json_def to_hc_log_response_def)

lemma detail_wf [simp]:
  "json_wf (host_detail_json toISO (to_host_detail_response h ls)) \<longleftrightarrow> (\<forall>l \<in> set ls. json_wf (hlog_rawOutput l))"
  "json_wf (service_detail_json toISO (to_service_detail_response s ls)) \<longleftrightarrow> (\<forall>l \<in> set ls. json_wf (hlog_rawOutput l))"
  "json_wf (domain_detail_json toISO (to_domain_detail_response d c ls)) \<longleftrightarrow> (\<forall>l \<in> set ls. json_wf (hlog_rawOutput l))"
  by (auto simp: host_detail_json_def host_entries_def to_host_detail_response_def host_response.defs host_detail_response.defs
      service_detail_json_def service_entries_def to_service_detail_response_def service_response.defs service_detail_response.defs
      domain_detail_json_def to_domain_detail_response_def hc_log_wf)

lemma api_answer_wf:
  assumes "jsonb_ok w" "api E org uid call w = (Inr r, w')" "response_json_of toISO r = Some v"
  shows "json_wf v"
  using assms by (cases call) (auto simp: responds_Inr jsonb_ok_def subset_iff dest!: detail_logs)

end
