(* ===== verification/Client.thy ===== *)
theory Client
  imports Json Effects
begin

section \<open>The browser's API client and session\<close>

text \<open>
  \<open>frontend/src/lib/apiClient.ts\<close> and \<open>frontend/src/context/AuthContext.tsx\<close>: the request
  function with its one silent retry after a 401, the refresh call, and the session the
  provider keeps: the access token in memory, the refresh token in the local storage, the user.

  A value the code takes from an answer is a JSON value, and \<open>None\<close> is \<open>undefined\<close>: the casts of
  the code check nothing. What answers a \<open>fetch\<close> is a parameter, a program on a state of its own
  that the browser only reaches through requests; it rejects when the network does.
\<close>

record http_request =
  rq_method :: string
  rq_path :: string
  rq_headers :: "(string \<times> string) list"
  rq_body :: "string option"

record http_response =
  rs_status :: nat
  rs_statusText :: string
  rs_body :: string

record 'w platform =
  pf_net :: "http_request \<Rightarrow> ('w, http_response) prog"
  pf_syntax_message :: "string \<Rightarrow> string" \<comment> \<open>the engine's message for an unreadable JSON text\<close>

record 'w browser =
  br_configured :: bool
  br_access :: "json option"
  br_storage :: "string \<Rightarrow> string option"
  br_user :: "json option"
  br_initializing :: bool
  br_server :: 'w

type_synonym ('w, 'a) client = "('w browser, 'a) prog"

subsection \<open>Values\<close>

definition null_value :: "json option" where
  "null_value = Some JNull"

definition truthy_value :: "json option \<Rightarrow> bool" where
  "truthy_value v = (case v of None \<Rightarrow> False | Some j \<Rightarrow> truthy j)"

text \<open>\<open>String(v)\<close>. An array prints its items between commas, the empty ones of them as nothing.\<close>

fun js_string :: "json \<Rightarrow> string" where
  "js_string JNull = ''null''"
| "js_string (JBool b) = (if b then ''true'' else ''false'')"
| "js_string (JNum l) = l"
| "js_string (JStr s) = s"
| "js_string (JArr vs) = join_with '','' (map (\<lambda>v. if v = JNull then [] else js_string v) vs)"
| "js_string (JObj _) = ''[object Object]''"

definition js_string_value :: "json option \<Rightarrow> string" where
  "js_string_value v = (case v of None \<Rightarrow> ''undefined'' | Some j \<Rightarrow> js_string j)"

text \<open>\<open>v.k\<close>, where \<open>v\<close> may be \<open>null\<close> or \<open>undefined\<close>.\<close>

definition read_property :: "json option \<Rightarrow> string \<Rightarrow> ('s, json option) prog" where
  "read_property v k = (case v of
       None \<Rightarrow> throw (JsError ''TypeError'' (''Cannot read properties of undefined (reading '' @ [CHR 0x27] @ k @ [CHR 0x27] @ '')'') None)
     | Some JNull \<Rightarrow> throw (JsError ''TypeError'' (''Cannot read properties of null (reading '' @ [CHR 0x27] @ k @ [CHR 0x27] @ '')'') None)
     | Some j \<Rightarrow> ret (json_prop j k))"

subsection \<open>Requests\<close>

text \<open>The one error class of the client, with its status.\<close>

definition ApiError :: "nat \<Rightarrow> string \<Rightarrow> js_error" where
  "ApiError status message = HttpException status message"

definition response_ok :: "http_response \<Rightarrow> bool" where
  "response_ok r \<longleftrightarrow> 200 \<le> rs_status r \<and> rs_status r \<le> 299"

definition fetch :: "'w platform \<Rightarrow> http_request \<Rightarrow> ('w, http_response) client" where
  "fetch W rq b = (case pf_net W rq (br_server b) of (r, s) \<Rightarrow> (r, b\<lparr>br_server := s\<rparr>))"

definition response_json :: "'w platform \<Rightarrow> http_response \<Rightarrow> ('s, json) prog" where
  "response_json W r = (case json_parse (rs_body r) of
       None \<Rightarrow> throw (JsError ''SyntaxError'' (pf_syntax_message W (rs_body r)) None)
     | Some v \<Rightarrow> ret v)"

definition json_content :: "(string \<times> string) list" where
  "json_content = [(''Content-Type'', ''application/json'')]"

definition REFRESH_TOKEN_STORAGE_KEY :: string where
  "REFRESH_TOKEN_STORAGE_KEY = ''icc.refresh_token''"

definition set_access :: "json option \<Rightarrow> 'w browser \<Rightarrow> 'w browser" where
  "set_access tok b = b\<lparr>br_access := tok\<rparr>"

definition end_session :: "'w browser \<Rightarrow> 'w browser" where
  "end_session b = b\<lparr>br_access := null_value, br_storage := (br_storage b)(REFRESH_TOKEN_STORAGE_KEY := None),
     br_user := null_value\<rparr>"

definition modify :: "('s \<Rightarrow> 's) \<Rightarrow> ('s, unit) prog" where
  "modify f s = (Inr (), f s)"

definition stored_refresh_token :: "'w browser \<Rightarrow> string option" where
  "stored_refresh_token b = br_storage b REFRESH_TOKEN_STORAGE_KEY"

definition refresh_request :: "string \<Rightarrow> http_request" where
  "refresh_request refreshToken = \<lparr>rq_method = ''POST'', rq_path = ''/auth/refresh'', rq_headers = json_content,
     rq_body = Some (json_stringify (JObj [(''refresh_token'', JStr refreshToken)]))\<rparr>"

text \<open>
  The call the promise stands for, seen by a caller that finds none in flight; callers that
  do are in \<open>Client_Concurrency\<close>. It never rejects: \<open>null\<close> is every failure.
\<close>

definition refresh_call :: "'w platform \<Rightarrow> string \<Rightarrow> ('w, json option) client" where
  "refresh_call W refreshToken =
     try_catch
       (bind (fetch W (refresh_request refreshToken)) (\<lambda>response.
        if \<not> response_ok response then ret null_value
        else bind (response_json W response) (\<lambda>data.
             bind (read_property (Some data) ''access_token'') (\<lambda>tok.
             andthen (modify (set_access tok)) (ret tok)))))
       (\<lambda>_. ret null_value)"

definition refresh_access_token_client :: "'w platform \<Rightarrow> ('w, json option) client" where
  "refresh_access_token_client W =
     bind (gets br_configured) (\<lambda>configured.
     if \<not> configured then ret null_value
     else bind (gets stored_refresh_token) (\<lambda>stored.
       case stored of
         None \<Rightarrow> ret null_value
       | Some refreshToken \<Rightarrow> if refreshToken = [] then ret null_value else refresh_call W refreshToken))"

record request_options =
  ro_method :: "string option"
  ro_body :: "json option"
  ro_skipAuth :: bool

text \<open>The request a \<open>doFetch\<close> sends, given what the accessors answer.\<close>

definition request_headers :: "request_options \<Rightarrow> json option \<Rightarrow> (string \<times> string) list" where
  "request_headers options accessToken =
     json_content @ (if truthy_value accessToken \<and> \<not> ro_skipAuth options
       then [(''Authorization'', ''Bearer '' @ js_string_value accessToken)] else [])"

definition fetch_request :: "string \<Rightarrow> request_options \<Rightarrow> json option \<Rightarrow> http_request" where
  "fetch_request path options accessToken =
     \<lparr>rq_method = (case ro_method options of None \<Rightarrow> ''GET'' | Some m \<Rightarrow> m), rq_path = path,
      rq_headers = request_headers options accessToken,
      rq_body = map_option json_stringify (ro_body options)\<rparr>"

definition current_access :: "'w browser \<Rightarrow> json option" where
  "current_access b = (if br_configured b then br_access b else None)"

definition do_fetch :: "'w platform \<Rightarrow> string \<Rightarrow> request_options \<Rightarrow> ('w, http_response) client" where
  "do_fetch W path options = bind (gets current_access) (\<lambda>accessToken. fetch W (fetch_request path options accessToken))"

definition on_auth_expired :: "('w, unit) client" where
  "on_auth_expired = bind (gets br_configured) (\<lambda>configured. do_when configured (modify end_session))"

definition error_text :: "http_response \<Rightarrow> string" where
  "error_text response = (case json_parse (rs_body response) of
       Some (JObj body) \<Rightarrow> (case map_of body ''message'' of
            Some m \<Rightarrow> if js_string m \<noteq> [] then js_string m else rs_statusText response
          | None \<Rightarrow> rs_statusText response)
     | _ \<Rightarrow> rs_statusText response)"

text \<open>What \<open>request\<close> makes of the response it is left with.\<close>

definition request_result :: "'w platform \<Rightarrow> http_response \<Rightarrow> ('w, json option) client" where
  "request_result W response =
    (if \<not> response_ok response then throw (ApiError (rs_status response) (error_text response))
     else if rs_status response = 204 then ret None
     else bind (response_json W response) (\<lambda>v. ret (Some v)))"

definition needs_refresh :: "request_options \<Rightarrow> http_response \<Rightarrow> bool" where
  "needs_refresh options response \<longleftrightarrow> rs_status response = 401 \<and> \<not> ro_skipAuth options"

definition after_refresh :: "'w platform \<Rightarrow> string \<Rightarrow> request_options \<Rightarrow> json option \<Rightarrow> ('w, json option) client" where
  "after_refresh W path options newToken =
    (if truthy_value newToken then bind (do_fetch W path options) (request_result W)
     else andthen on_auth_expired (throw (ApiError 401 ''Session expired'')))"

definition after_first :: "'w platform \<Rightarrow> string \<Rightarrow> request_options \<Rightarrow> http_response \<Rightarrow> ('w, json option) client" where
  "after_first W path options first =
    (if needs_refresh options first then bind (refresh_access_token_client W) (after_refresh W path options)
     else request_result W first)"

definition request :: "'w platform \<Rightarrow> string \<Rightarrow> request_options \<Rightarrow> ('w, json option) client" where
  "request W path options = bind (do_fetch W path options) (after_first W path options)"

definition api_get :: "'w platform \<Rightarrow> string \<Rightarrow> ('w, json option) client" where
  "api_get W path = request W path \<lparr>ro_method = Some ''GET'', ro_body = None, ro_skipAuth = False\<rparr>"

definition api_post :: "'w platform \<Rightarrow> string \<Rightarrow> json option \<Rightarrow> bool \<Rightarrow> ('w, json option) client" where
  "api_post W path body skipAuth = request W path \<lparr>ro_method = Some ''POST'', ro_body = body, ro_skipAuth = skipAuth\<rparr>"

definition api_patch :: "'w platform \<Rightarrow> string \<Rightarrow> json option \<Rightarrow> ('w, json option) client" where
  "api_patch W path body = request W path \<lparr>ro_method = Some ''PATCH'', ro_body = body, ro_skipAuth = False\<rparr>"

definition api_delete :: "'w platform \<Rightarrow> string \<Rightarrow> ('w, json option) client" where
  "api_delete W path = request W path \<lparr>ro_method = Some ''DELETE'', ro_body = None, ro_skipAuth = False\<rparr>"

subsection \<open>The session of AuthProvider\<close>

definition configure_api_client :: "('w, unit) client" where
  "configure_api_client = modify (\<lambda>b. b\<lparr>br_configured := True\<rparr>)"

text \<open>A page as it is loaded: the storage and the server are all that is left of the last one.\<close>

definition reload :: "'w browser \<Rightarrow> 'w browser" where
  "reload b = b\<lparr>br_configured := False, br_access := null_value, br_user := null_value, br_initializing := True\<rparr>"

definition set_user :: "json option \<Rightarrow> ('w, unit) client" where
  "set_user u = modify (\<lambda>b. b\<lparr>br_user := u\<rparr>)"

definition forget_refresh_token :: "'w browser \<Rightarrow> 'w browser" where
  "forget_refresh_token b = b\<lparr>br_storage := (br_storage b)(REFRESH_TOKEN_STORAGE_KEY := None)\<rparr>"

definition load_user :: "'w platform \<Rightarrow> json option \<Rightarrow> ('w, unit) client" where
  "load_user W accessToken =
     andthen (modify (set_access accessToken)) (bind (api_get W ''/auth/me'') set_user)"

definition restore_session :: "'w platform \<Rightarrow> ('w, unit) client" where
  "restore_session W =
     bind (gets stored_refresh_token) (\<lambda>stored.
     case stored of
       None \<Rightarrow> modify (\<lambda>b. b\<lparr>br_initializing := False\<rparr>)
     | Some storedRefreshToken \<Rightarrow>
         if storedRefreshToken = [] then modify (\<lambda>b. b\<lparr>br_initializing := False\<rparr>)
         else andthen
           (try_catch
             (bind (api_post W ''/auth/refresh'' (Some (JObj [(''refresh_token'', JStr storedRefreshToken)])) True) (\<lambda>data.
              bind (read_property data ''access_token'') (load_user W)))
             (\<lambda>_. modify forget_refresh_token))
           (modify (\<lambda>b. b\<lparr>br_initializing := False\<rparr>)))"

text \<open>The effects of the provider when it mounts.\<close>

definition mount_provider :: "'w platform \<Rightarrow> ('w, unit) client" where
  "mount_provider W = andthen configure_api_client (restore_session W)"

definition store_refresh_token :: "json option \<Rightarrow> 'w browser \<Rightarrow> 'w browser" where
  "store_refresh_token v b = b\<lparr>br_storage := (br_storage b)(REFRESH_TOKEN_STORAGE_KEY := Some (js_string_value v))\<rparr>"

definition login :: "'w platform \<Rightarrow> string \<Rightarrow> string \<Rightarrow> ('w, unit) client" where
  "login W email password =
     bind (api_post W ''/auth/login'' (Some (JObj [(''email'', JStr email), (''password'', JStr password)])) True) (\<lambda>tokens.
     bind (read_property tokens ''access_token'') (\<lambda>access.
     andthen (modify (set_access access))
    (bind (read_property tokens ''refresh_token'') (\<lambda>refresh.
     andthen (modify (store_refresh_token refresh))
    (bind (api_get W ''/auth/me'') set_user)))))"

definition sign_up :: "'w platform \<Rightarrow> string \<Rightarrow> string \<Rightarrow> string \<Rightarrow> ('w, unit) client" where
  "sign_up W email password organizationName =
     bind (api_post W ''/auth/register'' (Some (JObj [(''email'', JStr email), (''password'', JStr password),
       (''organizationName'', JStr organizationName)])) True) (\<lambda>_.
     login W email password)"

definition logout :: "('w, unit) client" where
  "logout = modify end_session"

definition is_authenticated :: "'w browser \<Rightarrow> bool" where
  "is_authenticated b \<longleftrightarrow> br_user b \<noteq> null_value"

text \<open>What \<open>ProtectedRoute\<close> shows.\<close>

datatype route_view = Loading_Session | Redirect_To string | Children

definition protected_route :: "'w browser \<Rightarrow> route_view" where
  "protected_route b = (if br_initializing b then Loading_Session
     else if \<not> is_authenticated b then Redirect_To ''/login'' else Children)"

subsection \<open>Interface: a server that keeps sessions\<close>

text \<open>
  What the provider relies on of the server it talks to. In a server state \<open>w\<close>: \<open>opens u a w\<close>,
  the access token \<open>a\<close> is one of the user \<open>u\<close> and will be taken; \<open>grants u r w\<close>, the refresh
  token \<open>r\<close> will be exchanged; \<open>knows u e p w\<close>, the credentials are those of \<open>u\<close>; and \<open>stale
  u a r w\<close>, the access token is refused while the refresh token still works.
\<close>

definition answers :: "'w platform \<Rightarrow> http_request \<Rightarrow> json \<Rightarrow> 'w \<Rightarrow> 'w \<Rightarrow> bool" where
  "answers W rq v w w' \<longleftrightarrow> (\<exists>r. pf_net W rq w = (Inr r, w') \<and> rs_status r = 200 \<and> json_parse (rs_body r) = Some v)"

definition me_request :: "string \<Rightarrow> http_request" where
  "me_request a = \<lparr>rq_method = ''GET'', rq_path = ''/auth/me'',
     rq_headers = json_content @ [(''Authorization'', ''Bearer '' @ a)], rq_body = None\<rparr>"

definition login_request :: "string \<Rightarrow> string \<Rightarrow> http_request" where
  "login_request email password = \<lparr>rq_method = ''POST'', rq_path = ''/auth/login'', rq_headers = json_content,
     rq_body = Some (json_stringify (JObj [(''email'', JStr email), (''password'', JStr password)]))\<rparr>"

lemma fetch_requests:
  "a \<noteq> [] \<Longrightarrow> fetch_request ''/auth/me'' \<lparr>ro_method = Some ''GET'', ro_body = None, ro_skipAuth = False\<rparr> (Some (JStr a)) = me_request a"
  "fetch_request ''/auth/refresh'' \<lparr>ro_method = Some ''POST'', ro_body = Some (JObj [(''refresh_token'', JStr r)]), ro_skipAuth = True\<rparr> tok = refresh_request r"
  "fetch_request ''/auth/login'' \<lparr>ro_method = Some ''POST'', ro_body = Some (JObj [(''email'', JStr e), (''password'', JStr p)]), ro_skipAuth = True\<rparr> tok = login_request e p"
  by (simp_all add: fetch_request_def request_headers_def me_request_def refresh_request_def login_request_def
      truthy_value_def js_string_value_def)

text \<open>A request that is answered at once.\<close>

lemma request_answered:
  assumes "fetch_request path options (current_access b) = rq" and "answers W rq v (br_server b) w'"
  shows "request W path options b = (Inr (Some v), b\<lparr>br_server := w'\<rparr>)"
  using assms by (auto simp: answers_def request_def after_first_def do_fetch_def fetch_def needs_refresh_def request_result_def
      response_ok_def response_json_def prog_simps)

locale session_server =
  fixes W :: "'w platform"
    and opens :: "json \<Rightarrow> string \<Rightarrow> 'w \<Rightarrow> bool"
    and grants :: "json \<Rightarrow> string \<Rightarrow> 'w \<Rightarrow> bool"
    and knows :: "json \<Rightarrow> string \<Rightarrow> string \<Rightarrow> 'w \<Rightarrow> bool"
    and stale :: "json \<Rightarrow> string \<Rightarrow> string \<Rightarrow> 'w \<Rightarrow> bool"
  assumes me_law: "opens u a w \<Longrightarrow> a \<noteq> [] \<and> (\<exists>w'. answers W (me_request a) u w w')"
    and refresh_law: "grants u r w \<Longrightarrow> r \<noteq> [] \<and>
        (\<exists>a w'. answers W (refresh_request r) (JObj [(''access_token'', JStr a)]) w w' \<and> opens u a w')"
    and login_law: "knows u e p w \<Longrightarrow>
        \<exists>a r w'. answers W (login_request e p) (JObj [(''access_token'', JStr a), (''refresh_token'', JStr r)]) w w' \<and> opens u a w'"
    and stale_law: "stale u a r w \<Longrightarrow> a \<noteq> [] \<and>
        (\<exists>response w'. pf_net W (me_request a) w = (Inr response, w') \<and> rs_status response = 401 \<and> grants u r w')"
begin

text \<open>The user behind a token that is taken.\<close>

lemma me_answered:
  assumes "br_configured b" "br_access b = Some (JStr a)" "opens u a (br_server b)"
  shows "\<exists>w'. api_get W ''/auth/me'' b = (Inr (Some u), b\<lparr>br_server := w'\<rparr>) \<and> answers W (me_request a) u (br_server b) w'"
proof -
  from me_law [OF assms(3)] obtain w' where "a \<noteq> []" "answers W (me_request a) u (br_server b) w'" by blast
  then show ?thesis
    unfolding api_get_def
    by (intro exI [of _ w'] conjI request_answered) (simp_all add: current_access_def assms fetch_requests)
qed

lemma load_user_answered:
  assumes "br_configured b" "opens u a (br_server b)"
  shows "\<exists>w'. load_user W (Some (JStr a)) b = (Inr (), b\<lparr>br_access := Some (JStr a), br_server := w', br_user := Some u\<rparr>)"
  using me_answered [of "set_access (Some (JStr a)) b" a u] assms
  by (auto simp: load_user_def set_access_def modify_def set_user_def prog_simps)

text \<open>A page loaded with a refresh token that works comes up as its user.\<close>

lemma restores:
  assumes "stored_refresh_token b = Some r" "grants u r (br_server b)"
  shows "\<exists>a w'. mount_provider W (reload b) = (Inr (), b\<lparr>br_configured := True, br_access := Some (JStr a), br_user := Some u,
    br_initializing := False, br_server := w'\<rparr>)"
proof -
  from refresh_law [OF assms(2)] obtain a w1 where r: "r \<noteq> []"
      "answers W (refresh_request r) (JObj [(''access_token'', JStr a)]) (br_server b) w1" "opens u a w1" by blast
  let ?b = "reload b\<lparr>br_configured := True\<rparr>"
  have "api_post W ''/auth/refresh'' (Some (JObj [(''refresh_token'', JStr r)])) True ?b
      = (Inr (Some (JObj [(''access_token'', JStr a)])), ?b\<lparr>br_server := w1\<rparr>)"
    unfolding api_post_def by (rule request_answered [OF fetch_requests(2)]) (simp add: reload_def r(2))
  moreover from load_user_answered [of "?b\<lparr>br_server := w1\<rparr>" u a] r(3)
  obtain w' where "load_user W (Some (JStr a)) (?b\<lparr>br_server := w1\<rparr>)
      = (Inr (), ?b\<lparr>br_server := w1\<rparr>\<lparr>br_access := Some (JStr a), br_server := w', br_user := Some u\<rparr>)" by auto
  ultimately show ?thesis
    using assms(1) r(1)
    by (auto simp: mount_provider_def configure_api_client_def modify_def restore_session_def stored_refresh_token_def
        read_property_def prog_simps reload_def intro!: exI [of _ a] exI [of _ w'])
qed

lemma logs_in:
  assumes "br_configured b" "knows u e p (br_server b)"
  shows "\<exists>a r w1 w'. login W e p b = (Inr (), (store_refresh_token (Some (JStr r)) b)\<lparr>br_access := Some (JStr a),
    br_user := Some u, br_server := w'\<rparr>)
    \<and> answers W (login_request e p) (JObj [(''access_token'', JStr a), (''refresh_token'', JStr r)]) (br_server b) w1
    \<and> answers W (me_request a) u w1 w'"
proof -
  let ?body = "\<lambda>a r. JObj [(''access_token'', JStr a), (''refresh_token'', JStr r)]"
  from login_law [OF assms(2)] obtain a r w1 where l: "answers W (login_request e p) (?body a r) (br_server b) w1" "opens u a w1"
    by blast
  let ?b = "store_refresh_token (Some (JStr r)) (set_access (Some (JStr a)) (b\<lparr>br_server := w1\<rparr>))"
  have post: "api_post W ''/auth/login'' (Some (JObj [(''email'', JStr e), (''password'', JStr p)])) True b
      = (Inr (Some (?body a r)), b\<lparr>br_server := w1\<rparr>)"
    unfolding api_post_def by (rule request_answered [OF fetch_requests(3) l(1)])
  from me_answered [of ?b a u] l(2) assms(1)
  obtain w' where me: "api_get W ''/auth/me'' ?b = (Inr (Some u), ?b\<lparr>br_server := w'\<rparr>)" "answers W (me_request a) u w1 w'"
    by (auto simp: store_refresh_token_def set_access_def)
  have "login W e p b = (Inr (), ?b\<lparr>br_server := w', br_user := Some u\<rparr>)"
    by (simp add: login_def read_property_def modify_def set_user_def prog_simps post me)
  then show ?thesis
    using l(1) me(2) by (intro exI [of _ a] exI [of _ r] exI [of _ w1] exI [of _ w']) (auto simp: store_refresh_token_def set_access_def)
qed

text \<open>
  A request refused for a stale access token is answered all the same: the token is renewed and
  the request repeated, and the caller sees the answer only.
\<close>

lemma renews:
  assumes "br_configured b" "br_access b = Some (JStr a)" "stored_refresh_token b = Some r" "stale u a r (br_server b)"
  shows "\<exists>a' w'. api_get W ''/auth/me'' b = (Inr (Some u), b\<lparr>br_access := Some (JStr a'), br_server := w'\<rparr>)"
proof -
  from stale_law [OF assms(4)] obtain response w1 where s: "a \<noteq> []" "pf_net W (me_request a) (br_server b) = (Inr response, w1)"
      "rs_status response = 401" "grants u r w1" by blast
  from refresh_law [OF s(4)] obtain a' w2 refreshed where r: "r \<noteq> []" "pf_net W (refresh_request r) w1 = (Inr refreshed, w2)"
      "rs_status refreshed = 200" "json_parse (rs_body refreshed) = Some (JObj [(''access_token'', JStr a')])" "opens u a' w2"
    by (auto simp: answers_def)
  from me_law [OF r(5)] obtain w3 again where m: "a' \<noteq> []" "pf_net W (me_request a') w2 = (Inr again, w3)"
      "rs_status again = 200" "json_parse (rs_body again) = Some u"
    by (auto simp: answers_def)
  show ?thesis
    by (intro exI [of _ a'] exI [of _ w3])
       (simp add: api_get_def request_def after_first_def after_refresh_def do_fetch_def current_access_def fetch_def fetch_requests needs_refresh_def
         refresh_access_token_client_def refresh_call_def response_ok_def response_json_def read_property_def set_access_def
         request_result_def truthy_value_def modify_def prog_simps s r m assms assms(3) [unfolded stored_refresh_token_def]
         stored_refresh_token_def)
qed

end

subsection \<open>Sessions end as a whole\<close>

text \<open>
  Whatever the server answers, a request leaves the user and the refresh token as they are,
  unless it ends the session, and then it ends all of it: no access token, no refresh token, no
  user, and the caller gets the error that says so.
\<close>

definition same_session :: "'w browser \<Rightarrow> 'w browser \<Rightarrow> bool" where
  "same_session b b' \<longleftrightarrow> br_user b' = br_user b \<and> br_storage b' = br_storage b \<and> br_configured b' = br_configured b
     \<and> br_initializing b' = br_initializing b"

definition session_over :: "'w browser \<Rightarrow> bool" where
  "session_over b \<longleftrightarrow> br_user b = null_value \<and> stored_refresh_token b = None \<and> br_access b = null_value"

lemma same_session_refl [simp]: "same_session b b"
  by (simp add: same_session_def)

lemma same_session_trans: "same_session a b \<Longrightarrow> same_session b c \<Longrightarrow> same_session a c"
  by (simp add: same_session_def)

lemma fetch_session: "fetch W rq b = (r, b') \<Longrightarrow> same_session b b' \<and> br_access b' = br_access b"
  by (auto simp: fetch_def same_session_def split: prod.splits)

lemma do_fetch_session: "do_fetch W path options b = (r, b') \<Longrightarrow> same_session b b' \<and> br_access b' = br_access b"
  by (auto simp: do_fetch_def prog_simps dest: fetch_session)

lemma request_result_state: "request_result W response b = (r, b') \<Longrightarrow> b' = b"
  by (auto simp: request_result_def response_json_def prog_simps split: if_splits option.splits)

lemma refresh_session:
  assumes "refresh_access_token_client W b = (r, b')"
  shows "same_session b b'"
proof -
  have "same_session c c'" if run: "refresh_call W t c = (r, c')" for t r c c'
  proof -
    obtain answer c1 where f: "fetch W (refresh_request t) c = (answer, c1)" by force
    have "c' = c1 \<or> (\<exists>tok. c' = set_access tok c1)"
    proof (cases answer)
      case (Inr response)
      have "read_property (Some data) k c1 = (x, c2) \<Longrightarrow> c2 = c1" for data k x and c2 :: "'a browser"
        by (cases data) (auto simp: read_property_def prog_simps)
      moreover have "response_json W response c1 = (x, c2) \<Longrightarrow> c2 = c1" for x and c2 :: "'a browser"
        by (auto simp: response_json_def prog_simps split: option.splits)
      ultimately show ?thesis
        using run f Inr
        by (simp add: refresh_call_def modify_def prog_simps split: if_splits prod.splits sum.splits) metis+
    qed (use run f in \<open>simp add: refresh_call_def prog_simps\<close>)
    with fetch_session [OF f] show ?thesis by (auto simp: set_access_def same_session_def)
  qed
  with assms show ?thesis
    by (auto simp: refresh_access_token_client_def prog_simps split: if_splits option.splits)
qed

lemma after_refresh_session:
  assumes "after_refresh W path options tok b = (r, b')"
  shows "same_session b b' \<or> session_over b' \<and> r = Inl (ApiError 401 ''Session expired'')"
  using assms by (auto simp: after_refresh_def on_auth_expired_def modify_def end_session_def session_over_def
      stored_refresh_token_def prog_simps same_session_def dest!: do_fetch_session request_result_state
      split: if_splits prod.splits sum.splits)

text \<open>
  C33. A session ends as a whole. Whatever the server answers to a request and to the refresh
  behind it, the request leaves the user and the stored refresh token as they are, or it ends the
  session: then the access token, the refresh token and the user are all gone, the caller gets the
  error that says so, and the request was one that a refresh could have saved. A request that
  skips the authentication, such as a login, never changes the session nor the access token.
\<close>

theorem request_ends_session_whole:
  assumes "request W path options b = (r, b')"
  shows "same_session b b' \<and> (ro_skipAuth options \<longrightarrow> br_access b' = br_access b)
    \<or> session_over b' \<and> r = Inl (ApiError 401 ''Session expired'') \<and> \<not> ro_skipAuth options"
proof -
  obtain first b1 where f: "do_fetch W path options b = (first, b1)" by force
  note s1 = do_fetch_session [OF this]
  show ?thesis
  proof (cases first)
    case (Inr response)
    show ?thesis
    proof (cases "needs_refresh options response")
      case True
      obtain tok b2 where k: "refresh_access_token_client W b1 = (tok, b2)" by force
      note s2 = same_session_trans [OF conjunct1 [OF s1] refresh_session [OF k]]
      from True have "\<not> ro_skipAuth options" by (simp add: needs_refresh_def)
      moreover have "bind (refresh_access_token_client W) (after_refresh W path options) b1 = (r, b')"
        using assms f Inr True by (simp add: request_def after_first_def prog_simps)
      then have "same_session b2 b' \<or> session_over b' \<and> r = Inl (ApiError 401 ''Session expired'')"
        using k after_refresh_session [of W path options _ b2 r b'] by (auto simp: bind_def split: sum.splits)
      ultimately show ?thesis using same_session_trans [OF s2, of b'] by blast
    next
      case False
      with assms f Inr have "request_result W response b1 = (r, b')" by (simp add: request_def after_first_def prog_simps)
      with s1 show ?thesis by (auto dest: request_result_state)
    qed
  qed (use assms f s1 in \<open>auto simp: request_def prog_simps\<close>)
qed

definition refusing :: "unit platform" where
  "refusing = \<lparr>pf_net = (\<lambda>rq s. (Inr \<lparr>rs_status = 401, rs_statusText = ''Unauthorized'', rs_body = []\<rparr>, s)),
     pf_syntax_message = (\<lambda>_. ''Unexpected end of JSON input'')\<rparr>"

definition signed_in :: "unit browser" where
  "signed_in = \<lparr>br_configured = True, br_access = Some (JStr ''old''), br_storage = [REFRESH_TOKEN_STORAGE_KEY \<mapsto> ''refresh''],
     br_user = Some (JStr ''user''), br_initializing = False, br_server = ()\<rparr>"

theorem request_ends_session_whole_witness:
  "\<exists>b'. request refusing ''/hosts'' \<lparr>ro_method = None, ro_body = None, ro_skipAuth = False\<rparr> signed_in
     = (Inl (ApiError 401 ''Session expired''), b') \<and> session_over b'"
proof -
  let ?o = "\<lparr>ro_method = None, ro_body = None, ro_skipAuth = False\<rparr>"
  obtain r b' where run: "request refusing ''/hosts'' ?o signed_in = (r, b')" by force
  have "br_user b' = null_value"
    using run by (simp add: request_def do_fetch_def fetch_def after_first_def needs_refresh_def refresh_access_token_client_def
        refresh_call_def response_ok_def after_refresh_def truthy_value_def null_value_def on_auth_expired_def modify_def end_session_def
        stored_refresh_token_def refusing_def signed_in_def prog_simps) auto
  then have "\<not> same_session signed_in b'" by (auto simp: same_session_def signed_in_def null_value_def)
  with request_ends_session_whole [OF run] run show ?thesis by blast
qed

text \<open>
  A page that is loaded while the server cannot be reached loses its refresh token, although
  the token may be good: the handler of the restoring call does not look at the error.
\<close>

lemma offline_reload_forgets_session:
  assumes "stored_refresh_token b = Some r" "r \<noteq> []" "pf_net W (refresh_request r) (br_server b) = (Inl e, w)"
  shows "\<exists>b'. mount_provider W (reload b) = (Inr (), b') \<and> stored_refresh_token b' = None
    \<and> protected_route b' = Redirect_To ''/login''"
  using assms by (auto simp: mount_provider_def configure_api_client_def modify_def restore_session_def
      stored_refresh_token_def api_post_def request_def do_fetch_def fetch_requests fetch_def reload_def
      forget_refresh_token_def protected_route_def is_authenticated_def prog_simps)

end
