(* ===== verification/Sessions.thy ===== *)
theory Sessions
  imports Client Accounts
begin

section \<open>Browser and server: sessions from end to end\<close>

text \<open>
  The server the browser's client talks to, as far as sessions go: the routes of
  \<open>src/auth/auth.controller.ts\<close> behind the JSON bodies, the validation pipe and the exception
  filter that \<open>src/main.ts\<close> installs. What Express, passport-jwt and class-validator do by
  themselves is a parameter, as are the other routes.
\<close>

record http_layer =
  hl_bearer :: "string option \<Rightarrow> string option" \<comment> \<open>passport-jwt: the token in an Authorization header\<close>
  hl_refusal :: "http_request \<Rightarrow> json" \<comment> \<open>the messages for a body that is refused\<close>
  hl_iso :: "time \<Rightarrow> string" \<comment> \<open>\<open>toISOString\<close>\<close>
  hl_reason :: "nat \<Rightarrow> string" \<comment> \<open>the reason phrase of a status\<close>
  hl_rest :: "http_request \<Rightarrow> http_response action"

definition json_response :: "http_layer \<Rightarrow> nat \<Rightarrow> json \<Rightarrow> http_response" where
  "json_response H status v = \<lparr>rs_status = status, rs_statusText = hl_reason H status, rs_body = json_stringify v\<rparr>"

definition error_json :: "http_layer \<Rightarrow> error_body \<Rightarrow> json" where
  "error_json H body = JObj [(''statusCode'', JNum (show_nat (eb_statusCode body))), (''timestamp'', JStr (hl_iso H (eb_timestamp body))),
     (''path'', JStr (eb_path body)), (''message'', JStr (eb_message body))]"

text \<open>A handler's answer: its result, or what the exception filter makes of its error.\<close>

definition reject :: "env \<Rightarrow> http_layer \<Rightarrow> http_request \<Rightarrow> js_error \<Rightarrow> http_response action" where
  "reject E H rq e = bind (now E) (\<lambda>t.
     (case catch_exception e t (rq_path rq) of
        (statusCode, body) \<Rightarrow> ret (json_response H statusCode (error_json H body))))"

definition answer_with :: "env \<Rightarrow> http_layer \<Rightarrow> http_request \<Rightarrow> ('a \<Rightarrow> http_response) \<Rightarrow> 'a action \<Rightarrow> http_response action" where
  "answer_with E H rq enc handler =
     bind (attempt handler) (\<lambda>result.
     case result of Inr x \<Rightarrow> ret (enc x) | Inl e \<Rightarrow> reject E H rq e)"

definition respond :: "env \<Rightarrow> http_layer \<Rightarrow> http_request \<Rightarrow> nat \<Rightarrow> ('a \<Rightarrow> json) \<Rightarrow> 'a action \<Rightarrow> http_response action" where
  "respond E H rq status enc = answer_with E H rq (\<lambda>x. json_response H status (enc x))"

lemmas respond_simps = respond_def answer_with_def reject_def

definition refuse_body :: "env \<Rightarrow> http_layer \<Rightarrow> http_request \<Rightarrow> http_response action" where
  "refuse_body E H rq = bind (now E) (\<lambda>t. ret (json_response H 400 (JObj [(''statusCode'', JNum ''400''),
     (''timestamp'', JStr (hl_iso H t)), (''path'', JStr (rq_path rq)), (''message'', hl_refusal H rq)])))"

text \<open>
  A body with exactly the listed text fields: \<open>forbidNonWhitelisted\<close> refuses any other field,
  \<open>IsString\<close> a missing one.
\<close>

definition body_fields :: "string list \<Rightarrow> http_request \<Rightarrow> string list option" where
  "body_fields keys rq = (case (case rq_body rq of None \<Rightarrow> Some (JObj []) | Some s \<Rightarrow> json_parse s) of
       Some (JObj kvs) \<Rightarrow>
         if list_all (\<lambda>kv. fst kv \<in> set keys) kvs
           \<and> list_all (\<lambda>k. case map_of kvs k of Some (JStr s) \<Rightarrow> True | _ \<Rightarrow> False) keys
         then Some (map (\<lambda>k. case map_of kvs k of Some (JStr s) \<Rightarrow> s | _ \<Rightarrow> []) keys) else None
     | _ \<Rightarrow> None)"

definition user_json :: "authenticated_user \<Rightarrow> json" where
  "user_json u = JObj (List.map_filter (\<lambda>(k, v). map_option (Pair k) v)
     [(''id'', au_id u), (''orgId'', au_orgId u), (''orgName'', au_orgName u), (''email'', au_email u), (''role'', au_role u)])"

definition token_pair_json :: "token_pair \<Rightarrow> json" where
  "token_pair_json t = JObj [(''access_token'', JStr (tp_access_token t)), (''refresh_token'', JStr (tp_refresh_token t))]"

definition access_token_json :: "string \<Rightarrow> json" where
  "access_token_json t = JObj [(''access_token'', JStr t)]"

definition bearer_token :: "http_layer \<Rightarrow> http_request \<Rightarrow> string option" where
  "bearer_token H rq = hl_bearer H (map_of (rq_headers rq) ''Authorization'')"

definition post_register :: "env \<Rightarrow> http_layer \<Rightarrow> http_request \<Rightarrow> http_response action" where
  "post_register E H rq = (case body_fields [''email'', ''password'', ''organizationName''] rq of
       Some [email, password, organizationName] \<Rightarrow>
         (let dto = \<lparr>rd_email = email, rd_password = password, rd_organizationName = organizationName\<rparr> in
          if register_dto_valid E dto then respond E H rq 201 user_json (auth_register E dto) else refuse_body E H rq)
     | _ \<Rightarrow> refuse_body E H rq)"

definition post_login :: "env \<Rightarrow> http_layer \<Rightarrow> http_request \<Rightarrow> http_response action" where
  "post_login E H rq = (case body_fields [''email'', ''password''] rq of
       Some [email, password] \<Rightarrow>
         (let dto = \<lparr>ld_email = email, ld_password = password\<rparr> in
          if login_dto_valid E dto then respond E H rq 200 token_pair_json (auth_login E dto) else refuse_body E H rq)
     | _ \<Rightarrow> refuse_body E H rq)"

definition post_refresh :: "env \<Rightarrow> http_layer \<Rightarrow> http_request \<Rightarrow> http_response action" where
  "post_refresh E H rq = (case body_fields [''refresh_token''] rq of
       Some [token] \<Rightarrow> respond E H rq 200 access_token_json (auth_refresh E token)
     | _ \<Rightarrow> refuse_body E H rq)"

definition get_me :: "env \<Rightarrow> http_layer \<Rightarrow> http_request \<Rightarrow> http_response action" where
  "get_me E H rq = respond E H rq 200 user_json (auth_me E (bearer_token H rq))"

definition auth_server :: "env \<Rightarrow> http_layer \<Rightarrow> http_request \<Rightarrow> http_response action" where
  "auth_server E H rq =
    (if rq_method rq = ''POST'' \<and> rq_path rq = ''/auth/register'' then post_register E H rq
     else if rq_method rq = ''POST'' \<and> rq_path rq = ''/auth/login'' then post_login E H rq
     else if rq_method rq = ''POST'' \<and> rq_path rq = ''/auth/refresh'' then post_refresh E H rq
     else if rq_method rq = ''GET'' \<and> rq_path rq = ''/auth/me'' then get_me E H rq
     else hl_rest H rq)"

definition site :: "env \<Rightarrow> http_layer \<Rightarrow> world platform" where
  "site E H = \<lparr>pf_net = auth_server E H, pf_syntax_message = syntax_message E\<rparr>"

subsection \<open>What the server promises\<close>

text \<open>
  Named hypotheses on what is not code of the repository: tokens and hashes as in \<open>Accounts\<close>,
  the header of passport-jwt's documentation, tokens that are one visible word, and a server
  that answers a request and the next within the lifetime of an access token.
\<close>

definition visible_char :: "char \<Rightarrow> bool" where
  "visible_char c \<longleftrightarrow> 33 \<le> (of_char c :: nat) \<and> (of_char c :: nat) \<le> 126"

definition bearer_ok :: "http_layer \<Rightarrow> bool" where
  "bearer_ok H \<longleftrightarrow> (\<forall>t. t \<noteq> [] \<and> list_all visible_char t \<longrightarrow> hl_bearer H (Some (''Bearer '' @ t)) = Some t)"

definition tokens_visible :: "env \<Rightarrow> bool" where
  "tokens_visible E \<longleftrightarrow> (\<forall>k life t p. jwt_sign E k life t p \<noteq> [] \<and> list_all visible_char (jwt_sign E k life t p))"

definition answers_promptly :: "env \<Rightarrow> (string \<Rightarrow> int) \<Rightarrow> bool" where
  "answers_promptly E lifetime \<longleftrightarrow> (\<forall>n k. k \<le> 16 \<longrightarrow> clock E n \<le> clock E (n + k)
     \<and> clock E (n + k) < clock E n + lifetime (ac_accessExpiresIn (app_conf E)))"

definition site_ok :: "env \<Rightarrow> http_layer \<Rightarrow> (string \<Rightarrow> int) \<Rightarrow> bool" where
  "site_ok E H lifetime \<longleftrightarrow> jwt_ok E lifetime \<and> bcrypt_ok E \<and> no_db_fault E
     \<and> ac_refreshSecret (app_conf E) \<noteq> ac_accessSecret (app_conf E)
     \<and> bearer_ok H \<and> tokens_visible E \<and> answers_promptly E lifetime"

text \<open>A user that lookups find, with the name of their organization.\<close>

definition known_user :: "user \<Rightarrow> string \<Rightarrow> world \<Rightarrow> bool" where
  "known_user u orgName w \<longleftrightarrow> List.find (\<lambda>x. user_id x = user_id u) (users w) = Some u
     \<and> (\<exists>o'. List.find (\<lambda>x. org_id x = user_orgId u) (organizations w) = Some o' \<and> org_name o' = orgName)"

definition live_at :: "env \<Rightarrow> int \<Rightarrow> time \<Rightarrow> nat \<Rightarrow> bool" where
  "live_at E life issued n \<longleftrightarrow> issued \<le> clock E n \<and> clock E n < issued + life"

definition opens_session :: "env \<Rightarrow> http_layer \<Rightarrow> (string \<Rightarrow> int) \<Rightarrow> json \<Rightarrow> string \<Rightarrow> world \<Rightarrow> bool" where
  "opens_session E H lifetime v a w \<longleftrightarrow> site_ok E H lifetime \<and>
     (\<exists>u n t. v = user_json (to_authenticated_user u n)
        \<and> a = jwt_sign E (ac_accessSecret (app_conf E)) (ac_accessExpiresIn (app_conf E)) t (access_payload u n)
        \<and> live_at E (lifetime (ac_accessExpiresIn (app_conf E))) t (steps w))"

definition grants_session :: "env \<Rightarrow> http_layer \<Rightarrow> (string \<Rightarrow> int) \<Rightarrow> json \<Rightarrow> string \<Rightarrow> world \<Rightarrow> bool" where
  "grants_session E H lifetime v r w \<longleftrightarrow> site_ok E H lifetime \<and>
     (\<exists>u n t. v = user_json (to_authenticated_user u n) \<and> known_user u n w
        \<and> r = jwt_sign E (ac_refreshSecret (app_conf E)) (ac_refreshExpiresIn (app_conf E)) t (refresh_payload u)
        \<and> live_at E (lifetime (ac_refreshExpiresIn (app_conf E))) t (steps w))"

definition knows_user :: "env \<Rightarrow> http_layer \<Rightarrow> (string \<Rightarrow> int) \<Rightarrow> json \<Rightarrow> string \<Rightarrow> string \<Rightarrow> world \<Rightarrow> bool" where
  "knows_user E H lifetime v email password w \<longleftrightarrow> site_ok E H lifetime
     \<and> login_dto_valid E \<lparr>ld_email = email, ld_password = password\<rparr> \<and>
     (\<exists>u n. v = user_json (to_authenticated_user u n) \<and> known_user u n w
        \<and> List.find (\<lambda>x. user_email x = email) (users w) = Some u \<and> bcrypt_compare E password (user_passwordHash u))"

definition stale_session :: "env \<Rightarrow> http_layer \<Rightarrow> (string \<Rightarrow> int) \<Rightarrow> json \<Rightarrow> string \<Rightarrow> string \<Rightarrow> world \<Rightarrow> bool" where
  "stale_session E H lifetime v a r w \<longleftrightarrow> a \<noteq> [] \<and> list_all visible_char a
     \<and> isl (jwt_verify E (ac_accessSecret (app_conf E)) (clock E (steps w)) a)
     \<and> grants_session E H lifetime v r (w\<lparr>steps := steps w + 2\<rparr>)"

lemma user_json_fields: "user_json (to_authenticated_user u n) = JObj [(''id'', JStr (user_id u)), (''orgId'', JStr (user_orgId u)),
    (''orgName'', JStr n), (''email'', JStr (user_email u)), (''role'', JStr (user_role_str (user_role u)))]"
  by (simp add: user_json_def to_authenticated_user_def List.map_filter_def)

lemma user_json_wf: "json_wf (user_json (to_authenticated_user u n))"
  by (simp add: user_json_fields)

lemma site_okD:
  assumes "site_ok E H lifetime"
  shows "jwt_ok E lifetime" "bcrypt_ok E" "no_db_fault E" "ac_refreshSecret (app_conf E) \<noteq> ac_accessSecret (app_conf E)"
    "jwt_sign E k life t p \<noteq> []" "hl_bearer H (Some (''Bearer '' @ jwt_sign E k life t p)) = Some (jwt_sign E k life t p)"
    "i \<le> 16 \<Longrightarrow> live_at E (lifetime (ac_accessExpiresIn (app_conf E))) (clock E m) (m + i)"
  using assms by (auto simp: site_ok_def tokens_visible_def bearer_ok_def answers_promptly_def live_at_def)

lemma site_clock: "site_ok E H lifetime \<Longrightarrow> k \<le> 16 \<Longrightarrow> clock E n \<le> clock E (n + k)"
  by (simp add: site_ok_def answers_promptly_def)

lemma opens_fresh_token:
  assumes "site_ok E H lifetime" "m + i = steps w" "i \<le> 16"
  shows "opens_session E H lifetime (user_json (to_authenticated_user u n))
    (jwt_sign E (ac_accessSecret (app_conf E)) (ac_accessExpiresIn (app_conf E)) (clock E m) (access_payload u n)) w"
  using assms(1) site_okD(7) [OF assms(1,3), of m] assms(2) unfolding opens_session_def by auto

lemma site_net: "pf_net (site E H) = auth_server E H"
  by (simp add: site_def)

lemma answers_json:
  "auth_server E H rq w = (Inr (json_response H 200 v), w') \<Longrightarrow> json_wf v \<Longrightarrow> answers (site E H) rq v w w'"
  by (simp add: answers_def site_net json_response_def json_roundtrip)

lemma respond_ok: "handler w = (Inr x, w') \<Longrightarrow> respond E H rq status enc handler w = (Inr (json_response H status (enc x)), w')"
  by (simp add: respond_simps attempt_def prog_simps)

lemma me_answer:
  assumes "hl_bearer H (Some (''Bearer '' @ a)) = Some a"
  shows "auth_server E H (me_request a) w = respond E H (me_request a) 200 user_json (auth_me E (Some a)) w"
  using assms by (simp add: auth_server_def get_me_def bearer_token_def me_request_def json_content_def)

lemma opens_me_answer:
  assumes "opens_session E H lifetime v a w"
  shows "a \<noteq> [] \<and> auth_server E H (me_request a) w = (Inr (json_response H 200 v), tick w) \<and> json_wf v"
proof -
  from assms obtain u n t where ok: "site_ok E H lifetime" and a: "v = user_json (to_authenticated_user u n)"
      "a = jwt_sign E (ac_accessSecret (app_conf E)) (ac_accessExpiresIn (app_conf E)) t (access_payload u n)"
      "t \<le> clock E (steps w)" "clock E (steps w) < t + lifetime (ac_accessExpiresIn (app_conf E))"
    by (auto simp: opens_session_def live_at_def)
  have "auth_me E (Some a) w = (Inr (to_authenticated_user u n), tick w)"
    using authenticate_access_token [OF site_okD(1) [OF ok] a(3,4)] by (simp add: auth_me_def guarded_def can_activate_def bind_def ret_def a(2))
  then have "auth_server E H (me_request a) w = (Inr (json_response H 200 v), tick w)"
    using me_answer [of H a E w] site_okD(6) [OF ok] by (simp add: a(1,2) respond_ok)
  then show ?thesis using user_json_wf site_okD(5) [OF ok] by (simp add: a(1,2))
qed

lemma opens_me: "opens_session E H lifetime v a w \<Longrightarrow> a \<noteq> [] \<and> (\<exists>w'. answers (site E H) (me_request a) v w w')"
  using opens_me_answer answers_json by blast

lemma refresh_request_fields: "body_fields [''refresh_token''] (refresh_request r) = Some [r]"
  by (simp add: body_fields_def refresh_request_def json_roundtrip del: json_stringify.simps)

lemma known_user_lookups:
  assumes "no_db_fault E" "known_user u n w"
  shows "find_user_by_id E (Some (JStr (user_id u))) w = (Inr (Some u), tick w)"
    and "get_organization_name E (user_orgId u) w = (Inr n, tick w)"
  using assms by (auto simp: known_user_def find_user_by_id_def get_organization_name_def find_organization_def
      repo_find_one_ok prog_simps)

lemma known_user_tick [simp]: "known_user u n (tick w) = known_user u n w"
  by (simp add: known_user_def)

lemma grants_refresh:
  assumes "grants_session E H lifetime v r w"
  shows "r \<noteq> [] \<and> (\<exists>a w'. answers (site E H) (refresh_request r) (JObj [(''access_token'', JStr a)]) w w'
    \<and> opens_session E H lifetime v a w')"
proof -
  from assms obtain u n t where ok: "site_ok E H lifetime" and r: "v = user_json (to_authenticated_user u n)" "known_user u n w"
      "r = jwt_sign E (ac_refreshSecret (app_conf E)) (ac_refreshExpiresIn (app_conf E)) t (refresh_payload u)"
      "t \<le> clock E (steps w)" "clock E (steps w) < t + lifetime (ac_refreshExpiresIn (app_conf E))"
    by (auto simp: grants_session_def live_at_def)
  note no_fault = site_okD(3) [OF ok]
  obtain extra where "jwt_verify E (ac_refreshSecret (app_conf E)) (clock E (steps w)) r = Inr (JObj ([(''sub'', JStr (user_id u))] @ extra))"
    using jwt_okD(1) [OF site_okD(1) [OF ok] payloads_wf(2) [unfolded refresh_payload_def] r(4,5)] r(3)
    by (auto simp: refresh_payload_def)
  then have fresh: "auth_refresh E r w = (Inr (jwt_sign E (ac_accessSecret (app_conf E)) (ac_accessExpiresIn (app_conf E))
      (clock E (steps w + 3)) (access_payload u n)), tick (tick (tick (tick w))))" (is "_ = (Inr ?a, ?w)")
    using known_user_lookups [OF no_fault] r(2)
    by (simp add: auth_refresh_def refresh_access_token_def now_def sign_access_def prog_simps eval_nat_numeral)
  have "auth_server E H (refresh_request r) w = post_refresh E H (refresh_request r) w"
    by (simp add: auth_server_def refresh_request_def)
  then have "auth_server E H (refresh_request r) w = (Inr (json_response H 200 (access_token_json ?a)), ?w)"
    using fresh by (simp add: post_refresh_def refresh_request_fields respond_ok)
  from answers_json [OF this] have "answers (site E H) (refresh_request r) (JObj [(''access_token'', JStr ?a)]) w ?w"
    by (simp add: access_token_json_def)
  moreover have "opens_session E H lifetime v ?a ?w"
    unfolding r(1) by (rule opens_fresh_token [OF ok, of _ 1]) simp_all
  moreover have "r \<noteq> []" using site_okD(5) [OF ok] by (simp add: r(3))
  ultimately show ?thesis by blast
qed

lemma login_request_fields: "body_fields [''email'', ''password''] (login_request e p) = Some [e, p]"
  by (simp add: body_fields_def login_request_def json_roundtrip del: json_stringify.simps)

lemma login_answer:
  assumes "knows_user E H lifetime v e p w"
  shows "\<exists>u n w'. v = user_json (to_authenticated_user u n) \<and> List.find (\<lambda>x. user_email x = e) (users w) = Some u
    \<and> known_user u n w \<and> w' = tick (tick (tick (tick w)))
    \<and> auth_server E H (login_request e p) w = (Inr (json_response H 200 (token_pair_json
        \<lparr>tp_access_token = jwt_sign E (ac_accessSecret (app_conf E)) (ac_accessExpiresIn (app_conf E)) (clock E (steps w + 2)) (access_payload u n),
         tp_refresh_token = jwt_sign E (ac_refreshSecret (app_conf E)) (ac_refreshExpiresIn (app_conf E)) (clock E (steps w + 3)) (refresh_payload u)\<rparr>)), w')"
proof -
  from assms obtain u n where ok: "site_ok E H lifetime" and u: "login_dto_valid E \<lparr>ld_email = e, ld_password = p\<rparr>"
      "v = user_json (to_authenticated_user u n)" "known_user u n w"
      "List.find (\<lambda>x. user_email x = e) (users w) = Some u" "bcrypt_compare E p (user_passwordHash u)"
    by (auto simp: knows_user_def)
  let ?tokens = "\<lparr>tp_access_token = jwt_sign E (ac_accessSecret (app_conf E)) (ac_accessExpiresIn (app_conf E)) (clock E (steps w + 2)) (access_payload u n),
         tp_refresh_token = jwt_sign E (ac_refreshSecret (app_conf E)) (ac_refreshExpiresIn (app_conf E)) (clock E (steps w + 3)) (refresh_payload u)\<rparr>"
  have "auth_login E \<lparr>ld_email = e, ld_password = p\<rparr> w = (Inr ?tokens, tick (tick (tick (tick w))))"
    using known_user_lookups [OF site_okD(3) [OF ok]] u(3-5)
    by (simp add: auth_login_def validate_credentials_def find_user_by_email_def repo_find_one_ok [OF site_okD(3) [OF ok]]
        issue_token_pair_def sign_access_def sign_refresh_def now_def prog_simps eval_nat_numeral)
  then have "post_login E H (login_request e p) w
      = (Inr (json_response H 200 (token_pair_json ?tokens)), tick (tick (tick (tick w))))"
    by (simp add: post_login_def login_request_fields u(1) respond_ok)
  moreover have "auth_server E H (login_request e p) w = post_login E H (login_request e p) w"
    by (simp add: auth_server_def login_request_def)
  ultimately show ?thesis using u(2-4) by auto
qed

lemma knows_login:
  assumes "knows_user E H lifetime v e p w"
  shows "\<exists>a r w'. answers (site E H) (login_request e p) (JObj [(''access_token'', JStr a), (''refresh_token'', JStr r)]) w w'
    \<and> opens_session E H lifetime v a w'"
proof -
  from login_answer [OF assms] obtain u n where l: "v = user_json (to_authenticated_user u n)"
    "auth_server E H (login_request e p) w = (Inr (json_response H 200 (token_pair_json
        \<lparr>tp_access_token = jwt_sign E (ac_accessSecret (app_conf E)) (ac_accessExpiresIn (app_conf E)) (clock E (steps w + 2)) (access_payload u n),
         tp_refresh_token = jwt_sign E (ac_refreshSecret (app_conf E)) (ac_refreshExpiresIn (app_conf E)) (clock E (steps w + 3)) (refresh_payload u)\<rparr>)),
      tick (tick (tick (tick w))))"
    by blast
  have ok: "site_ok E H lifetime" using assms by (simp add: knows_user_def)
  have "opens_session E H lifetime v (jwt_sign E (ac_accessSecret (app_conf E)) (ac_accessExpiresIn (app_conf E))
      (clock E (steps w + 2)) (access_payload u n)) (tick (tick (tick (tick w))))"
    unfolding l(1) by (rule opens_fresh_token [OF ok, of _ 2]) simp_all
  with answers_json [OF l(2)] show ?thesis by (auto simp: token_pair_json_def)
qed

lemma stale_me:
  assumes "stale_session E H lifetime v a r w"
  shows "a \<noteq> [] \<and> (\<exists>response w'. pf_net (site E H) (me_request a) w = (Inr response, w') \<and> rs_status response = 401
    \<and> grants_session E H lifetime v r w')"
proof -
  have a: "a \<noteq> []" "list_all visible_char a" "isl (jwt_verify E (ac_accessSecret (app_conf E)) (clock E (steps w)) a)"
      "grants_session E H lifetime v r (tick (tick w))"
    using assms by (auto simp: stale_session_def tick_def)
  then have "hl_bearer H (Some (''Bearer '' @ a)) = Some a" by (simp add: grants_session_def site_ok_def bearer_ok_def)
  note me = me_answer [OF this]
  from a(3) have "auth_me E (Some a) w = (Inl (UnauthorizedException ''Unauthorized''), tick w)"
    by (auto simp: auth_me_def guarded_def authenticate_def now_def prog_simps split: sum.splits)
  then have "\<exists>response. auth_server E H (me_request a) w = (Inr response, tick (tick w)) \<and> rs_status response = 401"
    by (simp add: me respond_simps attempt_def now_def catch_exception_def json_response_def prog_simps Let_def)
  with a show ?thesis by (auto simp: site_net)
qed

interpretation sessions: session_server "site E H" "opens_session E H lifetime" "grants_session E H lifetime"
    "knows_user E H lifetime" "stale_session E H lifetime" for E H lifetime
  by unfold_locales (rule opens_me grants_refresh knows_login stale_me, assumption)+

subsection \<open>A session from end to end\<close>

lemma register_request_fields:
  "fetch_request ''/auth/register'' \<lparr>ro_method = Some ''POST'', ro_body = Some (JObj [(''email'', JStr e), (''password'', JStr p),
     (''organizationName'', JStr n)]), ro_skipAuth = True\<rparr> tok = \<lparr>rq_method = ''POST'', rq_path = ''/auth/register'', rq_headers = json_content,
     rq_body = Some (json_stringify (JObj [(''email'', JStr e), (''password'', JStr p), (''organizationName'', JStr n)]))\<rparr>"
  "body_fields [''email'', ''password'', ''organizationName''] \<lparr>rq_method = ''POST'', rq_path = ''/auth/register'', rq_headers = json_content,
     rq_body = Some (json_stringify (JObj [(''email'', JStr e), (''password'', JStr p), (''organizationName'', JStr n)]))\<rparr> = Some [e, p, n]"
  by (simp_all add: fetch_request_def request_headers_def body_fields_def json_roundtrip del: json_stringify.simps)

text \<open>What a registration leaves: the new user, known under the new organization's name.\<close>

definition can_register :: "env \<Rightarrow> register_dto \<Rightarrow> world \<Rightarrow> bool" where
  "can_register E dto w \<longleftrightarrow> register_dto_valid E dto \<and> (\<forall>u \<in> set (users w). user_email u \<noteq> rd_email dto)
     \<and> fresh_uuid E (steps w + 1) \<notin> org_id ` set (organizations w) \<and> fresh_uuid E (steps w + 3) \<notin> user_id ` set (users w)"

lemma auth_register_ok:
  assumes "site_ok E H lifetime" "can_register E dto w"
  shows "\<exists>u w'. auth_register E dto w = (Inr (to_authenticated_user u (rd_organizationName dto)), w') \<and> user_email u = rd_email dto
    \<and> steps w' = steps w + 4 \<and> knows_user E H lifetime (user_json (to_authenticated_user u (rd_organizationName dto))) (rd_email dto) (rd_password dto) w'"
proof -
  let ?org = "\<lparr>org_id = fresh_uuid E (Suc (steps w)), org_name = rd_organizationName dto, org_createdAt = clock E (Suc (steps w))\<rparr>"
  let ?user = "\<lparr>user_id = fresh_uuid E (Suc (Suc (Suc (steps w)))), user_orgId = org_id ?org, user_email = rd_email dto,
     user_passwordHash = bcrypt_hash E (Suc (Suc (steps w))) (rd_password dto) BCRYPT_SALT_ROUNDS,
     user_role = ADMIN, user_createdAt = clock E (Suc (Suc (Suc (steps w))))\<rparr>"
  let ?w = "tick (tick (tick (tick w)))\<lparr>organizations := organizations w @ [?org], users := users w @ [?user]\<rparr>"
  note no_fault = site_okD(3) [OF assms(1)]
  have free: "\<forall>u \<in> set (users w). user_email u \<noteq> rd_email dto" "\<forall>u \<in> set (users w). user_id u \<noteq> user_id ?user"
      "\<forall>x \<in> set (organizations w). org_id x \<noteq> org_id ?org"
    using assms(2) by (auto simp: can_register_def eval_nat_numeral) (metis imageI)+
  then have none: "List.find (\<lambda>u. user_email u = rd_email dto) (users w) = None"
      "List.find (\<lambda>u. user_id u = user_id ?user) (users w) = None" "List.find (\<lambda>x. org_id x = org_id ?org) (organizations w) = None"
    by (simp_all add: find_None_iff)
  have "auth_register E dto w = (Inr (to_authenticated_user ?user (rd_organizationName dto)), ?w)"
    using free none
    by (simp add: auth_register_def register_def find_user_by_email_def repo_find_one_ok [OF no_fault] prog_simps create_organization_def
        create_user_def hash_password_def repo_insert_def repo_ok [OF no_fault] Let_def tick_def user_clash_def eq_commute)
  moreover have "knows_user E H lifetime (user_json (to_authenticated_user ?user (rd_organizationName dto))) (rd_email dto) (rd_password dto) ?w"
    unfolding knows_user_def
    using assms none site_okD(2) [OF assms(1)]
    by (intro conjI exI [of _ ?user] exI [of _ "rd_organizationName dto"])
       (auto simp: known_user_def find_append bcrypt_ok_def can_register_def register_dto_valid_def login_dto_valid_def)
  ultimately show ?thesis by (intro exI [of _ ?user] exI [of _ ?w]) simp
qed

lemma register_answered:
  assumes "register_dto_valid E dto" "auth_register E dto w = (Inr u, w')" "json_wf (user_json u)"
    and b: "br_server b = w" "body = JObj [(''email'', JStr (rd_email dto)), (''password'', JStr (rd_password dto)),
      (''organizationName'', JStr (rd_organizationName dto))]"
  shows "api_post (site E H) ''/auth/register'' (Some body) True b = (Inr (Some (user_json u)), b\<lparr>br_server := w'\<rparr>)"
proof -
  let ?rq = "\<lparr>rq_method = ''POST'', rq_path = ''/auth/register'', rq_headers = json_content, rq_body = Some (json_stringify body)\<rparr>"
  have "auth_server E H ?rq w = post_register E H ?rq w" by (simp add: auth_server_def)
  also have "\<dots> = (Inr (json_response H 201 (user_json u)), w')"
    using assms(1,2) register_request_fields(2) [of "rd_email dto" "rd_password dto" "rd_organizationName dto"]
    by (cases dto) (simp add: post_register_def b(2) respond_ok Let_def del: json_stringify.simps)
  finally show ?thesis
    using register_request_fields(1) [of "rd_email dto" "rd_password dto" "rd_organizationName dto"] assms(3)
    by (simp add: api_post_def request_def do_fetch_def after_first_def needs_refresh_def request_result_def response_ok_def
        response_json_def json_response_def json_roundtrip fetch_def site_net b prog_simps del: json_stringify.simps)
qed

text \<open>The server at a later time: its accounts are as they were, and the refresh token is still alive.\<close>

definition later_server :: "env \<Rightarrow> (string \<Rightarrow> int) \<Rightarrow> world \<Rightarrow> world \<Rightarrow> world \<Rightarrow> bool" where
  "later_server E lifetime before after w \<longleftrightarrow> users w = users after \<and> organizations w = organizations after
     \<and> clock E (steps after) \<le> clock E (steps w)
     \<and> clock E (steps w) < clock E (steps before) + lifetime (ac_refreshExpiresIn (app_conf E))"

lemma login_session:
  assumes "knows_user E H lifetime v e p (br_server b)" "br_configured b"
  shows "\<exists>b' r. login (site E H) e p b = (Inr (), b') \<and> br_configured b' \<and> br_user b' = Some v \<and> stored_refresh_token b' = Some r
    \<and> steps (br_server b') = steps (br_server b) + 5 \<and> (\<forall>w. later_server E lifetime (br_server b) (br_server b') w \<longrightarrow> grants_session E H lifetime v r w)"
proof -
  let ?w = "br_server b"
  from sessions.logs_in [OF assms(2,1)] obtain a r w1 w2 where l: "login (site E H) e p b
      = (Inr (), (store_refresh_token (Some (JStr r)) b)\<lparr>br_access := Some (JStr a), br_user := Some v, br_server := w2\<rparr>)"
      "answers (site E H) (login_request e p) (JObj [(''access_token'', JStr a), (''refresh_token'', JStr r)]) ?w w1"
      "answers (site E H) (me_request a) v w1 w2"
    by blast
  from login_answer [OF assms(1)] obtain u n where u: "v = user_json (to_authenticated_user u n)" "known_user u n ?w"
    and answer: "auth_server E H (login_request e p) ?w = (Inr (json_response H 200 (token_pair_json
        \<lparr>tp_access_token = jwt_sign E (ac_accessSecret (app_conf E)) (ac_accessExpiresIn (app_conf E)) (clock E (steps ?w + 2)) (access_payload u n),
         tp_refresh_token = jwt_sign E (ac_refreshSecret (app_conf E)) (ac_refreshExpiresIn (app_conf E)) (clock E (steps ?w + 3)) (refresh_payload u)\<rparr>)),
      tick (tick (tick (tick ?w))))" by blast
  have ok: "site_ok E H lifetime" using assms(1) by (simp add: knows_user_def)
  from l(2) answer have w1: "w1 = tick (tick (tick (tick ?w)))"
      "a = jwt_sign E (ac_accessSecret (app_conf E)) (ac_accessExpiresIn (app_conf E)) (clock E (steps ?w + 2)) (access_payload u n)"
      "r = jwt_sign E (ac_refreshSecret (app_conf E)) (ac_refreshExpiresIn (app_conf E)) (clock E (steps ?w + 3)) (refresh_payload u)"
    by (auto simp: answers_def site_net token_pair_json_def json_response_def json_roundtrip simp del: json_stringify.simps)
  have "opens_session E H lifetime v a w1"
    unfolding u(1) w1 by (rule opens_fresh_token [OF ok, of _ 2]) simp_all
  from opens_me_answer [OF this] l(3) have w2: "w2 = tick w1" by (auto simp: answers_def site_net)
  have "grants_session E H lifetime v r w" if "later_server E lifetime ?w w2 w" for w
  proof -
    have "clock E (steps ?w) \<le> clock E (steps ?w + 3)" "clock E (steps ?w + 3) \<le> clock E (steps ?w + 5)"
      using site_clock [OF ok, of 3 "steps ?w"] site_clock [OF ok, of 2 "steps ?w + 3"] by (simp_all add: add.commute)
    then have "live_at E (lifetime (ac_refreshExpiresIn (app_conf E))) (clock E (steps ?w + 3)) (steps w)"
      using that by (simp add: later_server_def live_at_def w2 w1(1) eval_nat_numeral)
    moreover have "known_user u n w" using that u(2) by (simp add: later_server_def known_user_def w2 w1(1))
    ultimately show ?thesis using ok u(1) w1(3) by (auto simp: grants_session_def)
  qed
  with l(1) assms(2) show ?thesis
    by (auto simp: store_refresh_token_def stored_refresh_token_def js_string_value_def w2 w1(1))
qed

text \<open>
  C8. A session from end to end, browser and server together. Who signs up is logged in, after nine
  calls of the server to its clock, its database and its hashing, as the user the server registered,
  under the email address and organization they typed. A page loaded later, when the access token of the old page is gone and the accounts are as they were, comes up
  as the same user while the refresh token lives; after a logout it comes up as nobody and shows
  the login page, whatever the server is in by then.
\<close>

theorem session_from_end_to_end:
  assumes "site_ok E H lifetime" "can_register E dto (br_server b)" "br_configured b"
  shows "\<exists>u b'. sign_up (site E H) (rd_email dto) (rd_password dto) (rd_organizationName dto) b = (Inr (), b')
    \<and> br_user b' = Some (user_json u) \<and> au_email u = Some (JStr (rd_email dto)) \<and> au_orgName u = Some (JStr (rd_organizationName dto))
    \<and> steps (br_server b') = steps (br_server b) + 9
    \<and> (\<forall>w. later_server E lifetime (br_server b) (br_server b') w \<longrightarrow>
         (\<exists>b''. mount_provider (site E H) (reload (b'\<lparr>br_server := w\<rparr>)) = (Inr (), b'') \<and> br_user b'' = br_user b'
            \<and> protected_route b'' = Children))
    \<and> (\<forall>w. \<exists>b''. mount_provider (site E H) (reload ((snd (logout b'))\<lparr>br_server := w\<rparr>)) = (Inr (), b'')
            \<and> protected_route b'' = Redirect_To ''/login'')"
proof -
  from auth_register_ok [OF assms(1,2)] obtain u w1 where reg:
      "auth_register E dto (br_server b) = (Inr (to_authenticated_user u (rd_organizationName dto)), w1)" "user_email u = rd_email dto"
      "steps w1 = steps (br_server b) + 4"
      "knows_user E H lifetime (user_json (to_authenticated_user u (rd_organizationName dto))) (rd_email dto) (rd_password dto) w1" by blast
  let ?v = "user_json (to_authenticated_user u (rd_organizationName dto))" and ?b = "b\<lparr>br_server := w1\<rparr>"
  have valid: "register_dto_valid E dto" using assms(2) by (simp add: can_register_def)
  from login_session [of E H lifetime ?v "rd_email dto" "rd_password dto" ?b] reg(4) assms(3)
  obtain b' r where l: "login (site E H) (rd_email dto) (rd_password dto) ?b = (Inr (), b')" "br_configured b'" "br_user b' = Some ?v"
      "stored_refresh_token b' = Some r" "steps (br_server b') = steps w1 + 5" "\<And>w. later_server E lifetime w1 (br_server b') w \<Longrightarrow> grants_session E H lifetime ?v r w"
    by auto
  have up: "sign_up (site E H) (rd_email dto) (rd_password dto) (rd_organizationName dto) b = (Inr (), b')"
    using register_answered [OF valid reg(1) user_json_wf refl refl] l(1) by (simp add: sign_up_def bind_def)
  have "\<exists>b''. mount_provider (site E H) (reload (b'\<lparr>br_server := w\<rparr>)) = (Inr (), b'') \<and> br_user b'' = br_user b'
      \<and> protected_route b'' = Children" if "later_server E lifetime (br_server b) (br_server b') w" for w
  proof -
    have "clock E (steps (br_server b)) \<le> clock E (steps w1)"
      using site_clock [OF assms(1), of 4 "steps (br_server b)"] reg(3) by simp
    with that have "later_server E lifetime w1 (br_server b') w" by (simp add: later_server_def)
    from sessions.restores [of "b'\<lparr>br_server := w\<rparr>" r E H lifetime ?v] l(4) l(6) [OF this]
    obtain a w' where "mount_provider (site E H) (reload (b'\<lparr>br_server := w\<rparr>)) = (Inr (), b'\<lparr>br_server := w, br_configured := True,
        br_access := Some (JStr a), br_user := Some ?v, br_initializing := False, br_server := w'\<rparr>)"
      by (auto simp: stored_refresh_token_def)
    then show ?thesis
      using l(3) by (auto simp: protected_route_def is_authenticated_def null_value_def user_json_fields)
  qed
  moreover have "\<exists>b''. mount_provider (site E H) (reload ((snd (logout b'))\<lparr>br_server := w\<rparr>)) = (Inr (), b'')
      \<and> protected_route b'' = Redirect_To ''/login''" for w
    by (simp add: mount_provider_def configure_api_client_def restore_session_def modify_def logout_def end_session_def
        stored_refresh_token_def reload_def protected_route_def is_authenticated_def prog_simps)
  ultimately show ?thesis
    using up l(3,5) reg(2,3)
    by (intro exI [of _ "to_authenticated_user u (rd_organizationName dto)"] exI [of _ b'])
       (simp add: to_authenticated_user_def)
qed

text \<open>
  Nothing requires the two secrets to differ. When they are equal a refresh token passes the
  guard of every request, as a user without an organization and without a role: where a service
  puts the organization of the user into its condition, the value is \<open>undefined\<close>.
\<close>

lemma equal_secrets_admit_refresh_token:
  assumes "jwt_ok E lifetime" "ac_refreshSecret (app_conf E) = ac_accessSecret (app_conf E)"
    and "live_at E (lifetime (ac_refreshExpiresIn (app_conf E))) t (steps w)"
    and "r = jwt_sign E (ac_refreshSecret (app_conf E)) (ac_refreshExpiresIn (app_conf E)) t (refresh_payload u)"
  shows "\<exists>who. auth_me E (Some r) w = (Inr who, tick w) \<and> au_id who = Some (JStr (user_id u))
    \<and> au_orgId who = None \<and> au_role who = None"
proof -
  have "t \<le> clock E (steps w)" "clock E (steps w) < t + lifetime (ac_refreshExpiresIn (app_conf E))"
    using assms(3) by (auto simp: live_at_def)
  from assms(1) payloads_wf(2) [of u, unfolded refresh_payload_def] this
  obtain extra where verified: "jwt_verify E (ac_accessSecret (app_conf E)) (clock E (steps w)) r
      = Inr (JObj ([(''sub'', JStr (user_id u))] @ extra))" "fst ` set extra \<subseteq> {''iat'', ''exp''}"
    unfolding jwt_ok_def assms(4) refresh_payload_def assms(2) by meson
  then have "map_of extra ''orgId'' = None" "map_of extra ''role'' = None" by (auto simp: map_of_eq_None_iff)
  with verified(1) show ?thesis
    by (simp add: auth_me_def guarded_def authenticate_def can_activate_def validate_payload_def now_def prog_simps)
qed

text \<open>A site for the witness: tokens are the secret and the payload in base64, a second passes per step.\<close>

definition site_env :: env where
  "site_env = demo_env\<lparr>jwt_sign := (\<lambda>k life t p. base64_encode (json_stringify (JArr [JStr k, p]))),
     jwt_verify := (\<lambda>k t s. case json_parse (base64_decode s) of
        Some (JArr [JStr k', p]) \<Rightarrow> if k' = k then Inr p else Inl (JsError ''JsonWebTokenError'' ''invalid signature'' None)
      | _ \<Rightarrow> Inl (JsError ''JsonWebTokenError'' ''jwt malformed'' None))\<rparr>"

definition demo_layer :: http_layer where
  "demo_layer = \<lparr>hl_bearer = (\<lambda>h. case h of None \<Rightarrow> None | Some s \<Rightarrow> if take 7 s = ''Bearer '' then Some (drop 7 s) else None),
     hl_refusal = (\<lambda>_. JArr []), hl_iso = (\<lambda>t. []), hl_reason = (\<lambda>s. []), hl_rest = (\<lambda>_. throw (HttpException 404 ''Not Found''))\<rparr>"

lemma b64_char_visible: "n < 64 \<Longrightarrow> visible_char (b64_char n)"
  by (simp add: visible_char_def b64_char_def) linarith

lemma visible_pad: "visible_char (CHR ''='')"
  by (simp add: visible_char_def)

lemma b64_groups_visible: "\<forall>x \<in> set xs. x < 256 \<Longrightarrow> list_all visible_char (b64_groups xs)"
  by (induction xs rule: b64_groups.induct) (auto intro!: b64_char_visible simp: visible_pad less_mult_imp_div_less)

lemma base64_visible: "list_all visible_char (base64_encode s)"
  unfolding base64_encode_def by (rule b64_groups_visible) auto

lemma base64_nonempty: "base64_encode s = [] \<longleftrightarrow> s = []"
  by (metis base64_roundtrip base64_encode_def b64_groups.simps(1) list.map(1))

lemma site_env_ok: "site_ok site_env demo_layer (\<lambda>_. 900000)"
proof -
  have "json_parse (json_stringify (JArr [JStr k, JObj kvs])) = Some (JArr [JStr k, JObj kvs])" if "json_wf (JObj kvs)" for k kvs
    using that by (intro json_roundtrip) simp
  then have "jwt_ok site_env (\<lambda>_. 900000)"
    unfolding jwt_ok_def site_env_def by (auto simp: base64_roundtrip simp del: json_stringify.simps json_wf.simps)
  moreover have "tokens_visible site_env"
    by (simp add: tokens_visible_def site_env_def base64_visible base64_nonempty)
  moreover have "answers_promptly site_env (\<lambda>_. 900000)"
    by (auto simp: answers_promptly_def site_env_def demo_env_def)
  moreover have "bearer_ok demo_layer" by (simp add: bearer_ok_def demo_layer_def)
  ultimately show ?thesis
    by (simp add: site_ok_def) (simp add: site_env_def demo_env_def bcrypt_ok_def no_db_fault_def demo_app_config_def)
qed

definition visitor :: "world browser" where
  "visitor = \<lparr>br_configured = True, br_access = null_value, br_storage = (\<lambda>_. None), br_user = null_value,
     br_initializing = False, br_server = empty_world\<rparr>"

theorem session_from_end_to_end_witness:
  "\<exists>b' b''. sign_up (site site_env demo_layer) ''a@b.c'' ''password'' ''Acme'' visitor = (Inr (), b')
     \<and> mount_provider (site site_env demo_layer) (reload b') = (Inr (), b'') \<and> br_user b'' = br_user b' \<and> protected_route b'' = Children"
proof -
  have c: "can_register site_env demo_registration (br_server visitor)"
    by (simp add: can_register_def visitor_def register_dto_valid_def demo_registration_def site_env_def demo_env_def char_count_def)
  from session_from_end_to_end [OF site_env_ok c] obtain b' where b:
      "sign_up (site site_env demo_layer) ''a@b.c'' ''password'' ''Acme'' visitor = (Inr (), b')"
      "steps (br_server b') = 9" "\<And>w. later_server site_env (\<lambda>_. 900000) (br_server visitor) (br_server b') w \<Longrightarrow>
         \<exists>b''. mount_provider (site site_env demo_layer) (reload (b'\<lparr>br_server := w\<rparr>)) = (Inr (), b'') \<and> br_user b'' = br_user b'
            \<and> protected_route b'' = Children"
    by (auto simp: demo_registration_def visitor_def)
  have "later_server site_env (\<lambda>_. 900000) (br_server visitor) (br_server b') (br_server b')"
    by (simp add: later_server_def b(2)) (simp add: site_env_def demo_env_def visitor_def)
  with b(1) b(3) [of "br_server b'"] show ?thesis by auto
qed

end
