(* ===== verification/Forms.thy ===== *)
theory Forms
  imports Alert_Rules Hosts Insights
begin

section \<open>Forms and what they send\<close>

text \<open>
  The checks the page makes before it sends: \<open>AddHostPage\<close> with \<open>lib/ipAddress.ts\<close>, and
  \<open>AlertsPage\<close> with \<open>lib/alertConditions.ts\<close>.
\<close>

subsection \<open>Numbers typed into a field\<close>

text \<open>
  \<open>Number(s)\<close> when it is an integer: decimal literals with an optional fraction and exponent,
  the three radix prefixes, and the empty text, which is \<open>0\<close>. The value is exact; JavaScript
  rounds literals of more than fifteen digits.
\<close>

definition radix_value :: "nat \<Rightarrow> string \<Rightarrow> int option" where
  "radix_value b ds = (if ds \<noteq> [] \<and> list_all (\<lambda>c. case hex_val c of Some d \<Rightarrow> d < b | None \<Rightarrow> False) ds
     then Some (foldl (\<lambda>n c. int b * n + int (the (hex_val c))) 0 ds) else None)"

definition signed_part :: "string \<Rightarrow> int \<times> string" where
  "signed_part s = (case s of c # t \<Rightarrow> if c = CHR ''-'' then (- 1, t) else if c = CHR ''+'' then (1, t) else (1, s) | [] \<Rightarrow> (1, []))"

definition scale_integer :: "int \<Rightarrow> int \<Rightarrow> int option" where
  "scale_integer m e = (if 0 \<le> e then Some (m * 10 ^ nat e)
     else if m mod 10 ^ nat (- e) = 0 then Some (m div 10 ^ nat (- e)) else None)"

definition decimal_integer :: "string \<Rightarrow> int option" where
  "decimal_integer s =
    (let (sign, u) = signed_part s;
         whole = takeWhile is_digit u; r = dropWhile is_digit u;
         (frac, r') = (case r of c # t \<Rightarrow> if c = CHR ''.'' then (takeWhile is_digit t, dropWhile is_digit t) else ([], r) | [] \<Rightarrow> ([], []));
         mantissa = (case radix_value 10 (whole @ frac) of Some m \<Rightarrow> m | None \<Rightarrow> 0)
     in if whole @ frac = [] then None
        else case r' of
            [] \<Rightarrow> scale_integer (sign * mantissa) (- int (length frac))
          | c # t \<Rightarrow>
              if c = CHR ''e'' \<or> c = CHR ''E''
              then (let (esign, ds) = signed_part t in
                    case (if list_all is_digit ds then radix_value 10 ds else None) of
                      None \<Rightarrow> None
                    | Some e \<Rightarrow> scale_integer (sign * mantissa) (esign * e - int (length frac)))
              else None)"

definition js_integer :: "string \<Rightarrow> int option" where
  "js_integer s =
    (let t = trim s in
     if t = [] then Some 0
     else if prefix ''0x'' t \<or> prefix ''0X'' t then radix_value 16 (drop 2 t)
     else if prefix ''0o'' t \<or> prefix ''0O'' t then radix_value 8 (drop 2 t)
     else if prefix ''0b'' t \<or> prefix ''0B'' t then radix_value 2 (drop 2 t)
     else decimal_integer t)"

subsection \<open>Addresses\<close>

text \<open>One of the four groups of the pattern: \<open>25[0-5]|2[0-4]\d|1\d\d|[1-9]?\d\<close>.\<close>

definition octet_pattern :: "string \<Rightarrow> bool" where
  "octet_pattern s = (case s of
       [c] \<Rightarrow> is_digit c
     | [b, c] \<Rightarrow> is_digit b \<and> b \<noteq> CHR ''0'' \<and> is_digit c
     | [a, b, c] \<Rightarrow> a = CHR ''2'' \<and> b = CHR ''5'' \<and> c \<in> set ''012345''
         \<or> a = CHR ''2'' \<and> b \<in> set ''01234'' \<and> is_digit c
         \<or> a = CHR ''1'' \<and> is_digit b \<and> is_digit c
     | _ \<Rightarrow> False)"

definition ipv4_pattern :: "string \<Rightarrow> bool" where
  "ipv4_pattern s = (case split_on (CHR ''.'') s of
       [a, b, c, d] \<Rightarrow> octet_pattern a \<and> octet_pattern b \<and> octet_pattern c \<and> octet_pattern d
     | _ \<Rightarrow> False)"

definition ipv6_pattern :: "string \<Rightarrow> bool" where
  "ipv6_pattern s \<longleftrightarrow> s \<noteq> [] \<and> list_all (\<lambda>c. hex_val c \<noteq> None \<or> c = CHR '':'') s"

definition is_plausible_ip_address :: "string \<Rightarrow> bool" where
  "is_plausible_ip_address value =
    (let trimmed = trim value in
     if trimmed = [] then False
     else if CHR ''.'' \<in> set trimmed then ipv4_pattern trimmed
     else CHR '':'' \<in> set trimmed \<and> ipv6_pattern trimmed)"

text \<open>The pattern of a group is the decimal text of a number up to 255.\<close>

lemma of_digit_char: "d < 10 \<Longrightarrow> of_char (digit_char d) = 48 + d"
  by (simp add: digit_char_def)

lemma digit_char_code: "48 \<le> (of_char c :: nat) \<Longrightarrow> (of_char c :: nat) < 48 + k \<Longrightarrow> \<exists>d < k. c = digit_char d"
  by (rule exI [of _ "of_char c - 48"]) (auto simp: digit_char_def)

lemma is_digit_iff: "is_digit c \<longleftrightarrow> (\<exists>d < 10. c = digit_char d)"
  using digit_char_code [of c 10] by (auto simp: is_digit_def of_digit_char)

lemma digit_codes: "of_char CHR ''0'' = (48 :: nat)" "of_char CHR ''1'' = (49 :: nat)" "of_char CHR ''2'' = (50 :: nat)"
  "of_char CHR ''3'' = (51 :: nat)" "of_char CHR ''4'' = (52 :: nat)" "of_char CHR ''5'' = (53 :: nat)"
  by simp_all

lemma digit_char_of: "of_char c = 48 + d \<Longrightarrow> c = digit_char d"
  by (metis char_of_char digit_char_def)

lemma digit_chars: "CHR ''0'' = digit_char 0" "CHR ''1'' = digit_char 1" "CHR ''2'' = digit_char 2"
  "CHR ''3'' = digit_char 3" "CHR ''4'' = digit_char 4" "CHR ''5'' = digit_char 5"
  by (rule digit_char_of; simp)+

lemma digit_sets: "c \<in> set ''01234'' \<longleftrightarrow> (\<exists>d < 5. c = digit_char d)" "c \<in> set ''012345'' \<longleftrightarrow> (\<exists>d < 6. c = digit_char d)"
proof -
  have five: "d < 5 \<longleftrightarrow> d = 0 \<or> d = 1 \<or> d = 2 \<or> d = 3 \<or> d = (4 :: nat)" for d by linarith
  have six: "d < 6 \<longleftrightarrow> d = 0 \<or> d = 1 \<or> d = 2 \<or> d = 3 \<or> d = 4 \<or> d = (5 :: nat)" for d by linarith
  show "c \<in> set ''01234'' \<longleftrightarrow> (\<exists>d < 5. c = digit_char d)" unfolding digit_chars five list.set by blast
  show "c \<in> set ''012345'' \<longleftrightarrow> (\<exists>d < 6. c = digit_char d)" unfolding digit_chars six list.set by blast
qed

lemma show_nat_append: "0 < a \<Longrightarrow> c < 10 \<Longrightarrow> show_nat (10 * a + c) = show_nat a @ [digit_char c]"
  by (subst show_nat.simps) simp

lemma show_nat_digits:
  "c < 10 \<Longrightarrow> show_nat c = [digit_char c]"
  "0 < b \<Longrightarrow> b < 10 \<Longrightarrow> c < 10 \<Longrightarrow> show_nat (10 * b + c) = [digit_char b, digit_char c]"
  "0 < a \<Longrightarrow> a < 10 \<Longrightarrow> b < 10 \<Longrightarrow> c < 10 \<Longrightarrow> show_nat (10 * (10 * a + b) + c) = [digit_char a, digit_char b, digit_char c]"
proof -
  show 1: "c < 10 \<Longrightarrow> show_nat c = [digit_char c]" for c by (simp add: show_nat.simps [of c])
  show 2: "0 < b \<Longrightarrow> b < 10 \<Longrightarrow> c < 10 \<Longrightarrow> show_nat (10 * b + c) = [digit_char b, digit_char c]" for b c
    by (simp only: show_nat_append 1) simp
  show "0 < a \<Longrightarrow> a < 10 \<Longrightarrow> b < 10 \<Longrightarrow> c < 10 \<Longrightarrow> show_nat (10 * (10 * a + b) + c) = [digit_char a, digit_char b, digit_char c]"
    using show_nat_append [of "10 * a + b" c] 2 [of a b] by simp
qed

text \<open>The shapes of a group, digit by digit.\<close>

lemma octet_pattern_digits:
  "octet_pattern s \<longleftrightarrow> (\<exists>c < 10. s = [digit_char c])
     \<or> (\<exists>b < 10. \<exists>c < 10. 0 < b \<and> s = [digit_char b, digit_char c])
     \<or> (\<exists>a < 10. \<exists>b < 10. \<exists>c < 10. (a = 1 \<or> a = 2 \<and> (b < 5 \<or> b = 5 \<and> c < 6)) \<and> s = [digit_char a, digit_char b, digit_char c])"
    (is "_ \<longleftrightarrow> ?one s \<or> ?two s \<or> ?three s")
proof -
  consider "s = []" | c where "s = [c]" | b c where "s = [b, c]" | a b c where "s = [a, b, c]" | a b c d r where "s = a # b # c # d # r"
    by (metis list.exhaust)
  then show ?thesis
  proof cases
    case 2
    then show ?thesis by (simp add: octet_pattern_def is_digit_iff)
  next
    case (3 b c)
    have "is_digit b \<and> b \<noteq> digit_char 0 \<longleftrightarrow> (\<exists>d < 10. 0 < d \<and> b = digit_char d)"
      by (auto simp: is_digit_iff digit_char_eq_iff)
    with 3 show ?thesis by (auto simp: octet_pattern_def is_digit_iff digit_chars)
  next
    case (4 a b c)
    have "(a = digit_char 2 \<and> b = digit_char 5 \<and> (\<exists>d < 6. c = digit_char d)) \<longleftrightarrow> (\<exists>x y z. x = 2 \<and> y = 5 \<and> z < 6 \<and> s = [digit_char x, digit_char y, digit_char z])"
      "(a = digit_char 2 \<and> (\<exists>d < 5. b = digit_char d) \<and> is_digit c) \<longleftrightarrow> (\<exists>x y z. x = 2 \<and> y < 5 \<and> z < 10 \<and> s = [digit_char x, digit_char y, digit_char z])"
      "(a = digit_char 1 \<and> is_digit b \<and> is_digit c) \<longleftrightarrow> (\<exists>x y z. x = 1 \<and> y < 10 \<and> z < 10 \<and> s = [digit_char x, digit_char y, digit_char z])"
      using 4 by (auto simp: is_digit_iff)
    then have "octet_pattern s \<longleftrightarrow> (\<exists>x y z. x = 2 \<and> y = 5 \<and> z < 6 \<and> s = [digit_char x, digit_char y, digit_char z])
        \<or> (\<exists>x y z. x = 2 \<and> y < 5 \<and> z < 10 \<and> s = [digit_char x, digit_char y, digit_char z])
        \<or> (\<exists>x y z. x = 1 \<and> y < 10 \<and> z < 10 \<and> s = [digit_char x, digit_char y, digit_char z])"
      using 4 digit_sets [of b] digit_sets [of c] digit_chars by (simp add: octet_pattern_def del: list.set set_simps)
    also have "\<dots> \<longleftrightarrow> ?three s"
    proof
      assume "?three s"
      then show "(\<exists>x y z. x = 2 \<and> y = 5 \<and> z < 6 \<and> s = [digit_char x, digit_char y, digit_char z])
        \<or> (\<exists>x y z. x = 2 \<and> y < 5 \<and> z < 10 \<and> s = [digit_char x, digit_char y, digit_char z])
        \<or> (\<exists>x y z. x = 1 \<and> y < 10 \<and> z < 10 \<and> s = [digit_char x, digit_char y, digit_char z])" by blast
    qed (elim disjE exE conjE; simp only:; intro exI conjI; (rule refl)?; simp)
    finally show ?thesis using 4 by simp
  qed (simp_all add: octet_pattern_def)
qed

lemma octet_pattern_show: "n < 256 \<Longrightarrow> octet_pattern (show_nat n)"
proof -
  assume n: "n < 256"
  define a b c where abc: "a = n div 10 div 10" "b = n div 10 mod 10" "c = n mod 10"
  have eq: "n = 10 * (10 * a + b) + c" unfolding abc by simp
  then have dec: "n = 10 * (10 * a + b) + c" "b < 10" "c < 10" "a < 3" using n by (simp_all add: abc(2,3))
  have "a = 0 \<or> a = 1 \<or> a = 2 \<and> (b < 5 \<or> b = 5 \<and> c < 6)" using dec n by presburger
  then consider "a = 0" "b = 0" | "a = 0" "0 < b" | "a = 1 \<or> a = 2 \<and> (b < 5 \<or> b = 5 \<and> c < 6)" by blast
  then show ?thesis
  proof cases
    case 1
    then show ?thesis using dec show_nat_digits(1) [of c] by (auto simp: octet_pattern_digits)
  next
    case 2
    then show ?thesis using dec show_nat_digits(2) [of b c] by (auto simp: octet_pattern_digits)
  next
    case 3
    then have "a < 10" "show_nat n = [digit_char a, digit_char b, digit_char c]"
      using dec show_nat_digits(3) [of a b c] by auto
    with 3 dec(2,3) show ?thesis unfolding octet_pattern_digits by blast
  qed
qed

lemma octet_pattern_number: "octet_pattern s \<Longrightarrow> \<exists>n < 256. s = show_nat n"
proof -
  assume "octet_pattern s"
  then consider c where "s = [digit_char c]" "c < 10"
    | b c where "s = [digit_char b, digit_char c]" "0 < b" "b < 10" "c < 10"
    | a b c where "s = [digit_char a, digit_char b, digit_char c]" "a = 1 \<or> a = 2 \<and> (b < 5 \<or> b = 5 \<and> c < 6)" "a < 10" "b < 10" "c < 10"
    unfolding octet_pattern_digits by blast
  then show ?thesis
  proof cases
    case 1
    then show ?thesis using show_nat_digits(1) [of c] by (intro exI [of _ c]) simp
  next
    case 2
    then show ?thesis using show_nat_digits(2) [of b c] by (intro exI [of _ "10 * b + c"]) simp
  next
    case 3
    then show ?thesis using show_nat_digits(3) [of a b c] by (intro exI [of _ "10 * (10 * a + b) + c"]) auto
  qed
qed

lemma octet_pattern_iff: "octet_pattern s \<longleftrightarrow> (\<exists>n < 256. s = show_nat n)"
  using octet_pattern_show octet_pattern_number by blast

lemma octet_no_dot: "octet_pattern s \<Longrightarrow> CHR ''.'' \<notin> set s"
  by (auto simp: octet_pattern_def is_digit_def split: list.splits)

lemma split_on_join: "\<forall>p \<in> set ps. c \<notin> set p \<Longrightarrow> ps \<noteq> [] \<Longrightarrow> split_on c (join_with [c] ps) = ps"
proof (induction ps rule: induct_list012)
  case (2 p)
  then show ?case by (induction p) auto
next
  case (3 p q ps)
  have "split_on c (p @ c # r) = p # split_on c r" if "c \<notin> set p" for r
    using that by (induction p) auto
  with 3 show ?case by simp
qed simp

lemma ipv4_pattern_iff: "ipv4_pattern s \<longleftrightarrow> (\<exists>a < 256. \<exists>b < 256. \<exists>c < 256. \<exists>d < 256.
    s = join_with ''.'' [show_nat a, show_nat b, show_nat c, show_nat d])"
proof
  assume "ipv4_pattern s"
  then obtain a b c d where parts: "split_on (CHR ''.'') s = [a, b, c, d]"
      "octet_pattern a" "octet_pattern b" "octet_pattern c" "octet_pattern d"
    by (auto simp: ipv4_pattern_def split: list.splits)
  then show "\<exists>a < 256. \<exists>b < 256. \<exists>c < 256. \<exists>d < 256. s = join_with ''.'' [show_nat a, show_nat b, show_nat c, show_nat d]"
    using join_split_on [of "CHR ''.''" s] unfolding octet_pattern_iff by metis
next
  assume "\<exists>a < 256. \<exists>b < 256. \<exists>c < 256. \<exists>d < 256. s = join_with ''.'' [show_nat a, show_nat b, show_nat c, show_nat d]"
  then obtain a b c d where s: "s = join_with ''.'' (map show_nat [a, b, c, d])" "a < 256" "b < 256" "c < 256" "d < 256" by auto
  then have o: "\<forall>p \<in> set (map show_nat [a, b, c, d]). octet_pattern p" by (auto simp: octet_pattern_iff)
  then have "split_on (CHR ''.'') s = map show_nat [a, b, c, d]"
    using split_on_join [of "map show_nat [a, b, c, d]" "CHR ''.''"] octet_no_dot by (simp add: s(1))
  with o show "ipv4_pattern s" by (simp add: ipv4_pattern_def)
qed

subsection \<open>AddHostPage\<close>

record host_form =
  hf_name :: string
  hf_provider :: host_provider
  hf_ip_address :: string
  hf_ssh_port :: string
  hf_ssh_user :: string

definition PROVIDERS :: "host_provider list" where
  "PROVIDERS = [AZURE, VMWARE, OVH, AWS, DIGITALOCEAN, BARE_METAL, OTHER_PROVIDER]"

definition new_host_form :: host_form where
  "new_host_form = \<lparr>hf_name = [], hf_provider = OTHER_PROVIDER, hf_ip_address = [], hf_ssh_port = show_int DEFAULT_SSH_PORT, hf_ssh_user = []\<rparr>"

text \<open>The handler up to the request: the message shown, or what is sent.\<close>

definition submit_host_form :: "host_form \<Rightarrow> string + create_host_dto" where
  "submit_host_form f =
    (if trim (hf_name f) = [] then Inl ''Give this host a name so you can recognize it later.''
     else if \<not> is_plausible_ip_address (hf_ip_address f) then Inl ''Enter a valid IPv4 or IPv6 address.''
     else case js_integer (hf_ssh_port f) of
         None \<Rightarrow> Inl ''SSH port must be a number between 1 and 65535.''
       | Some port \<Rightarrow>
           if port < 1 \<or> 65535 < port then Inl ''SSH port must be a number between 1 and 65535.''
           else if trim (hf_ssh_user f) = [] then Inl ''SSH user is required.''
           else Inr \<lparr>ch_name = trim (hf_name f), ch_provider = hf_provider f, ch_ip_address = trim (hf_ip_address f),
                     ch_ssh_port = Some port, ch_ssh_user = trim (hf_ssh_user f)\<rparr>)"

text \<open>
  The address check of the form accepts exactly what it is meant to. A text with a dot passes
  when, without the white space around it, it is four numbers from 0 to 255 in plain decimal, with
  dots between them: no leading zero, no fifth group, no other character. A form that is sent has
  such an address or one of hexadecimal digits and colons, a name and a user, and a port from 1 to
  65535.
\<close>

lemma address_check_exact:
  "(CHR ''.'' \<in> set (trim value) \<longrightarrow> is_plausible_ip_address value = (\<exists>a < 256. \<exists>b < 256. \<exists>c < 256. \<exists>d < 256.
      trim value = join_with ''.'' [show_nat a, show_nat b, show_nat c, show_nat d]))
   \<and> (submit_host_form f = Inr dto \<longrightarrow> is_plausible_ip_address (hf_ip_address f) \<and> ch_ip_address dto = trim (hf_ip_address f)
      \<and> (\<exists>p. ch_ssh_port dto = Some p \<and> 1 \<le> p \<and> p \<le> 65535) \<and> ch_name dto \<noteq> [] \<and> ch_ssh_user dto \<noteq> [])"
proof -
  have "is_plausible_ip_address value = (\<exists>a < 256. \<exists>b < 256. \<exists>c < 256. \<exists>d < 256.
      trim value = join_with ''.'' [show_nat a, show_nat b, show_nat c, show_nat d])" if "CHR ''.'' \<in> set (trim value)"
    using that by (auto simp: is_plausible_ip_address_def Let_def ipv4_pattern_iff)
  then show ?thesis
    by (auto simp: submit_host_form_def split: if_splits option.splits)
qed

definition demo_form :: host_form where
  "demo_form = \<lparr>hf_name = ''web'', hf_provider = AWS, hf_ip_address = ''203.0.113.10'', hf_ssh_port = ''22'', hf_ssh_user = ''root''\<rparr>"

definition demo_host_dto :: create_host_dto where
  "demo_host_dto = \<lparr>ch_name = ''web'', ch_provider = AWS, ch_ip_address = ''203.0.113.10'', ch_ssh_port = Some 22, ch_ssh_user = ''root''\<rparr>"

lemma evaluated_fields:
  shows "trim ''web'' = ''web''" and "trim ''root'' = ''root''" and "trim ''203.0.113.10'' = ''203.0.113.10''"
    and "is_plausible_ip_address ''203.0.113.10''" and "js_integer ''22'' = Some 22" and "js_integer ''30'' = Some 30"
    and "show_int 30 = ''30''" and "trim ''https://hooks.slack.com/services/T0/B0/x'' = ''https://hooks.slack.com/services/T0/B0/x''"
proof -
  show trims: "trim ''web'' = ''web''" "trim ''root'' = ''root''" "trim ''203.0.113.10'' = ''203.0.113.10''"
    "trim ''https://hooks.slack.com/services/T0/B0/x'' = ''https://hooks.slack.com/services/T0/B0/x''"
    by (intro trim_visible; simp add: visible_def)+
  have numbers: "trim ''22'' = ''22''" "trim ''30'' = ''30''" by (intro trim_visible; simp add: visible_def)+
  have "ipv4_pattern ''203.0.113.10''" by code_simp
  then show "is_plausible_ip_address ''203.0.113.10''" by (simp add: is_plausible_ip_address_def trims)
  have "decimal_integer ''22'' = Some 22" "decimal_integer ''30'' = Some 30" by code_simp+
  then show "js_integer ''22'' = Some 22" "js_integer ''30'' = Some 30" by (simp_all add: js_integer_def numbers)
  show "show_int 30 = ''30''" by code_simp
qed

lemma demo_form_submitted: "submit_host_form demo_form = Inr demo_host_dto"
  by (simp add: submit_host_form_def demo_form_def demo_host_dto_def evaluated_fields)

lemma address_check_exact_witness:
  "submit_host_form demo_form = Inr demo_host_dto \<and> is_plausible_ip_address ''203.0.113.10''
   \<and> (\<exists>a < 256. \<exists>b < 256. \<exists>c < 256. \<exists>d < 256. ''203.0.113.10'' = join_with ''.'' [show_nat a, show_nat b, show_nat c, show_nat d])
   \<and> \<not> is_plausible_ip_address ''203.0.113.010'' \<and> \<not> is_plausible_ip_address ''256.1.1.1''"
proof -
  have form: "hf_ip_address demo_form = ''203.0.113.10''" "trim ''203.0.113.10'' = ''203.0.113.10''"
    by (simp_all add: demo_form_def evaluated_fields)
  have "\<not> is_plausible_ip_address ''203.0.113.010''" "\<not> is_plausible_ip_address ''256.1.1.1''" by code_simp+
  moreover have "CHR ''.'' \<in> set (trim ''203.0.113.10'')" unfolding form(2) by simp
  moreover note address_check_exact [of "''203.0.113.10''" demo_form demo_host_dto, unfolded form]
  ultimately show ?thesis using demo_form_submitted by (simp only: form) blast
qed

subsection \<open>AlertsPage\<close>

record alert_condition_option =
  op_value :: string
  op_label :: string
  op_entityType :: alert_entity_type

definition ALERT_CONDITION_OPTIONS :: "alert_condition_option list" where
  "ALERT_CONDITION_OPTIONS =
    [\<lparr>op_value = ''host_status_transitioned_to:unreachable'', op_label = ''A host becomes unreachable'', op_entityType = AE_HOST\<rparr>,
     \<lparr>op_value = ''host_status_transitioned_to:degraded'', op_label = ''A host becomes degraded'', op_entityType = AE_HOST\<rparr>,
     \<lparr>op_value = ''ssl_status_transitioned_to:expiring_soon'', op_label = ''An SSL certificate is expiring soon'', op_entityType = AE_SSL_CERTIFICATE\<rparr>,
     \<lparr>op_value = ''ssl_status_transitioned_to:expired'', op_label = ''An SSL certificate expires'', op_entityType = AE_SSL_CERTIFICATE\<rparr>,
     \<lparr>op_value = ''service_status_transitioned_to:crash_loop'', op_label = ''A service enters a crash loop'', op_entityType = AE_SERVICE\<rparr>,
     \<lparr>op_value = ''service_status_transitioned_to:unhealthy'', op_label = ''A service becomes unhealthy'', op_entityType = AE_SERVICE\<rparr>,
     \<lparr>op_value = ''rollback_event:failed'', op_label = ''A rollback fails'', op_entityType = AE_ROLLBACK_EVENT\<rparr>,
     \<lparr>op_value = ''system:idle_host_detected'', op_label = ''An idle host is detected'', op_entityType = AE_SYSTEM\<rparr>,
     \<lparr>op_value = ''system:orphan_detected'', op_label = ''An orphaned domain or host is detected'', op_entityType = AE_SYSTEM\<rparr>]"

definition find_alert_condition_option :: "string \<Rightarrow> alert_condition_option option" where
  "find_alert_condition_option value = List.find (\<lambda>o'. op_value o' = value) ALERT_CONDITION_OPTIONS"

definition describe_alert_condition :: "string \<Rightarrow> string" where
  "describe_alert_condition value = (case find_alert_condition_option value of Some o' \<Rightarrow> op_label o' | None \<Rightarrow> value)"

record alert_form =
  af_webhook_url :: string
  af_condition_value :: string
  af_cooldown_minutes :: string

definition new_alert_form :: alert_form where
  "new_alert_form = \<lparr>af_webhook_url = [], af_condition_value = op_value (hd ALERT_CONDITION_OPTIONS),
     af_cooldown_minutes = show_int DEFAULT_COOLDOWN_MINUTES\<rparr>"

definition SLACK_WEBHOOK_PREFIX :: string where
  "SLACK_WEBHOOK_PREFIX = ''https://hooks.slack.com/services/''"

text \<open>The handler up to the request. Without an option it returns without a word: \<open>Inl None\<close>.\<close>

definition submit_alert_form :: "alert_form \<Rightarrow> string option + create_rule_dto" where
  "submit_alert_form f =
    (if \<not> prefix SLACK_WEBHOOK_PREFIX (trim (af_webhook_url f))
     then Inl (Some ''Enter a valid Slack incoming webhook URL (starts with https://hooks.slack.com/services/).'')
     else case js_integer (af_cooldown_minutes f) of
         None \<Rightarrow> Inl (Some ''Cooldown must be a whole number of minutes, 1 or more.'')
       | Some cooldown \<Rightarrow>
           if cooldown < 1 then Inl (Some ''Cooldown must be a whole number of minutes, 1 or more.'')
           else case find_alert_condition_option (af_condition_value f) of
               None \<Rightarrow> Inl None
             | Some option \<Rightarrow> Inr \<lparr>cr_name = op_label option, cr_entity_type = op_entityType option, cr_condition = op_value option,
                 cr_channel = SLACK, cr_channel_config = JObj [(''webhook_url'', JStr (trim (af_webhook_url f)))],
                 cr_cooldown_minutes = Some cooldown, cr_enabled = None\<rparr>)"

text \<open>What the server evaluates: a transition of an entity, or a finding of the daily insights job.\<close>

definition evaluated :: "alert_entity_type \<Rightarrow> string \<Rightarrow> bool" where
  "evaluated ty c \<longleftrightarrow> (\<exists>st. build_transition_condition ty st = Some c) \<or> (ty = AE_SYSTEM \<and> (\<exists>flag. c = insight_condition flag))"

lemma option_evaluated: "o' \<in> set ALERT_CONDITION_OPTIONS \<Longrightarrow> evaluated ty (op_value o') \<longleftrightarrow> ty = op_entityType o'"
proof -
  have flag: "(\<exists>flag. c = insight_condition flag) \<longleftrightarrow> c \<in> {''system:idle_host_detected'', ''system:orphan_detected''}" for c
    by (metis insertCI insertE insight_condition.elims insight_condition.simps singletonD)
  assume "o' \<in> set ALERT_CONDITION_OPTIONS"
  then show ?thesis by (cases ty) (auto simp: ALERT_CONDITION_OPTIONS_def evaluated_def flag)
qed

lemma submit_alert_form_Inr: "submit_alert_form f = Inr dto \<Longrightarrow>
   \<exists>o' \<in> set ALERT_CONDITION_OPTIONS. cr_entity_type dto = op_entityType o' \<and> cr_condition dto = op_value o' \<and> cr_channel dto = SLACK
     \<and> cr_enabled dto = None \<and> (\<exists>c. cr_cooldown_minutes dto = Some c \<and> 1 \<le> c)"
  by (auto simp: submit_alert_form_def find_alert_condition_option_def split: if_splits option.splits dest!: find_SomeD)

lemma create_rule_Inr: "create_rule E orgId dto w = (Inr rule, w') \<Longrightarrow>
   rule \<in> set (alert_rules w') \<and> rule_orgId rule = orgId \<and> rule_entityType rule = cr_entity_type dto
   \<and> rule_condition rule = cr_condition dto \<and> rule_channel rule = cr_channel dto
   \<and> rule_cooldownMinutes rule = or_default (cr_cooldown_minutes dto) DEFAULT_COOLDOWN_MINUTES
   \<and> rule_enabled rule = or_default (cr_enabled dto) True"
  by (auto simp: create_rule_def encrypt_config_def encrypt_def bind_def repo_insert_def repo_def Let_def split: option.splits if_splits)

text \<open>
  C23. The page's list of conditions is the server's, and each is coupled to the kind of entity the
  server evaluates it for: the values are the server's list, in its order; an option's entity type
  is the only one under which its condition is ever evaluated. So a rule that the form sends, once
  the server has saved it, belongs to the rules that the named event dispatches to.
\<close>

theorem alert_options_mirror_server:
  "map op_value ALERT_CONDITION_OPTIONS = ALERT_CONDITIONS
   \<and> (\<forall>o' \<in> set ALERT_CONDITION_OPTIONS. \<forall>ty. evaluated ty (op_value o') \<longleftrightarrow> ty = op_entityType o')
   \<and> (submit_alert_form f = Inr dto \<and> create_rule E orgId dto w = (Inr rule, w') \<longrightarrow>
        rule \<in> matching_rules w' orgId (cr_entity_type dto) (cr_condition dto) \<and> evaluated (cr_entity_type dto) (cr_condition dto)
        \<and> rule_channel rule = SLACK \<and> 1 \<le> rule_cooldownMinutes rule)"
proof (intro conjI ballI impI allI)
  show "map op_value ALERT_CONDITION_OPTIONS = ALERT_CONDITIONS"
    by (simp add: ALERT_CONDITION_OPTIONS_def ALERT_CONDITIONS_def)
next
  fix o' ty assume "o' \<in> set ALERT_CONDITION_OPTIONS"
  then show "evaluated ty (op_value o') \<longleftrightarrow> ty = op_entityType o'" by (rule option_evaluated)
next
  assume made: "submit_alert_form f = Inr dto \<and> create_rule E orgId dto w = (Inr rule, w')"
  from submit_alert_form_Inr [OF conjunct1 [OF made]] obtain o' where o': "o' \<in> set ALERT_CONDITION_OPTIONS"
    "cr_entity_type dto = op_entityType o'" "cr_condition dto = op_value o'" "cr_channel dto = SLACK" "cr_enabled dto = None"
    "\<exists>c. cr_cooldown_minutes dto = Some c \<and> 1 \<le> c" by blast
  show "rule \<in> matching_rules w' orgId (cr_entity_type dto) (cr_condition dto)" "rule_channel rule = SLACK"
    "1 \<le> rule_cooldownMinutes rule"
    using create_rule_Inr [OF conjunct2 [OF made]] o' by (auto simp: matching_rules_def rule_matches_def)
  show "evaluated (cr_entity_type dto) (cr_condition dto)" using o' option_evaluated by simp
qed

definition demo_alert_form :: alert_form where
  "demo_alert_form = new_alert_form\<lparr>af_webhook_url := ''https://hooks.slack.com/services/T0/B0/x''\<rparr>"

theorem alert_options_mirror_server_witness:
  "\<exists>dto rule w'. submit_alert_form demo_alert_form = Inr dto \<and> create_rule demo_env ''org'' dto empty_world = (Inr rule, w')
     \<and> rule \<in> matching_rules w' ''org'' AE_HOST ''host_status_transitioned_to:unreachable''"
proof -
  define dto where "dto = \<lparr>cr_name = ''A host becomes unreachable'', cr_entity_type = AE_HOST,
    cr_condition = ''host_status_transitioned_to:unreachable'', cr_channel = SLACK,
    cr_channel_config = JObj [(''webhook_url'', JStr ''https://hooks.slack.com/services/T0/B0/x'')], cr_cooldown_minutes = Some 30, cr_enabled = None\<rparr>"
  have "submit_alert_form demo_alert_form = Inr dto" 
    by (simp add: submit_alert_form_def demo_alert_form_def new_alert_form_def DEFAULT_COOLDOWN_MINUTES_def evaluated_fields
          SLACK_WEBHOOK_PREFIX_def find_alert_condition_option_def ALERT_CONDITION_OPTIONS_def dto_def)
  then have dto: "submit_alert_form demo_alert_form = Inr dto" "cr_entity_type dto = AE_HOST"
    "cr_condition dto = ''host_status_transitioned_to:unreachable''" by (simp_all add: dto_def)
  obtain rule w' where "create_rule demo_env ''org'' dto empty_world = (Inr rule, w')"
    by (simp add: create_rule_def encrypt_config_def encrypt_def bind_def repo_insert_ok [OF demo_env_ok(2) refl] empty_world_def)
  with dto show ?thesis
    using alert_options_mirror_server [of demo_alert_form dto demo_env "''org''" empty_world rule w'] by auto
qed

end
