(* ===== verification/Http_Api.thy ===== *)
theory Http_Api
  imports Wire Sessions Forms
begin

section \<open>The routes of the API\<close>

text \<open>
  From a request on the wire to a call of \<open>Api\<close> and back: the decorators of the controllers, the
  bodies as the validation pipe reads them into DTOs, the statuses, and the JSON of the answers.
  A path written in another way (a query string, an escape, an extra slash, other case) is read by
  Express, which is a parameter, as are a body that is an array and a \<open>null\<close> in the body of an
  update.
\<close>

subsection \<open>Bodies\<close>

datatype decoded = Call api_call | Refused | Unmodelled

definition body_value :: "http_request \<Rightarrow> json option" where
  "body_value rq = (case rq_body rq of None \<Rightarrow> Some (JObj []) | Some s \<Rightarrow> json_parse s)"

definition only_keys :: "string list \<Rightarrow> (string \<times> json) list \<Rightarrow> bool" where
  "only_keys keys kvs \<longleftrightarrow> list_all (\<lambda>kv. fst kv \<in> set keys) kvs"

definition text_field :: "(string \<times> json) list \<Rightarrow> string \<Rightarrow> string option" where
  "text_field kvs k = (case map_of kvs k of Some (JStr s) \<Rightarrow> Some s | _ \<Rightarrow> None)"

definition whole_field :: "(string \<times> json) list \<Rightarrow> string \<Rightarrow> int option" where
  "whole_field kvs k = (case map_of kvs k of Some (JNum l) \<Rightarrow> decimal_integer l | _ \<Rightarrow> None)"

definition flag_field :: "(string \<times> json) list \<Rightarrow> string \<Rightarrow> bool option" where
  "flag_field kvs k = (case map_of kvs k of Some (JBool b) \<Rightarrow> Some b | _ \<Rightarrow> None)"

definition object_field :: "(string \<times> json) list \<Rightarrow> string \<Rightarrow> json option" where
  "object_field kvs k = (case map_of kvs k of Some (JObj o') \<Rightarrow> Some (JObj o') | _ \<Rightarrow> None)"

definition enum_field :: "('e \<Rightarrow> string) \<Rightarrow> 'e list \<Rightarrow> (string \<times> json) list \<Rightarrow> string \<Rightarrow> 'e option" where
  "enum_field str values kvs k = Option.bind (text_field kvs k) (\<lambda>s. List.find (\<lambda>x. str x = s) values)"

text \<open>\<open>IsOptional\<close>: a property that is missing or \<open>null\<close> is not checked.\<close>

definition optionally :: "((string \<times> json) list \<Rightarrow> string \<Rightarrow> 'a option) \<Rightarrow> (string \<times> json) list \<Rightarrow> string \<Rightarrow> 'a option option" where
  "optionally read kvs k = (case map_of kvs k of
       None \<Rightarrow> Some None
     | Some v \<Rightarrow> if v = JNull then Some None else map_option Some (read kvs k))"

definition ENTITY_TYPES :: "alert_entity_type list" where
  "ENTITY_TYPES = [AE_HOST, AE_DOMAIN, AE_SSL_CERTIFICATE, AE_SERVICE, AE_ROLLBACK_EVENT, AE_SYSTEM]"

definition CHANNELS :: "alert_channel list" where "CHANNELS = [SLACK, EMAIL]"

definition create_host_body :: "(string \<times> json) list \<Rightarrow> decoded" where
  "create_host_body kvs =
    (if \<not> only_keys [''name'', ''provider'', ''ip_address'', ''ssh_port'', ''ssh_user''] kvs then Refused
     else case (text_field kvs ''name'', enum_field host_provider_str PROVIDERS kvs ''provider'', text_field kvs ''ip_address'',
                optionally whole_field kvs ''ssh_port'', text_field kvs ''ssh_user'') of
       (Some name, Some provider, Some ip, Some port, Some user) \<Rightarrow>
         Call (CreateHost \<lparr>ch_name = name, ch_provider = provider, ch_ip_address = ip, ch_ssh_port = port, ch_ssh_user = user\<rparr>)
     | _ \<Rightarrow> Refused)"

definition create_domain_body :: "(string \<times> json) list \<Rightarrow> decoded" where
  "create_domain_body kvs =
    (if \<not> only_keys [''hostname'', ''host_id''] kvs then Refused
     else case (text_field kvs ''hostname'', optionally text_field kvs ''host_id'') of
       (Some hostname, Some hostId) \<Rightarrow> Call (CreateDomain \<lparr>cd_hostname = hostname, cd_host_id = hostId\<rparr>)
     | _ \<Rightarrow> Refused)"

definition rollback_body :: "uuid \<Rightarrow> (string \<times> json) list \<Rightarrow> decoded" where
  "rollback_body i kvs =
    (if \<not> only_keys [''target_snapshot_id''] kvs then Refused
     else case text_field kvs ''target_snapshot_id'' of Some target \<Rightarrow> Call (RollBack i target) | None \<Rightarrow> Refused)"

definition RULE_KEYS :: "string list" where
  "RULE_KEYS = [''name'', ''entity_type'', ''condition'', ''channel'', ''channel_config'', ''cooldown_minutes'', ''enabled'']"

definition create_rule_body :: "(string \<times> json) list \<Rightarrow> decoded" where
  "create_rule_body kvs =
    (if \<not> only_keys RULE_KEYS kvs then Refused
     else case (text_field kvs ''name'', enum_field alert_entity_type_str ENTITY_TYPES kvs ''entity_type'', text_field kvs ''condition'',
                enum_field alert_channel_str CHANNELS kvs ''channel'', object_field kvs ''channel_config'',
                optionally whole_field kvs ''cooldown_minutes'', optionally flag_field kvs ''enabled'') of
       (Some name, Some ty, Some condition, Some channel, Some config, Some cooldown, Some enabled) \<Rightarrow>
         Call (CreateRule \<lparr>cr_name = name, cr_entity_type = ty, cr_condition = condition, cr_channel = channel,
           cr_channel_config = config, cr_cooldown_minutes = cooldown, cr_enabled = enabled\<rparr>)
     | _ \<Rightarrow> Refused)"

text \<open>Every property of an update is optional; only for the configuration is \<open>null\<close> kept apart.\<close>

definition config_field :: "(string \<times> json) list \<Rightarrow> string \<Rightarrow> json option option" where
  "config_field kvs k = (case map_of kvs k of
       None \<Rightarrow> Some None
     | Some v \<Rightarrow> if v = JNull then Some (Some JNull) else map_option Some (object_field kvs k))"

definition update_rule_body :: "uuid \<Rightarrow> (string \<times> json) list \<Rightarrow> decoded" where
  "update_rule_body i kvs =
    (if \<not> only_keys RULE_KEYS kvs then Refused
     else if list_ex (\<lambda>kv. snd kv = JNull \<and> fst kv \<noteq> ''channel_config'') kvs then Unmodelled
     else case (optionally text_field kvs ''name'', optionally (enum_field alert_entity_type_str ENTITY_TYPES) kvs ''entity_type'',
                optionally text_field kvs ''condition'', optionally (enum_field alert_channel_str CHANNELS) kvs ''channel'',
                config_field kvs ''channel_config'', optionally whole_field kvs ''cooldown_minutes'', optionally flag_field kvs ''enabled'') of
       (Some name, Some ty, Some condition, Some channel, Some config, Some cooldown, Some enabled) \<Rightarrow>
         Call (UpdateRule i \<lparr>ur_name = name, ur_entity_type = ty, ur_condition = condition, ur_channel = channel,
           ur_channel_config = config, ur_cooldown_minutes = cooldown, ur_enabled = enabled\<rparr>)
     | _ \<Rightarrow> Refused)"

definition connect_body :: "(string \<times> json) list \<Rightarrow> decoded" where
  "connect_body kvs =
    (if \<not> only_keys [''provider'', ''label'', ''apiKey''] kvs then Refused
     else case (enum_field cloud_provider_str cloud_providers kvs ''provider'', text_field kvs ''label'', text_field kvs ''apiKey'') of
       (Some provider, Some label, Some key) \<Rightarrow> Call (ConnectCloud \<lparr>cc_provider = provider, cc_label = label, cc_apiKey = key\<rparr>)
     | _ \<Rightarrow> Refused)"

text \<open>The object a handler with \<open>@Body()\<close> is given.\<close>

definition with_body :: "((string \<times> json) list \<Rightarrow> decoded) \<Rightarrow> json \<Rightarrow> decoded" where
  "with_body read v = (case v of JObj kvs \<Rightarrow> read kvs | JArr vs \<Rightarrow> Unmodelled | _ \<Rightarrow> Refused)"

subsection \<open>Routes\<close>

text \<open>
  A route: the method, the segments of the path with \<open>:id\<close> for a parameter, and the handler for the
  parameter and the body. Nest tries them in the order of the controllers and their methods.
\<close>

type_synonym route = "string \<times> string list \<times> (uuid \<Rightarrow> json \<Rightarrow> decoded)"

definition hosts_routes :: "route list" where
  "hosts_routes =
    [(''POST'', [''hosts''], \<lambda>i. with_body create_host_body),
     (''GET'', [''hosts''], \<lambda>i v. Call ListHosts),
     (''GET'', [''hosts'', '':id''], \<lambda>i v. Call (GetHost i)),
     (''GET'', [''hosts'', '':id'', ''setup-instructions''], \<lambda>i v. Call (GetSetupInstructions i)),
     (''DELETE'', [''hosts'', '':id''], \<lambda>i v. Call (RemoveHost i)),
     (''POST'', [''hosts'', '':id'', ''check''], \<lambda>i v. Call (CheckHost i))]"

definition host_services_routes :: "route list" where
  "host_services_routes = [(''GET'', [''hosts'', '':id'', ''services''], \<lambda>i v. Call (ListHostServices i))]"

definition services_routes :: "route list" where
  "services_routes =
    [(''GET'', [''services'', '':id''], \<lambda>i v. Call (GetService i)),
     (''POST'', [''services'', '':id'', ''check''], \<lambda>i v. Call (CheckService i))]"

definition service_snapshots_routes :: "route list" where
  "service_snapshots_routes = [(''GET'', [''services'', '':id'', ''snapshots''], \<lambda>i v. Call (ListSnapshots i))]"

definition service_rollback_routes :: "route list" where
  "service_rollback_routes = [(''POST'', [''services'', '':id'', ''rollback''], \<lambda>i. with_body (rollback_body i))]"

definition rollback_events_routes :: "route list" where
  "rollback_events_routes =
    [(''GET'', [''rollback-events''], \<lambda>i v. Call ListRollbacks),
     (''GET'', [''rollback-events'', '':id''], \<lambda>i v. Call (GetRollback i))]"

definition domains_routes :: "route list" where
  "domains_routes =
    [(''POST'', [''domains''], \<lambda>i. with_body create_domain_body),
     (''GET'', [''domains''], \<lambda>i v. Call ListDomains),
     (''GET'', [''domains'', '':id''], \<lambda>i v. Call (GetDomain i)),
     (''DELETE'', [''domains'', '':id''], \<lambda>i v. Call (RemoveDomain i)),
     (''POST'', [''domains'', '':id'', ''check''], \<lambda>i v. Call (CheckDomain i))]"

definition alert_rules_routes :: "route list" where
  "alert_rules_routes =
    [(''POST'', [''alert-rules''], \<lambda>i. with_body create_rule_body),
     (''GET'', [''alert-rules''], \<lambda>i v. Call ListRules),
     (''GET'', [''alert-rules'', '':id''], \<lambda>i v. Call (GetRule i)),
     (''PATCH'', [''alert-rules'', '':id''], \<lambda>i. with_body (update_rule_body i)),
     (''DELETE'', [''alert-rules'', '':id''], \<lambda>i v. Call (RemoveRule i))]"

definition alert_logs_routes :: "route list" where
  "alert_logs_routes = [(''GET'', [''alert-logs''], \<lambda>i v. Call (ListAlertLogs \<lparr>lq_alert_rule_id = None, lq_entity_type = None\<rparr>))]"

definition cloud_accounts_routes :: "route list" where
  "cloud_accounts_routes =
    [(''GET'', [''cloud-accounts''], \<lambda>i v. Call ListClouds),
     (''POST'', [''cloud-accounts''], \<lambda>i. with_body connect_body),
     (''DELETE'', [''cloud-accounts'', '':id''], \<lambda>i v. Call (DisconnectCloud i))]"

definition insights_routes :: "route list" where
  "insights_routes = [(''GET'', [''insights''], \<lambda>i v. Call GetInsights)]"

definition overview_routes :: "route list" where
  "overview_routes = [(''GET'', [''overview''], \<lambda>i v. Call GetOverview)]"

definition api_routes :: "route list" where
  "api_routes = hosts_routes @ domains_routes @ services_routes @ host_services_routes @ service_snapshots_routes
     @ service_rollback_routes @ rollback_events_routes @ alert_rules_routes @ alert_logs_routes @ insights_routes
     @ overview_routes @ cloud_accounts_routes"

definition plain_char :: "char \<Rightarrow> bool" where
  "plain_char c \<longleftrightarrow> hex_val c \<noteq> None \<or> c = CHR ''-''"

text \<open>A parameter that Express hands on as it is written; the ids of the database are of this form.\<close>

definition plain_segment :: "string \<Rightarrow> bool" where
  "plain_segment s \<longleftrightarrow> s \<noteq> [] \<and> list_all plain_char s"

text \<open>The parameter, where the path has the pattern.\<close>

fun match_path :: "string list \<Rightarrow> string list \<Rightarrow> uuid \<Rightarrow> uuid option" where
  "match_path [] [] i = Some i"
| "match_path (p # ps) (s # ss) i =
    (if p = '':id'' then (if plain_segment s then match_path ps ss s else None)
     else if p = s then match_path ps ss i else None)"
| "match_path _ _ i = None"

fun find_route :: "route list \<Rightarrow> string \<Rightarrow> string list \<Rightarrow> json \<Rightarrow> decoded" where
  "find_route [] m ss v = Unmodelled"
| "find_route ((m', ps, handler) # rest) m ss v =
    (case (if m = m' then match_path ps ss [] else None) of
       Some i \<Rightarrow> handler i v
     | None \<Rightarrow> find_route rest m ss v)"

definition route_request :: "http_request \<Rightarrow> json \<Rightarrow> decoded" where
  "route_request rq v = find_route api_routes (rq_method rq) (tl (split_on (CHR ''/'') (rq_path rq))) v"

subsection \<open>The server\<close>

fun success_status :: "api_call \<Rightarrow> nat" where
  "success_status (CreateHost dto) = 201" | "success_status (CreateDomain dto) = 201"
| "success_status (CreateRule dto) = 201" | "success_status (ConnectCloud dto) = 201"
| "success_status (RemoveHost i) = 204" | "success_status (RemoveDomain i) = 204"
| "success_status (RemoveRule i) = 204" | "success_status (DisconnectCloud i) = 204"
| "success_status (CheckHost i) = 202" | "success_status (CheckService i) = 202"
| "success_status (CheckDomain i) = 202" | "success_status (RollBack i target) = 202"
| "success_status _ = 200"

definition success_response :: "http_layer \<Rightarrow> api_call \<Rightarrow> api_response \<Rightarrow> http_response" where
  "success_response H call r = (case response_json_of (hl_iso H) r of
       Some v \<Rightarrow> json_response H (success_status call) v
     | None \<Rightarrow> \<lparr>rs_status = success_status call, rs_statusText = hl_reason H (success_status call), rs_body = []\<rparr>)"

text \<open>The guards come before the validation pipe.\<close>

definition refuse_call :: "env \<Rightarrow> http_layer \<Rightarrow> http_request \<Rightarrow> http_response action" where
  "refuse_call E H rq =
     bind (attempt (guarded E (Some [ADMIN]) (bearer_token H rq) (\<lambda>user. ret ()))) (\<lambda>result.
     case result of Inr u \<Rightarrow> refuse_body E H rq | Inl e \<Rightarrow> reject E H rq e)"

text \<open>The body parser takes objects and arrays only.\<close>

definition is_container :: "json \<Rightarrow> bool" where
  "is_container v = (case v of JObj kvs \<Rightarrow> True | JArr vs \<Rightarrow> True | _ \<Rightarrow> False)"

definition api_server :: "env \<Rightarrow> outside \<Rightarrow> http_layer \<Rightarrow> http_request \<Rightarrow> http_response action" where
  "api_server E X H rq = (case body_value rq of
       Some v \<Rightarrow>
         if \<not> is_container v then refuse_body E H rq
         else (case route_request rq v of
             Call call \<Rightarrow>
               if call_valid E call then answer_with E H rq (success_response H call) (serve E X (bearer_token H rq) call)
               else refuse_call E H rq
           | Refused \<Rightarrow> refuse_call E H rq
           | Unmodelled \<Rightarrow> hl_rest H rq)
     | None \<Rightarrow> refuse_body E H rq)"

text \<open>The whole server: the account routes of \<open>Sessions\<close>, and these for the rest.\<close>

definition with_api :: "env \<Rightarrow> outside \<Rightarrow> http_layer \<Rightarrow> http_layer" where
  "with_api E X H = H\<lparr>hl_rest := api_server E X H\<rparr>"

end
