(* ===== verification/Controls.thy ===== *)
theory Controls
  imports Rollback_Requests Services Client Runs
begin

section \<open>Controls of the page\<close>

text \<open>
  The parts of the page with a state of their own: \<open>PressHoldButton\<close>, which guards the rollback,
  the \<open>RollbackPanel\<close> around it with its polling, the theme and the toasts. A timer may fire at any
  time from the moment it is due: the browser promises no more.
\<close>

subsection \<open>PressHoldButton\<close>

definition HOLD_DURATION_MS :: int where "HOLD_DURATION_MS = 1500"

record hold_button =
  hb_timeout :: "int option" \<comment> \<open>\<open>timeoutRef\<close>: when the timer is due\<close>
  hb_holding :: bool

datatype hold_input =
    Pointer_Down | Pointer_Up | Pointer_Leave | Key_Down string | Key_Up string | Lost_Focus | Unmount

definition activation_key :: "string \<Rightarrow> bool" where
  "activation_key k \<longleftrightarrow> k = ''Enter'' \<or> k = '' ''"

definition start_hold :: "bool \<Rightarrow> int \<Rightarrow> hold_button \<Rightarrow> hold_button" where
  "start_hold disabled t b =
    (if disabled \<or> hb_timeout b \<noteq> None then b
     else b\<lparr>hb_holding := True, hb_timeout := Some (t + HOLD_DURATION_MS)\<rparr>)"

definition cancel_hold :: "hold_button \<Rightarrow> hold_button" where
  "cancel_hold b = b\<lparr>hb_timeout := None, hb_holding := False\<rparr>"

text \<open>The effect's cleanup.\<close>

definition unmount_hold :: "hold_button \<Rightarrow> hold_button" where
  "unmount_hold b = b\<lparr>hb_timeout := None\<rparr>"

fun hold_handler :: "bool \<Rightarrow> int \<Rightarrow> hold_input \<Rightarrow> hold_button \<Rightarrow> hold_button" where
  "hold_handler disabled t Pointer_Down b = start_hold disabled t b"
| "hold_handler disabled t Pointer_Up b = cancel_hold b"
| "hold_handler disabled t Pointer_Leave b = cancel_hold b"
| "hold_handler disabled t (Key_Down k) b = (if activation_key k then start_hold disabled t b else b)"
| "hold_handler disabled t (Key_Up k) b = (if activation_key k then cancel_hold b else b)"
| "hold_handler disabled t Lost_Focus b = cancel_hold b"
| "hold_handler disabled t Unmount b = unmount_hold b"

definition hold_fires :: "hold_button \<Rightarrow> hold_button" where
  "hold_fires b = b\<lparr>hb_timeout := None, hb_holding := False\<rparr>"

text \<open>What happened to a button, newest first: inputs, with the \<open>disabled\<close> of the moment, and confirmations.\<close>

datatype hold_event = Input bool hold_input | Confirm

record hold_run =
  hr_now :: int
  hr_mounted :: bool
  hr_button :: hold_button
  hr_past :: "(int \<times> hold_event) list"

inductive hold_step :: "hold_run \<Rightarrow> hold_run \<Rightarrow> bool" where
  input: "hr_mounted r \<Longrightarrow> hold_step r (r\<lparr>hr_mounted := (i \<noteq> Unmount), hr_button := hold_handler disabled (hr_now r) i (hr_button r),
     hr_past := (hr_now r, Input disabled i) # hr_past r\<rparr>)"
| passing: "0 \<le> d \<Longrightarrow> hold_step r (r\<lparr>hr_now := hr_now r + d\<rparr>)"
| firing: "hb_timeout (hr_button r) = Some due \<Longrightarrow> due \<le> hr_now r \<Longrightarrow>
     hold_step r (r\<lparr>hr_button := hold_fires (hr_button r), hr_past := (hr_now r, Confirm) # hr_past r\<rparr>)"

inductive_cases hold_stepE: "hold_step r r'"

definition new_button :: "hold_run \<Rightarrow> bool" where
  "new_button r \<longleftrightarrow> hr_mounted r \<and> hr_button r = \<lparr>hb_timeout = None, hb_holding = False\<rparr> \<and> hr_past r = []"

text \<open>The press that still holds, read off the past alone.\<close>

fun is_press :: "hold_event \<Rightarrow> bool" where
  "is_press (Input disabled Pointer_Down) = (\<not> disabled)"
| "is_press (Input disabled (Key_Down k)) = (\<not> disabled \<and> activation_key k)"
| "is_press _ = False"

fun is_release :: "hold_event \<Rightarrow> bool" where
  "is_release (Input disabled Pointer_Up) = True"
| "is_release (Input disabled Pointer_Leave) = True"
| "is_release (Input disabled (Key_Up k)) = activation_key k"
| "is_release (Input disabled Lost_Focus) = True"
| "is_release (Input disabled Unmount) = True"
| "is_release Confirm = True"
| "is_release _ = False"

fun held_since :: "(int \<times> hold_event) list \<Rightarrow> int option" where
  "held_since [] = None"
| "held_since ((t, e) # past) =
    (if is_release e then None
     else if is_press e then (case held_since past of Some s \<Rightarrow> Some s | None \<Rightarrow> Some t)
     else held_since past)"

definition confirmations_held :: "(int \<times> hold_event) list \<Rightarrow> bool" where
  "confirmations_held past \<longleftrightarrow> (\<forall>new t old. past = new @ (t, Confirm) # old \<longrightarrow>
     (\<exists>s. held_since old = Some s \<and> s + HOLD_DURATION_MS \<le> t))"

definition hold_ok :: "hold_run \<Rightarrow> bool" where
  "hold_ok r \<longleftrightarrow> hb_timeout (hr_button r) = map_option (\<lambda>s. s + HOLD_DURATION_MS) (held_since (hr_past r))
     \<and> (hr_mounted r \<longrightarrow> (hb_holding (hr_button r) \<longleftrightarrow> held_since (hr_past r) \<noteq> None)) \<and> confirmations_held (hr_past r)
     \<and> (\<not> hr_mounted r \<longrightarrow> held_since (hr_past r) = None)"

lemma confirmations_held_Cons:
  "confirmations_held ((t, e) # past) \<longleftrightarrow>
    (e = Confirm \<longrightarrow> (\<exists>s. held_since past = Some s \<and> s + HOLD_DURATION_MS \<le> t)) \<and> confirmations_held past"
  unfolding confirmations_held_def by (force simp: Cons_eq_append_conv)

lemmas hold_simps = hold_ok_def confirmations_held_Cons start_hold_def cancel_hold_def unmount_hold_def hold_fires_def

lemma hold_ok_input:
  assumes "hold_ok r" "hr_mounted r"
  shows "hold_ok (r\<lparr>hr_mounted := (i \<noteq> Unmount), hr_button := hold_handler disabled (hr_now r) i (hr_button r),
     hr_past := (hr_now r, Input disabled i) # hr_past r\<rparr>)"
  using assms by (cases i) (auto simp: hold_simps split: option.splits)

interpretation holds: step_invariant new_button hold_step hold_ok
proof
  fix r r' assume "hold_step r r'" "hold_ok r"
  then show "hold_ok r'"
  proof (induction rule: hold_step.induct)
    case (input r i disabled)
    then show ?case by (intro hold_ok_input)
  qed (auto simp: hold_simps)
qed (simp add: new_button_def hold_ok_def confirmations_held_def)

lemma held_since_press:
  "held_since past = Some s \<Longrightarrow> \<exists>new e old. past = new @ (s, e) # old \<and> is_press e \<and> (\<forall>x \<in> set new. \<not> is_release (snd x))"
proof (induction past)
  case (Cons x past)
  obtain t e where x: "x = (t, e)" by force
  from Cons.prems x have ne: "\<not> is_release e" by (auto split: if_splits)
  show ?case
  proof (cases "is_press e \<and> held_since past = None")
    case True
    with Cons.prems x ne have "s = t" by simp
    with True x show ?thesis by (intro exI [of _ "[]"]) auto
  next
    case False
    with Cons.prems x ne have "held_since past = Some s" by (auto split: if_splits option.splits)
    from Cons.IH [OF this] obtain new e' old where "past = new @ (s, e') # old" "is_press e'" "\<forall>x \<in> set new. \<not> is_release (snd x)"
      by blast
    with x ne show ?thesis by (intro exI [of _ "x # new"]) auto
  qed
qed simp

text \<open>
  C35. A rollback is confirmed by holding only. Every confirmation of the button comes after a press
  of the pointer or of Enter or Space, on a button that was not disabled, that lies at least 1.5
  seconds back, with no release, no leaving, no loss of focus, no unmounting and no other
  confirmation in between; and the timer is running exactly while such a press holds.
\<close>

theorem confirms_only_when_held:
  assumes "reachable new_button hold_step r"
  shows "(\<forall>new t old. hr_past r = new @ (t, Confirm) # old \<longrightarrow>
      (\<exists>between s e before. old = between @ (s, e) # before \<and> is_press e \<and> s + 1500 \<le> t
         \<and> (\<forall>x \<in> set between. \<not> is_release (snd x))))
    \<and> (hb_timeout (hr_button r) \<noteq> None \<longleftrightarrow> held_since (hr_past r) \<noteq> None)"
proof -
  have ok: "hold_ok r" by (rule holds.reachable_ok [OF assms])
  have "\<exists>between s e before. old = between @ (s, e) # before \<and> is_press e \<and> s + 1500 \<le> t \<and> (\<forall>x \<in> set between. \<not> is_release (snd x))"
    if here: "hr_past r = new @ (t, Confirm) # old" for new t old
  proof -
    have "confirmations_held (hr_past r)" using ok by (simp add: hold_ok_def)
    then obtain s where "held_since old = Some s" "s + 1500 \<le> t"
      using here unfolding confirmations_held_def HOLD_DURATION_MS_def by blast
    with held_since_press [OF this(1)] show ?thesis by blast
  qed
  with ok show ?thesis by (auto simp: hold_ok_def)
qed

definition demo_button :: hold_run where
  "demo_button = \<lparr>hr_now = 0, hr_mounted = True, hr_button = \<lparr>hb_timeout = None, hb_holding = False\<rparr>, hr_past = []\<rparr>"

definition repeated_key :: "(int \<times> hold_event) list" where
  "repeated_key = [(3000, Confirm), (1500, Input False (Key_Down ''Enter'')), (1500, Confirm), (0, Input False (Key_Down ''Enter''))]"

text \<open>
  A key that is kept down repeats its event: after the first confirmation the repeated event
  starts a new hold, and 1.5 seconds later there is a second confirmation without any release.
\<close>

lemma key_repeat_confirms_again:
  "\<exists>r. reachable new_button hold_step r \<and> hr_past r = repeated_key \<and> (\<forall>x \<in> set (hr_past r). is_release (snd x) \<longrightarrow> snd x = Confirm)"
proof -
  let ?idle = "\<lparr>hb_timeout = None, hb_holding = False\<rparr>"
  have press: "hold_step \<lparr>hr_now = t, hr_mounted = True, hr_button = ?idle, hr_past = p\<rparr>
      \<lparr>hr_now = t, hr_mounted = True, hr_button = \<lparr>hb_timeout = Some (t + 1500), hb_holding = True\<rparr>,
       hr_past = (t, Input False (Key_Down ''Enter'')) # p\<rparr>" for t p
    using input [where r = "\<lparr>hr_now = t, hr_mounted = True, hr_button = ?idle, hr_past = p\<rparr>" and i = "Key_Down ''Enter''" and disabled = False]
    by (simp add: start_hold_def HOLD_DURATION_MS_def activation_key_def)
  have wait: "hold_step \<lparr>hr_now = t, hr_mounted = True, hr_button = b, hr_past = p\<rparr>
      \<lparr>hr_now = t + 1500, hr_mounted = True, hr_button = b, hr_past = p\<rparr>" for t b p
    using passing [of 1500 "\<lparr>hr_now = t, hr_mounted = True, hr_button = b, hr_past = p\<rparr>"] by simp
  have fire: "hold_step \<lparr>hr_now = t, hr_mounted = True, hr_button = \<lparr>hb_timeout = Some t, hb_holding = True\<rparr>, hr_past = p\<rparr>
      \<lparr>hr_now = t, hr_mounted = True, hr_button = ?idle, hr_past = (t, Confirm) # p\<rparr>" for t p
    using firing [of "\<lparr>hr_now = t, hr_mounted = True, hr_button = \<lparr>hb_timeout = Some t, hb_holding = True\<rparr>, hr_past = p\<rparr>" t]
    by (simp add: hold_fires_def)
  have hold: "reachable new_button hold_step \<lparr>hr_now = t, hr_mounted = True, hr_button = ?idle, hr_past = p\<rparr> \<Longrightarrow>
      reachable new_button hold_step \<lparr>hr_now = t + 1500, hr_mounted = True, hr_button = ?idle,
        hr_past = (t + 1500, Confirm) # (t, Input False (Key_Down ''Enter'')) # p\<rparr>" for t p
    by (blast intro: reachable_step press wait fire)
  have "reachable new_button hold_step demo_button"
    by (rule reachable_start) (simp add: new_button_def demo_button_def)
  from hold [OF this [unfolded demo_button_def], THEN hold]
  have "reachable new_button hold_step \<lparr>hr_now = 3000, hr_mounted = True, hr_button = ?idle, hr_past = repeated_key\<rparr>"
    by (simp add: repeated_key_def)
  then show ?thesis by (intro exI conjI, assumption) (auto simp: repeated_key_def)
qed

theorem confirms_only_when_held_witness:
  "\<exists>r between s e before. reachable new_button hold_step r \<and> hr_past r = (3000, Confirm) # between @ (s, e) # before \<and> is_press e \<and> s \<le> 1500"
proof -
  obtain r where r: "reachable new_button hold_step r" "hr_past r = [] @ (3000, Confirm) # tl repeated_key"
    using key_repeat_confirms_again by (auto simp: repeated_key_def)
  with confirms_only_when_held [OF r(1)] obtain between s e before where
    "tl repeated_key = between @ (s, e) # before" "is_press e" "s + 1500 \<le> 3000" by blast
  with r show ?thesis by (intro exI [of _ r] exI [of _ between] exI [of _ s] exI [of _ e] exI [of _ before]) simp
qed

subsection \<open>RollbackPanel\<close>

record rollback_panel =
  rp_selected :: string
  rp_event :: "json option" \<comment> \<open>\<open>rollbackEventId\<close>\<close>

definition new_panel :: rollback_panel where
  "new_panel = \<lparr>rp_selected = [], rp_event = null_value\<rparr>"

definition target_snapshot :: "string \<Rightarrow> snapshot_response list \<Rightarrow> snapshot_response option" where
  "target_snapshot selected ss = List.find (\<lambda>s. sr_id s = selected) ss"

definition rollbackable_snapshots :: "snapshot_response list \<Rightarrow> snapshot_response list" where
  "rollbackable_snapshots ss = filter (\<lambda>s. \<not> sr_is_current s) ss"

definition select_snapshot :: "string \<Rightarrow> rollback_panel \<Rightarrow> rollback_panel" where
  "select_snapshot i p = p\<lparr>rp_selected := i\<rparr>"

definition trigger_rollback :: "'w platform \<Rightarrow> string \<Rightarrow> string \<Rightarrow> ('w, json option) client" where
  "trigger_rollback W serviceId targetSnapshotId =
     api_post W (''/services/'' @ serviceId @ ''/rollback'') (Some (JObj [(''target_snapshot_id'', JStr targetSnapshotId)])) False"

text \<open>The confirmation of the button. A mutation that fails leaves the panel as it is.\<close>

definition confirm_rollback :: "'w platform \<Rightarrow> string \<Rightarrow> snapshot_response list \<Rightarrow> rollback_panel \<Rightarrow> ('w, rollback_panel) client" where
  "confirm_rollback W serviceId ss p = (case target_snapshot (rp_selected p) ss of
       None \<Rightarrow> ret p
     | Some target \<Rightarrow>
         try_catch
           (bind (trigger_rollback W serviceId (sr_id target)) (\<lambda>response.
            bind (read_property response ''rollback_event_id'') (\<lambda>i. ret (p\<lparr>rp_event := i\<rparr>))))
           (\<lambda>_. ret p))"

definition start_another :: "rollback_panel \<Rightarrow> rollback_panel" where
  "start_another p = p\<lparr>rp_event := null_value, rp_selected := []\<rparr>"

definition ROLLBACK_POLL_INTERVAL_MS :: int where "ROLLBACK_POLL_INTERVAL_MS = 2000"
definition DEFAULT_POLL_INTERVAL_MS :: int where "DEFAULT_POLL_INTERVAL_MS = 30000"
definition PENDING_SETUP_POLL_INTERVAL_MS :: int where "PENDING_SETUP_POLL_INTERVAL_MS = 3000"

definition TERMINAL_STATUSES :: "string list" where
  "TERMINAL_STATUSES = [''succeeded'', ''failed'']"

text \<open>\<open>refetchInterval\<close>, where \<open>None\<close> is \<open>false\<close>; the argument is the status last read, if any.\<close>

definition rollback_refetch_interval :: "string option \<Rightarrow> int option" where
  "rollback_refetch_interval status = (case status of
       Some s \<Rightarrow> if s \<noteq> [] \<and> s \<in> set TERMINAL_STATUSES then None else Some ROLLBACK_POLL_INTERVAL_MS
     | None \<Rightarrow> Some ROLLBACK_POLL_INTERVAL_MS)"

definition host_refetch_interval :: "string option \<Rightarrow> int" where
  "host_refetch_interval status = (if status = Some ''pending_setup'' then PENDING_SETUP_POLL_INTERVAL_MS else DEFAULT_POLL_INTERVAL_MS)"

text \<open>The message under the log, and whether the button for another rollback is shown.\<close>

definition rollback_message :: "string option \<Rightarrow> string option" where
  "rollback_message status =
    (if status = Some ''succeeded'' then Some ''Rollback succeeded.''
     else if status = Some ''failed'' then Some ''Rollback failed. See the log above.'' else None)"

definition offers_another :: "string option \<Rightarrow> bool" where
  "offers_another status \<longleftrightarrow> status = Some ''succeeded'' \<or> status = Some ''failed''"


definition two_deployments :: world where
  "two_deployments = demo_world\<lparr>snapshots := [demo_snapshot, demo_snapshot\<lparr>snap_id := ''old'', snap_isCurrent := False\<rparr>]\<rparr>"


subsection \<open>Theme\<close>

datatype theme = Light | Dark

fun theme_str :: "theme \<Rightarrow> string" where
  "theme_str Light = ''light''"
| "theme_str Dark = ''dark''"

definition THEME_STORAGE_KEY :: string where "THEME_STORAGE_KEY = ''icc.theme''"

definition get_initial_theme :: "(string \<Rightarrow> string option) \<Rightarrow> bool \<Rightarrow> theme" where
  "get_initial_theme storage prefersLight = (case storage THEME_STORAGE_KEY of
       Some s \<Rightarrow> if s = ''light'' then Light else if s = ''dark'' then Dark else if prefersLight then Light else Dark
     | None \<Rightarrow> if prefersLight then Light else Dark)"

definition toggle_theme :: "theme \<Rightarrow> theme" where
  "toggle_theme current = (if current = Dark then Light else Dark)"

record theme_page =
  tp_theme :: theme
  tp_dataset :: string \<comment> \<open>\<open>data-theme\<close> of the root element\<close>
  tp_storage :: "string \<Rightarrow> string option"

text \<open>The effect after each change. Storage that is disabled throws, which is caught.\<close>

definition theme_effect :: "bool \<Rightarrow> theme_page \<Rightarrow> theme_page" where
  "theme_effect storageWorks p = p\<lparr>tp_dataset := theme_str (tp_theme p),
     tp_storage := (if storageWorks then (tp_storage p)(THEME_STORAGE_KEY := Some (theme_str (tp_theme p))) else tp_storage p)\<rparr>"

definition theme_toggled :: "bool \<Rightarrow> theme_page \<Rightarrow> theme_page" where
  "theme_toggled storageWorks p = theme_effect storageWorks (p\<lparr>tp_theme := toggle_theme (tp_theme p)\<rparr>)"

definition theme_loaded :: "bool \<Rightarrow> bool \<Rightarrow> (string \<Rightarrow> string option) \<Rightarrow> theme_page" where
  "theme_loaded storageWorks prefersLight storage = theme_effect storageWorks
     \<lparr>tp_theme = get_initial_theme storage prefersLight, tp_dataset = [], tp_storage = storage\<rparr>"

text \<open>The page a user left is the page they find, and two toggles undo each other.\<close>

lemma theme_survives_reload:
  "tp_theme (theme_loaded b prefers (tp_storage (theme_toggled True p))) = tp_theme (theme_toggled True p)"
  "tp_theme (theme_loaded b prefers (tp_storage (theme_loaded True prefers' st))) = tp_theme (theme_loaded True prefers' st)"
  "tp_theme (theme_toggled b (theme_toggled b' p)) = tp_theme p"
  by (cases "tp_theme p"; simp add: theme_loaded_def theme_toggled_def theme_effect_def get_initial_theme_def toggle_theme_def
      split: option.split)+

subsection \<open>Toasts\<close>

datatype toast_variant = Toast_Success | Toast_Error | Toast_Info

record toast =
  to_id :: nat
  to_message :: string
  to_variant :: toast_variant

record toaster =
  ts_now :: int
  ts_next :: nat \<comment> \<open>\<open>nextToastId\<close>\<close>
  ts_toasts :: "toast list"
  ts_timers :: "(int \<times> nat) list" \<comment> \<open>when a timer is due, and the toast it dismisses\<close>

definition AUTO_DISMISS_MS :: int where "AUTO_DISMISS_MS = 4000"

definition dismiss_toast :: "nat \<Rightarrow> toaster \<Rightarrow> toaster" where
  "dismiss_toast i s = s\<lparr>ts_toasts := filter (\<lambda>t. to_id t \<noteq> i) (ts_toasts s)\<rparr>"

definition show_toast :: "string \<Rightarrow> toast_variant option \<Rightarrow> toaster \<Rightarrow> toaster" where
  "show_toast message variant s =
     s\<lparr>ts_next := Suc (ts_next s),
       ts_toasts := ts_toasts s @ [\<lparr>to_id = ts_next s, to_message = message,
         to_variant = (case variant of None \<Rightarrow> Toast_Success | Some v \<Rightarrow> v)\<rparr>],
       ts_timers := ts_timers s @ [(ts_now s + AUTO_DISMISS_MS, ts_next s)]\<rparr>"

inductive toast_step :: "toaster \<Rightarrow> toaster \<Rightarrow> bool" where
  showing: "toast_step s (show_toast message variant s)"
| closing: "toast_step s (dismiss_toast i s)"
| timing_out: "ts_timers s = ts @ (due, i) # ts' \<Longrightarrow> due \<le> ts_now s \<Longrightarrow>
     toast_step s (dismiss_toast i (s\<lparr>ts_timers := ts @ ts'\<rparr>))"
| time_passing: "0 \<le> d \<Longrightarrow> toast_step s (s\<lparr>ts_now := ts_now s + d\<rparr>)"

definition no_toasts :: "toaster \<Rightarrow> bool" where
  "no_toasts s \<longleftrightarrow> ts_next s = 1 \<and> ts_toasts s = [] \<and> ts_timers s = []"

text \<open>Ids are never used twice, and every toast shown has a timer running that takes it away.\<close>

definition toasts_ok :: "toaster \<Rightarrow> bool" where
  "toasts_ok s \<longleftrightarrow> distinct (map to_id (ts_toasts s)) \<and> (\<forall>t \<in> set (ts_toasts s). to_id t < ts_next s)
     \<and> (\<forall>t \<in> set (ts_toasts s). \<exists>due. (due, to_id t) \<in> set (ts_timers s) \<and> due \<le> ts_now s + AUTO_DISMISS_MS)"

interpretation toasts: step_invariant no_toasts toast_step toasts_ok
proof
  fix s s' assume "toast_step s s'" "toasts_ok s"
  then show "toasts_ok s'"
  proof (induction rule: toast_step.induct)
    case (showing s message variant)
    then show ?case by (auto simp: toasts_ok_def show_toast_def)
  next
    case (closing s i)
    then show ?case by (auto simp: toasts_ok_def dismiss_toast_def distinct_map_filter)
  next
    case (timing_out s ts due i ts')
    then show ?case by (fastforce simp: toasts_ok_def dismiss_toast_def distinct_map_filter)
  next
    case (time_passing d s)
    then show ?case by (force simp: toasts_ok_def)
  qed
qed (simp add: no_toasts_def toasts_ok_def)

lemma toast_goes_away:
  assumes "reachable no_toasts toast_step s" "t \<in> set (ts_toasts s)"
  shows "\<exists>s'. toast_step\<^sup>*\<^sup>* s s' \<and> t \<notin> set (ts_toasts s') \<and> ts_now s' \<le> ts_now s + AUTO_DISMISS_MS"
proof -
  have "toasts_ok s" by (rule toasts.reachable_ok [OF assms(1)])
  then obtain due ts ts' where due: "ts_timers s = ts @ (due, to_id t) # ts'" "due \<le> ts_now s + AUTO_DISMISS_MS"
    using assms(2) by (metis (no_types, lifting) toasts_ok_def in_set_conv_decomp)
  let ?s = "s\<lparr>ts_now := ts_now s + AUTO_DISMISS_MS\<rparr>"
  have "toast_step s ?s" using time_passing [of AUTO_DISMISS_MS s] by (simp add: AUTO_DISMISS_MS_def)
  moreover have "toast_step ?s (dismiss_toast (to_id t) (?s\<lparr>ts_timers := ts @ ts'\<rparr>))"
    by (rule timing_out) (use due in auto)
  ultimately have "toast_step\<^sup>*\<^sup>* s (dismiss_toast (to_id t) (?s\<lparr>ts_timers := ts @ ts'\<rparr>))" by (meson r_into_rtranclp rtranclp_trans)
  then show ?thesis by (intro exI conjI, assumption) (simp_all add: dismiss_toast_def)
qed

end
