(* ===== verification/Tenant_Reads.thy ===== *)
theory Tenant_Reads
  imports Api
begin

section \<open>What an organization sees\<close>

text \<open>
  \<open>own_tenant\<close> is the database of one organization alone. The listings and the detail pages are
  answered from it: no row of another organization has any influence on them. The insights are
  the exception, see below.
\<close>

definition own :: "('r \<Rightarrow> uuid) \<Rightarrow> uuid \<Rightarrow> 'r list \<Rightarrow> 'r list" where
  "own key orgId t = filter (\<lambda>x. key x = orgId) t"

definition own_tenant :: "uuid \<Rightarrow> world \<Rightarrow> world" where
  "own_tenant orgId w =
    (let hs = own host_orgId orgId (hosts w); ss = own svc_orgId orgId (services w); ds = own dom_orgId orgId (domains w);
         rs = own rule_orgId orgId (alert_rules w)
     in w\<lparr>organizations := [], users := [], cloud_accounts := own ca_orgId orgId (cloud_accounts w), hosts := hs, services := ss,
          snapshots := of_rows snap_serviceId svc_id ss (snapshots w),
          rollback_events := of_rows ev_serviceId svc_id ss (rollback_events w), alert_rules := rs,
          alert_logs := of_rows alog_alertRuleId rule_id rs (alert_logs w),
          hc_logs := filter (\<lambda>l. hlog_entityId l \<in> host_id ` set hs \<union> svc_id ` set ss \<union> dom_id ` set ds) (hc_logs w),
          insight_states := [], domains := ds, ssl_certificates := of_rows cert_domainId dom_id ds (ssl_certificates w),
          host_jobs := [], domain_jobs := [], rollback_jobs := [], schedulers := [], cooldown_keys := [], steps := 0\<rparr>)"

lemma own_tenant_steps [simp]: "own_tenant orgId (w\<lparr>steps := n\<rparr>) = own_tenant orgId w"
  by (simp add: own_tenant_def Let_def)

lemma in_own [simp]: "x \<in> set (own key orgId t) \<longleftrightarrow> x \<in> set t \<and> key x = orgId"
  by (simp add: own_def)

lemma own_of_foreign: "orgId \<noteq> orgId' \<Longrightarrow> own key orgId (foreign key orgId' t) = own key orgId t"
  by (auto simp: own_def foreign_def intro: filter_cong)

lemma of_rows_of_rows: "set rows' \<subseteq> set rows \<Longrightarrow> of_rows fk rid rows' (of_rows fk rid rows t) = of_rows fk rid rows' t"
  by (auto simp: of_rows_def intro!: filter_cong)

text \<open>An organization is part of what the others must leave alone.\<close>

lemma own_tenant_of_others:
  assumes "orgId \<noteq> orgId'"
  shows "own_tenant orgId (other_tenants orgId' w) = own_tenant orgId w"
proof -
  note o = own_of_foreign [OF assms]
  have s: "set (own key orgId t) \<subseteq> set (foreign key orgId' t)" for key and t :: "'r list"
    using assms by auto
  show ?thesis
    by (simp add: own_tenant_def other_tenants_def Let_def o of_rows_of_rows [OF s] del: in_foreign in_own)
qed

lemma own_tenant_kept:
  "other_tenants orgId' w' = other_tenants orgId' w \<Longrightarrow> orgId \<noteq> orgId' \<Longrightarrow> own_tenant orgId w' = own_tenant orgId w"
  by (metis own_tenant_of_others)

subsection \<open>Answers from the own rows\<close>

definition tenant_answers :: "uuid \<Rightarrow> (world \<Rightarrow> bool) \<Rightarrow> 'a action \<Rightarrow> bool" where
  "tenant_answers orgId A m \<longleftrightarrow> (\<forall>w w'. A w \<longrightarrow> A w' \<longrightarrow> own_tenant orgId w = own_tenant orgId w' \<longrightarrow> fst (m w) = fst (m w'))"

lemma answers_pure [simp]: "tenant_answers orgId A (ret x)" "tenant_answers orgId A (throw e)" "tenant_answers orgId A (lift_result r)"
  by (simp_all add: tenant_answers_def prog_simps)

lemma answers_weaken: "tenant_answers orgId B m \<Longrightarrow> (\<And>w. A w \<Longrightarrow> B w) \<Longrightarrow> tenant_answers orgId A m"
  by (auto simp: tenant_answers_def)

lemma answers_repo:
  assumes "no_db_fault E" "\<And>w. A w \<Longrightarrow> g w = g (own_tenant orgId w)"
  shows "tenant_answers orgId A (repo E (\<lambda>w. (Inr (g w), w)))"
  unfolding tenant_answers_def
proof (intro allI impI)
  fix w w' assume "A w" "A w'" "own_tenant orgId w = own_tenant orgId w'"
  then have "g w = g w'" using assms(2) [of w] assms(2) [of w'] by argo
  then show "fst (repo E (\<lambda>w. (Inr (g w), w)) w) = fst (repo E (\<lambda>w. (Inr (g w), w)) w')"
    using assms(1) by (simp add: repo_def no_db_fault_def)
qed

text \<open>A read step, what is known of its result, and the rest.\<close>

lemma answers_bind:
  assumes "tenant_answers orgId A m" "reads m" "\<And>w x n. A w \<Longrightarrow> fst (m w) = Inr x \<Longrightarrow> B x (w\<lparr>steps := n\<rparr>)" "\<And>x. tenant_answers orgId (B x) (k x)"
  shows "tenant_answers orgId A (bind m k)"
  unfolding tenant_answers_def
proof (intro allI impI)
  fix w w' assume w: "A w" "A w'" and eq: "own_tenant orgId w = own_tenant orgId w'"
  then have f: "fst (m w) = fst (m w')" using assms(1) unfolding tenant_answers_def by blast
  obtain n n' where n: "snd (m w) = w\<lparr>steps := n\<rparr>" "snd (m w') = w'\<lparr>steps := n'\<rparr>"
    using assms(2) unfolding reads_def by metis
  show "fst (bind m k w) = fst (bind m k w')"
  proof (cases "fst (m w)")
    case (Inr x)
    from assms(3) [OF w(1) Inr] assms(3) [OF w(2)] Inr f
    have "B x (w\<lparr>steps := n\<rparr>)" "B x (w'\<lparr>steps := n'\<rparr>)" by (metis, metis)
    moreover have "own_tenant orgId (w\<lparr>steps := n\<rparr>) = own_tenant orgId (w'\<lparr>steps := n'\<rparr>)" using eq by simp
    ultimately have "fst (k x (w\<lparr>steps := n\<rparr>)) = fst (k x (w'\<lparr>steps := n'\<rparr>))"
      using assms(4) [of x] unfolding tenant_answers_def by blast
    with Inr f n show ?thesis by (auto simp: bind_def split: prod.splits)
  qed (use f in \<open>auto simp: bind_def split: prod.splits\<close>)
qed

lemma answers_map: "tenant_answers orgId A m \<Longrightarrow> tenant_answers orgId A (bind m (\<lambda>x. ret (f x)))"
proof -
  have "fst (bind m (\<lambda>x. ret (f x)) w) = (case fst (m w) of Inl e \<Rightarrow> Inl e | Inr x \<Rightarrow> Inr (f x))" for w
    by (simp add: bind_def ret_def split: prod.split sum.split)
  then show "tenant_answers orgId A m \<Longrightarrow> tenant_answers orgId A (bind m (\<lambda>x. ret (f x)))" unfolding tenant_answers_def by metis
qed

lemma answers_responds: "tenant_answers orgId A m \<Longrightarrow> tenant_answers orgId A (responds f m)"
  unfolding responds_def by (rule answers_map)

lemma answers_find:
  assumes "no_db_fault E" "\<And>w. A w \<Longrightarrow> filter p (tab w) = filter p (tab (own_tenant orgId w))"
  shows "tenant_answers orgId A (repo_find E tab p)"
  unfolding repo_find_def by (rule answers_repo [OF assms(1)]) (simp add: assms(2))

lemma find_filter: "List.find p t = (case filter p t of [] \<Rightarrow> None | x # xs \<Rightarrow> Some x)"
  by (induction t) simp_all

lemma answers_lookup:
  assumes "no_db_fault E" "\<And>w. A w \<Longrightarrow> filter p (tab w) = filter p (tab (own_tenant orgId w))" "stable A" "\<And>w n. tab (w\<lparr>steps := n\<rparr>) = tab w"
    and "\<And>x. tenant_answers orgId (\<lambda>w. A w \<and> x \<in> set (tab w) \<and> p x) (k x)"
  shows "tenant_answers orgId A (bind (bind (repo_find_one E tab p) (\<lambda>r. case r of None \<Rightarrow> throw e | Some x \<Rightarrow> ret x)) k)"
  unfolding bind_assoc
proof (rule answers_bind [where B = "\<lambda>r w. A w \<and> (\<forall>x. r = Some x \<longrightarrow> x \<in> set (tab w) \<and> p x)"])
  show "tenant_answers orgId A (repo_find_one E tab p)"
    unfolding repo_find_one_def by (rule answers_repo [OF assms(1)]) (metis assms(2) find_filter)
next
  fix w r n assume "A w" "fst (repo_find_one E tab p w) = Inr r"
  then show "A (w\<lparr>steps := n\<rparr>) \<and> (\<forall>x. r = Some x \<longrightarrow> x \<in> set (tab (w\<lparr>steps := n\<rparr>)) \<and> p x)"
    using assms(3,4) by (auto simp: repo_find_one_def repo_def stableD find_Some_iff split: option.splits)
next
  fix r show "tenant_answers orgId (\<lambda>w. A w \<and> (\<forall>x. r = Some x \<longrightarrow> x \<in> set (tab w) \<and> p x)) (bind (case r of None \<Rightarrow> throw e | Some x \<Rightarrow> ret x) k)"
    using assms(5) by (cases r) simp_all
qed (intro reading)

lemma answers_find_then:
  assumes "no_db_fault E" "\<And>w. A w \<Longrightarrow> filter p (tab w) = filter p (tab (own_tenant orgId w))" "stable A" "\<And>w n. tab (w\<lparr>steps := n\<rparr>) = tab w"
    and "\<And>xs. tenant_answers orgId (\<lambda>w. A w \<and> xs = filter p (tab w)) (k xs)"
  shows "tenant_answers orgId A (bind (repo_find E tab p) k)"
proof (rule answers_bind [where B = "\<lambda>xs w. A w \<and> xs = filter p (tab w)"])
  fix w xs n assume "A w" "fst (repo_find E tab p w) = Inr xs"
  then show "A (w\<lparr>steps := n\<rparr>) \<and> xs = filter p (tab (w\<lparr>steps := n\<rparr>))"
    using assms(3,4) by (auto simp: repo_find_def repo_def stableD split: option.splits)
next
  show "tenant_answers orgId A (repo_find E tab p)" by (rule answers_find) (use assms(1,2) in auto)
qed (use assms(5) in \<open>auto intro: reading\<close>)


subsection \<open>The listings and the detail pages\<close>

lemma own_table:
  "(\<And>x. p x \<Longrightarrow> host_orgId x = orgId) \<Longrightarrow> filter p (hosts (own_tenant orgId w)) = filter p (hosts w)"
  "(\<And>x. p1 x \<Longrightarrow> svc_orgId x = orgId) \<Longrightarrow> filter p1 (services (own_tenant orgId w)) = filter p1 (services w)"
  "(\<And>x. p2 x \<Longrightarrow> dom_orgId x = orgId) \<Longrightarrow> filter p2 (domains (own_tenant orgId w)) = filter p2 (domains w)"
  "(\<And>x. p3 x \<Longrightarrow> rule_orgId x = orgId) \<Longrightarrow> filter p3 (alert_rules (own_tenant orgId w)) = filter p3 (alert_rules w)"
  "(\<And>x. p4 x \<Longrightarrow> ca_orgId x = orgId) \<Longrightarrow> filter p4 (cloud_accounts (own_tenant orgId w)) = filter p4 (cloud_accounts w)"
  by (auto simp: own_tenant_def Let_def own_def intro!: filter_cong)

lemma own_children:
  "(\<And>x. p x \<Longrightarrow> snap_serviceId x \<in> svc_id ` set (own svc_orgId orgId (services w))) \<Longrightarrow>
     filter p (snapshots (own_tenant orgId w)) = filter p (snapshots w)"
  "(\<And>x. p1 x \<Longrightarrow> cert_domainId x \<in> dom_id ` set (own dom_orgId orgId (domains w))) \<Longrightarrow>
     filter p1 (ssl_certificates (own_tenant orgId w)) = filter p1 (ssl_certificates w)"
  "(\<And>x. p2 x \<Longrightarrow> hlog_entityId x \<in> host_id ` set (own host_orgId orgId (hosts w)) \<union> svc_id ` set (own svc_orgId orgId (services w))
       \<union> dom_id ` set (own dom_orgId orgId (domains w))) \<Longrightarrow>
     filter p2 (hc_logs (own_tenant orgId w)) = filter p2 (hc_logs w)"
  unfolding own_tenant_def Let_def of_rows_def by (auto intro!: filter_cong simp del: in_own)

lemma own_related [simp]:
  "event_of_org (own_tenant orgId w) orgId = event_of_org w orgId"
  "log_of_org (own_tenant orgId w) orgId = log_of_org w orgId"
  by (auto simp: fun_eq_iff event_of_org_def log_of_org_def own_tenant_def Let_def)

lemma own_events: "filter (\<lambda>e. p e \<and> event_of_org w orgId e) (rollback_events (own_tenant orgId w))
    = filter (\<lambda>e. p e \<and> event_of_org w orgId e) (rollback_events w)"
  unfolding own_tenant_def Let_def of_rows_def event_of_org_def by (auto intro!: filter_cong rev_image_eqI)

lemma own_logs: "filter (\<lambda>l. log_of_org w orgId l \<and> p l) (alert_logs (own_tenant orgId w))
    = filter (\<lambda>l. log_of_org w orgId l \<and> p l) (alert_logs w)"
  unfolding own_tenant_def Let_def of_rows_def log_of_org_def by (auto intro!: filter_cong rev_image_eqI)

fun tenant_read :: "api_call \<Rightarrow> bool" where
  "tenant_read GetInsights = False"
| "tenant_read GetOverview = False"
| "tenant_read call = read_call call"

lemma answers_recent:
  assumes "no_db_fault E" "\<And>w. A w \<Longrightarrow> i \<in> host_id ` set (own host_orgId orgId (hosts w)) \<union> svc_id ` set (own svc_orgId orgId (services w))
       \<union> dom_id ` set (own dom_orgId orgId (domains w))"
  shows "tenant_answers orgId A (find_recent E tys i n)"
  unfolding find_recent_def
  by (rule answers_map, rule answers_find [OF assms(1)], rule own_children(3) [symmetric]) (use assms(2) in auto)

text \<open>The three lookups by id and organization.\<close>

lemma answers_found:
  assumes ok: "no_db_fault E"
  shows "(\<And>h. tenant_answers orgId (\<lambda>w. world_sound w \<and> h \<in> set (hosts w) \<and> host_id h = i \<and> host_orgId h = orgId) (k h)) \<Longrightarrow>
      tenant_answers orgId world_sound (bind (find_host_or_throw E orgId i) k)"
    and "(\<And>s. tenant_answers orgId (\<lambda>w. world_sound w \<and> s \<in> set (services w) \<and> svc_id s = i \<and> svc_orgId s = orgId) (k' s)) \<Longrightarrow>
      tenant_answers orgId world_sound (bind (find_service_or_throw E orgId i) k')"
    and "(\<And>d. tenant_answers orgId (\<lambda>w. world_sound w \<and> d \<in> set (domains w) \<and> dom_id d = i \<and> dom_orgId d = orgId) (k'' d)) \<Longrightarrow>
      tenant_answers orgId world_sound (bind (find_domain_or_throw E orgId i) k'')"
  unfolding finders
  by (rule answers_lookup [OF ok], rule own_table [symmetric], simp, simp, simp, assumption)+

lemma answers_hosts:
  assumes ok: "no_db_fault E"
  shows "tenant_answers orgId world_sound (hosts_find_all E orgId)" "tenant_answers orgId world_sound (hosts_find_one E orgId i)"
    "tenant_answers orgId world_sound (hosts_setup_instructions E orgId i)" "tenant_answers orgId world_sound (host_services_find_all E orgId i)"
proof -
  show "tenant_answers orgId world_sound (hosts_find_all E orgId)"
    unfolding hosts_find_all_def find_all_hosts_def by (intro answers_map answers_find [OF ok] own_table(1) [symmetric])
  show "tenant_answers orgId world_sound (hosts_find_one E orgId i)"
    unfolding hosts_find_one_def host_recent_logs_def
    by (intro answers_found [OF ok] answers_map answers_recent [OF ok]) auto
  show "tenant_answers orgId world_sound (hosts_setup_instructions E orgId i)"
    unfolding hosts_setup_instructions_def by (intro answers_found [OF ok]) simp
  have "tenant_answers orgId (\<lambda>w. world_sound w \<and> h \<in> set (hosts w) \<and> host_id h = i \<and> host_orgId h = orgId)
      (repo_find E services (\<lambda>s. svc_hostId s = i))" for h
    by (rule answers_find [OF ok])
       (auto simp: own_tenant_def Let_def own_def intro!: filter_cong dest: sound_owned(1))
  then show "tenant_answers orgId world_sound (host_services_find_all E orgId i)"
    unfolding host_services_find_all_def find_all_services_for_host_def andthen_def bind_assoc
    by (intro answers_found [OF ok]) (unfold bind_ret, intro answers_map)
qed

lemma answers_services:
  assumes ok: "no_db_fault E"
  shows "tenant_answers orgId world_sound (services_find_one E orgId i)" "tenant_answers orgId world_sound (service_snapshots_find_history E orgId i)"
    "tenant_answers orgId world_sound (rollback_events_find_all E orgId)" "tenant_answers orgId world_sound (rollback_events_find_one E orgId i)"
proof -
  show "tenant_answers orgId world_sound (services_find_one E orgId i)"
    unfolding services_find_one_def service_recent_logs_def
    by (intro answers_found [OF ok] answers_map answers_recent [OF ok]) auto
  show "tenant_answers orgId world_sound (service_snapshots_find_history E orgId i)"
    unfolding service_snapshots_find_history_def find_history_for_service_def
    by (intro answers_found [OF ok] answers_map answers_find [OF ok] own_children(1) [symmetric])
       (auto intro: rev_image_eqI)
  show "tenant_answers orgId world_sound (rollback_events_find_all E orgId)"
    unfolding rollback_events_find_all_def list_events_for_org_def
    by (intro answers_map answers_repo [OF ok]) (use own_events [where p = "\<lambda>_. True"] in simp)
  have "tenant_answers orgId world_sound (repo E (\<lambda>w. (Inr (List.find (\<lambda>e. ev_id e = i \<and> event_of_org w orgId e) (rollback_events w)), w)))"
    by (rule answers_repo [OF ok]) (simp add: find_filter own_events)
  then show "tenant_answers orgId world_sound (rollback_events_find_one E orgId i)"
    unfolding rollback_events_find_one_def find_event_or_throw_def bind_assoc
    by (rule answers_bind [where B = "\<lambda>_ _. True"]) (auto intro: reading split: option.split)
qed

lemma answers_domains:
  assumes ok: "no_db_fault E"
  shows "tenant_answers orgId world_sound (domains_find_all E orgId)" "tenant_answers orgId world_sound (domains_find_one E orgId i)"
proof -
  have certs: "tenant_answers orgId (\<lambda>w. world_sound w \<and> ds = filter (\<lambda>d. dom_orgId d = orgId) (domains w))
      (repo_find E ssl_certificates (\<lambda>c. cert_domainId c \<in> dom_id ` set ds))" for ds
    by (intro answers_find [OF ok] own_children(2) [symmetric]) (auto simp: own_def)
  show "tenant_answers orgId world_sound (domains_find_all E orgId)"
    unfolding domains_find_all_def find_all_domains_def Let_def
    by (intro answers_map answers_find_then [OF ok] own_table(3) [symmetric] stable_sound) (auto intro!: answers_map certs)
  have cert: "tenant_answers orgId (\<lambda>w. world_sound w \<and> d \<in> set (domains w) \<and> dom_id d = i \<and> dom_orgId d = orgId)
      (bind (get_certificate_or_throw E (dom_id d)) (\<lambda>cert. bind (domain_recent_logs E (dom_id d)) (\<lambda>logs.
         ret (to_domain_detail_response d cert logs))))" for d
    unfolding get_certificate_or_throw_def domain_recent_logs_def
    by (intro answers_lookup [OF ok] answers_map answers_recent [OF ok] own_children(2) [symmetric])
       (auto simp: stable_def intro: rev_image_eqI)
  then show "tenant_answers orgId world_sound (domains_find_one E orgId i)"
    unfolding domains_find_one_def by (intro answers_found [OF ok])
qed

lemma answers_rules:
  assumes ok: "no_db_fault E"
  shows "tenant_answers orgId world_sound (rules_find_all E orgId)" "tenant_answers orgId world_sound (rules_find_one E orgId i)"
    "tenant_answers orgId world_sound (logs_find_all E orgId q)" "tenant_answers orgId world_sound (cloud_find_all E orgId)"
proof -
  show "tenant_answers orgId world_sound (rules_find_all E orgId)"
    unfolding rules_find_all_def find_all_rules_def by (intro answers_map answers_find [OF ok] own_table(4) [symmetric])
  show "tenant_answers orgId world_sound (rules_find_one E orgId i)"
    unfolding rules_find_one_def find_rule_or_throw_def
    by (intro answers_lookup [OF ok] own_table(4) [symmetric]) auto
  show "tenant_answers orgId world_sound (logs_find_all E orgId q)"
    unfolding logs_find_all_def find_logs_for_org_def
    by (intro answers_map answers_repo [OF ok]) (simp add: own_logs)
  show "tenant_answers orgId world_sound (cloud_find_all E orgId)"
    unfolding cloud_find_all_def Let_def by (intro answers_map answers_find [OF ok] own_table(5) [symmetric])
qed

lemma answers_api: "no_db_fault E \<Longrightarrow> tenant_read call \<Longrightarrow> tenant_answers orgId world_sound (api E orgId userId call)"
  by (cases call) (simp_all add: answers_responds answers_hosts answers_services answers_domains answers_rules)


subsection \<open>Tenants do not interfere\<close>

definition access_token :: "env \<Rightarrow> user \<Rightarrow> string \<Rightarrow> time \<Rightarrow> string" where
  "access_token E u orgName t =
     jwt_sign E (ac_accessSecret (app_conf E)) (ac_accessExpiresIn (app_conf E)) t (access_payload u orgName)"

text \<open>What the code relies on: a signed token either fails to verify or yields the payload it was signed with.\<close>

definition jwt_faithful :: "env \<Rightarrow> bool" where
  "jwt_faithful E \<longleftrightarrow> (\<forall>k k' life t t' kvs v. json_wf (JObj kvs) \<longrightarrow> jwt_verify E k' t' (jwt_sign E k life t (JObj kvs)) = Inr v
     \<longrightarrow> (\<exists>extra. v = JObj (kvs @ extra)))"

lemma authenticate_issued:
  assumes "jwt_faithful E"
  shows "\<exists>w'. (\<exists>e. authenticate E (Some (access_token E u n t)) w = (Inl e, w'))
    \<or> authenticate E (Some (access_token E u n t)) w = (Inr (to_authenticated_user u n), w')"
proof -
  obtain kvs where kvs: "access_payload u n = JObj kvs" by (simp add: access_payload_def)
  have wf: "json_wf (JObj kvs)" using payloads_wf(1) [of u n] kvs by simp
  show ?thesis
  proof (cases "jwt_verify E (ac_accessSecret (app_conf E)) (clock E (steps w)) (access_token E u n t)")
    case (Inr v)
    then obtain extra where "v = JObj (kvs @ extra)"
      using assms wf unfolding jwt_faithful_def access_token_def kvs by blast
    with Inr show ?thesis using validate_access_payload [OF kvs] by (simp add: authenticate_def prog_simps now_def)
  qed (simp add: authenticate_def prog_simps now_def)
qed

lemma authenticate_state: "\<exists>n. snd (authenticate E token w) = w\<lparr>steps := n\<rparr> \<and> steps w \<le> n"
proof -
  have "reads (authenticate E token)"
    unfolding authenticate_def by (cases token) (auto intro!: reading split: sum.split)
  then show ?thesis by (simp add: reads_def)
qed

text \<open>A request without a token, or with one that the server signed for a member of another organization.\<close>

definition outsider :: "env \<Rightarrow> uuid \<Rightarrow> string option \<Rightarrow> bool" where
  "outsider E orgId token \<longleftrightarrow> token = None \<or> (\<exists>u n t. token = Some (access_token E u n t) \<and> user_orgId u \<noteq> orgId)"

lemma serve_cases:
  assumes "jwt_faithful E" "outsider E orgId token"
  obtains (refused) n where "snd (serve E X token call w) = w\<lparr>steps := n\<rparr>" "steps w \<le> n"
  | (handled) n and u :: user where "user_orgId u \<noteq> orgId" "call_valid E call" "steps w \<le> n"
      "snd (serve E X token call w) = snd (api E (user_orgId u) (user_id u) call (w\<lparr>steps := n\<rparr>))"
proof -
  obtain n where n: "snd (authenticate E token w) = w\<lparr>steps := n\<rparr>" "steps w \<le> n" using authenticate_state by blast
  show ?thesis
  proof (cases "fst (authenticate E token w)")
    case (Inl e)
    then have "snd (serve E X token call w) = w\<lparr>steps := n\<rparr>"
      using n by (auto simp: serve_def guarded_def bind_def split: prod.splits)
    with n(2) show ?thesis by (rule refused [rotated])
  next
    case (Inr user)
    then obtain u nm t where tok: "token = Some (access_token E u nm t)" "user_orgId u \<noteq> orgId"
      using assms(2) by (auto simp: outsider_def authenticate_def throw_def)
    with Inr have user: "user = to_authenticated_user u nm"
      using authenticate_issued [OF assms(1), of u nm t w] by auto
    then have run: "authenticate E token w = (Inr user, w\<lparr>steps := n\<rparr>)" using Inr n(1) by (metis prod.collapse)
    have role: "user_role_str (user_role u) = user_role_str ADMIN" by (cases "user_role u") simp
    show ?thesis
    proof (cases "call_valid E call")
      case True
      then have "snd (serve E X token call w) = snd (api E (user_orgId u) (user_id u) call (w\<lparr>steps := n\<rparr>))"
        using run role by (simp add: serve_def guarded_def bind_def user to_authenticated_user_def can_activate_def)
      with handled [OF tok(2) True n(2)] show ?thesis by blast
    next
      case False
      then have "snd (serve E X token call w) = w\<lparr>steps := n\<rparr>"
        using run by (simp add: serve_def guarded_def bind_def throw_def)
      with n(2) show ?thesis by (rule refused [rotated])
    qed
  qed
qed

fun serve_all :: "env \<Rightarrow> outside \<Rightarrow> (string option \<times> api_call) list \<Rightarrow> world \<Rightarrow> world" where
  "serve_all E X [] w = w"
| "serve_all E X ((token, call) # rs) w = serve_all E X rs (snd (serve E X token call w))"

lemma serve_outsider:
  assumes "jwt_faithful E" "outsider E orgId token" "\<not> is_uuid E []" "world_sound w"
  shows "own_tenant orgId (snd (serve E X token call w)) = own_tenant orgId w \<and> world_sound (snd (serve E X token call w))"
  using assms(1,2)
proof (cases rule: serve_cases [where X = X and call = call and w = w])
  case (handled n u)
  let ?w = "w\<lparr>steps := n\<rparr>"
  have "world_sound ?w" using assms(4) by simp
  then have "other_tenants (user_orgId u) (snd (api E (user_orgId u) (user_id u) call ?w)) = other_tenants (user_orgId u) ?w"
    using isolates_api [of "user_orgId u" E "user_id u" call] unfolding isolates_def by blast
  with own_tenant_kept [OF this] handled(1,4) have "own_tenant orgId (snd (serve E X token call w)) = own_tenant orgId w" by simp
  moreover have "world_sound (snd (serve E X token call w))"
    using sound_step [OF api_step [OF handled(2)] assms(3) \<open>world_sound ?w\<close>] handled(4) by simp
  ultimately show ?thesis by simp
qed (use assms(4) in simp)

lemma serve_all_outsiders:
  "jwt_faithful E \<Longrightarrow> \<not> is_uuid E [] \<Longrightarrow> world_sound w \<Longrightarrow> list_all (\<lambda>(token, call). outsider E orgId token) rs \<Longrightarrow>
   own_tenant orgId (serve_all E X rs w) = own_tenant orgId w \<and> world_sound (serve_all E X rs w)"
proof (induction rs arbitrary: w)
  case (Cons r rs)
  obtain token call where r: "r = (token, call)" by force
  from serve_outsider [OF Cons.prems(1) _ Cons.prems(2,3), of orgId token X call] Cons.IH [OF Cons.prems(1,2)] Cons.prems(4)
  show ?case by (simp add: r)
qed simp

text \<open>
  C3. Tenants do not interfere. From any database the server reaches, let members of other
  organizations, and clients without a token, send any sequence of requests, valid or not. What
  an organization owns is as it was: its hosts, services, snapshots, rollbacks, domains,
  certificates, rules, alert log and cloud accounts. And on a database without faults each of its
  own listings and detail pages answers exactly what it would have answered before.
\<close>

theorem tenants_do_not_interfere:
  assumes "\<not> is_uuid E []" "jwt_faithful E" "reachable (\<lambda>w. w = empty_world) (backend_step E) w"
    and "list_all (\<lambda>(token, call). outsider E orgId token) rs"
  shows "own_tenant orgId (serve_all E X rs w) = own_tenant orgId w
    \<and> (no_db_fault E \<longrightarrow> tenant_read call \<longrightarrow>
         fst (api E orgId userId call (serve_all E X rs w)) = fst (api E orgId userId call w))"
proof -
  have w: "world_sound w" using world_sound.reachable_ok [OF assms(3)] assms(1) by blast
  note s = serve_all_outsiders [OF assms(2,1) w assms(4), of X]
  have "fst (api E orgId userId call (serve_all E X rs w)) = fst (api E orgId userId call w)"
    if "no_db_fault E" "tenant_read call"
    using answers_api [OF that, of orgId userId] s w unfolding tenant_answers_def by blast
  with s show ?thesis by blast
qed


text \<open>Two organizations with a host each; a member of the second one tries to remove the host of the first.\<close>

definition two_tenants :: world where
  "two_tenants = snd (hosts_create token_env ''b'' demo_host_dto (snd (hosts_create token_env ''a'' demo_host_dto empty_world)))"

definition intruder :: user where
  "intruder = \<lparr>user_id = ''u'', user_orgId = ''b'', user_email = ''b@b.c'', user_passwordHash = [], user_role = ADMIN, user_createdAt = 0\<rparr>"

definition plain_outside :: outside where
  "plain_outside = \<lparr>rejected = (\<lambda>_. BadRequestException ''Bad Request''), unscoped = (\<lambda>_ _. throw (HttpException 500 []))\<rparr>"

lemma token_env_faithful: "jwt_faithful token_env"
proof -
  have p: "json_parse (json_stringify (JArr [JStr k, JObj kvs])) = Some (JArr [JStr k, JObj kvs])" if "json_wf (JObj kvs)" for k kvs
    using that by (intro json_roundtrip) simp
  show ?thesis
    unfolding jwt_faithful_def token_env_def by (auto simp: p simp del: json_stringify.simps json_wf.simps split: if_splits)
qed

theorem tenants_do_not_interfere_witness:
  "own_tenant ''a'' (serve_all token_env plain_outside [(Some (access_token token_env intruder ''B'' 0), RemoveHost ''id-2''), (None, ListHosts)] two_tenants)
     = own_tenant ''a'' two_tenants
   \<and> fst (api token_env ''a'' ''v'' ListHosts (serve_all token_env plain_outside
        [(Some (access_token token_env intruder ''B'' 0), RemoveHost ''id-2''), (None, ListHosts)] two_tenants))
     = fst (api token_env ''a'' ''v'' ListHosts two_tenants)"
proof -
  have v: "create_host_dto_valid token_env demo_host_dto" by code_simp
  have r: "reachable (\<lambda>w. w = empty_world) (backend_step token_env) two_tenants"
    unfolding two_tenants_def
    by (rule reachable_step [OF reachable_step [OF reachable_start [where s = empty_world]]]) (rule refl adding_host v)+
  have n: "\<not> is_uuid token_env []" by (simp add: token_env_def demo_env_def)
  have o: "list_all (\<lambda>(token, call). outsider token_env ''a'' token)
      [(Some (access_token token_env intruder ''B'' 0), RemoveHost ''id-2''), (None, ListHosts)]"
  proof -
    have "outsider token_env ''a'' (Some (access_token token_env intruder ''B'' 0))"
      unfolding outsider_def by (rule disjI2, rule exI [of _ intruder]) (auto simp: intruder_def)
    then show ?thesis by (simp add: outsider_def)
  qed
  show ?thesis
    using tenants_do_not_interfere [OF n token_env_faithful r o, where X = plain_outside and call = ListHosts and userId = "''v''"] token_env_ok(3)
    by (simp only: tenant_read.simps read_call.simps simp_thms)
qed


subsection \<open>The insights\<close>

text \<open>
  The insights look at the addresses of every registered host, also those of other
  organizations: registering a host elsewhere decides whether a domain here counts as orphaned.
  So \<open>GET /insights\<close> and the counts of the overview are not answered from the own rows alone.
\<close>

definition stray_domain :: domain where
  "stray_domain = \<lparr>dom_id = ''d'', dom_orgId = ''a'', dom_hostId = Some ''h'', dom_hostname = ''a.example'', dom_registrar = None,
     dom_domainExpiresAt = None, dom_dnsStatus = DNS_RESOLVING, dom_resolvedIp = Some ''203.0.113.10'', dom_lastCheckedAt = None,
     dom_createdAt = 0\<rparr>"

definition host_at :: "uuid \<Rightarrow> uuid \<Rightarrow> string \<Rightarrow> host" where
  "host_at i orgId ip = \<lparr>host_id = i, host_orgId = orgId, host_name = ''web'', host_provider = AWS, host_ipAddress = ip,
     host_sshPort = 22, host_sshUser = ''root'', host_sshKeyEncrypted = [], host_sshPublicKey = [], host_status = HS_PENDING_SETUP,
     host_lastCheckedAt = None, host_setupVerifiedAt = None, host_createdAt = 0\<rparr>"

definition stray_world :: world where
  "stray_world = empty_world\<lparr>hosts := [host_at ''h'' ''a'' ''203.0.113.1''], domains := [stray_domain]\<rparr>"

lemma insights_reveal_other_addresses:
  defines "w' \<equiv> stray_world\<lparr>hosts := hosts stray_world @ [host_at ''i'' ''b'' ''203.0.113.10'']\<rparr>"
  shows "own_tenant ''a'' w' = own_tenant ''a'' stray_world \<and> fst (api demo_env ''a'' u GetInsights w') \<noteq> fst (api demo_env ''a'' u GetInsights stray_world)"
  unfolding w'_def
  by (simp add: stray_world_def own_tenant_def Let_def own_def host_at_def stray_domain_def counters responds_def in_org_def prog_simps
      repo_find_def repo_ok demo_env_ok now_def)

end
