(* ===== verification/Page_Requests.thy ===== *)
theory Page_Requests
  imports Http_Api Controls Tenant_Reads
begin

section \<open>The requests of the pages\<close>

text \<open>
  \<open>frontend/src/hooks/\<close>: each hook names a request of \<open>apiClient\<close> with the type its answer is taken to
  have, and what react-query does with it: the key it is kept under, whether it is enabled, when
  it is repeated, and which keys a mutation makes stale. react-query itself is not under \<open>src/\<close>; the
  theorem is about the request: it reaches the handler it is meant for, with the input it
  was given, and the answer has the declared type.
\<close>

subsection \<open>Requests, queries and mutations\<close>

record page_request =
  pr_method :: string
  pr_path :: string
  pr_body :: "json option"
  pr_type :: "ts_type option" \<comment> \<open>the type argument; none for an answer without a body\<close>

record page_query =
  pq_key :: "string option list" \<comment> \<open>an entry may be \<open>undefined\<close>\<close>
  pq_request :: page_request
  pq_enabled :: bool
  pq_interval :: "json option \<Rightarrow> int option" \<comment> \<open>\<open>refetchInterval\<close> for the data there is; none without polling\<close>

record page_mutation =
  pm_request :: page_request
  pm_invalidates :: "string list list"

definition get_page :: "string \<Rightarrow> ts_type \<Rightarrow> page_request" where
  "get_page path T = \<lparr>pr_method = ''GET'', pr_path = path, pr_body = None, pr_type = Some T\<rparr>"

definition post_page :: "string \<Rightarrow> json option \<Rightarrow> ts_type \<Rightarrow> page_request" where
  "post_page path body T = \<lparr>pr_method = ''POST'', pr_path = path, pr_body = body, pr_type = Some T\<rparr>"

definition patch_page :: "string \<Rightarrow> json \<Rightarrow> ts_type \<Rightarrow> page_request" where
  "patch_page path body T = \<lparr>pr_method = ''PATCH'', pr_path = path, pr_body = Some body, pr_type = Some T\<rparr>"

definition delete_page :: "string \<Rightarrow> page_request" where
  "delete_page path = \<lparr>pr_method = ''DELETE'', pr_path = path, pr_body = None, pr_type = None\<rparr>"

definition send_page :: "'w platform \<Rightarrow> page_request \<Rightarrow> ('w, json option) client" where
  "send_page W r = request W (pr_path r) \<lparr>ro_method = Some (pr_method r), ro_body = pr_body r, ro_skipAuth = False\<rparr>"

text \<open>A template literal prints \<open>undefined\<close> as that word; the queries with it are not enabled.\<close>

definition template_id :: "string option \<Rightarrow> string" where
  "template_id i = (case i of None \<Rightarrow> ''undefined'' | Some s \<Rightarrow> s)"

definition polled :: "json option \<Rightarrow> int option" where "polled data = Some DEFAULT_POLL_INTERVAL_MS"

definition not_polled :: "json option \<Rightarrow> int option" where "not_polled data = None"

definition data_status :: "json option \<Rightarrow> string option" where
  "data_status data = (case data of
       Some (JObj kvs) \<Rightarrow> (case map_of kvs ''status'' of Some (JStr s) \<Rightarrow> Some s | _ \<Rightarrow> None)
     | _ \<Rightarrow> None)"

subsection \<open>Hosts\<close>

definition use_hosts :: page_query where
  "use_hosts = \<lparr>pq_key = [Some ''hosts''], pq_request = get_page ''/hosts'' (TArray ts_Host),
     pq_enabled = True, pq_interval = polled\<rparr>"

definition use_host :: "string option \<Rightarrow> page_query" where
  "use_host i = \<lparr>pq_key = [Some ''hosts'', i], pq_request = get_page (''/hosts/'' @ template_id i) ts_HostDetail,
     pq_enabled = (i \<noteq> None), pq_interval = (\<lambda>data. Some (host_refetch_interval (data_status data)))\<rparr>"

definition use_host_services :: "string option \<Rightarrow> page_query" where
  "use_host_services i = \<lparr>pq_key = [Some ''hosts'', i, Some ''services''],
     pq_request = get_page (''/hosts/'' @ template_id i @ ''/services'') (TArray ts_Service),
     pq_enabled = (i \<noteq> None), pq_interval = polled\<rparr>"

text \<open>A property of the input that is \<open>undefined\<close> is not sent.\<close>

definition create_host_request_json :: "create_host_dto \<Rightarrow> json" where
  "create_host_request_json dto = JObj ([(''name'', JStr (ch_name dto)), (''provider'', JStr (host_provider_str (ch_provider dto))),
     (''ip_address'', JStr (ch_ip_address dto))]
     @ (case ch_ssh_port dto of None \<Rightarrow> [] | Some p \<Rightarrow> [(''ssh_port'', number_json p)]) @ [(''ssh_user'', JStr (ch_ssh_user dto))])"

definition use_create_host :: "create_host_dto \<Rightarrow> page_mutation" where
  "use_create_host input = \<lparr>pm_request = post_page ''/hosts'' (Some (create_host_request_json input)) ts_CreateHostResponse,
     pm_invalidates = [[''hosts'']]\<rparr>"

definition use_setup_instructions :: "string option \<Rightarrow> page_query" where
  "use_setup_instructions i = \<lparr>pq_key = [Some ''hosts'', i, Some ''setup-instructions''],
     pq_request = get_page (''/hosts/'' @ template_id i @ ''/setup-instructions'') ts_SetupInstructions,
     pq_enabled = (i \<noteq> None), pq_interval = not_polled\<rparr>"

definition use_trigger_host_check :: "string \<Rightarrow> page_mutation" where
  "use_trigger_host_check i = \<lparr>pm_request = post_page (''/hosts/'' @ i @ ''/check'') None ts_CheckTriggeredResponse,
     pm_invalidates = [[''hosts'', i], [''hosts'', i, ''services'']]\<rparr>"

subsection \<open>Services and rollbacks\<close>

definition use_all_services_queries :: "string list \<Rightarrow> page_query list" where
  "use_all_services_queries hostIds = map (\<lambda>i. \<lparr>pq_key = [Some ''hosts'', Some i, Some ''services''],
     pq_request = get_page (''/hosts/'' @ i @ ''/services'') (TArray ts_Service), pq_enabled = True, pq_interval = polled\<rparr>) hostIds"

definition use_service :: "string option \<Rightarrow> page_query" where
  "use_service i = \<lparr>pq_key = [Some ''services'', i], pq_request = get_page (''/services/'' @ template_id i) ts_ServiceDetail,
     pq_enabled = (i \<noteq> None), pq_interval = polled\<rparr>"

definition use_service_snapshots :: "string option \<Rightarrow> page_query" where
  "use_service_snapshots i = \<lparr>pq_key = [Some ''services'', i, Some ''snapshots''],
     pq_request = get_page (''/services/'' @ template_id i @ ''/snapshots'') (TArray ts_DeploymentSnapshot),
     pq_enabled = (i \<noteq> None), pq_interval = polled\<rparr>"

definition use_trigger_service_check :: "string \<Rightarrow> page_mutation" where
  "use_trigger_service_check i = \<lparr>pm_request = post_page (''/services/'' @ i @ ''/check'') None ts_CheckTriggeredResponse,
     pm_invalidates = [[''services'', i]]\<rparr>"

definition use_trigger_rollback :: "string \<Rightarrow> string \<Rightarrow> page_mutation" where
  "use_trigger_rollback i targetSnapshotId = \<lparr>pm_request = post_page (''/services/'' @ i @ ''/rollback'')
       (Some (JObj [(''target_snapshot_id'', JStr targetSnapshotId)])) ts_RollbackTriggeredResponse,
     pm_invalidates = [[''services'', i, ''snapshots'']]\<rparr>"

definition use_rollback_event :: "string option \<Rightarrow> page_query" where
  "use_rollback_event i = \<lparr>pq_key = [Some ''rollback-events'', i],
     pq_request = get_page (''/rollback-events/'' @ template_id i) ts_RollbackEvent,
     pq_enabled = (i \<noteq> None), pq_interval = (\<lambda>data. rollback_refetch_interval (data_status data))\<rparr>"

subsection \<open>Domains, insights and settings\<close>

definition use_domains :: page_query where
  "use_domains = \<lparr>pq_key = [Some ''domains''], pq_request = get_page ''/domains'' (TArray ts_Domain),
     pq_enabled = True, pq_interval = polled\<rparr>"

definition use_domain :: "string option \<Rightarrow> page_query" where
  "use_domain i = \<lparr>pq_key = [Some ''domains'', i], pq_request = get_page (''/domains/'' @ template_id i) ts_DomainDetail,
     pq_enabled = (i \<noteq> None), pq_interval = polled\<rparr>"

definition use_trigger_domain_check :: "string \<Rightarrow> page_mutation" where
  "use_trigger_domain_check i = \<lparr>pm_request = post_page (''/domains/'' @ i @ ''/check'') None ts_CheckTriggeredResponse,
     pm_invalidates = [[''domains'', i]]\<rparr>"

definition use_insights :: page_query where
  "use_insights = \<lparr>pq_key = [Some ''insights''], pq_request = get_page ''/insights'' ts_Insights,
     pq_enabled = True, pq_interval = polled\<rparr>"

definition use_overview :: page_query where
  "use_overview = \<lparr>pq_key = [Some ''overview''], pq_request = get_page ''/overview'' ts_Overview,
     pq_enabled = True, pq_interval = polled\<rparr>"

definition use_alert_rules :: page_query where
  "use_alert_rules = \<lparr>pq_key = [Some ''alert-rules''], pq_request = get_page ''/alert-rules'' (TArray ts_AlertRule),
     pq_enabled = True, pq_interval = not_polled\<rparr>"

definition create_rule_request_json :: "create_rule_dto \<Rightarrow> json" where
  "create_rule_request_json dto = JObj ([(''name'', JStr (cr_name dto)), (''entity_type'', JStr (alert_entity_type_str (cr_entity_type dto))),
     (''condition'', JStr (cr_condition dto)), (''channel'', JStr (alert_channel_str (cr_channel dto))),
     (''channel_config'', cr_channel_config dto)]
     @ (case cr_cooldown_minutes dto of None \<Rightarrow> [] | Some n \<Rightarrow> [(''cooldown_minutes'', number_json n)]))"

definition use_create_alert_rule :: "create_rule_dto \<Rightarrow> page_mutation" where
  "use_create_alert_rule input = \<lparr>pm_request = post_page ''/alert-rules'' (Some (create_rule_request_json input)) ts_AlertRule,
     pm_invalidates = [[''alert-rules'']]\<rparr>"

definition use_set_alert_rule_enabled :: "string \<Rightarrow> bool \<Rightarrow> page_mutation" where
  "use_set_alert_rule_enabled i enabled = \<lparr>pm_request = patch_page (''/alert-rules/'' @ i) (JObj [(''enabled'', JBool enabled)]) ts_AlertRule,
     pm_invalidates = [[''alert-rules'']]\<rparr>"

definition use_delete_alert_rule :: "string \<Rightarrow> page_mutation" where
  "use_delete_alert_rule i = \<lparr>pm_request = delete_page (''/alert-rules/'' @ i), pm_invalidates = [[''alert-rules'']]\<rparr>"

definition use_cloud_accounts :: page_query where
  "use_cloud_accounts = \<lparr>pq_key = [Some ''cloud-accounts''], pq_request = get_page ''/cloud-accounts'' (TArray ts_CloudAccount),
     pq_enabled = True, pq_interval = not_polled\<rparr>"

definition connect_request_json :: "connect_cloud_account_dto \<Rightarrow> json" where
  "connect_request_json dto = JObj [(''provider'', JStr (cloud_provider_str (cc_provider dto))), (''label'', JStr (cc_label dto)),
     (''apiKey'', JStr (cc_apiKey dto))]"

definition use_connect_cloud_account :: "connect_cloud_account_dto \<Rightarrow> page_mutation" where
  "use_connect_cloud_account input = \<lparr>pm_request = post_page ''/cloud-accounts'' (Some (connect_request_json input)) ts_CloudAccount,
     pm_invalidates = [[''cloud-accounts'']]\<rparr>"

definition use_disconnect_cloud_account :: "string \<Rightarrow> page_mutation" where
  "use_disconnect_cloud_account i = \<lparr>pm_request = delete_page (''/cloud-accounts/'' @ i), pm_invalidates = [[''cloud-accounts'']]\<rparr>"

end
