(* ===== verification/Rollback_Progress.thy ===== *)
theory Rollback_Progress
  imports Rollback_Success
begin

section \<open>Rollbacks come to an end\<close>

text \<open>
  When the database works, the stored configs are readable and the hosts list their containers
  readably, a rollback job always resolves: no branch of \<open>RollbackProcessor\<close> is left that
  throws. With what a resolved job leaves (\<open>process_rollback_result\<close>), its event has ended and
  the service is free for the next request.
\<close>

definition resolves :: "(world \<Rightarrow> bool) \<Rightarrow> 'a action \<Rightarrow> (world \<Rightarrow> bool) \<Rightarrow> bool" where
  "resolves P m Q \<longleftrightarrow> triple P m (\<lambda>_. Q) (\<lambda>_ _. False)"

lemma resolvesD: "resolves P m Q \<Longrightarrow> P w \<Longrightarrow> \<exists>x w'. m w = (Inr x, w') \<and> Q w'"
  by (cases "m w"; cases "fst (m w)") (auto simp: resolves_def triple_def)

lemma resolves_bind: "resolves P m B \<Longrightarrow> (\<And>x. resolves B (k x) Q) \<Longrightarrow> resolves P (bind m k) Q"
  unfolding resolves_def by (rule triple_bind)

lemma resolves_ret: "(\<And>w. P w \<Longrightarrow> Q w) \<Longrightarrow> resolves P (ret x) Q"
  unfolding resolves_def by (rule triple_ret)

lemma lift_then [simp]: "bind (lift_result (Inr x)) k = k x"
  by (simp add: fun_eq_iff prog_simps)

lemma resolves_keeps: "preserves P m \<Longrightarrow> no_throw m \<Longrightarrow> resolves P m P"
  unfolding resolves_def triple_def no_throw_def preserves_def
  by (metis (mono_tags, lifting) case_prod_unfold fst_conv old.sum.simps(6) prod.collapse snd_conv)

lemma resolves_now: "(\<And>w. P w \<Longrightarrow> P (tick w)) \<Longrightarrow> resolves P (now E) P"
  by (simp add: resolves_def triple_def now_def)

subsection \<open>The event of a job\<close>

text \<open>
  The event's place is its own: no other event of its service is active. The ids the database
  will draw are new to the tables the job inserts into.
\<close>

definition others_idle :: "uuid \<Rightarrow> uuid \<Rightarrow> world \<Rightarrow> bool" where
  "others_idle i service w \<longleftrightarrow>
     (\<forall>x \<in> set (rollback_events w). ev_id x \<noteq> i \<longrightarrow> ev_serviceId x = service \<longrightarrow> \<not> active_status (ev_status x))"

definition fresh_logs :: "env \<Rightarrow> world \<Rightarrow> bool" where
  "fresh_logs E w \<longleftrightarrow> (\<forall>n. fresh_uuid E n \<notin> hlog_id ` set (hc_logs w))"

definition fresh_snapshots :: "env \<Rightarrow> world \<Rightarrow> bool" where
  "fresh_snapshots E w \<longleftrightarrow> (\<forall>n. fresh_uuid E n \<notin> snap_id ` set (snapshots w))"

definition job_ready :: "env \<Rightarrow> uuid \<Rightarrow> uuid \<Rightarrow> service list \<Rightarrow> world \<Rightarrow> bool" where
  "job_ready E i s T w \<longleftrightarrow> others_idle i s w \<and> fresh_logs E w \<and> fresh_snapshots E w \<and> services w = T"

lemmas job_defs = job_ready_def others_idle_def fresh_logs_def fresh_snapshots_def

lemma job_ready_tick [simp]: "job_ready E i s T (tick w) = job_ready E i s T w"
  by (simp add: job_defs)

lemma job_ready_evaluate: "preserves (job_ready E i s T) (evaluate_transition F ti)"
proof (rule preservesI)
  fix w :: world assume "job_ready E i s T w"
  moreover have "job_ready E i s T (snd (evaluate_transition F ti w)) = job_ready E i s T w"
    using arg_cong [OF core_view_evaluate_transition [of F ti w], of "job_ready E i s T"]
    by (simp add: core_view_def job_defs)
  ultimately show "job_ready E i s T (snd (evaluate_transition F ti w))" by simp
qed

text \<open>The event of the job can always be saved.\<close>

lemma save_event_idle:
  assumes "no_db_fault E" "ev_id ev = i" "ev_serviceId ev = s" "others_idle i s w"
  shows "save_event E ev w = (Inr ev, tick (w\<lparr>rollback_events := save_row ev_id ev (rollback_events w)\<rparr>))"
    and "others_idle i s (w\<lparr>rollback_events := save_row ev_id ev (rollback_events w)\<rparr>)"
proof -
  have "\<forall>x \<in> set (rollback_events w). ev_id x \<noteq> ev_id ev \<longrightarrow> \<not> event_clash x ev"
    using assms(2-4) by (auto simp: others_idle_def event_clash_def)
  then show "save_event E ev w = (Inr ev, tick (w\<lparr>rollback_events := save_row ev_id ev (rollback_events w)\<rparr>))"
    unfolding save_event_def by (intro repo_save_ok [OF assms(1)]) simp
  show "others_idle i s (w\<lparr>rollback_events := save_row ev_id ev (rollback_events w)\<rparr>)"
    using assms(2-4) set_save_row_subset [of ev_id ev "rollback_events w"] by (fastforce simp: others_idle_def)
qed

definition job_event :: "uuid \<Rightarrow> uuid \<Rightarrow> rollback_event \<Rightarrow> bool" where
  "job_event i s ev \<longleftrightarrow> ev_id ev = i \<and> ev_serviceId ev = s"

lemma job_event_simps [simp]:
  "job_event i s (ev\<lparr>ev_status := st\<rparr>) = job_event i s ev" "job_event i s (ev\<lparr>ev_logOutput := l\<rparr>) = job_event i s ev"
  "job_event i s (ev\<lparr>ev_status := st, ev_completedAt := c\<rparr>) = job_event i s ev"
  by (simp_all add: job_event_def)

lemma resolves_save_event:
  assumes "no_db_fault E" "job_event i s ev" "resolves (job_ready E i s T) (k ev) Q"
  shows "resolves (job_ready E i s T) (bind (save_event E ev) k) Q"
proof -
  have "save_event E ev w = (Inr ev, w') \<and> job_ready E i s T w'"
    if ready: "job_ready E i s T w" and w': "w' = tick (w\<lparr>rollback_events := save_row ev_id ev (rollback_events w)\<rparr>)" for w w'
  proof -
    have ev: "ev_id ev = i" "ev_serviceId ev = s" and idle: "others_idle i s w"
      using assms(2) ready by (simp_all add: job_event_def job_ready_def)
    have "job_ready E i s T (w\<lparr>rollback_events := save_row ev_id ev (rollback_events w)\<rparr>)"
      using save_event_idle(2) [OF assms(1) ev idle] ready
      by (simp add: job_ready_def fresh_logs_def fresh_snapshots_def)
    then show ?thesis using save_event_idle(1) [OF assms(1) ev idle] by (simp add: w')
  qed
  then have "resolves (job_ready E i s T) (save_event E ev) (job_ready E i s T)"
    and ret: "job_ready E i s T w \<Longrightarrow> \<exists>u. save_event E ev w = (Inr ev, u) \<and> job_ready E i s T u" for w
    by (auto simp: resolves_def triple_def)
  show ?thesis
    unfolding resolves_def
  proof (rule tripleI)
    fix w y w' assume "job_ready E i s T w" "bind (save_event E ev) k w = (Inr y, w')"
    with ret [of w] show "Q w'" using assms(3) by (auto simp: resolves_def bind_def dest: tripleD)
  next
    fix w e w' assume "job_ready E i s T w" "bind (save_event E ev) k w = (Inl e, w')"
    with ret [of w] show False using assms(3) by (auto simp: resolves_def bind_def dest: tripleD_error)
  qed
qed

lemma resolves_append:
  assumes "no_db_fault E" "job_event i s ev" "\<And>ev'. job_event i s ev' \<Longrightarrow> resolves (job_ready E i s T) (k ev') Q"
  shows "resolves (job_ready E i s T) (bind (append_log E ev x) k) Q"
    and "resolves (job_ready E i s T) (bind (append_result E ev step r) k) Q"
  unfolding append_result_def append_log_def bind_assoc
  by (intro resolves_save_event resolves_bind [OF resolves_now] assms; simp add: assms(2))+

lemma resolves_fail:
  assumes "no_db_fault E" "job_event i s ev"
  shows "resolves (job_ready E i s T) (fail_rollback E ev reason org) (\<lambda>_. True)"
proof -
  have alert: "resolves (job_ready E i s T) (do_when b (evaluate_transition E ti)) (\<lambda>_. True)" for b ti
    using resolves_keeps [of "job_ready E i s T" "do_when b (evaluate_transition E ti)"]
      preserves_do_when [OF job_ready_evaluate] no_throw_do_when [OF transition_alert.effect_resolves]
    unfolding resolves_def by (blast intro: triple_weaken)
  show ?thesis
    unfolding fail_rollback_def
    by (intro resolves_bind [OF resolves_now] resolves_append resolves_save_event)
       (auto simp: assms split: option.split intro: alert resolves_ret)
qed

subsection \<open>The end of a successful job\<close>

lemma resolves_succeed:
  assumes "no_db_fault E" "job_event i s ev" "decrypt_config E target = Inr config"
    and "\<forall>x \<in> set T. svc_id x \<noteq> svc_id service \<longrightarrow> svc_hostId x = svc_hostId service \<longrightarrow> svc_containerId x \<noteq> newId"
  shows "resolves (job_ready E i s T) (succeed_rollback E ev service newId target st) (\<lambda>_. True)"
proof -
  let ?idle = "\<lambda>w. others_idle i s w \<and> fresh_logs E w \<and> fresh_snapshots E w"
  have save: "resolves (job_ready E i s T) (save_service E (restored_service service target newId st t)) ?idle" for t
  proof -
    let ?r = "restored_service service target newId st t"
    have "svc_id ?r = svc_id service" "svc_hostId ?r = svc_hostId service" "svc_containerId ?r = newId"
      by (simp_all add: restored_service_def split: prod.split)
    with assms(4) have "\<forall>x \<in> set T. svc_id x \<noteq> svc_id ?r \<longrightarrow> \<not> service_clash x ?r"
      by (auto simp: service_clash_def)
    then have "save_service E ?r w = (Inr ?r, tick (w\<lparr>services := save_row svc_id ?r (services w)\<rparr>))"
      if "job_ready E i s T w" for w
      using that unfolding save_service_def by (intro repo_save_ok [OF assms(1)]) (simp add: job_ready_def)
    then show ?thesis
      unfolding resolves_def triple_def by (auto simp: job_defs)
  qed
  have snap: "resolves ?idle (create_snapshot E cs) (\<lambda>w. others_idle i s w \<and> fresh_logs E w)" for cs
    unfolding resolves_def
  proof (rule tripleI)
    fix w e w' assume w: "?idle w" and run: "create_snapshot E cs w = (Inl e, w')"
    let ?old = "map (retire_current (cs_serviceId cs)) (snapshots w)"
    have "\<forall>x \<in> set ?old. snap_id x \<noteq> fresh_uuid E n" for n
      using w by (auto simp: fresh_snapshots_def image_iff) (metis retire_current_simps(1))
    moreover have "\<not> snapshot_clash x y" if "x \<in> set ?old" "snap_serviceId y = cs_serviceId cs" for x y
      using that by (auto simp: snapshot_clash_def)
    ultimately show False
      using run by (auto simp: create_snapshot_def transaction_def andthen_def bind_def repo_ok [OF assms(1)] encrypt_ok
          repo_insert_def Let_def split: prod.splits sum.splits if_splits)
  next
    fix w x w' assume w: "?idle w" and run: "create_snapshot E cs w = (Inr x, w')"
    have "rollback_events w' = rollback_events w" "hc_logs w' = hc_logs w"
      using run by (cases rule: create_snapshot_cases [of E cs w]; auto)+
    with w show "others_idle i s w' \<and> fresh_logs E w'" by (simp add: others_idle_def fresh_logs_def)
  qed
  have log: "resolves (\<lambda>w. others_idle i s w \<and> fresh_logs E w) (write_hc_log E ty k stt raw) (others_idle i s)" for ty k stt raw
    unfolding resolves_def triple_def
    by (auto simp: write_hc_log_def repo_insert_def repo_ok [OF assms(1)] Let_def others_idle_def fresh_logs_def image_iff
        split: prod.splits if_splits) metis
  have fin: "resolves (others_idle i s) (bind (save_event E ev') (\<lambda>_. ret ())) (\<lambda>_. True)" if "job_event i s ev'" for ev'
    using save_event_idle(1) [OF assms(1), of ev' i s] that
    by (auto simp: resolves_def triple_def bind_def ret_def job_event_def)
  have now: "resolves ?idle (now E) ?idle" "resolves (others_idle i s) (now E) (others_idle i s)"
    by (rule resolves_now, simp add: others_idle_def fresh_logs_def fresh_snapshots_def)+
  show ?thesis
    unfolding succeed_rollback_def assms(3) lift_then
    by (rule resolves_bind [OF resolves_now], simp, rule resolves_bind [OF save],
        rule resolves_bind [OF now(1)], rule resolves_bind [OF snap], rule resolves_bind [OF log],
        rule resolves_bind [OF now(2)], rule fin) (simp add: assms(2))
qed

subsection \<open>The job\<close>

text \<open>
  What a host prints for the last command of a session can be read, and the container that
  was just started has an id that no other service of the host is recorded with.
\<close>

definition listings_readable :: "env \<Rightarrow> service \<Rightarrow> string \<Rightarrow> service list \<Rightarrow> bool" where
  "listings_readable E service containerName T \<longleftrightarrow>
     (\<forall>n opts out err code. ssh_exec E n opts DOCKER_PS_ALL_JSON_COMMAND = Inr (out, err, code) \<longrightarrow>
       (\<exists>cs k. parse_docker_ps_output out = Inr (cs, k) \<and>
         (\<forall>c \<in> set cs. dc_names c = containerName \<longrightarrow>
           (\<forall>x \<in> set T. svc_id x \<noteq> svc_id service \<longrightarrow> svc_hostId x = svc_hostId service \<longrightarrow> svc_containerId x \<noteq> dc_id c))))"

lemma resolves_verify:
  assumes "no_db_fault E" "job_event i s ev" "decrypt_config E target = Inr config"
    and "parse_docker_ps_output (sr_stdout ps) = Inr (cs, k)"
    and "\<forall>c \<in> set cs. dc_names c = cfg_containerName config \<longrightarrow>
      (\<forall>x \<in> set T. svc_id x \<noteq> svc_id service \<longrightarrow> svc_hostId x = svc_hostId service \<longrightarrow> svc_containerId x \<noteq> dc_id c)"
  shows "resolves (job_ready E i s T) (verify_rollback E ev service target config ps) (\<lambda>_. True)"
proof -
  let ?found = "List.find (\<lambda>c. dc_names c = cfg_containerName config) cs"
  have fin: "resolves (job_ready E i s T) (case ?found of
      Some c \<Rightarrow> if st \<noteq> SS_RUNNING then fail_rollback E ev' m1 org else succeed_rollback E ev' service (dc_id c) target st
    | None \<Rightarrow> fail_rollback E ev' m2 org) (\<lambda>_. True)" if "job_event i s ev'" for ev' st m1 m2 org
  proof (cases ?found)
    case (Some c)
    then have "\<forall>x \<in> set T. svc_id x \<noteq> svc_id service \<longrightarrow> svc_hostId x = svc_hostId service \<longrightarrow> svc_containerId x \<noteq> dc_id c"
      using assms(5) by (auto simp: find_Some_iff)
    from resolves_succeed [OF assms(1) that assms(3) this] Some resolves_fail [OF assms(1) that] show ?thesis by simp
  qed (simp add: resolves_fail [OF assms(1) that])
  show ?thesis
    unfolding verify_rollback_def assms(4) Let_def lift_then prod.case
    by (intro resolves_bind [OF resolves_now] resolves_append [OF assms(1,2)] fin) simp_all
qed

lemma run_commands_last:
  assumes "run_commands E opts [a, b, c, d] w = (Inr rs, w')"
  shows "\<exists>n out err code. ssh_exec E n opts d = Inr (out, err, code) \<and> sr_stdout (rs ! 3) = out"
  using assms
  by (auto simp: run_commands_def connect_def exec_command_def andthen_def bind_def ret_def split: option.splits sum.splits prod.splits) blast

lemma job_ready_steps [simp]: "job_ready E i s T (w\<lparr>steps := n\<rparr>) = job_ready E i s T w"
  by (simp add: job_defs)

lemma resolves_execute:
  assumes "no_db_fault E" "job_event i s ev" "decrypt_config E target = Inr config"
    and "listings_readable E service (cfg_containerName config) T"
  shows "resolves (job_ready E i s T) (execute_rollback E ev service host target key) (\<lambda>_. True)"
proof -
  let ?session = "run_commands E (host_ssh_options host key) (rollback_commands service config target)"
  let ?ok = "\<lambda>r. case r of Inl e \<Rightarrow> True | Inr rs \<Rightarrow> \<exists>n opts err code.
      ssh_exec E n opts DOCKER_PS_ALL_JSON_COMMAND = Inr (sr_stdout (rs ! 3), err, code)"
  have ready: "preserves (job_ready E i s T) ?session" by (intro pres) simp
  have att: "triple (job_ready E i s T) (attempt ?session) (\<lambda>r w. ?ok r \<and> job_ready E i s T w) (\<lambda>_ _. False)"
  proof (rule tripleI)
    fix w r w' assume w: "job_ready E i s T w" and run: "attempt ?session w = (Inr r, w')"
    then have r: "?session w = (r, w')" by (auto simp: attempt_def split: prod.splits)
    have "?ok r"
    proof (cases r)
      case (Inr rs)
      with r run_commands_last [of E "host_ssh_options host key"] show ?thesis
        unfolding rollback_commands_def by fastforce
    qed simp
    then show "?ok r \<and> job_ready E i s T w'" using preservesD' [OF ready w r] by simp
  qed (auto simp: attempt_def split: prod.splits)
  have rec: "resolves (job_ready E i s T) (record_results E ev service target config rs) (\<lambda>_. True)"
    if listed: "?ok (Inr rs)" for rs
  proof -
    obtain cs k where p: "parse_docker_ps_output (sr_stdout (rs ! 3)) = Inr (cs, k)"
      "\<forall>c \<in> set cs. dc_names c = cfg_containerName config \<longrightarrow>
        (\<forall>x \<in> set T. svc_id x \<noteq> svc_id service \<longrightarrow> svc_hostId x = svc_hostId service \<longrightarrow> svc_containerId x \<noteq> dc_id c)"
    proof -
      obtain n opts err code where "ssh_exec E n opts DOCKER_PS_ALL_JSON_COMMAND = Inr (sr_stdout (rs ! 3), err, code)"
        using listed by auto
      from assms(4) [unfolded listings_readable_def, rule_format, OF this] that show ?thesis by blast
    qed
    have fin: "resolves (job_ready E i s T) (if b then fail_rollback E ev' m org
        else verify_rollback E ev' service target config (rs ! 3)) (\<lambda>_. True)" if "job_event i s ev'" for ev' b m org
      using resolves_fail [OF assms(1) that] resolves_verify [OF assms(1) that assms(3) p] by simp
    show ?thesis
      unfolding record_results_def Let_def by (intro resolves_append [OF assms(1)] assms(2) fin)
  qed
  have session: "resolves (\<lambda>w. ?ok r \<and> job_ready E i s T w) (case r of
      Inl error \<Rightarrow> fail_rollback E ev (m error) org | Inr rs \<Rightarrow> record_results E ev service target config rs) (\<lambda>_. True)"
    for r m org
    unfolding resolves_def
    by (rule triple_pre [of _ "?ok r"], simp, cases r)
       (use resolves_fail [OF assms(1,2)] rec in \<open>auto simp: resolves_def elim!: triple_weaken\<close>)
  show ?thesis
    unfolding execute_rollback_def assms(3) lift_then resolves_def
    by (rule triple_bind [OF att session [unfolded resolves_def]])
qed

lemma find_key: "distinct (map f xs) \<Longrightarrow> x \<in> set xs \<Longrightarrow> List.find (\<lambda>y. f y = f x) xs = Some x"
  by (induction xs) (auto simp: image_iff)

text \<open>What the job of an event works with.\<close>

definition job_readable :: "env \<Rightarrow> rollback_event \<Rightarrow> world \<Rightarrow> bool" where
  "job_readable E ev w \<longleftrightarrow>
     (\<forall>service \<in> set (services w). svc_id service = ev_serviceId ev \<longrightarrow>
       (\<forall>target \<in> set (snapshots w). snap_id target = ev_toSnapshotId ev \<longrightarrow>
         (\<exists>config. decrypt_config E target = Inr config
            \<and> listings_readable E service (cfg_containerName config) (services w))))"

lemma run_rollback_resolves:
  assumes db: "no_db_fault E" and ev: "job_event i s ev" and ready: "job_ready E i s (services w) w" and read: "job_readable E ev w"
  shows "\<exists>w'. run_rollback E ev w = (Inr (), w')"
proof -
  have fail: "\<exists>w'. fail_rollback E ev reason org v = (Inr (), w')" if "job_ready E i s (services w) v" for reason org v
    using resolvesD [OF resolves_fail [OF db ev] that] by auto
  show ?thesis
  proof (cases "List.find (\<lambda>s. svc_id s = ev_serviceId ev) (services w)")
    case None
    then show ?thesis by (simp add: run_rollback_def repo_find_one_ok [OF db] bind_def fail ready)
  next
    case svc: (Some service)
    show ?thesis
    proof (cases "List.find (\<lambda>h. host_id h = svc_hostId service) (hosts w)")
      case None
      with svc show ?thesis by (simp add: run_rollback_def repo_find_one_ok [OF db] bind_def fail ready)
    next
      case h: (Some host)
      show ?thesis
      proof (cases "List.find (\<lambda>s. snap_id s = ev_toSnapshotId ev) (snapshots w)")
        case None
        with svc h show ?thesis by (simp add: run_rollback_def repo_find_one_ok [OF db] bind_def fail ready)
      next
        case t: (Some target)
        obtain config where config: "decrypt_config E target = Inr config"
          "listings_readable E service (cfg_containerName config) (services w)"
          using read find_SomeD [OF svc] find_SomeD [OF t] unfolding job_readable_def by blast
        have "\<exists>w'. execute_rollback E ev service host target key v = (Inr (), w')"
          if "job_ready E i s (services w) v" for key v
          using resolvesD [OF resolves_execute [OF db ev config] that] by auto
        with svc h t show ?thesis
          by (auto simp: run_rollback_def repo_find_one_ok [OF db] bind_def fail ready split: sum.split)
      qed
    qed
  qed
qed



end
