(* ===== verification/Client_Concurrency.thy ===== *)
theory Client_Concurrency
  imports Client Runs
begin

section \<open>Concurrent requests of a page\<close>

text \<open>
  The same \<open>request\<close> and \<open>refreshAccessToken\<close> as in \<open>Client\<close>, cut at every \<open>await\<close> that waits for
  the network. The requests of a page run side by side; between two of those points a request
  runs alone. The promise of a refresh in flight is shared: a request that finds it set waits
  for it, and all that wait go on together when it resolves.
\<close>

datatype task_phase =
    Idle
  | First_Sent http_request
  | Awaiting_Refresh
  | Second_Sent http_request
  | Settled "js_error + json option"

record task =
  tk_path :: string
  tk_options :: request_options
  tk_phase :: task_phase

record 'w tab =
  tb_browser :: "'w browser"
  tb_tasks :: "task list"
  tb_promise :: bool \<comment> \<open>\<open>refreshPromise\<close> is set\<close>
  tb_calls :: "http_request list" \<comment> \<open>refresh calls whose answer has not arrived\<close>

definition set_phase :: "nat \<Rightarrow> task_phase \<Rightarrow> 'w tab \<Rightarrow> 'w tab" where
  "set_phase i p t = t\<lparr>tb_tasks := (tb_tasks t)[i := (tb_tasks t ! i)\<lparr>tk_phase := p\<rparr>]\<rparr>"

definition task_request :: "task \<Rightarrow> 'w browser \<Rightarrow> http_request" where
  "task_request tk b = fetch_request (tk_path tk) (tk_options tk) (current_access b)"

definition expired :: "js_error + json option" where
  "expired = Inl (ApiError 401 ''Session expired'')"

definition refresh_possible :: "'w browser \<Rightarrow> string option" where
  "refresh_possible b = (if \<not> br_configured b then None
     else case stored_refresh_token b of None \<Rightarrow> None | Some r \<Rightarrow> if r = [] then None else Some r)"

text \<open>A request gives up: the session ends for all of them.\<close>

definition give_up :: "nat \<Rightarrow> 'w tab \<Rightarrow> 'w tab" where
  "give_up i t = set_phase i (Settled expired) (t\<lparr>tb_browser := snd (on_auth_expired (tb_browser t))\<rparr>)"

text \<open>After a first 401: wait for the promise, which is made if there is none.\<close>

definition begin_refresh :: "nat \<Rightarrow> 'w tab \<Rightarrow> 'w tab" where
  "begin_refresh i t = (case refresh_possible (tb_browser t) of
       None \<Rightarrow> give_up i t
     | Some r \<Rightarrow> set_phase i Awaiting_Refresh
         (if tb_promise t then t else t\<lparr>tb_promise := True, tb_calls := tb_calls t @ [refresh_request r]\<rparr>))"

definition settle :: "'w platform \<Rightarrow> nat \<Rightarrow> js_error + http_response \<Rightarrow> 'w tab \<Rightarrow> 'w tab" where
  "settle W i r t = set_phase i (Settled (case r of
       Inl e \<Rightarrow> Inl e | Inr response \<Rightarrow> fst (request_result W response (tb_browser t)))) t"

definition first_answer :: "'w platform \<Rightarrow> nat \<Rightarrow> js_error + http_response \<Rightarrow> 'w tab \<Rightarrow> 'w tab" where
  "first_answer W i r t = (case r of
       Inl e \<Rightarrow> settle W i r t
     | Inr response \<Rightarrow> if needs_refresh (tk_options (tb_tasks t ! i)) response then begin_refresh i t else settle W i r t)"

text \<open>The refresh answered: what the promise resolves with, and the browser then.\<close>

definition refresh_outcome :: "'w platform \<Rightarrow> js_error + http_response \<Rightarrow> 'w browser \<Rightarrow> json option \<times> 'w browser" where
  "refresh_outcome W r b = (case r of
       Inl e \<Rightarrow> (null_value, b)
     | Inr response \<Rightarrow>
         if \<not> response_ok response then (null_value, b)
         else (case json_parse (rs_body response) of
              None \<Rightarrow> (null_value, b)
            | Some data \<Rightarrow> if data = JNull then (null_value, b)
                else (json_prop data ''access_token'', if br_configured b then set_access (json_prop data ''access_token'') b else b)))"

definition resume_task :: "json option \<Rightarrow> 'w browser \<Rightarrow> task \<Rightarrow> task" where
  "resume_task newToken b tk = (if tk_phase tk \<noteq> Awaiting_Refresh then tk
     else tk\<lparr>tk_phase := (if truthy_value newToken then Second_Sent (task_request tk b) else Settled expired)\<rparr>)"

definition is_awaiting :: "task \<Rightarrow> bool" where
  "is_awaiting tk \<longleftrightarrow> tk_phase tk = Awaiting_Refresh"

definition refresh_answer :: "'w platform \<Rightarrow> js_error + http_response \<Rightarrow> 'w tab \<Rightarrow> 'w tab" where
  "refresh_answer W r t =
     (let (newToken, b) = refresh_outcome W r (tb_browser t);
          over = \<not> truthy_value newToken \<and> list_ex is_awaiting (tb_tasks t)
      in t\<lparr>tb_promise := False, tb_tasks := map (resume_task newToken b) (tb_tasks t),
           tb_browser := (if over then snd (on_auth_expired b) else b)\<rparr>)"

text \<open>The server takes a request and answers it.\<close>

definition served :: "'w platform \<Rightarrow> http_request \<Rightarrow> 'w tab \<Rightarrow> (js_error + http_response) \<times> 'w tab" where
  "served W rq t = (case fetch W rq (tb_browser t) of (r, b) \<Rightarrow> (r, t\<lparr>tb_browser := b\<rparr>))"

inductive request_step :: "'w platform \<Rightarrow> 'w tab \<Rightarrow> 'w tab \<Rightarrow> bool" for W where
  sending: "i < length (tb_tasks t) \<Longrightarrow> tk_phase (tb_tasks t ! i) = Idle \<Longrightarrow>
     request_step W t (set_phase i (First_Sent (task_request (tb_tasks t ! i) (tb_browser t))) t)"
| answering: "i < length (tb_tasks t) \<Longrightarrow> tk_phase (tb_tasks t ! i) = First_Sent rq \<Longrightarrow> served W rq t = (r, t') \<Longrightarrow>
     request_step W t (first_answer W i r t')"
| refreshing: "tb_calls t = cs @ rq # cs' \<Longrightarrow> served W rq t = (r, t') \<Longrightarrow>
     request_step W t (refresh_answer W r (t'\<lparr>tb_calls := cs @ cs'\<rparr>))"
| retrying: "i < length (tb_tasks t) \<Longrightarrow> tk_phase (tb_tasks t ! i) = Second_Sent rq \<Longrightarrow> served W rq t = (r, t') \<Longrightarrow>
     request_step W t (settle W i r t')"

text \<open>The page may also start further requests, and the user may log out at any time.\<close>

inductive tab_step :: "'w platform \<Rightarrow> 'w tab \<Rightarrow> 'w tab \<Rightarrow> bool" for W where
  running: "request_step W t t' \<Longrightarrow> tab_step W t t'"
| asking: "tab_step W t (t\<lparr>tb_tasks := tb_tasks t @ [\<lparr>tk_path = path, tk_options = options, tk_phase = Idle\<rparr>]\<rparr>)"
| logging_out: "tab_step W t (t\<lparr>tb_browser := snd (logout (tb_browser t))\<rparr>)"

inductive_cases request_stepE: "request_step W t t'"
inductive_cases tab_stepE: "tab_step W t t'"

subsection \<open>One refresh at a time\<close>

text \<open>
  A refresh call is in flight exactly while the promise is set, never two, and who waits, waits
  for it.
\<close>

definition tab_ok :: "'w tab \<Rightarrow> bool" where
  "tab_ok t \<longleftrightarrow> length (tb_calls t) = (if tb_promise t then 1 else 0)
     \<and> (\<forall>tk \<in> set (tb_tasks t). is_awaiting tk \<longrightarrow> tb_promise t)"

lemma set_phase_simps [simp]:
  "tb_browser (set_phase i p t) = tb_browser t" "tb_promise (set_phase i p t) = tb_promise t"
  "tb_calls (set_phase i p t) = tb_calls t" "length (tb_tasks (set_phase i p t)) = length (tb_tasks t)"
  by (simp_all add: set_phase_def)

lemma awaiting_set_phase:
  "tk \<in> set (tb_tasks (set_phase i p t)) \<Longrightarrow> is_awaiting tk \<Longrightarrow> p = Awaiting_Refresh \<or> (\<exists>tk \<in> set (tb_tasks t). is_awaiting tk)"
  using set_update_subset_insert [of "tb_tasks t" i "(tb_tasks t ! i)\<lparr>tk_phase := p\<rparr>"]
  by (auto simp: set_phase_def is_awaiting_def dest!: subsetD)

lemma tab_ok_set_phase: "tab_ok t \<Longrightarrow> p \<noteq> Awaiting_Refresh \<or> tb_promise t \<Longrightarrow> tab_ok (set_phase i p t)"
  using awaiting_set_phase [of _ i p t] by (fastforce simp: tab_ok_def)

lemma tab_ok_browser [simp]: "tab_ok (t\<lparr>tb_browser := b\<rparr>) = tab_ok t"
  by (simp add: tab_ok_def)

lemma served_tab: "served W rq t = (r, t') \<Longrightarrow> \<exists>b. t' = t\<lparr>tb_browser := b\<rparr>"
  by (auto simp: served_def split: prod.splits)

lemma tab_ok_settle: "tab_ok t \<Longrightarrow> tab_ok (settle W i r t)"
  by (simp add: settle_def tab_ok_set_phase)

lemma tab_ok_first_answer: "tab_ok t \<Longrightarrow> tab_ok (first_answer W i r t)"
  by (auto simp: first_answer_def begin_refresh_def give_up_def tab_ok_settle intro!: tab_ok_set_phase
      split: sum.split option.split) (auto simp: tab_ok_def)

lemma resumed_not_awaiting: "\<not> is_awaiting (resume_task tok b tk)"
  by (simp add: resume_task_def is_awaiting_def)

lemma tab_ok_refresh_answer: "tb_calls t = [] \<Longrightarrow> tab_ok (refresh_answer W r t)"
  by (auto simp: tab_ok_def refresh_answer_def Let_def resumed_not_awaiting split: prod.split)

lemma tab_ok_request_step: "request_step W t t' \<Longrightarrow> tab_ok t \<Longrightarrow> tab_ok t'"
proof (induction rule: request_step.induct)
  case (refreshing t cs rq cs' r t')
  then have "cs = []" "cs' = []" by (auto simp: tab_ok_def split: if_splits)
  with refreshing served_tab [OF refreshing(2)] show ?case by (auto intro!: tab_ok_refresh_answer)
qed (auto dest!: served_tab intro: tab_ok_set_phase tab_ok_first_answer tab_ok_settle)


definition new_tab :: "'w tab \<Rightarrow> bool" where
  "new_tab t \<longleftrightarrow> tb_tasks t = [] \<and> \<not> tb_promise t \<and> tb_calls t = []"

interpretation tabs: step_invariant new_tab "tab_step W" tab_ok for W
proof
  show "new_tab s \<Longrightarrow> tab_ok s" for s :: "'a tab"
    by (simp add: new_tab_def tab_ok_def)
  fix s s' assume "tab_step W s s'" "tab_ok s"
  then show "tab_ok s'"
    by (induction rule: tab_step.induct) (auto intro: tab_ok_request_step, auto simp: tab_ok_def is_awaiting_def)
qed

subsection \<open>Every request settles\<close>

fun phase_weight :: "task_phase \<Rightarrow> nat" where
  "phase_weight Idle = 5"
| "phase_weight (First_Sent _) = 4"
| "phase_weight Awaiting_Refresh = 2"
| "phase_weight (Second_Sent _) = 1"
| "phase_weight (Settled _) = 0"

definition tab_weight :: "'w tab \<Rightarrow> nat" where
  "tab_weight t = (\<Sum>tk \<leftarrow> tb_tasks t. phase_weight (tk_phase tk)) + length (tb_calls t)"

definition all_settled :: "'w tab \<Rightarrow> bool" where
  "all_settled t \<longleftrightarrow> (\<forall>tk \<in> set (tb_tasks t). \<exists>r. tk_phase tk = Settled r) \<and> tb_calls t = []"

lemma weight_set_phase:
  assumes "i < length (tb_tasks t)"
  shows "tab_weight (set_phase i p t) + phase_weight (tk_phase (tb_tasks t ! i)) = tab_weight t + phase_weight p"
proof -
  have "xs[i := x] = take i xs @ x # drop (Suc i) xs" "xs = take i xs @ xs ! i # drop (Suc i) xs"
    if "i < length xs" for x and xs :: "task list"
    using that by (simp_all add: upd_conv_take_nth_drop id_take_nth_drop [symmetric])
  note split = this [OF assms]
  have "(\<Sum>tk \<leftarrow> (tb_tasks t)[i := x]. phase_weight (tk_phase tk)) + phase_weight (tk_phase (tb_tasks t ! i))
      = (\<Sum>tk \<leftarrow> tb_tasks t. phase_weight (tk_phase tk)) + phase_weight (tk_phase x)" for x
    by (subst (3) split(2)) (simp add: split(1))
  then show ?thesis by (simp add: tab_weight_def set_phase_def)
qed

lemma weight_browser [simp]: "tab_weight (t\<lparr>tb_browser := b\<rparr>) = tab_weight t"
  by (simp add: tab_weight_def)

lemma weight_less:
  assumes "i < length (tb_tasks t)" "phase_weight p + tab_weight t < n + phase_weight (tk_phase (tb_tasks t ! i))"
  shows "tab_weight (set_phase i p t) < n"
  using weight_set_phase [OF assms(1), of p] assms(2) by linarith

lemma weight_new_call: "tab_weight (t\<lparr>tb_promise := True, tb_calls := tb_calls t @ [rq]\<rparr>) = Suc (tab_weight t)"
  by (simp add: tab_weight_def)

lemma weight_first_answer:
  assumes "i < length (tb_tasks t)" "tk_phase (tb_tasks t ! i) = First_Sent rq"
  shows "tab_weight (first_answer W i r t) < tab_weight t"
  unfolding first_answer_def begin_refresh_def give_up_def settle_def
  by (auto split: sum.split option.split intro!: weight_less simp: assms weight_new_call)

lemma weight_resumed: "(\<Sum>tk \<leftarrow> tks. phase_weight (tk_phase (resume_task tok b tk))) \<le> (\<Sum>tk \<leftarrow> tks. phase_weight (tk_phase tk))"
  by (rule sum_list_mono) (simp add: resume_task_def)

lemma weight_refresh_answer: "tab_weight (refresh_answer W r t) \<le> tab_weight t"
  using weight_resumed by (auto simp: refresh_answer_def Let_def tab_weight_def o_def split: prod.split)

lemma weight_request_step: "request_step W t t' \<Longrightarrow> tab_weight t' < tab_weight t"
proof (induction rule: request_step.induct)
  case (sending i t)
  then show ?case by (auto intro!: weight_less)
next
  case (answering i t rq r t')
  then show ?case using weight_first_answer [of i t' rq W r] by (auto dest!: served_tab)
next
  case (refreshing t cs rq cs' r t')
  then have "tab_weight (t'\<lparr>tb_calls := cs @ cs'\<rparr>) < tab_weight t" by (auto dest!: served_tab simp: tab_weight_def)
  then show ?case using weight_refresh_answer [of W r "t'\<lparr>tb_calls := cs @ cs'\<rparr>"] by linarith
next
  case (retrying i t rq r t')
  then show ?case by (auto dest!: served_tab simp: settle_def intro!: weight_less)
qed

lemma request_step_possible:
  assumes "tab_ok t" "\<not> all_settled t"
  shows "\<exists>t'. request_step W t t'"
proof (cases "tb_calls t")
  case (Cons rq cs)
  then show ?thesis using refreshing [of t "[]" rq cs W] by (metis append_Nil prod.exhaust)
next
  case Nil
  with assms obtain tk where tk: "tk \<in> set (tb_tasks t)" "\<forall>r. tk_phase tk \<noteq> Settled r" by (auto simp: all_settled_def)
  then obtain i where i: "i < length (tb_tasks t)" "tb_tasks t ! i = tk" by (auto simp: in_set_conv_nth)
  have "\<not> is_awaiting tk" using assms(1) Nil tk(1) by (auto simp: tab_ok_def split: if_splits)
  with tk(2) consider "tk_phase tk = Idle" | rq where "tk_phase tk = First_Sent rq" | rq where "tk_phase tk = Second_Sent rq"
    by (cases "tk_phase tk") (auto simp: is_awaiting_def)
  then show ?thesis
  proof cases
    case 1
    with sending [of i t W] i show ?thesis by blast
  next
    case (2 rq)
    with answering [of i t rq W] i show ?thesis by (metis prod.exhaust)
  next
    case (3 rq)
    with retrying [of i t rq W] i show ?thesis by (metis prod.exhaust)
  qed
qed

interpretation requests: terminating_steps tab_ok "request_step W" tab_ok tab_weight all_settled for W
  by unfold_locales (auto intro: tab_ok_request_step weight_request_step request_step_possible)

lemma weight_bound: "tab_ok t \<Longrightarrow> tab_weight t \<le> 5 * length (tb_tasks t) + 1"
proof -
  have "phase_weight p \<le> 5" for p by (cases p) simp_all
  then have "(\<Sum>tk \<leftarrow> tks. phase_weight (tk_phase tk)) \<le> (\<Sum>tk \<leftarrow> tks. 5)" for tks
    by (intro sum_list_mono) simp
  then have "(\<Sum>tk \<leftarrow> tks. phase_weight (tk_phase tk)) \<le> 5 * length tks" for tks
    by (simp add: sum_list_triv mult.commute)
  from this [of "tb_tasks t"] show "tab_ok t \<Longrightarrow> tab_weight t \<le> 5 * length (tb_tasks t) + 1"
    by (simp add: tab_weight_def tab_ok_def split: if_splits)
qed

text \<open>
  C9. However many requests a page makes, in whatever order they are sent and answered and
  whatever the answers are, at most one refresh is in flight at any moment; left to themselves the
  requests come to an end within five steps each and one for the refresh, and when nothing is left
  to happen every one of them has its answer: none waits for a refresh that is not there.
\<close>

theorem concurrent_requests_settle:
  assumes "reachable new_tab (tab_step W) t"
  shows "length (tb_calls t) \<le> 1
    \<and> (\<forall>n t'. (request_step W ^^ n) t t' \<longrightarrow> n \<le> 5 * length (tb_tasks t) + 1)
    \<and> (\<exists>t'. (request_step W)\<^sup>*\<^sup>* t t' \<and> all_settled t')
    \<and> (\<forall>t'. (request_step W)\<^sup>*\<^sup>* t t' \<and> (\<nexists>t''. request_step W t' t'') \<longrightarrow> all_settled t')"
proof -
  have ok: "tab_ok t" by (rule tabs.reachable_ok [OF assms])
  then have "length (tb_calls t) \<le> 1" by (simp add: tab_ok_def)
  moreover have "n \<le> 5 * length (tb_tasks t) + 1" if "(request_step W ^^ n) t t'" for n t'
    using requests.run_spends [OF that ok] weight_bound [OF ok] by linarith
  moreover have "all_settled t'" if "(request_step W)\<^sup>*\<^sup>* t t'" "\<nexists>t''. request_step W t' t''" for t'
    using requests.stuck_final [OF requests.run_ok [OF that(1) ok]] that(2) by blast
  ultimately show ?thesis using requests.run_ends [OF ok, of W] by blast
qed

subsection \<open>A request on its own\<close>

text \<open>
  What is left of a request that runs alone, as the sequential program has it; no step of the run
  changes it.
\<close>

definition lone_outcome :: "'w platform \<Rightarrow> 'w tab \<Rightarrow> (js_error + json option) \<times> 'w browser" where
  "lone_outcome W t = (let tk = hd (tb_tasks t); b = tb_browser t in
     case tk_phase tk of
       Idle \<Rightarrow> request W (tk_path tk) (tk_options tk) b
     | First_Sent rq \<Rightarrow> bind (fetch W rq) (after_first W (tk_path tk) (tk_options tk)) b
     | Awaiting_Refresh \<Rightarrow> (case fetch W (hd (tb_calls t)) b of (r, b1) \<Rightarrow>
          (case refresh_outcome W r b1 of (tok, b2) \<Rightarrow> after_refresh W (tk_path tk) (tk_options tk) tok b2))
     | Second_Sent rq \<Rightarrow> bind (fetch W rq) (request_result W) b
     | Settled r \<Rightarrow> (r, b))"

definition lone :: "'w tab \<Rightarrow> bool" where
  "lone t \<longleftrightarrow> (\<exists>tk. tb_tasks t = [tk] \<and> (if is_awaiting tk then tb_promise t \<and> length (tb_calls t) = 1 \<and> br_configured (tb_browser t)
     else \<not> tb_promise t \<and> tb_calls t = []))"

lemma request_result_fst: "request_result W response b = (fst (request_result W response b), b)"
  by (metis prod.collapse request_result_state)

lemma refresh_call_outcome:
  assumes "br_configured b"
  shows "refresh_call W r b = (case fetch W (refresh_request r) b of (x, b1) \<Rightarrow>
    (case refresh_outcome W x b1 of (tok, b2) \<Rightarrow> (Inr tok, b2)))"
proof -
  obtain x b1 where f: "fetch W (refresh_request r) b = (x, b1)" by force
  then have "br_configured b1" using assms fetch_session [OF f] by (simp add: same_session_def)
  with f show ?thesis
    by (auto simp: refresh_call_def refresh_outcome_def response_json_def read_property_def modify_def prog_simps
        split: sum.split option.split json.split)
qed

lemma first_answer_lone:
  assumes "tb_tasks t = [tk]" "\<not> is_awaiting tk" "\<not> tb_promise t" "tb_calls t = []"
  shows "lone (first_answer W 0 r t) \<and> lone_outcome W (first_answer W 0 r t)
    = (case r of Inl e \<Rightarrow> (Inl e, tb_browser t) | Inr response \<Rightarrow> after_first W (tk_path tk) (tk_options tk) response (tb_browser t))"
proof (cases r)
  case (Inr response)
  show ?thesis
  proof (cases "needs_refresh (tk_options tk) response")
    case refused: True
    show ?thesis
    proof (cases "refresh_possible (tb_browser t)")
      case None
      then have "refresh_access_token_client W (tb_browser t) = (Inr null_value, tb_browser t)"
        by (auto simp: refresh_possible_def refresh_access_token_client_def prog_simps split: if_splits option.splits)
      with None Inr refused assms show ?thesis
        by (simp add: first_answer_def begin_refresh_def give_up_def lone_def lone_outcome_def set_phase_def is_awaiting_def
            after_first_def after_refresh_def truthy_value_def null_value_def expired_def prog_simps on_auth_expired_def
            modify_def)
    next
      case (Some token)
      then have c: "br_configured (tb_browser t)" "stored_refresh_token (tb_browser t) = Some token" "token \<noteq> []"
        by (auto simp: refresh_possible_def split: if_splits option.splits)
      then have "refresh_access_token_client W (tb_browser t) = refresh_call W token (tb_browser t)"
        by (simp add: refresh_access_token_client_def prog_simps)
      with Some Inr refused assms c show ?thesis
        by (simp add: first_answer_def begin_refresh_def lone_def lone_outcome_def set_phase_def is_awaiting_def
            after_first_def bind_def refresh_call_outcome split: prod.split)
    qed
  next
    case False
    with Inr assms show ?thesis
      by (simp add: first_answer_def settle_def lone_def lone_outcome_def set_phase_def is_awaiting_def after_first_def
          request_result_fst [symmetric])
  qed
qed (use assms in \<open>simp add: first_answer_def settle_def lone_def lone_outcome_def set_phase_def is_awaiting_def\<close>)

lemma refresh_answer_lone:
  assumes "tb_tasks t = [tk]" "is_awaiting tk" "tb_calls t = []" "br_configured (tb_browser t)"
  shows "lone (refresh_answer W r t) \<and> lone_outcome W (refresh_answer W r t)
    = (case refresh_outcome W r (tb_browser t) of (tok, b) \<Rightarrow> after_refresh W (tk_path tk) (tk_options tk) tok b)"
proof -
  obtain tok b where o': "refresh_outcome W r (tb_browser t) = (tok, b)" by force
  show ?thesis
    using assms(1-3) o'
    by (simp add: refresh_answer_def lone_def lone_outcome_def is_awaiting_def resume_task_def after_refresh_def
        do_fetch_def task_request_def expired_def on_auth_expired_def modify_def prog_simps)
qed

lemma lone_step: "request_step W t t' \<Longrightarrow> lone t \<Longrightarrow> lone t' \<and> lone_outcome W t' = lone_outcome W t"
proof (induction rule: request_step.induct)
  case (sending i t)
  then show ?case
    by (auto simp: lone_def lone_outcome_def set_phase_def is_awaiting_def request_def do_fetch_def task_request_def prog_simps)
next
  case (answering i t rq r t')
  then obtain b where t': "t' = t\<lparr>tb_browser := b\<rparr>" "fetch W rq (tb_browser t) = (r, b)"
    by (auto simp: served_def split: prod.splits)
  from answering obtain tk where tk: "tb_tasks t = [tk]" "i = 0" "tk_phase tk = First_Sent rq" "\<not> tb_promise t" "tb_calls t = []"
    by (auto simp: lone_def is_awaiting_def)
  with first_answer_lone [of t' tk W r] t' show ?case
    by (auto simp: is_awaiting_def lone_outcome_def bind_def split: sum.splits)
next
  case (refreshing t cs rq cs' r t')
  then obtain b where t': "t' = t\<lparr>tb_browser := b\<rparr>" "fetch W rq (tb_browser t) = (r, b)"
    by (auto simp: served_def split: prod.splits)
  from refreshing obtain tk where tk: "tb_tasks t = [tk]" "is_awaiting tk" "tb_calls t = [rq]" "cs = []" "cs' = []"
      "br_configured (tb_browser t)"
    by (auto simp: lone_def split: if_splits)
  moreover have "br_configured b" using fetch_session [OF t'(2)] tk by (simp add: same_session_def)
  ultimately show ?case
    using refresh_answer_lone [of "t'\<lparr>tb_calls := []\<rparr>" tk W r] t' by (auto simp: lone_outcome_def is_awaiting_def)
next
  case (retrying i t rq r t')
  then obtain b where t': "t' = t\<lparr>tb_browser := b\<rparr>" "fetch W rq (tb_browser t) = (r, b)"
    by (auto simp: served_def split: prod.splits)
  with retrying show ?case
    by (auto simp: lone_def lone_outcome_def settle_def set_phase_def is_awaiting_def bind_def request_result_fst [symmetric]
        split: sum.split)
qed

text \<open>No step changes what a request asks for.\<close>

definition asked :: "'w tab \<Rightarrow> (string \<times> request_options) list" where
  "asked t = map (\<lambda>tk. (tk_path tk, tk_options tk)) (tb_tasks t)"

lemma asked_set_phase [simp]: "asked (set_phase i p t) = asked t"
  by (cases "i < length (tb_tasks t)") (auto simp: asked_def set_phase_def map_update intro!: nth_equalityI simp: nth_list_update)

lemma asked_tab [simp]:
  "asked (t\<lparr>tb_browser := b\<rparr>) = asked t" "asked (t\<lparr>tb_promise := p, tb_calls := c\<rparr>) = asked t" "asked (t\<lparr>tb_calls := c\<rparr>) = asked t"
  "asked (t\<lparr>tb_promise := p\<rparr>) = asked t"
  by (simp_all add: asked_def)

lemma asked_refresh_answer [simp]: "asked (refresh_answer W r t) = asked t"
  by (auto simp: asked_def refresh_answer_def resume_task_def split: prod.split)

lemma asked_step: "request_step W t t' \<Longrightarrow> asked t' = asked t"
  by (induction rule: request_step.induct)
     (auto dest!: served_tab simp: first_answer_def settle_def begin_refresh_def give_up_def split: sum.split option.split)

lemma asked_run: "(request_step W)\<^sup>*\<^sup>* t t' \<Longrightarrow> asked t' = asked t"
  by (induction rule: rtranclp_induct) (auto dest: asked_step)

lemma lone_run: "(request_step W)\<^sup>*\<^sup>* t t' \<Longrightarrow> lone t \<Longrightarrow> lone t' \<and> lone_outcome W t' = lone_outcome W t"
  by (induction rule: rtranclp_induct) (auto dest: lone_step)


text \<open>A server that answers from a script, for the witnesses.\<close>

definition scripted :: "http_response list platform" where
  "scripted = \<lparr>pf_net = (\<lambda>rq s. case s of [] \<Rightarrow> (Inl (JsError ''TypeError'' ''Failed to fetch'' None), [])
       | r # rs \<Rightarrow> (Inr r, rs)),
     pf_syntax_message = (\<lambda>_. ''Unexpected end of JSON input'')\<rparr>"

definition unauthorized_response :: http_response where
  "unauthorized_response = \<lparr>rs_status = 401, rs_statusText = ''Unauthorized'', rs_body = []\<rparr>"

definition ok_response :: "json \<Rightarrow> http_response" where
  "ok_response v = \<lparr>rs_status = 200, rs_statusText = ''OK'', rs_body = json_stringify v\<rparr>"

definition demo_browser :: "http_response list \<Rightarrow> http_response list browser" where
  "demo_browser script = \<lparr>br_configured = True, br_access = Some (JStr ''initial-access-token''),
     br_storage = [REFRESH_TOKEN_STORAGE_KEY \<mapsto> ''a-refresh-token''], br_user = Some (JStr ''user''),
     br_initializing = False, br_server = script\<rparr>"

definition get_options :: request_options where
  "get_options = \<lparr>ro_method = Some ''GET'', ro_body = None, ro_skipAuth = False\<rparr>"

definition idle_task :: "string \<Rightarrow> task" where
  "idle_task path = \<lparr>tk_path = path, tk_options = get_options, tk_phase = Idle\<rparr>"

definition demo_tab :: "string list \<Rightarrow> http_response list \<Rightarrow> http_response list tab" where
  "demo_tab paths script = \<lparr>tb_browser = demo_browser script, tb_tasks = map idle_task paths, tb_promise = False, tb_calls = []\<rparr>"

lemma reachable_demo_tab: "reachable new_tab (tab_step W) (demo_tab paths script)"
proof (induction paths rule: rev_induct)
  case Nil
  show ?case by (rule reachable_start) (simp add: new_tab_def demo_tab_def)
next
  case (snoc p ps)
  show ?case
    using reachable_step [OF snoc asking [of W _ p get_options]] by (simp add: demo_tab_def idle_task_def)
qed

lemma reachable_requests: "(request_step W)\<^sup>*\<^sup>* t t' \<Longrightarrow> reachable new_tab (tab_step W) t \<Longrightarrow> reachable new_tab (tab_step W) t'"
  by (induction rule: rtranclp_induct) (auto intro: reachable_step running)

text \<open>Two requests refused at once wait for one refresh.\<close>

definition pair_tab :: "task_phase \<Rightarrow> task_phase \<Rightarrow> http_response list \<Rightarrow> http_request list \<Rightarrow> http_response list tab" where
  "pair_tab p q script calls = \<lparr>tb_browser = demo_browser script,
     tb_tasks = [(idle_task ''/a'')\<lparr>tk_phase := p\<rparr>, (idle_task ''/b'')\<lparr>tk_phase := q\<rparr>], tb_promise = (calls \<noteq> []), tb_calls = calls\<rparr>"

lemma pair_tab_simps [simp]:
  "tb_tasks (pair_tab p q s c) ! 0 = (idle_task ''/a'')\<lparr>tk_phase := p\<rparr>" "tb_tasks (pair_tab p q s c) ! Suc 0 = (idle_task ''/b'')\<lparr>tk_phase := q\<rparr>"
  "length (tb_tasks (pair_tab p q s c)) = 2" "set_phase 0 p' (pair_tab p q s c) = pair_tab p' q s c"
  "set_phase (Suc 0) p' (pair_tab p q s c) = pair_tab p p' s c" "tb_calls (pair_tab p q s c) = c"
  "tb_promise (pair_tab p q s c) = (c \<noteq> [])" "tb_browser (pair_tab p q s c) = demo_browser s"
  by (simp_all add: pair_tab_def set_phase_def)

lemma pair_tab_phases: "map tk_phase (tb_tasks (pair_tab p q s c)) = [p, q]"
  by (simp add: pair_tab_def)

lemma served_pair: "served scripted rq (pair_tab p q (r # s) c) = (Inr r, pair_tab p q s c)"
  by (simp add: served_def fetch_def scripted_def pair_tab_def demo_browser_def)

lemma begin_refresh_pair: "begin_refresh i (pair_tab p q s c) = set_phase i Awaiting_Refresh
    (if c \<noteq> [] then pair_tab p q s c else pair_tab p q s [refresh_request ''a-refresh-token''])"
  by (simp add: begin_refresh_def refresh_possible_def stored_refresh_token_def demo_browser_def)
     (simp add: pair_tab_def demo_browser_def)

lemma demo_coalesced:
  "(request_step scripted)\<^sup>*\<^sup>* (demo_tab [''/a'', ''/b''] [unauthorized_response, unauthorized_response])
     (pair_tab Awaiting_Refresh Awaiting_Refresh [] [refresh_request ''a-refresh-token''])"
proof -
  let ?no = unauthorized_response and ?call = "refresh_request ''a-refresh-token''"
  let ?rq = "\<lambda>p. task_request (idle_task p) (demo_browser [?no, ?no])"
  have s1: "request_step scripted (pair_tab Idle Idle [?no, ?no] []) (pair_tab (First_Sent (?rq ''/a'')) Idle [?no, ?no] [])"
    using sending [of 0 "pair_tab Idle Idle [?no, ?no] []" scripted] by (simp add: idle_task_def)
  have s2: "request_step scripted (pair_tab (First_Sent (?rq ''/a'')) Idle [?no, ?no] [])
      (pair_tab (First_Sent (?rq ''/a'')) (First_Sent (?rq ''/b'')) [?no, ?no] [])"
    using sending [of 1 "pair_tab (First_Sent (?rq ''/a'')) Idle [?no, ?no] []" scripted] by (simp add: idle_task_def)
  have s3: "request_step scripted (pair_tab (First_Sent (?rq ''/a'')) (First_Sent (?rq ''/b'')) [?no, ?no] [])
      (pair_tab Awaiting_Refresh (First_Sent (?rq ''/b'')) [?no] [?call])"
    using answering [of 0 "pair_tab (First_Sent (?rq ''/a'')) (First_Sent (?rq ''/b'')) [?no, ?no] []", OF _ _ served_pair]
    by (simp add: idle_task_def get_options_def first_answer_def needs_refresh_def unauthorized_response_def begin_refresh_pair)
  have s4: "request_step scripted (pair_tab Awaiting_Refresh (First_Sent (?rq ''/b'')) [?no] [?call])
      (pair_tab Awaiting_Refresh Awaiting_Refresh [] [?call])"
    using answering [of 1 "pair_tab Awaiting_Refresh (First_Sent (?rq ''/b'')) [?no] [?call]", OF _ _ served_pair]
    by (simp add: idle_task_def get_options_def first_answer_def needs_refresh_def unauthorized_response_def begin_refresh_pair)
  have t0: "demo_tab [''/a'', ''/b''] [?no, ?no] = pair_tab Idle Idle [?no, ?no] []"
    by (simp add: demo_tab_def pair_tab_def idle_task_def)
  note first = converse_rtranclp_into_rtranclp [where r = "request_step scripted"]
  show ?thesis
    unfolding t0 by (rule first [OF s1] first [OF s2] first [OF s3] r_into_rtranclp [where r = "request_step scripted", OF s4])+
qed

theorem concurrent_requests_settle_witness:
  "\<exists>t t'. reachable new_tab (tab_step scripted) t \<and> map tk_phase (tb_tasks t) = [Awaiting_Refresh, Awaiting_Refresh]
     \<and> (request_step scripted)\<^sup>*\<^sup>* t t' \<and> all_settled t'"
proof -
  let ?t = "pair_tab Awaiting_Refresh Awaiting_Refresh [] [refresh_request ''a-refresh-token'']"
  have "reachable new_tab (tab_step scripted) ?t"
    using demo_coalesced reachable_requests [OF _ reachable_demo_tab] by blast
  moreover from concurrent_requests_settle [OF this] obtain t' where "(request_step scripted)\<^sup>*\<^sup>* ?t t'" "all_settled t'"
    by blast
  ultimately show ?thesis using pair_tab_phases by blast
qed

text \<open>A request on its own, answered at once.\<close>

definition answered_tab :: "http_response list tab" where
  "answered_tab = (demo_tab [''/a''] [])\<lparr>tb_tasks := [(idle_task ''/a'')\<lparr>tk_phase := Settled (Inr (Some JNull))\<rparr>]\<rparr>"


subsection \<open>Logging out during a refresh\<close>

text \<open>
  Logging out clears the tokens but does not stop a refresh that is in flight: when its answer
  arrives the page holds an access token again, with nobody logged in, and the requests that
  waited are sent with it.
\<close>

lemma refresh_outlives_logout:
  assumes "tb_calls t = [rq]" "br_configured (tb_browser t)" and "answers W rq (JObj [(''access_token'', JStr a)]) (br_server (tb_browser t)) w"
  shows "\<exists>t'. tab_step W (t\<lparr>tb_browser := snd (logout (tb_browser t))\<rparr>) t' \<and> br_user (tb_browser t') = null_value
    \<and> stored_refresh_token (tb_browser t') = None \<and> (a \<noteq> [] \<longrightarrow> br_access (tb_browser t') = Some (JStr a))"
proof -
  let ?t = "t\<lparr>tb_browser := snd (logout (tb_browser t))\<rparr>"
  obtain r where r: "pf_net W rq (br_server (tb_browser t)) = (Inr r, w)" "rs_status r = 200"
      "json_parse (rs_body r) = Some (JObj [(''access_token'', JStr a)])" using assms(3) by (auto simp: answers_def)
  let ?t' = "?t\<lparr>tb_browser := (snd (logout (tb_browser t)))\<lparr>br_server := w\<rparr>\<rparr>"
  have "served W rq ?t = (Inr r, ?t')"
    by (simp add: served_def fetch_def logout_def modify_def end_session_def r)
  from refreshing [of ?t "[]" rq "[]", OF _ this] assms(1)
  have "request_step W ?t (refresh_answer W (Inr r) (?t'\<lparr>tb_calls := []\<rparr>))" by simp
  with assms(2) show ?thesis
    by (intro exI [of _ "refresh_answer W (Inr r) (?t'\<lparr>tb_calls := []\<rparr>)"])
       (auto simp: refresh_answer_def refresh_outcome_def response_ok_def r logout_def modify_def end_session_def set_access_def
          stored_refresh_token_def truthy_value_def on_auth_expired_def prog_simps intro: running)
qed

end
