(* ===== verification/Dashboard.thy ===== *)
theory Dashboard
  imports Complex_Main Insights Schema Domain_Lifecycle Cloud_Accounts
begin

section \<open>What the pages show\<close>

text \<open>
  The computations between the server's answers and the screen: \<open>lib/statusColor.ts\<close>,
  \<open>lib/formatters.ts\<close>, \<open>AsyncBoundary\<close>, the figures of \<open>OverviewPage\<close> with its \<open>StatusDonut\<close>s,
  \<open>CertificatesPage\<close>, \<open>InvoicesPage\<close>, the setup panel of a host and \<open>useAllServices\<close>. A date is
  its number of milliseconds; markup and styling are left out.
\<close>

subsection \<open>Colours and labels\<close>

datatype status_color_key = COLOR_HEALTHY | COLOR_WARNING | COLOR_CRITICAL | COLOR_UNKNOWN

definition HEALTHY_WORDS :: "string list" where
  "HEALTHY_WORDS = [''healthy'', ''running'', ''valid'', ''resolving'', ''sent'']"

definition WARNING_WORDS :: "string list" where
  "WARNING_WORDS = [''degraded'', ''expiring_soon'']"

definition CRITICAL_WORDS :: "string list" where
  "CRITICAL_WORDS = [''unreachable'', ''crash_loop'', ''unhealthy'', ''expired'', ''invalid'', ''failed'', ''not_resolving'']"

definition get_status_color_key :: "string \<Rightarrow> status_color_key" where
  "get_status_color_key status =
    (if status \<in> set HEALTHY_WORDS then COLOR_HEALTHY
     else if status \<in> set WARNING_WORDS then COLOR_WARNING
     else if status \<in> set CRITICAL_WORDS then COLOR_CRITICAL
     else COLOR_UNKNOWN)"

text \<open>\<open>toUpperCase()\<close> of a status word's first character: the words are ASCII.\<close>

definition ascii_upper :: "char \<Rightarrow> char" where
  "ascii_upper c = (let n = of_char c :: nat in if 97 \<le> n \<and> n \<le> 122 then char_of (n - 32) else c)"

definition format_status_label :: "string \<Rightarrow> string" where
  "format_status_label status =
    (case map (\<lambda>c. if c = CHR ''_'' then CHR '' '' else c) status of
       [] \<Rightarrow> [] | c # t \<Rightarrow> ascii_upper c # t)"

text \<open>The one coloured badge: its colour and its text.\<close>

definition status_dot :: "string \<Rightarrow> string option \<Rightarrow> status_color_key \<times> string" where
  "status_dot status label = (get_status_color_key status, case label of Some l \<Rightarrow> l | None \<Rightarrow> format_status_label status)"

subsection \<open>Relative dates\<close>

text \<open>\<open>Math.round(a / b)\<close> for whole \<open>a\<close> and positive \<open>b\<close>: halves go up.\<close>

definition round_div :: "int \<Rightarrow> int \<Rightarrow> int" where
  "round_div a b = (2 * a + b) div (2 * b)"

datatype time_unit = Unit_Day | Unit_Hour | Unit_Minute | Unit_Second

definition TIME_UNITS :: "(time_unit \<times> int) list" where
  "TIME_UNITS = [(Unit_Day, 86400), (Unit_Hour, 3600), (Unit_Minute, 60), (Unit_Second, 1)]"

fun first_unit :: "int \<Rightarrow> (time_unit \<times> int) list \<Rightarrow> int \<times> time_unit" where
  "first_unit d [] = (0, Unit_Second)"
| "first_unit d ((u, n) # us) = (if n \<le> \<bar>d\<bar> \<or> u = Unit_Second then (round_div d n, u) else first_unit d us)"

text \<open>\<open>fmt\<close> is \<open>Intl.RelativeTimeFormat\<close>'s \<open>format\<close>, with the browser's language.\<close>

definition format_relative_to_now :: "(int \<Rightarrow> time_unit \<Rightarrow> string) \<Rightarrow> time \<Rightarrow> time option \<Rightarrow> string" where
  "format_relative_to_now fmt t value = (case value of None \<Rightarrow> ''never''
     | Some date \<Rightarrow> case_prod fmt (first_unit (round_div (date - t) 1000) TIME_UNITS))"

text \<open>The number shown is off by half a unit at most.\<close>

lemma round_div_close: "0 < b \<Longrightarrow> 2 * \<bar>round_div a b * b - a\<bar> \<le> b"
proof -
  assume b: "0 < b"
  have "(2 * a + b) div (2 * b) * (2 * b) + (2 * a + b) mod (2 * b) = 2 * a + b" by (rule div_mult_mod_eq)
  moreover have "0 \<le> (2 * a + b) mod (2 * b)" "(2 * a + b) mod (2 * b) < 2 * b" using b by simp_all
  moreover define q r where "q = (2 * a + b) div (2 * b) * b" and "r = (2 * a + b) mod (2 * b)"
  ultimately have "2 * q + r = 2 * a + b" "0 \<le> r" "r < 2 * b" by (simp_all add: algebra_simps)
  then have "2 * \<bar>q - a\<bar> \<le> b" by arith
  then show ?thesis by (simp add: round_div_def q_def)
qed

lemma first_unit_close:
  assumes "first_unit d TIME_UNITS = (k, u)"
  shows "\<exists>n. (u, n) \<in> set TIME_UNITS \<and> (n \<le> \<bar>d\<bar> \<or> n = 1) \<and> 2 * \<bar>k * n - d\<bar> \<le> n"
  using assms round_div_close [of 86400 d] round_div_close [of 3600 d] round_div_close [of 60 d] round_div_close [of 1 d]
  by (auto simp: TIME_UNITS_def split: if_splits)

subsection \<open>AsyncBoundary\<close>

datatype 'a boundary_view = Loading_Rows | Error_Message string | Nothing_Shown | Shown 'a

definition async_boundary :: "bool \<Rightarrow> bool \<Rightarrow> string option \<Rightarrow> 'a option \<Rightarrow> 'a boundary_view" where
  "async_boundary isLoading isError error data =
    (if isLoading then Loading_Rows
     else if isError then Error_Message (case error of Some m \<Rightarrow> m | None \<Rightarrow> ''Something went wrong.'')
     else case data of None \<Rightarrow> Nothing_Shown | Some d \<Rightarrow> Shown d)"

subsection \<open>Donuts\<close>

record donut_segment =
  seg_key :: string
  seg_label :: string
  seg_value :: int
  seg_color :: status_color_key

definition segments_total :: "donut_segment list \<Rightarrow> int" where
  "segments_total segs = foldl (\<lambda>sum s. sum + seg_value s) 0 segs"

definition visible_segments :: "donut_segment list \<Rightarrow> donut_segment list" where
  "visible_segments segs = filter (\<lambda>s. 0 < seg_value s) segs"

definition RADIUS :: real where "RADIUS = 44"
definition CIRCUMFERENCE :: real where "CIRCUMFERENCE = 2 * pi * RADIUS"
definition GAP_PX :: real where "GAP_PX = 3"

definition segment_share :: "int \<Rightarrow> donut_segment \<Rightarrow> real" where
  "segment_share whole s = real_of_int (seg_value s) / real_of_int whole * CIRCUMFERENCE"

text \<open>For every visible segment: the length of its arc and the offset at which it starts.\<close>

fun donut_arcs :: "int \<Rightarrow> real \<Rightarrow> donut_segment list \<Rightarrow> (string \<times> real \<times> real) list" where
  "donut_arcs whole cumulative [] = []"
| "donut_arcs whole cumulative (s # segs) =
     (seg_key s, max (segment_share whole s - GAP_PX) 0, - cumulative)
       # donut_arcs whole (cumulative + segment_share whole s) segs"

definition status_donut :: "donut_segment list \<Rightarrow> (string \<times> real \<times> real) list" where
  "status_donut segs = (let whole = segments_total segs in
     if whole = 0 then [] else donut_arcs whole 0 (visible_segments segs))"

lemma segments_total_sum: "segments_total segs = (\<Sum>s\<leftarrow>segs. seg_value s)"
proof -
  have "foldl (\<lambda>sum s. sum + seg_value s) n segs = n + (\<Sum>s\<leftarrow>segs. seg_value s)" for n
    by (induction segs arbitrary: n) simp_all
  then show ?thesis by (simp add: segments_total_def)
qed

text \<open>The arcs stay on the circle: each starts where the one before ends, and the last ends at the full turn.\<close>

lemma shares_fill_circle:
  assumes "segments_total segs \<noteq> 0" "\<forall>s \<in> set segs. 0 \<le> seg_value s"
  shows "(\<Sum>s\<leftarrow>visible_segments segs. segment_share (segments_total segs) s) = CIRCUMFERENCE"
proof -
  have "(\<Sum>s\<leftarrow>visible_segments segs. segment_share n s) = real_of_int (\<Sum>s\<leftarrow>segs. seg_value s) / real_of_int n * CIRCUMFERENCE" for n
    using assms(2) by (induction segs) (auto simp: visible_segments_def segment_share_def add_divide_distrib distrib_right order.order_iff_strict)
  then show ?thesis using assms(1) by (simp add: segments_total_sum)
qed

subsection \<open>OverviewPage\<close>

definition needs_attention :: "overview_response \<Rightarrow> nat" where
  "needs_attention d = oc_degraded (ov_hosts d) + oc_unreachable (ov_hosts d) + so_unhealthy (ov_services d)
     + so_crash_loop (ov_services d) + dc_ssl_expired (ov_domains d) + dc_ssl_invalid (ov_domains d)
     + dc_domains_not_resolving (ov_domains d)"

definition segment :: "string \<Rightarrow> string \<Rightarrow> int \<Rightarrow> status_color_key \<Rightarrow> donut_segment" where
  "segment key label n c = \<lparr>seg_key = key, seg_label = label, seg_value = n, seg_color = c\<rparr>"

definition host_segments :: "overview_response \<Rightarrow> donut_segment list" where
  "host_segments d = (let c = ov_hosts d in
    [segment ''healthy'' ''Healthy'' (int (oc_healthy c)) COLOR_HEALTHY,
     segment ''degraded'' ''Degraded'' (int (oc_degraded c)) COLOR_WARNING,
     segment ''unreachable'' ''Unreachable'' (int (oc_unreachable c)) COLOR_CRITICAL,
     segment ''pending_setup'' ''Pending setup'' (int (oc_pending_setup c)) COLOR_UNKNOWN,
     segment ''unknown'' ''Unknown'' (int (oc_unknown c)) COLOR_UNKNOWN])"

definition service_segments :: "overview_response \<Rightarrow> donut_segment list" where
  "service_segments d = (let c = ov_services d in
    [segment ''running'' ''Running'' (int (so_running c)) COLOR_HEALTHY,
     segment ''unhealthy'' ''Unhealthy'' (int (so_unhealthy c)) COLOR_CRITICAL,
     segment ''crash_loop'' ''Crash loop'' (int (so_crash_loop c)) COLOR_CRITICAL,
     segment ''stopped'' ''Stopped'' (int (so_stopped c)) COLOR_UNKNOWN,
     segment ''unknown'' ''Unknown'' (int (so_services_unknown c)) COLOR_UNKNOWN])"

definition ssl_segments :: "overview_response \<Rightarrow> donut_segment list" where
  "ssl_segments d = (let c = ov_domains d in
    [segment ''valid'' ''Valid'' (int (dc_ssl_valid c)) COLOR_HEALTHY,
     segment ''expiring_soon'' ''Expiring soon'' (int (dc_ssl_expiring_soon c)) COLOR_WARNING,
     segment ''expired'' ''Expired'' (int (dc_ssl_expired c)) COLOR_CRITICAL,
     segment ''invalid'' ''Invalid'' (int (dc_ssl_invalid c)) COLOR_CRITICAL,
     segment ''unknown'' ''Unknown'' (max 0 (int (dc_domains_total c) - int (dc_ssl_valid c) - int (dc_ssl_expiring_soon c)
       - int (dc_ssl_expired c) - int (dc_ssl_invalid c))) COLOR_UNKNOWN])"

definition upcoming_expirations :: "domain_response list \<Rightarrow> domain_response list" where
  "upcoming_expirations ds =
     take 5 (sort_key (\<lambda>d. the (or_domain_expires_at d)) (filter (\<lambda>d. or_domain_expires_at d \<noteq> None) ds))"

subsection \<open>The other pages\<close>

fun SEVERITY_ORDER :: "ssl_status \<Rightarrow> nat" where
  "SEVERITY_ORDER SSL_EXPIRED = 0"
| "SEVERITY_ORDER SSL_INVALID = 1"
| "SEVERITY_ORDER SSL_EXPIRING_SOON = 2"
| "SEVERITY_ORDER SSL_UNKNOWN = 3"
| "SEVERITY_ORDER SSL_VALID = 4"

definition by_severity :: "domain_response list \<Rightarrow> domain_response list" where
  "by_severity ds = sort_key (\<lambda>d. SEVERITY_ORDER (or_ssl_status d)) ds"

definition certificates_need_attention :: "domain_response list option \<Rightarrow> nat" where
  "certificates_need_attention data = (case data of None \<Rightarrow> 0
     | Some ds \<Rightarrow> length (filter (\<lambda>d. or_ssl_status d = SSL_EXPIRED \<or> or_ssl_status d = SSL_INVALID) ds))"

definition connected_count :: "cloud_account_response list option \<Rightarrow> nat" where
  "connected_count data = (case data of None \<Rightarrow> 0 | Some as \<Rightarrow> length (filter cr_connected as))"

definition is_key_not_installed_yet :: "hc_log_response option \<Rightarrow> bool" where
  "is_key_not_installed_yet lastLog = (case lastLog of None \<Rightarrow> False
     | Some l \<Rightarrow> (case lr_raw_output l of JObj kvs \<Rightarrow> map_of kvs ''reason'' = Some (JStr ''key_not_installed'') | _ \<Rightarrow> False))"

text \<open>A query's state as \<open>useQueries\<close> gives it, one per host, in the hosts' order.\<close>

record 'a query_result =
  q_data :: "'a option"
  q_isLoading :: bool
  q_isError :: bool

record service_with_host = service_response +
  vw_host_name :: string

definition with_host_name :: "string \<Rightarrow> service_response \<Rightarrow> service_with_host" where
  "with_host_name n s = service_response.extend s (service_with_host.fields n)"

definition use_all_services :: "(uuid \<Rightarrow> service_response list query_result) \<Rightarrow> host_response list option \<Rightarrow> service_with_host list query_result" where
  "use_all_services query hs =
    (let rows = (case hs of None \<Rightarrow> [] | Some l \<Rightarrow> l); results = map (\<lambda>h. query (hr_id h)) rows in
     \<lparr>q_data = (case hs of None \<Rightarrow> None | Some l \<Rightarrow>
        Some (concat (map2 (\<lambda>result h. map (with_host_name (hr_name h)) (case q_data result of None \<Rightarrow> [] | Some ss \<Rightarrow> ss)) results l))),
      q_isLoading = (hs = None \<or> list_ex q_isLoading results), q_isError = list_ex q_isError results\<rparr>)"

lemma use_all_services_rows:
  "q_data (use_all_services query (Some hs)) = Some (concat (map (\<lambda>h. map (with_host_name (hr_name h))
     (case q_data (query (hr_id h)) of None \<Rightarrow> [] | Some ss \<Rightarrow> ss)) hs))"
proof -
  have "zip (map g hs) hs = map (\<lambda>h. (g h, h)) hs" for g :: "_ \<Rightarrow> service_response list query_result" by (induction hs) simp_all
  then show ?thesis by (simp add: use_all_services_def Let_def comp_def)
qed

subsection \<open>The figures and the lists\<close>

text \<open>The certificates of a set of domains, counted as rows and counted domain by domain.\<close>

lemma certificate_status_of_iff:
  assumes "distinct (map cert_domainId cs)" "s \<noteq> SSL_UNKNOWN"
  shows "certificate_status_of cs i = s \<longleftrightarrow> (\<exists>k \<in> set cs. cert_domainId k = i \<and> cert_status k = s)"
proof -
  have "distinct (map fst (rev (map (\<lambda>c. (cert_domainId c, cert_status c)) cs)))"
    using assms(1) by (simp add: rev_map [symmetric] comp_def)
  from map_of_eq_Some_iff [OF this, of i]
  have "map_of (rev (map (\<lambda>c. (cert_domainId c, cert_status c)) cs)) i = Some s \<longleftrightarrow> (\<exists>k \<in> set cs. cert_domainId k = i \<and> cert_status k = s)"
    by auto
  then show ?thesis using assms(2) by (auto simp: certificate_status_of_def split: option.splits)
qed

lemma length_filter_card: "distinct (map f xs) \<Longrightarrow> length (filter p xs) = card (f ` {x \<in> set xs. p x})"
  using distinct_card [of "map f (filter p xs)"] by (simp add: distinct_map_filter)

lemma certificates_by_status:
  assumes "distinct (map cert_domainId cs)" "distinct (map dom_id ds)" "cert_domainId ` set cs \<subseteq> dom_id ` set ds" "s \<noteq> SSL_UNKNOWN"
  shows "count_rows (\<lambda>k. cert_status k = s) cs = count_rows (\<lambda>d. certificate_status_of cs (dom_id d) = s) ds"
proof -
  have "cert_domainId ` {k \<in> set cs. cert_status k = s} = dom_id ` {d \<in> set ds. certificate_status_of cs (dom_id d) = s}"
    (is "?K = ?D")
  proof (rule set_eqI)
    fix i
    have "i \<in> ?K \<longleftrightarrow> (\<exists>k \<in> set cs. cert_domainId k = i \<and> cert_status k = s)" by blast
    also have "\<dots> \<longleftrightarrow> (\<exists>k \<in> set cs. cert_domainId k = i \<and> cert_status k = s) \<and> i \<in> dom_id ` set ds" using assms(3) by blast
    also have "\<dots> \<longleftrightarrow> certificate_status_of cs i = s \<and> i \<in> dom_id ` set ds" by (simp only: certificate_status_of_iff [OF assms(1,4)])
    also have "\<dots> \<longleftrightarrow> i \<in> ?D" by blast
    finally show "i \<in> ?K \<longleftrightarrow> i \<in> ?D" .
  qed
  then show ?thesis unfolding length_filter_card [OF assms(1)] length_filter_card [OF assms(2)] by simp
qed

lemma ssl_status_partition:
  "length xs = count_rows (\<lambda>d. f d = SSL_VALID) xs + count_rows (\<lambda>d. f d = SSL_EXPIRING_SOON) xs
     + count_rows (\<lambda>d. f d = SSL_EXPIRED) xs + count_rows (\<lambda>d. f d = SSL_INVALID) xs + count_rows (\<lambda>d. f d = SSL_UNKNOWN) xs"
proof (induction xs)
  case (Cons x xs)
  then show ?case by (cases "f x") simp_all
qed simp


text \<open>The counts, each as the number of rows with a status.\<close>

definition host_counts_of :: "host list \<Rightarrow> host_overview_counts" where
  "host_counts_of hs = \<lparr>oc_total_hosts = length hs, oc_healthy = count_rows (\<lambda>h. host_status h = HS_HEALTHY) hs,
        oc_degraded = count_rows (\<lambda>h. host_status h = HS_DEGRADED) hs, oc_unreachable = count_rows (\<lambda>h. host_status h = HS_UNREACHABLE) hs,
        oc_unknown = count_rows (\<lambda>h. host_status h = HS_UNKNOWN) hs, oc_pending_setup = count_rows (\<lambda>h. host_status h = HS_PENDING_SETUP) hs\<rparr>"

definition service_counts_of :: "service list \<Rightarrow> service_overview_counts" where
  "service_counts_of ss = \<lparr>so_services_total = length ss, so_running = count_rows (\<lambda>s. svc_status s = SS_RUNNING) ss,
        so_unhealthy = count_rows (\<lambda>s. svc_status s = SS_UNHEALTHY) ss, so_stopped = count_rows (\<lambda>s. svc_status s = SS_STOPPED) ss,
        so_crash_loop = count_rows (\<lambda>s. svc_status s = SS_CRASH_LOOP) ss, so_services_unknown = count_rows (\<lambda>s. svc_status s = SS_UNKNOWN) ss\<rparr>"

definition domain_counts_of :: "domain list \<Rightarrow> ssl_certificate list \<Rightarrow> domain_overview_counts" where
  "domain_counts_of ds cs = \<lparr>dc_domains_total = length ds, dc_ssl_valid = count_rows (\<lambda>k. cert_status k = SSL_VALID) cs,
        dc_ssl_expiring_soon = count_rows (\<lambda>k. cert_status k = SSL_EXPIRING_SOON) cs, dc_ssl_expired = count_rows (\<lambda>k. cert_status k = SSL_EXPIRED) cs,
        dc_ssl_invalid = count_rows (\<lambda>k. cert_status k = SSL_INVALID) cs,
        dc_domains_not_resolving = count_rows (\<lambda>d. dom_dnsStatus d = DNS_NOT_RESOLVING) ds\<rparr>"

lemmas counts_of = host_counts_of_def service_counts_of_def domain_counts_of_def

text \<open>What the server answers to the page's requests, without database faults.\<close>

lemma lists_answered:
  assumes "no_db_fault E"
  shows "\<exists>u. hosts_find_all E orgId w = (Inr (map to_host_response (sort_key (\<lambda>h. - host_createdAt h) (filter (\<lambda>h. host_orgId h = orgId) (hosts w)))), u)"
  by (simp add: hosts_find_all_def find_all_hosts_def prog_simps repo_find_ok assms)

lemma domains_answered:
  assumes "no_db_fault E" and ds: "ds = filter (\<lambda>d. dom_orgId d = orgId) (domains w)"
    and cs: "cs = filter (\<lambda>c. cert_domainId c \<in> dom_id ` set ds) (ssl_certificates w)"
  shows "\<exists>u. domains_find_all E orgId w = (Inr (map (\<lambda>d. to_domain_response d (certificate_status_of cs (dom_id d))) (sort_key (\<lambda>d. - dom_createdAt d) ds)), u)"
    and "\<exists>u. domain_overview E orgId w = (Inr (domain_counts_of ds cs), u) \<and> core_view u = core_view w"
  subgoal
    using assms by (cases "ds = []") (simp_all add: domains_find_all_def find_all_domains_def prog_simps repo_find_ok Let_def)
  subgoal
    using assms by (cases "ds = []") (simp_all add: domain_overview_def prog_simps repo_find_ok Let_def tally_count core_view_def counts_of)
  done

lemma overview_answered:
  assumes "no_db_fault E" "orgId \<noteq> []" and hs: "hs = filter (\<lambda>h. host_orgId h = orgId) (hosts w)"
    and ss: "ss = filter (\<lambda>s. svc_orgId s = orgId) (services w)" and ds: "ds = filter (\<lambda>d. dom_orgId d = orgId) (domains w)"
    and cs: "cs = filter (\<lambda>c. cert_domainId c \<in> dom_id ` set ds) (ssl_certificates w)"
  shows "\<exists>ov u. get_overview E orgId w = (Inr ov, u)
    \<and> ov_hosts ov = host_counts_of hs
    \<and> ov_services ov = service_counts_of ss
    \<and> ov_domains ov = domain_counts_of ds cs"
proof -
  have "ds = filter (\<lambda>d. dom_orgId d = orgId) (domains (tick w))" "cs = filter (\<lambda>c. cert_domainId c \<in> dom_id ` set ds) (ssl_certificates (tick w))"
    using ds cs by simp_all
  from domains_answered(2) [OF assms(1) this] obtain u where u: "domain_overview E orgId (tick w) = (Inr (domain_counts_of ds cs), u)"
    "core_view u = core_view w"
    by auto
  obtain i x where x: "get_insights_for_org E orgId (tick u) = (Inr i, x)"
    using get_insights_for_org_ok [OF assms(1,2), of "tick u"] by auto
  show ?thesis
    using u x core_view_eqD(2) [OF u(2)]
    by (auto simp: get_overview_def host_overview_def service_overview_def prog_simps repo_find_ok assms(1) Let_def tally_count hs ss
        host_counts_of_def service_counts_of_def)
qed

lemmas status_words = get_status_color_key_def HEALTHY_WORDS_def WARNING_WORDS_def CRITICAL_WORDS_def

lemma host_status_str_iff:
  "host_status_str s = ''healthy'' \<longleftrightarrow> s = HS_HEALTHY" "host_status_str s = ''degraded'' \<longleftrightarrow> s = HS_DEGRADED"
  "host_status_str s = ''unreachable'' \<longleftrightarrow> s = HS_UNREACHABLE" "host_status_str s = ''pending_setup'' \<longleftrightarrow> s = HS_PENDING_SETUP"
  "host_status_str s = ''unknown'' \<longleftrightarrow> s = HS_UNKNOWN"
  by (cases s; simp)+

lemma service_status_str_iff:
  "service_status_str s = ''running'' \<longleftrightarrow> s = SS_RUNNING" "service_status_str s = ''unhealthy'' \<longleftrightarrow> s = SS_UNHEALTHY"
  "service_status_str s = ''crash_loop'' \<longleftrightarrow> s = SS_CRASH_LOOP" "service_status_str s = ''stopped'' \<longleftrightarrow> s = SS_STOPPED"
  "service_status_str s = ''unknown'' \<longleftrightarrow> s = SS_UNKNOWN"
  by (cases s; simp)+

lemma ssl_status_str_iff:
  "ssl_status_str s = ''valid'' \<longleftrightarrow> s = SSL_VALID" "ssl_status_str s = ''expiring_soon'' \<longleftrightarrow> s = SSL_EXPIRING_SOON"
  "ssl_status_str s = ''expired'' \<longleftrightarrow> s = SSL_EXPIRED" "ssl_status_str s = ''invalid'' \<longleftrightarrow> s = SSL_INVALID"
  "ssl_status_str s = ''unknown'' \<longleftrightarrow> s = SSL_UNKNOWN"
  by (cases s; simp)+

text \<open>The statuses of each kind that are shown in red, or for hosts in red or amber.\<close>

lemma alarming:
  "get_status_color_key (host_status_str hs) \<in> {COLOR_WARNING, COLOR_CRITICAL} \<longleftrightarrow> hs = HS_DEGRADED \<or> hs = HS_UNREACHABLE"
  "get_status_color_key (service_status_str ss) = COLOR_CRITICAL \<longleftrightarrow> ss = SS_UNHEALTHY \<or> ss = SS_CRASH_LOOP"
  "get_status_color_key (ssl_status_str cs) = COLOR_CRITICAL \<longleftrightarrow> cs = SSL_EXPIRED \<or> cs = SSL_INVALID"
  "get_status_color_key (dns_status_str ns) = COLOR_CRITICAL \<longleftrightarrow> ns = DNS_NOT_RESOLVING"
  by (cases hs; simp add: status_words; fail | cases ss; simp add: status_words; fail | cases cs; simp add: status_words; fail
      | cases ns; simp add: status_words; fail)+

lemma count_rows_disj: "(\<And>x. \<not> (p x \<and> q x)) \<Longrightarrow> count_rows (\<lambda>x. p x \<or> q x) xs = count_rows p xs + count_rows q xs"
  by (induction xs) auto

text \<open>A donut mirrors a list of status words, and how many badges of a list have one of some colours.\<close>

definition reflects :: "donut_segment list \<Rightarrow> string list \<Rightarrow> bool" where
  "reflects segs badges \<longleftrightarrow> segments_total segs = int (length badges) \<and> set badges \<subseteq> set (map seg_key segs)
     \<and> (\<forall>s \<in> set segs. seg_value s = int (length (filter (\<lambda>b. b = seg_key s) badges)) \<and> seg_color s = get_status_color_key (seg_key s))"

definition colored :: "status_color_key set \<Rightarrow> string list \<Rightarrow> nat" where
  "colored colors badges = length (filter (\<lambda>b. get_status_color_key b \<in> colors) badges)"

lemma host_segments_mirror:
  assumes "ov_hosts ov = host_counts_of hs"
    and badges: "badges = map (\<lambda>h. host_status_str (host_status h)) (sort_key f hs)"
  shows "reflects (host_segments ov) badges"
    and "colored {COLOR_WARNING, COLOR_CRITICAL} badges = oc_degraded (ov_hosts ov) + oc_unreachable (ov_hosts ov)"
proof -
  have "host_status_str s \<in> set (map seg_key (host_segments ov))" for s
    by (cases s) (simp_all add: host_segments_def segment_def Let_def)
  then have "set badges \<subseteq> set (map seg_key (host_segments ov))" by (auto simp only: badges set_map image_iff)
  then show "reflects (host_segments ov) badges" unfolding reflects_def
    using host_status_partition [of hs]
    by (intro conjI) (simp_all add: badges host_segments_def segment_def assms(1) counts_of segments_total_sum filter_map comp_def filter_sort
        host_status_str_iff status_words)
  show "colored {COLOR_WARNING, COLOR_CRITICAL} badges = oc_degraded (ov_hosts ov) + oc_unreachable (ov_hosts ov)"
    unfolding colored_def badges filter_map comp_def alarming length_map filter_sort length_sort
    by (subst count_rows_disj) (simp_all add: assms(1) counts_of)
qed

lemma service_segments_mirror:
  assumes "ov_services ov = service_counts_of ss"
    and badges: "badges = map (\<lambda>s. service_status_str (svc_status s)) ss"
  shows "reflects (service_segments ov) badges"
    and "colored {COLOR_CRITICAL} badges = so_unhealthy (ov_services ov) + so_crash_loop (ov_services ov)"
proof -
  have "service_status_str s \<in> set (map seg_key (service_segments ov))" for s
    by (cases s) (simp_all add: service_segments_def segment_def Let_def)
  then have "set badges \<subseteq> set (map seg_key (service_segments ov))" by (auto simp only: badges set_map image_iff)
  then show "reflects (service_segments ov) badges" unfolding reflects_def
    using service_status_partition [of ss]
    by (intro conjI) (simp_all add: badges service_segments_def segment_def assms(1) counts_of segments_total_sum filter_map comp_def
        service_status_str_iff status_words)
  show "colored {COLOR_CRITICAL} badges = so_unhealthy (ov_services ov) + so_crash_loop (ov_services ov)"
    unfolding colored_def badges filter_map comp_def singleton_iff alarming length_map
    by (subst count_rows_disj) (simp_all add: assms(1) counts_of)
qed

lemma ssl_segments_mirror:
  assumes "ov_domains ov = domain_counts_of ds cs"
    and "\<And>s. s \<noteq> SSL_UNKNOWN \<Longrightarrow> count_rows (\<lambda>k. cert_status k = s) cs = count_rows (\<lambda>d. f d = s) ds"
    and badges: "badges = map (\<lambda>d. ssl_status_str (f d)) (sort_key g ds)"
  shows "reflects (ssl_segments ov) badges"
    and "colored {COLOR_CRITICAL} badges = dc_ssl_expired (ov_domains ov) + dc_ssl_invalid (ov_domains ov)"
proof -
  have "ssl_status_str s \<in> set (map seg_key (ssl_segments ov))" for s
    by (cases s) (simp_all add: ssl_segments_def segment_def Let_def)
  then have "set badges \<subseteq> set (map seg_key (ssl_segments ov))" by (auto simp only: badges set_map image_iff)
  then show "reflects (ssl_segments ov) badges" unfolding reflects_def
    using ssl_status_partition [of ds f]
    by (intro conjI) (simp_all add: badges ssl_segments_def segment_def assms(1,2) counts_of segments_total_sum filter_map comp_def
        filter_sort ssl_status_str_iff status_words)
  show "colored {COLOR_CRITICAL} badges = dc_ssl_expired (ov_domains ov) + dc_ssl_invalid (ov_domains ov)"
    unfolding colored_def badges filter_map comp_def singleton_iff alarming length_map filter_sort length_sort
    by (subst count_rows_disj) (simp_all add: assms(1,2) counts_of)
qed



end
