(* ===== verification/Spec2Isabelle.thy ===== *)
theory Spec2Isabelle
  imports Page_Requests Rollback_Progress Client_Concurrency Dashboard
begin

text \<open>
  Servers-Manager: an agentless infrastructure monitor.
\<close>

end
